(* ===== verification/Prelude.thy ===== *)
theory Prelude
  imports Main "HOL-Library.Char_ord" "HOL-Library.List_Lexorder" "HOL-Library.Product_Lexorder"
    "HOL-Library.Multiset" "HOL-Library.Monad_Syntax"
begin

text \<open>
  Shared vocabulary of the development. It holds the fragments of Go's language and standard
  library that several packages of the repository use: byte strings (\<open>strings\<close>,
  \<open>strconv\<close>, \<open>unicode/utf8\<close>), 64-bit wrap-around, errors as values of a sum
  type, a database transaction that either commits or leaves the tables alone, and stable
  sorting. A Go string is a sequence of bytes, so it is a HOL \<open>string\<close>, whose characters
  are bytes. Case mapping and white space are modelled on the ASCII range, which is the range
  the callers compare against; other bytes are left as they are (the two letters outside it with an
  ASCII upper-case form, U+0131 and U+017F, are not mapped).
\<close>

named_theorems go_simps \<open>equations that evaluate the fragments of the Go library\<close>
named_theorems res_simps \<open>inversion rules for error results\<close>

subsection \<open>Results: a value or an error\<close>

definition res_bind :: "'e + 'a \<Rightarrow> ('a \<Rightarrow> 'e + 'b) \<Rightarrow> 'e + 'b" where
  "res_bind r f = (case r of Inl e \<Rightarrow> Inl e | Inr a \<Rightarrow> f a)"

definition require :: "bool \<Rightarrow> 'e \<Rightarrow> 'e + unit" where
  "require b e = (if b then Inr () else Inl e)"

fun res_map :: "('a \<Rightarrow> 'e + 'b) \<Rightarrow> 'a list \<Rightarrow> 'e + 'b list" where
  "res_map f [] = Inr []"
| "res_map f (x # xs) = res_bind (f x) (\<lambda>y. res_bind (res_map f xs) (\<lambda>ys. Inr (y # ys)))"

lemma res_bind_Inr [simp]: "res_bind (Inr a) f = f a"
  and res_bind_Inl [simp]: "res_bind (Inl e) f = Inl e"
  by (simp_all add: res_bind_def)

lemma res_bind_eq_Inr [res_simps]:
  "res_bind r f = Inr b \<longleftrightarrow> (\<exists>a. r = Inr a \<and> f a = Inr b)"
  by (cases r) auto

lemma res_bind_eq_Inl [res_simps]:
  "res_bind r f = Inl e \<longleftrightarrow> r = Inl e \<or> (\<exists>a. r = Inr a \<and> f a = Inl e)"
  by (cases r) auto

lemma require_eq_Inr [res_simps]: "require b e = Inr u \<longleftrightarrow> b"
  by (simp add: require_def)

lemma require_eq_Inl [res_simps]: "require b e = Inl e' \<longleftrightarrow> \<not> b \<and> e' = e"
  by (auto simp: require_def)

lemma res_map_Inr_length: "res_map f xs = Inr ys \<Longrightarrow> length ys = length xs"
  by (induction xs arbitrary: ys) (auto simp: res_simps)

lemma res_map_Inr_nth:
  "res_map f xs = Inr ys \<Longrightarrow> i < length xs \<Longrightarrow> f (xs ! i) = Inr (ys ! i)"
  by (induction xs arbitrary: ys i) (auto simp: res_simps nth_Cons split: nat.splits)

subsection \<open>64-bit integers\<close>

lemma returned_Inr:
  "map_option (\<lambda>r. case r of Inl _ \<Rightarrow> None | Inr x \<Rightarrow> Some (f x)) c = Some (Some y) \<Longrightarrow> \<exists>x. c = Some (Inr x) \<and> f x = y"
  by (cases c; cases "the c") auto

definition max_int64 :: int where "max_int64 = 2 ^ 63 - 1"
definition min_int64 :: int where "min_int64 = - (2 ^ 63)"

definition wrap64 :: "int \<Rightarrow> int" where
  "wrap64 x = (x + 2 ^ 63) mod 2 ^ 64 - 2 ^ 63"

definition in_int64 :: "int \<Rightarrow> bool" where
  "in_int64 x \<longleftrightarrow> min_int64 \<le> x \<and> x \<le> max_int64"

lemma wrap64_range: "in_int64 (wrap64 x)"
proof -
  have "0 \<le> (x + 2 ^ 63) mod 2 ^ 64" and "(x + 2 ^ 63) mod 2 ^ 64 < 2 ^ 64"
    by simp_all
  then show ?thesis
    by (simp add: in_int64_def wrap64_def min_int64_def max_int64_def)
qed

lemma wrap64_id: "in_int64 x \<Longrightarrow> wrap64 x = x"
  by (simp add: in_int64_def wrap64_def min_int64_def max_int64_def mod_pos_pos_trivial)

subsection \<open>Strings\<close>

definition has_prefix :: "'a list \<Rightarrow> 'a list \<Rightarrow> bool" where
  "has_prefix s p \<longleftrightarrow> take (length p) s = p"

definition has_suffix :: "'a list \<Rightarrow> 'a list \<Rightarrow> bool" where
  "has_suffix s p \<longleftrightarrow> length p \<le> length s \<and> drop (length s - length p) s = p"

definition trim_prefix :: "'a list \<Rightarrow> 'a list \<Rightarrow> 'a list" where
  "trim_prefix s p = (if has_prefix s p then drop (length p) s else s)"

definition trim_suffix :: "'a list \<Rightarrow> 'a list \<Rightarrow> 'a list" where
  "trim_suffix s p = (if has_suffix s p then take (length s - length p) s else s)"

definition trim_left_char :: "char \<Rightarrow> string \<Rightarrow> string" where
  "trim_left_char c s = dropWhile ((=) c) s"

definition trim_char :: "char \<Rightarrow> string \<Rightarrow> string" where
  "trim_char c s = rev (dropWhile ((=) c) (rev (dropWhile ((=) c) s)))"

definition is_space :: "char \<Rightarrow> bool" where
  "is_space c \<longleftrightarrow> c = CHR 0x20 \<or> c = CHR 0x09 \<or> c = CHR 0x0A \<or> c = CHR 0x0B \<or> c = CHR 0x0C \<or> c = CHR 0x0D"

definition TrimSpace :: "string \<Rightarrow> string" where
  "TrimSpace s = rev (dropWhile is_space (rev (dropWhile is_space s)))"

definition is_digit :: "char \<Rightarrow> bool" where
  "is_digit c \<longleftrightarrow> 48 \<le> (of_char c :: nat) \<and> (of_char c :: nat) \<le> 57"

definition is_upper :: "char \<Rightarrow> bool" where
  "is_upper c \<longleftrightarrow> 65 \<le> (of_char c :: nat) \<and> (of_char c :: nat) \<le> 90"

definition is_lower :: "char \<Rightarrow> bool" where
  "is_lower c \<longleftrightarrow> 97 \<le> (of_char c :: nat) \<and> (of_char c :: nat) \<le> 122"

definition to_upper_char :: "char \<Rightarrow> char" where
  "to_upper_char c = (if is_lower c then char_of (of_char c - 32 :: nat) else c)"

definition to_lower_char :: "char \<Rightarrow> char" where
  "to_lower_char c = (if is_upper c then char_of (of_char c + 32 :: nat) else c)"

definition ToUpper :: "string \<Rightarrow> string" where "ToUpper = map to_upper_char"
definition ToLower :: "string \<Rightarrow> string" where "ToLower = map to_lower_char"

definition EqualFold :: "string \<Rightarrow> string \<Rightarrow> bool" where
  "EqualFold a b \<longleftrightarrow> ToLower a = ToLower b"

lemmas string_defs = has_prefix_def has_suffix_def trim_prefix_def trim_suffix_def
  trim_left_char_def trim_char_def TrimSpace_def is_space_def is_digit_def is_upper_def
  is_lower_def to_upper_char_def to_lower_char_def ToUpper_def ToLower_def EqualFold_def

declare string_defs [go_simps]

lemma ToLower_idem [simp]: "ToLower (ToLower s) = ToLower s"
  by (simp add: ToLower_def to_lower_char_def is_upper_def)

lemma TrimSpace_ToLower: "TrimSpace (ToLower s) = ToLower (TrimSpace s)"
proof -
  have sp: "is_space (to_lower_char c) = is_space c" for c
    by (auto simp: is_space_def to_lower_char_def is_upper_def dest!: arg_cong [of _ _ "of_char :: char \<Rightarrow> nat"])
  have "dropWhile is_space (map to_lower_char s) = map to_lower_char (dropWhile is_space s)" for s
    by (induction s) (simp_all add: sp)
  then show ?thesis by (simp add: TrimSpace_def ToLower_def rev_map)
qed

lemma dropWhile_is_space_head: "dropWhile is_space s = c # t \<Longrightarrow> \<not> is_space c"
  by (simp add: dropWhile_eq_Cons_conv)

lemma TrimSpace_id:
  assumes "\<forall>c \<in> set s. \<not> is_space c"
  shows "TrimSpace s = s"
proof -
  have d: "dropWhile is_space t = t" if "\<forall>c \<in> set t. \<not> is_space c" for t
    using that by (cases t) auto
  from assms have "dropWhile is_space s = s" by (rule d)
  moreover from assms have "dropWhile is_space (rev s) = rev s" by (intro d) simp
  ultimately show ?thesis by (simp add: TrimSpace_def)
qed

lemma dropWhile_idem: "dropWhile P (dropWhile P xs) = dropWhile P xs"
  by (induction xs) auto

lemma dropWhile_rev_dropWhile:
  "dropWhile P (rev (dropWhile P (rev (dropWhile P xs)))) = rev (dropWhile P (rev (dropWhile P xs)))"
proof (cases "dropWhile P xs")
  case Nil
  show ?thesis by (simp only: Nil dropWhile.simps rev.simps)
next
  case (Cons y ys)
  then have "\<not> P y" by (simp add: dropWhile_eq_Cons_conv)
  then have "dropWhile P (rev (y # ys)) = (if \<forall>x\<in>set ys. P x then [] else dropWhile P (rev ys)) @ [y]"
    by (simp add: dropWhile_append)
  then obtain zs where "dropWhile P (rev (y # ys)) = zs @ [y]" by blast
  with Cons \<open>\<not> P y\<close> show ?thesis by simp
qed

lemma TrimSpace_idem [simp]: "TrimSpace (TrimSpace s) = TrimSpace s"
  by (simp only: TrimSpace_def dropWhile_rev_dropWhile rev_rev_ident dropWhile_idem)

subsection \<open>Decimal digits\<close>

definition digit_char :: "nat \<Rightarrow> char" where
  "digit_char d = char_of (48 + d)"

definition digit_val :: "char \<Rightarrow> nat" where
  "digit_val c = of_char c - 48"

fun nat_str :: "nat \<Rightarrow> string" where
  "nat_str n = (if n < 10 then [digit_char n] else nat_str (n div 10) @ [digit_char (n mod 10)])"

declare nat_str.simps [simp del]

definition digits_val :: "string \<Rightarrow> nat" where
  "digits_val s = foldl (\<lambda>a c. 10 * a + digit_val c) 0 s"

definition int_str :: "int \<Rightarrow> string" where
  "int_str i = (if i < 0 then CHR ''-'' # nat_str (nat (- i)) else nat_str (nat i))"

lemma of_char_digit_char [simp]: "d < 10 \<Longrightarrow> (of_char (digit_char d) :: nat) = 48 + d"
  by (simp add: digit_char_def)

lemma digit_val_digit_char [simp]: "d < 10 \<Longrightarrow> digit_val (digit_char d) = d"
  by (simp add: digit_val_def)

lemma is_digit_digit_char [simp]: "d < 10 \<Longrightarrow> is_digit (digit_char d)"
  by (simp add: is_digit_def)

lemma digit_char_numeral [simp]:
  "digit_char 0 = CHR ''0''" "digit_char 1 = CHR ''1''" "digit_char (Suc 0) = CHR ''1''" "digit_char 2 = CHR ''2''"
  "digit_char 3 = CHR ''3''" "digit_char 4 = CHR ''4''" "digit_char 5 = CHR ''5''" "digit_char 6 = CHR ''6''"
  "digit_char 7 = CHR ''7''" "digit_char 8 = CHR ''8''" "digit_char 9 = CHR ''9''"
  by code_simp+

lemma digits_val_Nil [simp]: "digits_val [] = 0"
  by (simp add: digits_val_def)

lemma digits_val_snoc [simp]: "digits_val (s @ [c]) = 10 * digits_val s + digit_val c"
  by (simp add: digits_val_def)

lemma digits_val_append: "digits_val (s @ t) = digits_val s * 10 ^ length t + digits_val t"
  by (induction t rule: rev_induct) (simp_all add: algebra_simps flip: append_assoc)

lemma digits_val_zeros [simp]: "digits_val (replicate n CHR ''0'') = 0"
  by (induction n) (simp_all add: digits_val_def digit_val_def flip: replicate_append_same)

lemma digits_val_bound: "\<forall>c \<in> set s. is_digit c \<Longrightarrow> digits_val s < 10 ^ length s"
proof (induction s rule: rev_induct)
  case (snoc c s)
  then have "digits_val s < 10 ^ length s" and "digit_val c \<le> 9"
    by (auto simp: is_digit_def digit_val_def)
  then show ?case by simp
qed simp

lemma digits_val_nat_str [simp]: "digits_val (nat_str n) = n"
proof (induction n rule: nat_str.induct)
  case (1 n)
  show ?case
    by (cases "n < 10") (use 1 in \<open>simp_all add: nat_str.simps [of n] digits_val_def\<close>)
qed

lemma nat_str_digits: "c \<in> set (nat_str n) \<Longrightarrow> is_digit c"
proof (induction n rule: nat_str.induct)
  case (1 n)
  then show ?case by (cases "n < 10") (auto simp: nat_str.simps [of n])
qed

lemma nat_str_nonempty [simp]: "nat_str n \<noteq> []"
  by (simp add: nat_str.simps)

lemma nat_str_length: "n < 10 ^ k \<Longrightarrow> 0 < k \<Longrightarrow> length (nat_str n) \<le> k"
proof (induction n arbitrary: k rule: nat_str.induct)
  case (1 n)
  show ?case
  proof (cases "n < 10")
    case False
    with "1.prems" obtain j where j: "k = Suc j" "0 < j"
      by (cases k; cases "k - 1") (auto simp: not_less)
    with "1.prems" have "n div 10 < 10 ^ j"
      by (simp add: less_mult_imp_div_less mult.commute)
    with "1.IH" False j have "length (nat_str (n div 10)) \<le> j" by simp
    with False j show ?thesis by (simp add: nat_str.simps [of n])
  qed (use "1.prems" in \<open>simp add: nat_str.simps [of n]\<close>)
qed

lemma nat_str_no_minus [simp]: "CHR ''-'' \<notin> set (nat_str n)"
  using nat_str_digits [of "CHR ''-''" n] by (auto simp: is_digit_def)

subsection \<open>Stable sorting with a comparison function\<close>

text \<open>
  \<open>sort.SliceStable\<close> on up to twenty elements is an insertion sort: each element moves
  left past the elements it is less than.
\<close>

fun insert_from_right :: "('a \<Rightarrow> 'a \<Rightarrow> bool) \<Rightarrow> 'a \<Rightarrow> 'a list \<Rightarrow> 'a list" where
  "insert_from_right lt x [] = [x]"
| "insert_from_right lt x (y # ys) = (if lt x y then y # insert_from_right lt x ys else x # y # ys)"

definition SliceStable :: "('a \<Rightarrow> 'a \<Rightarrow> bool) \<Rightarrow> 'a list \<Rightarrow> 'a list" where
  "SliceStable lt xs = rev (foldl (\<lambda>acc x. insert_from_right lt x acc) [] xs)"

lemma mset_insert_from_right [simp]: "mset (insert_from_right lt x ys) = add_mset x (mset ys)"
  by (induction ys) auto

lemma mset_SliceStable [simp]: "mset (SliceStable lt xs) = mset xs"
proof -
  have "mset (foldl (\<lambda>acc x. insert_from_right lt x acc) acc xs) = mset acc + mset xs" for acc
    by (induction xs arbitrary: acc) auto
  then show ?thesis by (simp add: SliceStable_def)
qed

lemma set_SliceStable [simp]: "set (SliceStable lt xs) = set xs"
  by (metis mset_SliceStable set_mset_mset)

lemma SliceStable_Nil_iff [simp]: "SliceStable lt xs = [] \<longleftrightarrow> xs = []"
  by (metis mset_SliceStable mset_zero_iff)

lemma SliceStable_Nil [simp]: "SliceStable lt [] = []"
  by simp

lemma SliceStable_head: "SliceStable lt xs = q # rest \<Longrightarrow> q \<in> set xs"
  by (metis list.set_intros(1) set_SliceStable)

lemma insert_from_right_map:
  "(\<And>x y. lt (g x) (g y) = lt x y) \<Longrightarrow> insert_from_right lt (g x) (map g ys) = map g (insert_from_right lt x ys)"
  by (induction ys) auto

lemma SliceStable_map:
  assumes "\<And>x y. lt (g x) (g y) = lt x y"
  shows "SliceStable lt (map g xs) = map g (SliceStable lt xs)"
proof -
  have "foldl (\<lambda>acc x. insert_from_right lt x acc) (map g acc) (map g xs)
      = map g (foldl (\<lambda>acc x. insert_from_right lt x acc) acc xs)" for acc
    by (induction xs arbitrary: acc) (simp_all add: insert_from_right_map [where lt = lt and g = g, OF assms])
  from this [of "[]"] show ?thesis by (simp add: SliceStable_def rev_map)
qed

subsection \<open>Sorting by a key\<close>

lemma sort_key_perm:
  assumes "mset xs = mset ys" and "distinct (map f xs)"
  shows "sort_key f xs = sort_key f ys"
proof (rule sort_key_inj_key_eq)
  show "mset xs = mset (sort_key f ys)" using assms by simp
  show "inj_on f (set xs)" using assms(2) by (simp add: distinct_map)
  show "sorted (map f (sort_key f ys))" by simp
qed

lemma insort_key_snoc: "f x \<le> f y \<Longrightarrow> insort_key f x (zs @ [y]) = insort_key f x zs @ [y]"
  by (induction zs) auto

lemma sort_key_snoc: "(\<And>x. x \<in> set xs \<Longrightarrow> f x \<le> f y) \<Longrightarrow> sort_key f (xs @ [y]) = sort_key f xs @ [y]"
  by (induction xs) (simp_all add: insort_key_snoc)

lemma hd_sort_key_min:
  assumes "xs \<noteq> []"
  shows "hd (sort_key f xs) \<in> set xs" and "x \<in> set xs \<Longrightarrow> f (hd (sort_key f xs)) \<le> f x"
proof -
  have ne: "sort_key f xs \<noteq> []" using assms by (metis mset_sort mset_zero_iff)
  then show "hd (sort_key f xs) \<in> set xs" by (metis list.set_sel(1) set_sort)
  assume "x \<in> set xs"
  then have "x \<in> set (sort_key f xs)" by simp
  moreover have "sorted (map f (sort_key f xs))" by simp
  ultimately show "f (hd (sort_key f xs)) \<le> f x"
    using ne by (cases "sort_key f xs") auto
qed

subsection \<open>Database transactions\<close>

text \<open>
  A statement of a transaction can fail for reasons outside the program (a lost connection, a
  cancelled context). The operations take the set of failing steps as an argument, so each of
  the source's error returns is a branch of the model; the deferred rollback makes every such
  branch return the tables as they were.
\<close>

datatype db_step = DbBegin | DbStmt nat | DbCommit

type_synonym db_fault = "db_step \<Rightarrow> bool"

abbreviation no_fault :: db_fault where "no_fault \<equiv> (\<lambda>_. False)"

text \<open>\<^verbatim>\<open>UPDATE t SET .. WHERE p\<close> and the number of rows it affects.\<close>

definition sql_update :: "('r \<Rightarrow> bool) \<Rightarrow> ('r \<Rightarrow> 'r) \<Rightarrow> 'r list \<Rightarrow> 'r list" where
  "sql_update p f rows = map (\<lambda>r. if p r then f r else r) rows"

definition sql_count :: "('r \<Rightarrow> bool) \<Rightarrow> 'r list \<Rightarrow> nat" where
  "sql_count p rows = length (filter p rows)"

lemma set_sql_update: "set (sql_update p f rows) = (\<lambda>r. if p r then f r else r) ` set rows"
  by (simp add: sql_update_def)

lemma sql_update_none: "sql_count p rows = 0 \<Longrightarrow> sql_update p f rows = rows"
  by (simp add: sql_update_def sql_count_def filter_empty_conv map_idI)

lemma map_sql_update:
  "(\<And>r. p r \<Longrightarrow> g (f r) = g r) \<Longrightarrow> map g (sql_update p f rows) = map g rows"
  by (simp add: sql_update_def)

lemma sql_count_zero [simp]: "sql_count p rows = 0 \<longleftrightarrow> (\<forall>r \<in> set rows. \<not> p r)"
  by (simp add: sql_count_def filter_empty_conv)

lemma sql_count_pos: "0 < sql_count p rows \<longleftrightarrow> (\<exists>r \<in> set rows. p r)"
  using sql_count_zero [of p rows] by (metis neq0_conv)

lemma distinct_key_eq:
  "distinct (map g rows) \<Longrightarrow> r \<in> set rows \<Longrightarrow> r' \<in> set rows \<Longrightarrow> g r = g r' \<Longrightarrow> r = r'"
  by (metis distinct_map inj_onD)

lemma sql_count_distinct:
  assumes "distinct (map g rows)" and "\<And>r r'. p r \<Longrightarrow> p r' \<Longrightarrow> g r = g r'"
  shows "sql_count p rows \<le> 1"
proof -
  have d: "distinct (map g (filter p rows))" using assms(1) by (rule distinct_map_filter)
  have e: "g x = g y" if "x \<in> set (filter p rows)" "y \<in> set (filter p rows)" for x y
    using assms(2) that by simp
  show ?thesis
  proof (rule ccontr)
    assume "\<not> ?thesis"
    then obtain x y zs where f: "filter p rows = x # y # zs"
      unfolding sql_count_def by (metis One_nat_def length_0_conv length_Suc_conv not_less_eq_eq neq_Nil_conv le0)
    with e [of x y] have "g x = g y" by simp
    with d f show False by simp
  qed
qed

lemma find_appended: "\<forall>x\<in>set xs. \<not> P x \<Longrightarrow> P y \<Longrightarrow> find P (xs @ [y]) = Some y"
  by (induction xs) auto

lemma find_SomeD: "find P xs = Some x \<Longrightarrow> x \<in> set xs \<and> P x"
  by (metis find_Some_iff nth_mem)

lemma find_key:
  assumes "distinct (map g rows)" and "r \<in> set rows"
  shows "find (\<lambda>x. g x = g r) rows = Some r"
proof (cases "find (\<lambda>x. g x = g r) rows")
  case None
  with assms(2) show ?thesis by (auto simp: find_None_iff)
next
  case (Some x)
  from find_SomeD [OF this] distinct_key_eq [OF assms(1) _ assms(2)] Some show ?thesis by auto
qed

lemma filter_key:
  assumes "distinct (map g rows)" and "r \<in> set rows"
  shows "filter (\<lambda>x. g x = g r) rows = [r]"
  using assms
proof (induction rows)
  case (Cons x rows)
  have "g x \<notin> g ` set rows" using Cons.prems(1) by simp
  then have "filter (\<lambda>y. g y = g x) rows = []" by (auto simp: filter_empty_conv intro: rev_image_eqI)
  with Cons show ?case by (cases "r = x") auto
qed simp

end
