(* ===== verification/Decimal.thy ===== *)
theory Decimal
  imports Prelude Complex_Main
begin

text \<open>
  Exact decimals. Go's \<open>big.Rat\<close> is HOL's \<open>rat\<close>. The valuation, reconciliation and
  journal packages each carry a \<open>formatDecimal\<close> that prints a rational with eighteen
  fractional digits, rounding half away from zero, and a \<open>parseDecimal\<close> that reads it
  back. This theory holds the pieces the three share: \<open>big.Rat.SetString\<close> on positional
  decimals (the only notation its callers pass: the text of a NUMERIC column, the output of
  \<open>formatDecimal\<close>, or a string a regular expression has already checked), the regular
  expression itself, the scaled quotient, and the interface \<open>decimal_codec\<close> with the
  lemmas its clients need.
\<close>

subsection \<open>Reading\<close>

definition all_digits :: "string \<Rightarrow> bool" where
  "all_digits s \<longleftrightarrow> s \<noteq> [] \<and> list_all is_digit s"

definition split_point :: "string \<Rightarrow> string \<times> string option" where
  "split_point s = (let ip = takeWhile ((\<noteq>) CHR ''.'') s; rest = dropWhile ((\<noteq>) CHR ''.'') s
     in (ip, if rest = [] then None else Some (tl rest)))"

definition split_sign :: "string \<Rightarrow> bool \<times> string" where
  "split_sign s = (case s of
      [] \<Rightarrow> (False, [])
    | c # t \<Rightarrow> if c = CHR ''-'' then (True, t) else if c = CHR ''+'' then (False, t) else (False, s))"

definition unsigned_rat :: "string \<Rightarrow> rat option" where
  "unsigned_rat s = (case split_point s of
      (ip, None) \<Rightarrow> if all_digits ip then Some (of_nat (digits_val ip)) else None
    | (ip, Some fp) \<Rightarrow>
        if list_all is_digit ip \<and> list_all is_digit fp \<and> (ip \<noteq> [] \<or> fp \<noteq> [])
        then Some (of_nat (digits_val (ip @ fp)) / 10 ^ length fp) else None)"

definition SetString :: "string \<Rightarrow> rat option" where
  "SetString s = (let (neg, t) = split_sign s
     in map_option (\<lambda>v. if neg then - v else v) (unsigned_rat t))"

text \<open>The pattern \<^verbatim>\<open>^-?(?:0|[1-9][0-9]*)(?:\.[0-9]+)?$\<close>.\<close>

definition plain_integer :: "string \<Rightarrow> bool" where
  "plain_integer s \<longleftrightarrow> s = ''0'' \<or> all_digits s \<and> hd s \<noteq> CHR ''0''"

definition unsigned_decimal :: "string \<Rightarrow> bool" where
  "unsigned_decimal s = (case split_point s of
      (ip, None) \<Rightarrow> plain_integer ip
    | (ip, Some fp) \<Rightarrow> plain_integer ip \<and> all_digits fp)"

definition decimalPattern :: "string \<Rightarrow> bool" where
  "decimalPattern s = unsigned_decimal (trim_prefix s ''-'')"

subsection \<open>Writing\<close>

definition quo_big :: "int \<Rightarrow> int \<Rightarrow> int" where
  "quo_big a b = sgn a * sgn b * (\<bar>a\<bar> div \<bar>b\<bar>)"

definition scale18 :: int where "scale18 = 10 ^ 18"

definition scaled_quotient :: "rat \<Rightarrow> int" where
  "scaled_quotient v = (let (n, d) = quotient_of v;
       numerator = n * scale18;
       q = quo_big numerator d;
       remainder = numerator - q * d
     in if remainder \<noteq> 0 \<and> d \<le> 2 * \<bar>remainder\<bar>
        then (if numerator < 0 then q - 1 else q + 1)
        else q)"

definition point18 :: "string \<Rightarrow> string" where
  "point18 digits = (let ds = (if length digits \<le> 18 then replicate (19 - length digits) CHR ''0'' @ digits else digits);
       point = length ds - 18
     in take point ds @ ''.'' @ drop point ds)"

definition print18 :: "int \<Rightarrow> string" where
  "print18 q = (let digits = int_str q
     in if has_prefix digits ''-'' then ''-'' @ point18 (drop 1 digits) else point18 digits)"

definition round18 :: "rat \<Rightarrow> rat" where
  "round18 v = of_int (scaled_quotient v) / of_int scale18"

subsection \<open>The scaled quotient rounds half away from zero\<close>

lemma quo_big_nonneg: "0 < d \<Longrightarrow> 0 \<le> a \<Longrightarrow> quo_big a d = a div d"
  by (cases "a = 0") (simp_all add: quo_big_def)

lemma quo_big_neg: "0 < d \<Longrightarrow> a < 0 \<Longrightarrow> quo_big a d = - ((- a) div d)"
  by (simp add: quo_big_def)

lemma half_up_bound:
  fixes r d :: int
  assumes "0 \<le> r" and "r < d"
  shows "2 * \<bar>(if r \<noteq> 0 \<and> d \<le> 2 * r then r - d else r)\<bar> \<le> d"
  using assms by auto

lemma scaled_quotient_nonneg:
  assumes "quotient_of v = (n, d)" and "0 < d" and "0 \<le> n * scale18"
  defines "a \<equiv> n * scale18"
  shows "a - scaled_quotient v * d = (if a mod d \<noteq> 0 \<and> d \<le> 2 * (a mod d) then a mod d - d else a mod d)"
proof -
  have r: "a - a div d * d = a mod d" by (simp add: minus_div_mult_eq_mod)
  have "\<bar>a mod d\<bar> = a mod d" and "\<not> a < 0" using assms(2,3) by (simp_all add: a_def)
  then have "scaled_quotient v = (if a mod d \<noteq> 0 \<and> d \<le> 2 * (a mod d) then a div d + 1 else a div d)"
    unfolding scaled_quotient_def assms(1) Let_def prod.case quo_big_nonneg [OF assms(2,3)]
    by (simp only: r if_False flip: a_def)
  moreover have "a - (a div d + 1) * d = a mod d - d"
    using r by (simp only: distrib_right mult_1)
  ultimately show ?thesis using r by (simp only: split: if_split) simp
qed

lemma scaled_quotient_neg:
  assumes "quotient_of v = (n, d)" and "0 < d" and "n * scale18 < 0"
  defines "a \<equiv> n * scale18"
  shows "scaled_quotient v * d - a =
    (if (- a) mod d \<noteq> 0 \<and> d \<le> 2 * ((- a) mod d) then (- a) mod d - d else (- a) mod d)"
proof -
  have r: "a - (- ((- a) div d)) * d = - ((- a) mod d)"
    using div_mult_mod_eq [of "- a" d] by (simp only: mult_minus_left)
  have "\<bar>- ((- a) mod d)\<bar> = (- a) mod d" and "a < 0" using assms(2,3) by (simp_all add: a_def)
  then have "scaled_quotient v =
      (if - ((- a) mod d) \<noteq> 0 \<and> d \<le> 2 * ((- a) mod d) then - ((- a) div d) - 1 else - ((- a) div d))"
    unfolding scaled_quotient_def assms(1) Let_def prod.case quo_big_neg [OF assms(2,3)]
    by (simp only: r if_True flip: a_def)
  moreover have "(- ((- a) div d) - 1) * d - a = (- a) mod d - d"
    using r by (simp only: left_diff_distrib mult_1)
  moreover have "- ((- a) div d) * d - a = (- a) mod d" using r by linarith
  ultimately show ?thesis by (simp only: split: if_split) simp
qed

lemma scaled_quotient_pair:
  assumes "quotient_of v = (n, d)"
  shows "2 * \<bar>n * scale18 - scaled_quotient v * d\<bar> \<le> d"
proof -
  have d: "0 < d" using assms by (rule quotient_of_denom_pos)
  show ?thesis
  proof (cases "0 \<le> n * scale18")
    case True
    show ?thesis unfolding scaled_quotient_nonneg [OF assms d True]
      by (rule half_up_bound) (use d in simp_all)
  next
    case False
    then have "n * scale18 < 0" by simp
    then show ?thesis unfolding abs_minus_commute [of "n * scale18"] scaled_quotient_neg [OF assms d \<open>n * scale18 < 0\<close>]
      by (intro half_up_bound) (use d in simp_all)
  qed
qed

lemma round18_error: "\<bar>round18 v - v\<bar> \<le> 1 / (2 * of_int scale18)"
proof -
  obtain n d where nd: "quotient_of v = (n, d)" by (cases "quotient_of v")
  have d: "0 < d" using nd by (rule quotient_of_denom_pos)
  have v: "v = of_int n / of_int d" using nd by (rule quotient_of_div)
  have s: "(0::rat) < of_int scale18" by (simp add: scale18_def)
  have eq: "round18 v - v = of_int (scaled_quotient v * d - n * scale18) / (of_int scale18 * of_int d)"
    using d s by (simp add: round18_def v field_simps)
  have "2 * \<bar>scaled_quotient v * d - n * scale18\<bar> \<le> d"
    using scaled_quotient_pair [OF nd] by (simp add: abs_minus_commute)
  then have "(of_int (2 * \<bar>scaled_quotient v * d - n * scale18\<bar>) :: rat) \<le> of_int d"
    by (simp only: of_int_le_iff)
  then have le: "2 * (of_int \<bar>scaled_quotient v * d - n * scale18\<bar> :: rat) \<le> of_int d"
    by simp
  have "\<bar>round18 v - v\<bar> = of_int \<bar>scaled_quotient v * d - n * scale18\<bar> / (of_int scale18 * of_int d)"
    using d s by (simp only: eq abs_divide of_int_abs abs_mult)
  also have "\<dots> \<le> 1 / (2 * of_int scale18)"
    using d s le by (simp add: field_simps)
  finally show ?thesis .
qed

lemma scaled_quotient_exact:
  assumes "v * of_int scale18 = of_int k"
  shows "scaled_quotient v = k"
proof -
  obtain n d where nd: "quotient_of v = (n, d)" by (cases "quotient_of v")
  have d: "0 < d" using nd by (rule quotient_of_denom_pos)
  have v: "v = of_int n / of_int d" using nd by (rule quotient_of_div)
  from assms d have "(of_int (n * scale18) :: rat) = of_int (k * d)"
    by (simp add: v field_simps)
  then have "n * scale18 = k * d" by (simp only: of_int_eq_iff)
  with scaled_quotient_pair [OF nd] have "2 * (\<bar>k - scaled_quotient v\<bar> * d) \<le> d"
    using d by (simp add: abs_mult flip: left_diff_distrib)
  with d have "\<bar>k - scaled_quotient v\<bar> < 1"
    by (smt (verit) mult_le_cancel_right1)
  then show ?thesis by simp
qed

lemma round18_of_scaled: "round18 (of_int k / of_int scale18) = of_int k / of_int scale18"
  by (simp add: round18_def scaled_quotient_exact [of _ k] scale18_def)

lemma round18_idem [simp]: "round18 (round18 v) = round18 v"
  unfolding round18_def [of v] by (rule round18_of_scaled)

subsection \<open>Printing and reading back\<close>

lemma nat_str_hd: "0 < n \<Longrightarrow> hd (nat_str n) \<noteq> CHR ''0''"
proof (induction n rule: nat_str.induct)
  case (1 n)
  show ?case
  proof (cases "n < 10")
    case True
    with "1.prems" have "(of_char (hd (nat_str n)) :: nat) \<noteq> of_char (CHR ''0'')"
      by (simp add: nat_str.simps [of n])
    then show ?thesis by metis
  next
    case False
    then have "0 < n div 10" by simp
    with "1.IH" False show ?thesis by (simp add: nat_str.simps [of n] hd_append)
  qed
qed

lemma nat_str_0 [simp]: "nat_str 0 = ''0''"
proof -
  have "(of_char (digit_char 0) :: nat) = of_char (CHR ''0'')" by simp
  then have "digit_char 0 = CHR ''0''" by (simp only: of_char_eq_iff)
  then show ?thesis by (simp add: nat_str.simps)
qed

lemma takeWhile_point:
  assumes "\<forall>c \<in> set ip. is_digit c"
  shows "split_point (ip @ ''.'' @ fp) = (ip, Some fp)"
proof -
  have "CHR ''.'' \<notin> set ip" using assms by (auto simp: is_digit_def)
  then have "takeWhile ((\<noteq>) CHR ''.'') (ip @ ''.'' @ fp) = ip"
    and "dropWhile ((\<noteq>) CHR ''.'') (ip @ ''.'' @ fp) = ''.'' @ fp"
    by (simp_all add: takeWhile_append dropWhile_append)
  then show ?thesis by (simp add: split_point_def)
qed

lemma point18_parts:
  assumes "0 < length ds" and "\<forall>c \<in> set ds. is_digit c"
  obtains ip fp where "point18 ds = ip @ ''.'' @ fp" and "length fp = 18" and "ip \<noteq> []"
    and "\<forall>c \<in> set ip. is_digit c" and "\<forall>c \<in> set fp. is_digit c"
    and "digits_val (ip @ fp) = digits_val ds"
    and "ip = ''0'' \<or> length ds > 18 \<and> hd ip = hd ds"
proof -
  define xs where "xs = (if length ds \<le> 18 then replicate (19 - length ds) CHR ''0'' @ ds else ds)"
  have len: "18 < length xs" by (simp add: xs_def)
  have dig: "\<forall>c \<in> set xs. is_digit c" using assms(2) by (auto simp: xs_def is_digit_def)
  have val: "digits_val xs = digits_val ds" by (simp add: xs_def digits_val_append)
  let ?ip = "take (length xs - 18) xs" and ?fp = "drop (length xs - 18) xs"
  have "?ip = ''0'' \<or> length ds > 18 \<and> hd ?ip = hd ds"
  proof (cases "length ds \<le> 18")
    case True
    then have "length xs = 19" and "hd xs = CHR ''0''"
      using assms(1) by (simp_all add: xs_def hd_append)
    then show ?thesis by (cases xs) simp_all
  next
    case False
    then show ?thesis using len by (simp add: xs_def hd_take)
  qed
  moreover have "point18 ds = ?ip @ ''.'' @ ?fp"
    by (simp add: point18_def xs_def Let_def)
  ultimately show ?thesis
    using len dig val by (intro that [of ?ip ?fp]) (auto dest: in_set_takeD in_set_dropD)
qed

lemma print18_cases:
  obtains ip fp where "print18 k = (if k < 0 then ''-'' else []) @ ip @ ''.'' @ fp"
    and "length fp = 18" and "ip \<noteq> []" and "\<forall>c \<in> set ip. is_digit c" and "\<forall>c \<in> set fp. is_digit c"
    and "digits_val (ip @ fp) = nat \<bar>k\<bar>" and "ip = ''0'' \<or> hd ip \<noteq> CHR ''0''"
proof -
  let ?ds = "nat_str (nat \<bar>k\<bar>)"
  have dig: "\<forall>c \<in> set ?ds. is_digit c" by (auto dest: nat_str_digits)
  have "\<not> has_prefix ?ds ''-''"
    using nat_str_no_minus [of "nat \<bar>k\<bar>"] by (cases ?ds) (auto simp: has_prefix_def)
  then have pr: "print18 k = (if k < 0 then ''-'' else []) @ point18 ?ds"
    by (auto simp: print18_def int_str_def has_prefix_def)
  obtain ip fp where p: "point18 ?ds = ip @ ''.'' @ fp" "length fp = 18" "ip \<noteq> []"
    "\<forall>c \<in> set ip. is_digit c" "\<forall>c \<in> set fp. is_digit c" "digits_val (ip @ fp) = digits_val ?ds"
    "ip = ''0'' \<or> length ?ds > 18 \<and> hd ip = hd ?ds"
    by (rule point18_parts [of ?ds]) (use dig in auto)
  have "hd ?ds \<noteq> CHR ''0''" if "length ?ds > 18"
  proof (rule nat_str_hd)
    show "0 < nat \<bar>k\<bar>" using that by (cases "nat \<bar>k\<bar>") simp_all
  qed
  with p pr show ?thesis by (intro that [of ip fp]) auto
qed

lemma SetString_print18: "SetString (print18 k) = Some (of_int k / of_int scale18)"
proof -
  obtain ip fp where p: "print18 k = (if k < 0 then ''-'' else []) @ ip @ ''.'' @ fp"
    "length fp = 18" "ip \<noteq> []" "\<forall>c \<in> set ip. is_digit c" "\<forall>c \<in> set fp. is_digit c"
    "digits_val (ip @ fp) = nat \<bar>k\<bar>"
    by (rule print18_cases [of k]) auto
  have "split_sign (print18 k) = (k < 0, ip @ ''.'' @ fp)"
    using p(1,3,4) by (cases ip) (auto simp: split_sign_def is_digit_def)
  moreover have "unsigned_rat (ip @ ''.'' @ fp) = Some (of_nat (nat \<bar>k\<bar>) / 10 ^ 18)"
    using p takeWhile_point [OF p(4)] by (simp add: unsigned_rat_def list_all_iff)
  ultimately show ?thesis
    by (simp add: SetString_def scale18_def of_nat_nat)
qed

lemma decimalPattern_print18: "decimalPattern (print18 k)"
proof -
  obtain ip fp where p: "print18 k = (if k < 0 then ''-'' else []) @ ip @ ''.'' @ fp"
    "length fp = 18" "ip \<noteq> []" "\<forall>c \<in> set ip. is_digit c" "\<forall>c \<in> set fp. is_digit c"
    "ip = ''0'' \<or> hd ip \<noteq> CHR ''0''"
    by (rule print18_cases [of k]) auto
  have "trim_prefix (print18 k) ''-'' = ip @ ''.'' @ fp"
    using p(1,3,4) by (cases ip) (auto simp: trim_prefix_def has_prefix_def is_digit_def)
  moreover have "all_digits ip" and "all_digits fp"
    using p by (auto simp: all_digits_def list_all_iff)
  ultimately show ?thesis
    using p takeWhile_point [OF p(4)]
    by (simp add: decimalPattern_def unsigned_decimal_def plain_integer_def)
qed

lemma print18_no_space: "c \<in> set (print18 k) \<Longrightarrow> \<not> is_space c"
  by (rule print18_cases [of k]) (auto simp: is_space_def is_digit_def split: if_splits)

lemma TrimSpace_print18 [simp]: "TrimSpace (print18 k) = print18 k"
  by (rule TrimSpace_id) (simp add: print18_no_space)

subsection \<open>The interface of a decimal codec\<close>

text \<open>
  What the services rely on: formatting rounds to eighteen digits, and parsing a formatted value
  gives exactly the rounded rational. \<open>scale\<close> is the code's round trip through text.
\<close>

locale decimal_codec =
  fixes fmt :: "rat \<Rightarrow> string"
    and parse :: "string \<Rightarrow> rat option"
    and scale :: "rat \<Rightarrow> rat"
  assumes parse_fmt: "parse (fmt v) = Some (round18 v)"
    and scale_eq: "scale v = (case parse (fmt v) of None \<Rightarrow> 0 | Some w \<Rightarrow> w)"
    and fmt_round18: "fmt (round18 v) = fmt v"
begin

lemma scale_round18: "scale v = round18 v"
  by (simp add: scale_eq parse_fmt)

lemma scale_idem: "scale (scale v) = scale v"
  by (simp add: scale_round18)

lemma fmt_scale: "fmt (scale v) = fmt v"
  by (simp add: scale_round18 fmt_round18)

lemma parse_fmt_scale: "parse (fmt (scale v)) = Some (scale v)"
  by (simp add: parse_fmt scale_round18)

lemma scale_error: "\<bar>scale v - v\<bar> \<le> 1 / (2 * 10 ^ 18)"
  using round18_error [of v] by (simp add: scale_round18 scale18_def)

lemma fmt_eq_iff: "fmt v = fmt w \<longleftrightarrow> round18 v = round18 w"
  by (metis fmt_round18 option.inject parse_fmt)

end

lemma scaled_quotient_round18 [simp]: "scaled_quotient (round18 v) = scaled_quotient v"
  by (rule scaled_quotient_exact) (simp add: round18_def scale18_def)

lemma SetString_scaled_quotient: "SetString (print18 (scaled_quotient v)) = Some (round18 v)"
  by (simp add: SetString_print18 round18_def)

subsection \<open>The grid of eighteen digits\<close>

definition on_grid :: "rat \<Rightarrow> bool" where
  "on_grid v \<longleftrightarrow> round18 v = v"

lemma on_grid_iff: "on_grid v \<longleftrightarrow> (\<exists>k. v = of_int k / of_int scale18)"
  by (metis on_grid_def round18_def round18_of_scaled)

lemma on_grid_round18 [simp]: "on_grid (round18 v)"
  by (simp add: on_grid_def)

lemma on_grid_0 [simp]: "on_grid 0"
  by (auto simp: on_grid_iff intro: exI [of _ 0])

lemma on_grid_add: "on_grid v \<Longrightarrow> on_grid w \<Longrightarrow> on_grid (v + w)"
  by (auto simp: on_grid_iff simp flip: add_divide_distrib of_int_add)

lemma on_grid_minus: "on_grid v \<Longrightarrow> on_grid (- v)"
  by (auto simp: on_grid_iff) (metis minus_divide_left of_int_minus)

lemma on_grid_diff: "on_grid v \<Longrightarrow> on_grid w \<Longrightarrow> on_grid (v - w)"
  using on_grid_add [of v "- w"] by (simp add: on_grid_minus)

lemma on_grid_abs: "on_grid v \<Longrightarrow> on_grid \<bar>v\<bar>"
  by (cases "0 \<le> v") (simp_all add: on_grid_minus)

lemma on_grid_sum_list: "(\<And>x. x \<in> set xs \<Longrightarrow> on_grid (f x)) \<Longrightarrow> on_grid (\<Sum>x\<leftarrow>xs. f x)"
  by (induction xs) (simp_all add: on_grid_add)

context decimal_codec
begin

lemma scale_on_grid: "on_grid (scale v)"
  by (simp add: scale_round18)

lemma parse_fmt_on_grid: "on_grid v \<Longrightarrow> parse (fmt v) = Some v"
  by (simp add: parse_fmt on_grid_def)

end

subsection \<open>Texts that the pattern accepts\<close>

definition frac_digits :: "string option \<Rightarrow> string" where
  "frac_digits fp = (case fp of None \<Rightarrow> [] | Some f \<Rightarrow> f)"

definition digits_rat :: "string \<Rightarrow> string \<Rightarrow> rat" where
  "digits_rat ip fd = of_nat (digits_val (ip @ fd)) / 10 ^ length fd"

lemma digits_rat_nonneg: "0 \<le> digits_rat ip fd"
  by (simp add: digits_rat_def)

lemma plain_integer_digits: "plain_integer ip \<Longrightarrow> ip \<noteq> [] \<and> list_all is_digit ip"
  by (auto simp: plain_integer_def all_digits_def is_digit_def)

lemma unsigned_decimal_rat:
  assumes "unsigned_decimal s" and "split_point s = (ip, fp)"
  shows "plain_integer ip" and "list_all is_digit (frac_digits fp)" and "fp = Some f \<Longrightarrow> f \<noteq> []"
    and "unsigned_rat s = Some (digits_rat ip (frac_digits fp))"
  using assms plain_integer_digits [of ip]
  by (auto simp: unsigned_decimal_def unsigned_rat_def frac_digits_def digits_rat_def all_digits_def split: option.splits)

lemma decimalPattern_parts:
  assumes "decimalPattern v" and "split_point (trim_prefix v ''-'') = (ip, fp)"
  shows "SetString v = Some (if has_prefix v ''-'' then - digits_rat ip (frac_digits fp) else digits_rat ip (frac_digits fp))"
    and "plain_integer ip" and "list_all is_digit (frac_digits fp)"
proof -
  define u where "u = trim_prefix v ''-''"
  have u: "unsigned_decimal u" and s: "split_point u = (ip, fp)" using assms by (simp_all add: decimalPattern_def u_def)
  show ip: "plain_integer ip" and "list_all is_digit (frac_digits fp)" using unsigned_decimal_rat(1,2) [OF u s] by blast+
  have "ip = takeWhile ((\<noteq>) CHR ''.'') u" using s by (simp add: split_point_def Let_def)
  moreover have "ip \<noteq> []" and "is_digit (hd ip)" using plain_integer_digits [OF ip] by (auto simp: list_all_iff)
  ultimately have "u \<noteq> []" and "is_digit (hd u)" by (cases u; auto split: if_splits)+
  then have "split_sign v = (has_prefix v ''-'', u)"
    by (cases v) (auto simp: u_def split_sign_def trim_prefix_def has_prefix_def is_digit_def)
  then show "SetString v = Some (if has_prefix v ''-'' then - digits_rat ip (frac_digits fp) else digits_rat ip (frac_digits fp))"
    by (simp add: SetString_def unsigned_decimal_rat(4) [OF u s])
qed

lemma digits_val_0_iff: "list_all is_digit s \<Longrightarrow> digits_val s = 0 \<longleftrightarrow> (\<forall>c \<in> set s. c = CHR ''0'')"
proof (induction s rule: rev_induct)
  case (snoc c s)
  have "digit_val c = 0 \<longleftrightarrow> c = CHR ''0''" if "is_digit c"
    using that of_char_eq_iff [of c "CHR ''0''", where 'a = nat] by (auto simp: is_digit_def digit_val_def)
  with snoc show ?case by auto
qed simp

lemma plain_integer_pos: "plain_integer ip \<Longrightarrow> ip \<noteq> ''0'' \<Longrightarrow> 0 < digits_val ip"
  using digits_val_0_iff [of ip] plain_integer_digits [of ip] by (cases ip) (auto simp: plain_integer_def)

lemma digits_rat_0_iff: "digits_rat ip fd = 0 \<longleftrightarrow> digits_val ip = 0 \<and> digits_val fd = 0"
proof -
  have "digits_rat ip fd = 0 \<longleftrightarrow> digits_val (ip @ fd) = 0" by (simp add: digits_rat_def)
  then show ?thesis by (simp add: digits_val_append)
qed

text \<open>At most twenty integer and eighteen fractional digits: on the grid and within NUMERIC(38,18).\<close>

definition numeric_limit :: rat where "numeric_limit = 10 ^ 20"

lemma digits_rat_fits:
  assumes "list_all is_digit ip" and "list_all is_digit fd" and "length ip \<le> 20" and "length fd \<le> 18"
  shows "on_grid (digits_rat ip fd)" and "digits_rat ip fd < numeric_limit"
proof -
  have "digits_rat ip fd = of_int (int (digits_val (ip @ fd)) * 10 ^ (18 - length fd)) / of_int scale18"
    using assms(4) by (simp add: digits_rat_def scale18_def field_simps flip: power_add)
  then show "on_grid (digits_rat ip fd)" unfolding on_grid_iff by blast
  have i: "digits_val ip < 10 ^ length ip" and f: "digits_val fd < 10 ^ length fd"
    using assms(1,2) by (simp_all add: digits_val_bound list_all_iff)
  have "digits_val (ip @ fd) < (digits_val ip + 1) * 10 ^ length fd"
    using f by (simp add: digits_val_append)
  also have "\<dots> \<le> 10 ^ length ip * 10 ^ length fd" using i by (intro mult_le_mono1) simp
  also have "\<dots> \<le> 10 ^ 20 * 10 ^ length fd" using assms(3) by (intro mult_le_mono1 power_increasing) simp_all
  finally have "(of_nat (digits_val (ip @ fd)) :: rat) < of_nat (10 ^ 20 * 10 ^ length fd)" by (simp only: of_nat_less_iff)
  then show "digits_rat ip fd < numeric_limit" by (simp add: digits_rat_def numeric_limit_def field_simps)
qed

end
