(* ===== verification/Canonical_Json.thy ===== *)
theory Canonical_Json
  imports Decimal
begin

text \<open>
  Canonical JSON (\<open>internal/jobs/queue.go\<close>: \<open>CanonicalJSON\<close>,
  \<open>normalizeCanonical\<close>, \<open>HashCanonicalJSON\<close>). A Go \<open>any\<close> is a value of
  \<open>goval\<close>: the constructors are the dynamic types the encoder meets in a decoded JSON
  document, plus the integers \<open>normalizeCanonical\<close> introduces. A finite \<open>float64\<close> is
  the rational it denotes; \<open>GNonFinite\<close> stands for an infinity or a NaN, on which
  \<open>encoding/json\<close> fails. A Go map is an association list with distinct keys
  (\<open>wf_goval\<close>), whose order the program cannot observe. \<open>strconv\<close>'s shortest
  rendering of a non-integral float is the argument \<open>fmt\<close>, and SHA-256 the argument
  \<open>sha\<close>.
\<close>

datatype goval =
    GNil
  | GBool bool
  | GFloat rat
  | GNonFinite
  | GInt int
  | GString string
  | GMap "(string \<times> goval) list"
  | GList "goval list"

subsection \<open>UTF-8\<close>

text \<open>Length of the UTF-8 encoded rune at the head of a byte string; 0 when it is malformed.\<close>

definition byte_in :: "nat \<Rightarrow> nat \<Rightarrow> char \<Rightarrow> bool" where
  "byte_in lo hi c \<longleftrightarrow> lo \<le> (of_char c :: nat) \<and> (of_char c :: nat) \<le> hi"

fun rune_len :: "string \<Rightarrow> nat" where
  "rune_len [] = 0"
| "rune_len (a # s) = (
     if byte_in 0 127 a then 1
     else if byte_in 194 223 a then (case s of b # _ \<Rightarrow> if byte_in 128 191 b then 2 else 0 | _ \<Rightarrow> 0)
     else if byte_in 224 239 a then (case s of b # c # _ \<Rightarrow>
         if byte_in (if of_char a = (224 :: nat) then 160 else 128) (if of_char a = (237 :: nat) then 159 else 191) b
            \<and> byte_in 128 191 c then 3 else 0 | _ \<Rightarrow> 0)
     else if byte_in 240 244 a then (case s of b # c # d # _ \<Rightarrow>
         if byte_in (if of_char a = (240 :: nat) then 144 else 128) (if of_char a = (244 :: nat) then 143 else 191) b
            \<and> byte_in 128 191 c \<and> byte_in 128 191 d then 4 else 0 | _ \<Rightarrow> 0)
     else 0)"

lemma rune_len_bound: "rune_len s \<le> length s"
  by (cases s) (auto split: list.splits)

function utf8_valid :: "string \<Rightarrow> bool" where
  "utf8_valid s = (if s = [] then True else if rune_len s = 0 then False else utf8_valid (drop (rune_len s) s))"
  by pat_completeness auto
termination by (relation "measure length") auto

declare utf8_valid.simps [simp del]

subsection \<open>Encoding\<close>

definition hex_digit :: "nat \<Rightarrow> char" where
  "hex_digit n = (if n < 10 then digit_char n else char_of (87 + n))"

definition backslash :: char where "backslash = CHR 0x5C"
definition dquote :: char where "dquote = CHR 0x22"

definition escape_byte :: "char \<Rightarrow> string" where
  "escape_byte c =
    (if c = dquote \<or> c = backslash then [backslash, c]
     else if c = CHR 0x08 then backslash # ''b''
     else if c = CHR 0x0C then backslash # ''f''
     else if c = CHR 0x0A then backslash # ''n''
     else if c = CHR 0x0D then backslash # ''r''
     else if c = CHR 0x09 then backslash # ''t''
     else if (of_char c :: nat) < 32
     then backslash # ''u00'' @ [hex_digit (of_char c div 16), hex_digit (of_char c mod 16)]
     else [c])"

function escape_string :: "string \<Rightarrow> string" where
  "escape_string s = (
     if s = [] then []
     else if rune_len s = 0 then (backslash # ''ufffd'') @ escape_string (tl s)
     else if rune_len s = 1 then escape_byte (hd s) @ escape_string (tl s)
     else (let r = take (rune_len s) s in
       (if r = [CHR 0xE2, CHR 0x80, CHR 0xA8] then backslash # ''u2028''
        else if r = [CHR 0xE2, CHR 0x80, CHR 0xA9] then backslash # ''u2029'' else r)
       @ escape_string (drop (rune_len s) s)))"
  by pat_completeness auto
termination by (relation "measure length") auto

declare escape_string.simps [simp del]

definition quote_string :: "string \<Rightarrow> string" where
  "quote_string s = [dquote] @ escape_string s @ [dquote]"

fun join :: "string \<Rightarrow> string list \<Rightarrow> string" where
  "join sep [] = []"
| "join sep [x] = x"
| "join sep (x # y # zs) = x @ sep @ join sep (y # zs)"

text \<open>\<open>encoding/json\<close> on these values: map members in the byte order of their keys.\<close>

fun encode_json :: "(rat \<Rightarrow> string) \<Rightarrow> goval \<Rightarrow> string option" where
  "encode_json fmt GNil = Some ''null''"
| "encode_json fmt (GBool b) = Some (if b then ''true'' else ''false'')"
| "encode_json fmt (GFloat r) = Some (fmt r)"
| "encode_json fmt GNonFinite = None"
| "encode_json fmt (GInt i) = Some (int_str i)"
| "encode_json fmt (GString s) = Some (quote_string s)"
| "encode_json fmt (GList xs) =
     map_option (\<lambda>ys. ''['' @ join '','' ys @ '']'') (those (map (encode_json fmt) xs))"
| "encode_json fmt (GMap m) =
     map_option (\<lambda>kvs. [CHR 0x7B] @ join '','' (map (\<lambda>(k, v). quote_string k @ '':'' @ v) (sort_key fst kvs)) @ [CHR 0x7D])
       (those (map (\<lambda>kv. map_option (Pair (fst kv)) (encode_json fmt (snd kv))) m))"

text \<open>
  \<open>int64(typed)\<close> of a float outside the range is left open by the language; the value is the
  one amd64 produces.
\<close>

definition int64_of_float :: "rat \<Rightarrow> int" where
  "int64_of_float r = (let t = (if r < 0 then \<lceil>r\<rceil> else \<lfloor>r\<rfloor>)
     in if in_int64 t then t else min_int64)"

text \<open>The untyped constants \<open>math.MinInt64\<close> and \<open>math.MaxInt64\<close> become \<open>float64\<close> in the
  comparison; the second rounds up to \<open>2 ^ 63\<close>.\<close>

fun normalizeCanonical :: "goval \<Rightarrow> goval" where
  "normalizeCanonical (GFloat typed) =
     (if typed = 0 then GInt 0
      else if - (2 ^ 63) \<le> typed \<and> typed \<le> 2 ^ 63 \<and> of_int \<lfloor>typed\<rfloor> = typed
      then GInt (int64_of_float typed)
      else GFloat typed)"
| "normalizeCanonical (GMap typed) = GMap (map (\<lambda>kv. (fst kv, normalizeCanonical (snd kv))) typed)"
| "normalizeCanonical (GList typed) = GList (map normalizeCanonical typed)"
| "normalizeCanonical v = v"

definition CanonicalJSON :: "(rat \<Rightarrow> string) \<Rightarrow> goval \<Rightarrow> string option" where
  "CanonicalJSON fmt v = encode_json fmt (normalizeCanonical v)"

definition HashCanonicalJSON :: "(rat \<Rightarrow> string) \<Rightarrow> (string \<Rightarrow> string) \<Rightarrow> goval \<Rightarrow> string option" where
  "HashCanonicalJSON fmt sha v = map_option sha (CanonicalJSON fmt v)"

fun wf_goval :: "goval \<Rightarrow> bool" where
  "wf_goval (GMap m) = (distinct (map fst m) \<and> (\<forall>kv \<in> set m. wf_goval (snd kv)))"
| "wf_goval (GList xs) = (\<forall>x \<in> set xs. wf_goval x)"
| "wf_goval _ = True"

text \<open>Two values are the same Go value when they differ only in the order of map members.\<close>

inductive same_goval :: "goval \<Rightarrow> goval \<Rightarrow> bool" where
  same_refl: "same_goval v v"
| same_list: "list_all2 same_goval xs ys \<Longrightarrow> same_goval (GList xs) (GList ys)"
| same_map: "list_all2 (\<lambda>a b. fst a = fst b \<and> same_goval (snd a) (snd b)) m m' \<Longrightarrow>
    mset m' = mset m'' \<Longrightarrow> same_goval (GMap m) (GMap m'')"

subsection \<open>Properties\<close>

lemma those_map:
  "those (map f xs) = (if \<forall>x \<in> set xs. f x \<noteq> None then Some (map (the \<circ> f) xs) else None)"
  by (induction xs) (auto split: option.splits)

lemma normalizeCanonical_idem: "normalizeCanonical (normalizeCanonical v) = normalizeCanonical v"
  by (induction v rule: normalizeCanonical.induct) auto

lemma CanonicalJSON_list:
  "CanonicalJSON fmt (GList xs) =
     map_option (\<lambda>ys. ''['' @ join '','' ys @ '']'') (those (map (CanonicalJSON fmt) xs))"
  by (simp add: CanonicalJSON_def [abs_def] comp_def)

definition encode_members :: "(string \<times> string) list \<Rightarrow> string" where
  "encode_members kvs =
     [CHR 0x7B] @ join '','' (map (\<lambda>(k, v). quote_string k @ '':'' @ v) (sort_key fst kvs)) @ [CHR 0x7D]"

abbreviation canon_member :: "(rat \<Rightarrow> string) \<Rightarrow> string \<times> goval \<Rightarrow> (string \<times> string) option" where
  "canon_member fmt kv \<equiv> map_option (Pair (fst kv)) (CanonicalJSON fmt (snd kv))"

lemma CanonicalJSON_map:
  "CanonicalJSON fmt (GMap m) = map_option encode_members (those (map (canon_member fmt) m))"
  by (simp add: CanonicalJSON_def comp_def encode_members_def [abs_def])

lemma canon_member_key: "canon_member fmt kv \<noteq> None \<Longrightarrow> fst (the (canon_member fmt kv)) = fst kv"
  by auto

lemma CanonicalJSON_map_perm:
  assumes "mset m = mset m'" and "distinct (map fst m)"
  shows "CanonicalJSON fmt (GMap m) = CanonicalJSON fmt (GMap m')"
proof (cases "\<forall>kv \<in> set m. canon_member fmt kv \<noteq> None")
  case True
  let ?g = "the \<circ> canon_member fmt"
  have "set m = set m'" using assms(1) by (rule mset_eq_setD)
  with True have th: "those (map (canon_member fmt) m) = Some (map ?g m)"
    "those (map (canon_member fmt) m') = Some (map ?g m')"
    by (simp_all add: those_map)
  have "map fst (map ?g m) = map fst m" using True canon_member_key by simp
  then have "distinct (map fst (map ?g m))" using assms(2) by (simp only:)
  moreover have "mset (map ?g m) = mset (map ?g m')" using assms(1) by simp
  ultimately have "sort_key fst (map ?g m) = sort_key fst (map ?g m')"
    by (intro sort_key_perm)
  then show ?thesis by (simp add: CanonicalJSON_map th encode_members_def)
next
  case False
  have "set m = set m'" using assms(1) by (rule mset_eq_setD)
  with False show ?thesis by (auto simp add: CanonicalJSON_map those_map)
qed

lemma CanonicalJSON_same:
  assumes "same_goval v w" and "wf_goval v"
  shows "CanonicalJSON fmt v = CanonicalJSON fmt w"
  using assms
proof (induction rule: same_goval.induct)
  case (same_refl v)
  show ?case ..
next
  case (same_list xs ys)
  then have "list_all2 (\<lambda>a b. CanonicalJSON fmt a = CanonicalJSON fmt b) xs ys"
    by (auto simp: list_all2_conv_all_nth)
  then have "map (CanonicalJSON fmt) xs = map (CanonicalJSON fmt) ys"
    by (auto simp: list_all2_conv_all_nth intro: nth_equalityI)
  then show ?case by (simp only: CanonicalJSON_list)
next
  case (same_map m m' m'')
  then have all2: "list_all2 (\<lambda>a b. fst a = fst b \<and> CanonicalJSON fmt (snd a) = CanonicalJSON fmt (snd b)) m m'"
    by (auto simp: list_all2_conv_all_nth)
  then have "map (canon_member fmt) m = map (canon_member fmt) m'" and "map fst m = map fst m'"
    by (auto simp: list_all2_conv_all_nth intro: nth_equalityI)
  then have "CanonicalJSON fmt (GMap m) = CanonicalJSON fmt (GMap m')" and "distinct (map fst m')"
    using same_map.prems by (simp_all only: CanonicalJSON_map wf_goval.simps)
  then show ?case using CanonicalJSON_map_perm [OF same_map.hyps] by simp
qed

end
