(* ===== verification/Lease.thy ===== *)
theory Lease
  imports Prelude
begin

text \<open>
  The interface both lease users of the system promise (the risk job queue of
  \<open>internal/jobs\<close> and the collector schedules of \<open>internal/collector\<close>): a resource
  has at most one live lease token, an operation that finishes the work of a token takes effect
  exactly when that token is live, and afterwards no token is. The consequences for a client that
  holds a token (a stale holder changes nothing, a finish is never repeated) are proved here once.
\<close>

locale lease_table =
  fixes inv :: "'s \<Rightarrow> bool"
    and live :: "'s \<Rightarrow> 'k \<Rightarrow> 't \<Rightarrow> int \<Rightarrow> bool"
    and finish :: "'s \<Rightarrow> 'k \<Rightarrow> 't \<Rightarrow> int \<Rightarrow> 's \<times> bool"
  assumes live_unique: "inv s \<Longrightarrow> live s k t now \<Longrightarrow> live s k t' now' \<Longrightarrow> t = t'"
    and live_earlier: "inv s \<Longrightarrow> live s k t now \<Longrightarrow> now' \<le> now \<Longrightarrow> live s k t now'"
    and finish_live: "inv s \<Longrightarrow> snd (finish s k t now) \<longleftrightarrow> live s k t now"
    and finish_frees: "inv s \<Longrightarrow> live s k t now \<Longrightarrow> \<not> live (fst (finish s k t now)) k t' now'"
    and finish_stale: "inv s \<Longrightarrow> \<not> live s k t now \<Longrightarrow> fst (finish s k t now) = s"
    and finish_frame: "inv s \<Longrightarrow> k' \<noteq> k \<Longrightarrow> live (fst (finish s k t now)) k' t' now' \<longleftrightarrow> live s k' t' now'"
    and finish_inv: "inv s \<Longrightarrow> inv (fst (finish s k t now))"
begin

lemma stale_holder:
  assumes "inv s" and "live s k t' now'" and "t \<noteq> t'"
  shows "finish s k t now = (s, False)"
proof -
  have "\<not> live s k t now" using assms live_unique by blast
  then have "fst (finish s k t now) = s" and "\<not> snd (finish s k t now)"
    using assms(1) by (simp_all add: finish_stale finish_live)
  then show ?thesis by (metis prod.collapse)
qed

lemma finish_once:
  assumes "inv s" and "snd (finish s k t now)"
  shows "finish (fst (finish s k t now)) k t' now' = (fst (finish s k t now), False)"
proof -
  let ?s = "fst (finish s k t now)"
  have "inv ?s" using assms(1) by (rule finish_inv)
  moreover have "\<not> live ?s k t' now'"
    using assms finish_live finish_frees by blast
  ultimately have "fst (finish ?s k t' now') = ?s" and "\<not> snd (finish ?s k t' now')"
    by (simp_all add: finish_stale finish_live)
  then show ?thesis by (metis prod.collapse)
qed

lemma expired_holder:
  assumes "inv s" and "\<not> live s k t now" and "now \<le> now'"
  shows "finish s k t now' = (s, False)"
proof -
  have "\<not> live s k t now'" using assms live_earlier by blast
  then show ?thesis using assms(1) by (metis finish_live finish_stale prod.collapse)
qed

end

end
