(* ===== verification/GoTime.thy ===== *)
theory GoTime
  imports Prelude
begin

text \<open>
  The part of Go's \<open>time\<close> package the sources use. An instant is its distance from the Unix
  epoch in nanoseconds, unbounded; a \<open>Duration\<close> is a signed 64-bit number of nanoseconds.
  Calendar dates are the proleptic Gregorian calendar. A \<open>Location\<close> is the function from an
  instant in Unix seconds to its offset from UTC in seconds that \<open>time.LoadLocation\<close> gives: the time zone
  database itself is outside the program. The layouts the sources use are one definition each.
\<close>

type_synonym time = int
type_synonym Duration = int
type_synonym Location = "int \<Rightarrow> int"

definition second_ns :: int where "second_ns = 10 ^ 9"
definition day_ns :: int where "day_ns = 86400 * 10 ^ 9"

definition UTC :: Location where "UTC s = 0"

definition zero_time :: time where "zero_time = - 62135596800 * 10 ^ 9"

text \<open>\<open>Time.Sub\<close> saturates at the bounds of \<open>Duration\<close>.\<close>

definition Sub :: "time \<Rightarrow> time \<Rightarrow> Duration" where
  "Sub t u = max min_int64 (min max_int64 (t - u))"

subsection \<open>Dates\<close>

text \<open>Days are counted from 1970-01-01; years are astronomical.\<close>

definition is_leap :: "int \<Rightarrow> bool" where
  "is_leap y \<longleftrightarrow> y mod 4 = 0 \<and> (y mod 100 \<noteq> 0 \<or> y mod 400 = 0)"

definition leaps :: "int \<Rightarrow> int" where
  "leaps y = y div 4 - y div 100 + y div 400"

definition year_start :: "int \<Rightarrow> int" where
  "year_start y = 365 * (y - 1970) + leaps (y - 1) - 477"

definition year_of :: "int \<Rightarrow> int" where
  "year_of d = (let g = 1970 + (400 * d) div 146097
     in if year_start (g + 1) \<le> d then g + 1 else if d < year_start g then g - 1 else g)"

definition month_start :: "bool \<Rightarrow> int \<Rightarrow> int" where
  "month_start leap m = (let l = (if leap then 1 else 0) in
     if m \<le> 1 then 0 else if m = 2 then 31 else if m = 3 then 59 + l else if m = 4 then 90 + l
     else if m = 5 then 120 + l else if m = 6 then 151 + l else if m = 7 then 181 + l
     else if m = 8 then 212 + l else if m = 9 then 243 + l else if m = 10 then 273 + l
     else if m = 11 then 304 + l else if m = 12 then 334 + l else 365 + l)"

definition month_of :: "bool \<Rightarrow> int \<Rightarrow> int" where
  "month_of leap k = (if k < month_start leap 2 then 1 else if k < month_start leap 3 then 2
     else if k < month_start leap 4 then 3 else if k < month_start leap 5 then 4
     else if k < month_start leap 6 then 5 else if k < month_start leap 7 then 6
     else if k < month_start leap 8 then 7 else if k < month_start leap 9 then 8
     else if k < month_start leap 10 then 9 else if k < month_start leap 11 then 10
     else if k < month_start leap 12 then 11 else 12)"

definition civil :: "int \<Rightarrow> int \<times> int \<times> int" where
  "civil d = (let y = year_of d; k = d - year_start y; m = month_of (is_leap y) k
     in (y, m, k - month_start (is_leap y) m + 1))"

text \<open>\<open>time.Date\<close> normalises the month into the year and adds the days.\<close>

definition days_of :: "int \<Rightarrow> int \<Rightarrow> int \<Rightarrow> int" where
  "days_of y m d = (let y' = y + (m - 1) div 12; m' = (m - 1) mod 12 + 1
     in year_start y' + month_start (is_leap y') m' + d - 1)"

definition weekday :: "int \<Rightarrow> int" where
  "weekday d = (d + 4) mod 7"

definition valid_date :: "int \<Rightarrow> int \<Rightarrow> int \<Rightarrow> bool" where
  "valid_date y m d \<longleftrightarrow> 1 \<le> m \<and> m \<le> 12 \<and> 1 \<le> d
     \<and> d \<le> month_start (is_leap y) (m + 1) - month_start (is_leap y) m"

lemma div_pred_eq:
  fixes y n :: int
  assumes "0 < n"
  shows "y div n - (y - 1) div n = (if y mod n = 0 then 1 else 0)"
proof -
  define q r where "q = y div n" and "r = y mod n"
  have y: "y = n * q + r" "0 \<le> r" "r < n" using assms by (simp_all add: q_def r_def)
  have "(y - 1) div n = (if r = 0 then q - 1 else q)"
  proof (cases "r = 0")
    case True
    have "(y - 1) div n = q - 1"
      by (rule int_div_pos_eq [where r = "n - 1"]) (use y True assms in \<open>simp_all add: algebra_simps\<close>)
    then show ?thesis using True by simp
  next
    case False
    have "(y - 1) div n = q"
      by (rule int_div_pos_eq [where r = "r - 1"]) (use y False in simp_all)
    then show ?thesis using False by simp
  qed
  then show ?thesis by (simp add: q_def r_def)
qed

lemma leaps_step: "leaps y - leaps (y - 1) = (if is_leap y then 1 else 0)"
proof -
  have "y mod 4 = 0" if "y mod 100 = 0" using that dvd_trans [of 4 100 y] by (simp add: mod_eq_0_iff_dvd)
  moreover have "y mod 100 = 0" if "y mod 400 = 0" using that dvd_trans [of 100 400 y] by (simp add: mod_eq_0_iff_dvd)
  moreover have "leaps y - leaps (y - 1) =
      (y div 4 - (y - 1) div 4) - (y div 100 - (y - 1) div 100) + (y div 400 - (y - 1) div 400)"
    by (simp only: leaps_def diff_conv_add_uminus minus_add_distrib minus_minus ac_simps)
  then have "leaps y - leaps (y - 1) = (if y mod 4 = 0 then 1 else 0)
      - (if y mod 100 = 0 then 1 else 0) + (if y mod 400 = 0 then 1 else 0)"
    using div_pred_eq [of 4 y] div_pred_eq [of 100 y] div_pred_eq [of 400 y] by (simp only: zero_less_numeral simp_thms)
  ultimately show ?thesis
    by (cases "y mod 4 = 0"; cases "y mod 100 = 0"; cases "y mod 400 = 0") (simp_all add: is_leap_def)
qed

lemma div_bounds:
  fixes z n :: int
  assumes "0 < n"
  shows "n * (z div n) \<le> z" and "z < n * (z div n) + n"
  using pos_mod_bound [OF assms, of z] pos_mod_sign [OF assms, of z] mult_div_mod_eq [of n z] by linarith+

lemma leaps_bounds: "400 * leaps z \<le> 97 * z + 400" "97 * z \<le> 400 * leaps z + 800"
proof -
  have up: "400 * (a - b + c) \<le> 97 * z + 400" if "4 * a \<le> z" "z < 100 * b + 100" "400 * c \<le> z" for a b c :: int
    using that by simp
  have lo: "97 * z \<le> 400 * (a - b + c) + 800" if "z < 4 * a + 4" "100 * b \<le> z" "z < 400 * c + 400" for a b c :: int
    using that by simp
  show "400 * leaps z \<le> 97 * z + 400"
    unfolding leaps_def by (rule up; rule div_bounds; simp)
  show "97 * z \<le> 400 * leaps z + 800"
    unfolding leaps_def by (rule lo; rule div_bounds; simp)
qed

lemma year_start_Suc: "year_start (y + 1) = year_start y + 365 + (if is_leap y then 1 else 0)"
  using leaps_step [of y] by (simp add: year_start_def)

lemma year_start_mono: "x \<le> y \<Longrightarrow> year_start x + 365 * (y - x) \<le> year_start y"
proof (induction "nat (y - x)" arbitrary: y)
  case (Suc n)
  then have "year_start x + 365 * ((y - 1) - x) \<le> year_start (y - 1)" by (intro Suc.hyps(1)) auto
  then show ?case using year_start_Suc [of "y - 1"] by (simp split: if_splits)
qed simp

lemma year_start_unique:
  "year_start x \<le> d \<Longrightarrow> d < year_start (x + 1) \<Longrightarrow> year_start y \<le> d \<Longrightarrow> d < year_start (y + 1) \<Longrightarrow> x = y"
  using year_start_mono [of "x + 1" y] year_start_mono [of "y + 1" x] by (cases x y rule: linorder_cases) simp_all

lemma year_of_bounds: "year_start (year_of d) \<le> d \<and> d < year_start (year_of d + 1)"
proof -
  define g where "g = 1970 + (400 * d) div 146097"
  have g: "146097 * (g - 1970) \<le> 400 * d" "400 * d < 146097 * (g - 1970) + 146097"
    using div_bounds [of 146097 "400 * d"] by (simp_all add: g_def)
  have s: "400 * year_start z \<le> 146097 * (z - 1970) + 800 \<and> 146097 * (z - 1970) \<le> 400 * year_start z + 800" for z
    using leaps_bounds [of "z - 1"] by (simp add: year_start_def)
  have lo: "year_start (g - 1) \<le> d" using g(1) s [of "g - 1"] by simp
  have hi: "d < year_start (g + 2)" using g(2) s [of "g + 2"] by simp
  show ?thesis
    unfolding year_of_def g_def [symmetric] Let_def using lo hi by (auto simp: add.commute)
qed

lemma month_of_bounds:
  assumes "0 \<le> k" and "k < 365 + (if leap then 1 else 0)"
  shows "1 \<le> month_of leap k \<and> month_of leap k \<le> 12
    \<and> month_start leap (month_of leap k) \<le> k \<and> k < month_start leap (month_of leap k + 1)"
  using assms by (simp add: month_of_def month_start_def split: if_split)

lemma month_cases:
  fixes m :: int
  assumes "1 \<le> m" and "m \<le> 12"
  obtains "m = 1" | "m = 2" | "m = 3" | "m = 4" | "m = 5" | "m = 6" | "m = 7" | "m = 8" | "m = 9"
    | "m = 10" | "m = 11" | "m = 12"
proof -
  have "m \<in> {1..12}" using assms by simp
  then have "m \<in> {1, 2, 3, 4, 5, 6, 7, 8, 9, 10, 11, 12}" by (simp add: atLeastAtMost_insertL [symmetric]) arith
  then show ?thesis using that by blast
qed

lemma month_of_unique:
  assumes "1 \<le> m" and "m \<le> 12" and "month_start leap m \<le> k" and "k < month_start leap (m + 1)"
  shows "month_of leap k = m"
  using assms(1,2) by (cases m rule: month_cases) (use assms(3,4) in \<open>cases leap; simp add: month_of_def month_start_def\<close>)+

lemma month_start_le: "m \<le> 13 \<Longrightarrow> month_start leap m \<le> 365 + (if leap then 1 else 0)"
  by (auto simp: month_start_def Let_def)

lemma month_start_nonneg: "0 \<le> month_start leap m"
  by (auto simp: month_start_def Let_def)

lemma days_of_civil:
  assumes "civil n = (y, m, d)"
  shows "days_of y m d = n \<and> valid_date y m d"
proof -
  let ?k = "n - year_start (year_of n)"
  have y: "y = year_of n" and m: "m = month_of (is_leap y) ?k"
    and d: "d = ?k - month_start (is_leap y) m + 1"
    using assms by (auto simp: civil_def Let_def)
  have "0 \<le> ?k" "?k < 365 + (if is_leap y then 1 else 0)"
    using year_of_bounds [of n] year_start_Suc [of "year_of n"] by (simp_all add: y)
  from month_of_bounds [OF this] have "1 \<le> m" "m \<le> 12" "month_start (is_leap y) m \<le> ?k" "?k < month_start (is_leap y) (m + 1)"
    by (simp_all only: m [symmetric])
  then show ?thesis by (simp add: d days_of_def valid_date_def y [symmetric])
qed

lemma civil_days_of:
  assumes "valid_date y m d"
  shows "civil (days_of y m d) = (y, m, d)"
proof -
  let ?n = "days_of y m d"
  have m: "1 \<le> m" "m \<le> 12" and d: "1 \<le> d" "month_start (is_leap y) m + d \<le> month_start (is_leap y) (m + 1)"
    using assms by (auto simp: valid_date_def)
  have n: "?n = year_start y + month_start (is_leap y) m + d - 1"
    using m by (simp add: days_of_def Let_def)
  have "year_start y \<le> ?n" "?n < year_start (y + 1)"
    using d m month_start_nonneg [of "is_leap y" m] month_start_le [of "m + 1" "is_leap y"] year_start_Suc [of y]
    unfolding n by simp_all
  then have y: "year_of ?n = y" using year_of_bounds [of ?n] year_start_unique by blast
  have "month_of (is_leap y) (?n - year_start y) = m"
    by (rule month_of_unique) (use m d n in simp_all)
  then show ?thesis by (simp add: civil_def Let_def y) (simp add: n)
qed

subsection \<open>Writing dates\<close>

function dec_str :: "int \<Rightarrow> string" where
  "dec_str i = (if i < 10 then [digit_char (nat i)] else dec_str (i div 10) @ [digit_char (nat (i mod 10))])"
  by pat_completeness auto
termination by (relation "measure nat") auto

declare dec_str.simps [simp del]

definition pad :: "nat \<Rightarrow> int \<Rightarrow> string" where
  "pad w i = (let s = dec_str i in replicate (w - length s) CHR ''0'' @ s)"

definition pad_int :: "nat \<Rightarrow> int \<Rightarrow> string" where
  "pad_int w i = (if i < 0 then ''-'' @ pad w (- i) else pad w i)"

definition date_str :: "int \<Rightarrow> string" where
  "date_str n = (let (y, m, d) = civil n in pad_int 4 y @ ''-'' @ pad 2 m @ ''-'' @ pad 2 d)"

lemma dec_str_eq: "0 \<le> i \<Longrightarrow> dec_str i = nat_str (nat i)"
proof (induction i rule: dec_str.induct)
  case (1 i)
  show ?case
  proof (cases "i < 10")
    case True
    then show ?thesis using 1 by (subst dec_str.simps, subst nat_str.simps) simp
  next
    case False
    then have i: "0 \<le> i div 10" "\<not> nat i < 10" using 1(2) by simp_all
    have "nat_str (nat i) = nat_str (nat (i div 10)) @ [digit_char (nat (i mod 10))]"
      using nat_div_distrib [OF 1(2), of 10] nat_mod_distrib [OF 1(2), of 10] i
      by (subst nat_str.simps) (simp only: if_False nat_numeral)
    then show ?thesis using 1(1) [OF False i(1)] False by (simp only: dec_str.simps [of i] if_False)
  qed
qed

lemma digits_val_pad [simp]: "0 \<le> i \<Longrightarrow> digits_val (pad w i) = nat i"
  by (simp add: pad_def Let_def digits_val_append dec_str_eq)

lemma pad_digits: "0 \<le> i \<Longrightarrow> c \<in> set (pad w i) \<Longrightarrow> is_digit c"
  using nat_str_digits [of c "nat i"] by (auto simp: pad_def Let_def is_digit_def dec_str_eq split: if_splits)

lemma pad_inj: "0 \<le> i \<Longrightarrow> 0 \<le> j \<Longrightarrow> pad w i = pad w j \<Longrightarrow> i = j"
  using digits_val_pad by (metis nat_0_le)

lemma pad_length: "0 \<le> i \<Longrightarrow> nat i < 10 ^ w \<Longrightarrow> 0 < w \<Longrightarrow> length (pad w i) = w"
  using nat_str_length [of "nat i" w] by (simp add: pad_def Let_def dec_str_eq)

lemma pad_hd: "0 \<le> i \<Longrightarrow> pad w i \<noteq> ''-'' @ s"
proof
  assume i: "0 \<le> i" and "pad w i = ''-'' @ s"
  then have "CHR ''-'' \<in> set (pad w i)" by simp
  from pad_digits [OF i this] show False by (simp add: is_digit_def)
qed

lemma pad_int_inj: "pad_int w i = pad_int w j \<Longrightarrow> i = j"
  using pad_hd [of i w "pad w (- j)"] pad_hd [of j w "pad w (- i)"] pad_inj [of i j w] pad_inj [of "- i" "- j" w]
  by (cases "i < 0"; cases "j < 0") (simp_all add: pad_int_def)

lemma date_str_inj: "date_str a = date_str b \<Longrightarrow> a = b"
proof -
  assume eq: "date_str a = date_str b"
  obtain y m d y' m' d' where c: "civil a = (y, m, d)" "civil b = (y', m', d')" by (metis prod_cases3)
  then have v: "valid_date y m d" "valid_date y' m' d'" and n: "days_of y m d = a" "days_of y' m' d' = b"
    using days_of_civil by blast+
  have r: "1 \<le> m" "nat m < 10 ^ 2" "1 \<le> d" "nat d < 10 ^ 2" if "valid_date y m d" for y m d
    using that month_start_nonneg [of "is_leap y" m] by (auto simp: valid_date_def month_start_def Let_def split: if_splits)
  note r = r [OF v(1)] r [OF v(2)]
  have len: "length (pad 2 m) = 2" "length (pad 2 d) = 2" "length (pad 2 m') = 2" "length (pad 2 d') = 2"
    using r by (simp_all add: pad_length)
  have "pad_int 4 y = pad_int 4 y' \<and> pad 2 m = pad 2 m' \<and> pad 2 d = pad 2 d'"
    using eq len append_eq_append_conv [of "pad_int 4 y" "pad_int 4 y'"] append_eq_append_conv [of "pad 2 m" "pad 2 m'"]
    by (simp add: date_str_def c)
  then have "y = y'" "m = m'" "d = d'" using pad_int_inj [of 4 y y'] pad_inj [of m m' 2] pad_inj [of d d' 2] r by simp_all
  then show "a = b" using n by simp
qed

subsection \<open>Local time\<close>

definition unix :: "time \<Rightarrow> int" where "unix t = t div second_ns"

definition local_seconds :: "Location \<Rightarrow> time \<Rightarrow> int" where
  "local_seconds loc t = unix t + loc (unix t)"

definition local_day :: "Location \<Rightarrow> time \<Rightarrow> int" where
  "local_day loc t = local_seconds loc t div 86400"

definition format_date :: "Location \<Rightarrow> time \<Rightarrow> string" where
  "format_date loc t = date_str (local_day loc t)"

text \<open>
  The instant \<open>time.Date\<close> finds for a local time: the offset in force at the instant read as
  UTC, corrected by the offset in force at the instant that gives.
\<close>

definition date_at :: "Location \<Rightarrow> int \<Rightarrow> int" where
  "date_at loc local = (let off = loc local
     in if off = 0 then local else local - loc (local - off))"

definition Midnight :: "Location \<Rightarrow> int \<Rightarrow> time" where
  "Midnight loc day = date_at loc (86400 * day) * second_ns"

definition AddDays :: "Location \<Rightarrow> int \<Rightarrow> time \<Rightarrow> time" where
  "AddDays loc k t = date_at loc (local_seconds loc t + 86400 * k) * second_ns + t mod second_ns"

definition trim_zeros :: "string \<Rightarrow> string" where
  "trim_zeros s = rev (dropWhile ((=) CHR ''0'') (rev s))"

text \<open>The layouts \<open>RFC3339\<close> and \<open>RFC3339Nano\<close>, in UTC.\<close>

definition clock_str :: "time \<Rightarrow> string" where
  "clock_str t = (let s = unix t mod 86400
     in date_str (unix t div 86400) @ ''T'' @ pad 2 (s div 3600) @ '':'' @ pad 2 (s div 60 mod 60)
        @ '':'' @ pad 2 (s mod 60))"

definition format_RFC3339 :: "time \<Rightarrow> string" where
  "format_RFC3339 t = clock_str t @ ''Z''"

definition format_RFC3339Nano :: "time \<Rightarrow> string" where
  "format_RFC3339Nano t = (let ns = t mod second_ns
     in clock_str t @ (if ns = 0 then [] else ''.'' @ trim_zeros (pad 9 ns)) @ ''Z'')"

lemma date_at_fixed: "date_at (\<lambda>_. off) local = local - off"
  by (simp add: date_at_def)

lemma unix_mult [simp]: "unix (s * second_ns) = s" "unix (s * second_ns + t mod second_ns) = s"
  by (simp_all add: unix_def second_ns_def)

lemma local_day_Midnight_fixed [simp]: "local_day (\<lambda>_. off) (Midnight (\<lambda>_. off) n) = n"
  by (simp add: local_day_def local_seconds_def Midnight_def date_at_fixed)

lemma AddDays_Midnight_fixed [simp]: "AddDays (\<lambda>_. off) k (Midnight (\<lambda>_. off) n) = Midnight (\<lambda>_. off) (n + k)"
proof -
  have "local_seconds (\<lambda>_. off) (Midnight (\<lambda>_. off) n) = 86400 * n"
    by (simp add: local_seconds_def Midnight_def date_at_fixed)
  moreover have "Midnight (\<lambda>_. off) n mod second_ns = 0" by (simp add: Midnight_def)
  ultimately show ?thesis by (simp add: AddDays_def Midnight_def date_at_fixed algebra_simps)
qed

lemma Midnight_fixed_le [simp]: "Midnight (\<lambda>_. off) m \<le> Midnight (\<lambda>_. off) n \<longleftrightarrow> m \<le> n"
  by (simp add: Midnight_def date_at_fixed second_ns_def)

lemma Midnight_fixed_bounds:
  "Midnight (\<lambda>_. off) (local_day (\<lambda>_. off) t) \<le> t \<and> t < Midnight (\<lambda>_. off) (local_day (\<lambda>_. off) t + 1)"
proof -
  have "86400 * (local_seconds (\<lambda>_. off) t div 86400) \<le> unix t + off"
    "unix t + off < 86400 * (local_seconds (\<lambda>_. off) t div 86400) + 86400"
    using div_bounds [of 86400 "unix t + off"] by (simp_all add: local_seconds_def)
  moreover have "second_ns * unix t \<le> t" "t < second_ns * unix t + second_ns"
    using div_bounds [of second_ns t] by (simp_all add: unix_def second_ns_def)
  ultimately show ?thesis
    by (simp add: Midnight_def date_at_fixed local_day_def second_ns_def algebra_simps)
qed

subsection \<open>Reading dates\<close>

text \<open>A fixed number of digits at the front of the text, as \<open>getnum\<close> with \<open>fixed\<close> set.\<close>

definition take_digits :: "nat \<Rightarrow> string \<Rightarrow> (nat \<times> string) option" where
  "take_digits n s = (if n \<le> length s \<and> list_all is_digit (take n s)
     then Some (digits_val (take n s), drop n s) else None)"

definition take_char :: "char \<Rightarrow> string \<Rightarrow> string option" where
  "take_char c s = (case s of [] \<Rightarrow> None | d # t \<Rightarrow> if d = c then Some t else None)"

definition take_date :: "string \<Rightarrow> ((int \<times> int \<times> int) \<times> string) option" where
  "take_date s = do {
     (y, s) \<leftarrow> take_digits 4 s; s \<leftarrow> take_char CHR ''-'' s;
     (m, s) \<leftarrow> take_digits 2 s; s \<leftarrow> take_char CHR ''-'' s;
     (d, s) \<leftarrow> take_digits 2 s;
     if valid_date (int y) (int m) (int d) then Some ((int y, int m, int d), s) else None }"

text \<open>\<open>time.Parse("2006-01-02", s)\<close>, as the number of the day.\<close>

definition parse_date :: "string \<Rightarrow> int option" where
  "parse_date s = (case take_date s of
      Some ((y, m, d), []) \<Rightarrow> Some (days_of y m d)
    | _ \<Rightarrow> None)"

definition take_hour :: "string \<Rightarrow> (nat \<times> string) option" where
  "take_hour s = (case take_digits 2 s of Some r \<Rightarrow> Some r | None \<Rightarrow> take_digits 1 s)"

definition digits_int :: "string \<Rightarrow> int" where
  "digits_int s = foldl (\<lambda>v c. 10 * v + int (digit_val c)) 0 s"

definition take_fraction :: "string \<Rightarrow> int \<times> string" where
  "take_fraction s = (case s of
      c # d # t \<Rightarrow>
        if (c = CHR ''.'' \<or> c = CHR '','') \<and> is_digit d
        then let ds = takeWhile is_digit (d # t); k = take 9 ds
             in (digits_int k * 10 ^ (9 - length k), dropWhile is_digit (d # t))
        else (0, s)
    | _ \<Rightarrow> (0, s))"

definition take_zone :: "string \<Rightarrow> (int \<times> string) option" where
  "take_zone s = (case s of
      [] \<Rightarrow> None
    | c # t \<Rightarrow>
        if c = CHR ''Z'' then Some (0, t)
        else do {
          (h, t) \<leftarrow> take_digits 2 t; t \<leftarrow> take_char CHR '':'' t; (m, t) \<leftarrow> take_digits 2 t;
          if h > 24 \<or> m > 60 then None
          else if c = CHR ''+'' then Some (60 * (60 * int h + int m), t)
          else if c = CHR ''-'' then Some (- (60 * (60 * int h + int m)), t)
          else None })"

text \<open>\<open>time.Parse(time.RFC3339Nano, s)\<close>, as the instant it denotes.\<close>

definition parse_RFC3339 :: "string \<Rightarrow> time option" where
  "parse_RFC3339 s = do {
     ((y, mo, d), s) \<leftarrow> take_date s; s \<leftarrow> take_char CHR ''T'' s;
     (h, s) \<leftarrow> take_hour s; s \<leftarrow> take_char CHR '':'' s;
     (mi, s) \<leftarrow> take_digits 2 s; s \<leftarrow> take_char CHR '':'' s;
     (sec, s) \<leftarrow> take_digits 2 s;
     let (ns, s) = take_fraction s in do {
       (zone, s) \<leftarrow> take_zone s;
       if s = [] \<and> h < 24 \<and> mi < 60 \<and> sec < 60
       then Some ((86400 * days_of y mo d + 3600 * int h + 60 * int mi + int sec - zone) * second_ns + ns)
       else None } }"

end
