(* ===== verification/Jobs.thy ===== *)
theory Jobs
  imports Canonical_Json Lease GoTime
begin

text \<open>
  The durable risk job queue, \<open>internal/jobs/queue.go\<close>. The tables \<open>risk_jobs\<close>,
  \<open>risk_job_attempts\<close> and the part of \<open>scenario_runs\<close> the queue touches are the
  record \<open>jobs_db\<close>; every method of \<open>Queue\<close> is one definition that takes the tables and
  returns them with its result. The database clock \<open>clock_timestamp()\<close> is the argument
  \<open>now\<close> (nanoseconds), a generated row id the argument \<open>newID\<close>, the rows other
  transactions have locked (\<open>SKIP LOCKED\<close>) the argument \<open>locked\<close>, and the failing
  database calls the argument \<open>fault\<close>. The CHECK and UNIQUE constraints of migration 00008
  are \<open>job_row_ok\<close> and the uniqueness tests of the inserts: a statement that violates one
  fails. The column \<open>updated_at\<close>, which no Go code reads, is left out.
\<close>

datatype State = StateQueued | StateRunning | StateSucceeded | StateRetryableFailed | StateFailed | StateCancelled

record Job =
  job_ID :: string
  job_Kind :: string
  job_SchemaVersion :: string
  job_IdempotencyKey :: string
  job_InputSnapshotIDs :: "string list"
  job_Payload :: string
  job_State :: State
  job_AttemptCount :: int
  job_MaxAttempts :: int
  job_AvailableAt :: time
  job_LeaseOwner :: "string option"
  job_LeaseExpiresAt :: "time option"
  job_Result :: "string option"
  job_ResultHash :: "string option"
  job_ErrorCode :: "string option"
  job_ErrorMessage :: "string option"
  job_ErrorDetails :: "string option"
  job_CompletedAt :: "time option"
  job_CreatedAt :: time

record EnqueueRequest =
  req_Kind :: string
  req_SchemaVersion :: string
  req_IdempotencyKey :: string
  req_InputSnapshotIDs :: "string list"
  req_Payload :: goval
  req_MaxAttempts :: int
  req_AvailableAt :: "time option"

record Claim =
  claim_Job :: Job
  claim_WorkerID :: string

record Failure =
  fail_Code :: string
  fail_Message :: string
  fail_Details :: goval
  fail_Retryable :: bool
  fail_Delay :: int

record Attempt =
  att_JobID :: string
  att_Attempt :: int
  att_WorkerID :: string
  att_LeaseExpiresAt :: time
  att_FinishedAt :: "time option"
  att_Outcome :: "string option"
  att_ErrorCode :: "string option"
  att_ErrorMessage :: "string option"
  att_ErrorDetails :: "string option"

record ScenarioRun =
  run_JobID :: string
  run_State :: string
  run_CompletedAt :: "time option"

record jobs_db =
  risk_jobs :: "Job list"
  risk_job_attempts :: "Attempt list"
  scenario_runs :: "ScenarioRun list"

subsection \<open>The envelope\<close>

fun check_snapshot_ids :: "string list \<Rightarrow> string list \<Rightarrow> string + unit" where
  "check_snapshot_ids seen [] = Inr ()"
| "check_snapshot_ids seen (i # ids) =
     (if i = [] then Inl ''job snapshot IDs must not be empty''
      else if i \<in> set seen then Inl ''job snapshot IDs must be unique''
      else check_snapshot_ids (i # seen) ids)"

definition validateEnvelope :: "EnqueueRequest \<Rightarrow> string + unit" where
  "validateEnvelope r =
     (if req_Kind r = [] \<or> hd (req_Kind r) < CHR ''a'' \<or> hd (req_Kind r) > CHR ''z'' \<or> CHR ''.'' \<notin> set (req_Kind r)
      then Inl ''job kind must be a lowercase dotted name''
      else if req_SchemaVersion r = [] then Inl ''job schema version is required''
      else if req_IdempotencyKey r = [] \<or> length (req_IdempotencyKey r) > 255
      then Inl ''job idempotency key must be 1..255 characters''
      else res_bind (check_snapshot_ids [] (req_InputSnapshotIDs r)) (\<lambda>_.
        if req_Payload r = GNil then Inl ''job payload is required'' else Inr ()))"

text \<open>The constraints of table \<open>risk_jobs\<close>.\<close>

definition job_row_ok :: "Job \<Rightarrow> bool" where
  "job_row_ok j \<longleftrightarrow> trim_char CHR '' '' (job_Kind j) \<noteq> [] \<and> trim_char CHR '' '' (job_SchemaVersion j) \<noteq> []
     \<and> trim_char CHR '' '' (job_IdempotencyKey j) \<noteq> []
     \<and> 0 \<le> job_AttemptCount j \<and> 0 < job_MaxAttempts j \<and> job_AttemptCount j \<le> job_MaxAttempts j
     \<and> (job_State j = StateRunning \<longrightarrow> job_LeaseOwner j \<noteq> None \<and> job_LeaseExpiresAt j \<noteq> None)
     \<and> (job_State j \<in> {StateQueued, StateRunning, StateRetryableFailed} \<or> job_CompletedAt j \<noteq> None)"

subsection \<open>Enqueue\<close>

definition SchemaVersion :: string where "SchemaVersion = ''1.0''"

definition new_job :: "string \<Rightarrow> string \<Rightarrow> int \<Rightarrow> time \<Rightarrow> time \<Rightarrow> string \<Rightarrow> EnqueueRequest \<Rightarrow> Job" where
  "new_job newID version maxAttempts availableAt now payload r =
     \<lparr>job_ID = newID, job_Kind = req_Kind r, job_SchemaVersion = version,
      job_IdempotencyKey = req_IdempotencyKey r, job_InputSnapshotIDs = req_InputSnapshotIDs r,
      job_Payload = payload, job_State = StateQueued, job_AttemptCount = 0,
      job_MaxAttempts = maxAttempts, job_AvailableAt = availableAt, job_LeaseOwner = None,
      job_LeaseExpiresAt = None, job_Result = None, job_ResultHash = None, job_ErrorCode = None,
      job_ErrorMessage = None, job_ErrorDetails = None, job_CompletedAt = None, job_CreatedAt = now\<rparr>"

text \<open>The INSERT with its \<^verbatim>\<open>ON CONFLICT (kind, idempotency_key) DO UPDATE SET id = risk_jobs.id\<close>.\<close>

definition insert_job :: "db_fault \<Rightarrow> Job \<Rightarrow> jobs_db \<Rightarrow> jobs_db \<times> (string + Job)" where
  "insert_job fault j db =
     (if fault (DbStmt 0) \<or> \<not> job_row_ok j then (db, Inl ''insert job'')
      else case find (\<lambda>e. job_Kind e = job_Kind j \<and> job_IdempotencyKey e = job_IdempotencyKey j) (risk_jobs db) of
        Some existing \<Rightarrow> (db, Inr existing)
      | None \<Rightarrow> (db\<lparr>risk_jobs := risk_jobs db @ [j]\<rparr>, Inr j))"

definition Enqueue :: "bool \<Rightarrow> (rat \<Rightarrow> string) \<Rightarrow> db_fault \<Rightarrow> time \<Rightarrow> time \<Rightarrow> string \<Rightarrow> EnqueueRequest
    \<Rightarrow> jobs_db \<Rightarrow> jobs_db \<times> (string + Job)" where
  "Enqueue pool fmt fault wall now newID r db =
     (if \<not> pool then (db, Inl ''jobs queue requires a database pool'')
      else case validateEnvelope r of Inl e \<Rightarrow> (db, Inl e) | Inr _ \<Rightarrow>
      (case CanonicalJSON fmt (req_Payload r) of None \<Rightarrow> (db, Inl ''serialize job payload'') | Some payload \<Rightarrow>
        let version = (if req_SchemaVersion r = [] then SchemaVersion else req_SchemaVersion r);
            maxAttempts = (if req_MaxAttempts r \<le> 0 then 3 else req_MaxAttempts r);
            availableAt = (case req_AvailableAt r of None \<Rightarrow> wall | Some t \<Rightarrow> t)
        in insert_job fault (new_job newID version maxAttempts availableAt now payload r) db))"

subsection \<open>Claim\<close>

definition claimable :: "time \<Rightarrow> Job \<Rightarrow> bool" where
  "claimable now j \<longleftrightarrow> job_State j \<in> {StateQueued, StateRetryableFailed} \<and> job_AvailableAt j \<le> now"

definition claim_order :: "Job \<Rightarrow> time \<times> time \<times> string" where
  "claim_order j = (job_AvailableAt j, job_CreatedAt j, job_ID j)"

definition candidates :: "(string \<Rightarrow> bool) \<Rightarrow> time \<Rightarrow> jobs_db \<Rightarrow> Job list" where
  "candidates locked now db =
     sort_key claim_order (filter (\<lambda>j. claimable now j \<and> \<not> locked (job_ID j)) (risk_jobs db))"

definition claimed :: "string \<Rightarrow> int \<Rightarrow> time \<Rightarrow> Job \<Rightarrow> Job" where
  "claimed workerID lease now j = j\<lparr>job_State := StateRunning, job_AttemptCount := job_AttemptCount j + 1,
     job_LeaseOwner := Some workerID, job_LeaseExpiresAt := Some (now + lease)\<rparr>"

definition new_attempt :: "string \<Rightarrow> int \<Rightarrow> time \<Rightarrow> Job \<Rightarrow> Attempt" where
  "new_attempt workerID lease now j = \<lparr>att_JobID = job_ID j, att_Attempt = job_AttemptCount j,
     att_WorkerID = workerID, att_LeaseExpiresAt = now + lease, att_FinishedAt = None,
     att_Outcome = None, att_ErrorCode = None, att_ErrorMessage = None, att_ErrorDetails = None\<rparr>"

definition attempt_key_free :: "jobs_db \<Rightarrow> Attempt \<Rightarrow> bool" where
  "attempt_key_free db a \<longleftrightarrow>
     (\<forall>b \<in> set (risk_job_attempts db). (att_JobID b, att_Attempt b) \<noteq> (att_JobID a, att_Attempt a))"

definition Claim_job :: "bool \<Rightarrow> db_fault \<Rightarrow> (string \<Rightarrow> bool) \<Rightarrow> time \<Rightarrow> string \<Rightarrow> int
    \<Rightarrow> jobs_db \<Rightarrow> jobs_db \<times> (string + Claim option)" where
  "Claim_job pool fault locked now workerID lease db =
     (if \<not> pool \<or> workerID = [] then (db, Inl ''worker ID and database pool are required'')
      else if lease \<le> 0 then (db, Inl ''lease must be positive'')
      else if fault DbBegin then (db, Inl ''begin claim transaction'')
      else if fault (DbStmt 0) then (db, Inl ''claim job'')
      else case candidates locked now db of
        [] \<Rightarrow> (db, Inr None)
      | c # _ \<Rightarrow>
        let j = claimed workerID lease now c;
            a = new_attempt workerID lease now j
        in if \<not> job_row_ok j then (db, Inl ''claim job'')
           else if fault (DbStmt 1) \<or> \<not> attempt_key_free db a then (db, Inl ''record job attempt'')
           else if fault DbCommit then (db, Inl ''commit claim transaction'')
           else (db\<lparr>risk_jobs := sql_update (\<lambda>r. job_ID r = job_ID c) (claimed workerID lease now) (risk_jobs db),
                   risk_job_attempts := risk_job_attempts db @ [a]\<rparr>,
                 Inr (Some \<lparr>claim_Job = j, claim_WorkerID = workerID\<rparr>)))"

subsection \<open>Complete, Renew, Fail\<close>

text \<open>The \<^verbatim>\<open>WHERE\<close> clause the three share: the claim still holds an unexpired lease.\<close>

definition leased_to :: "string \<Rightarrow> string \<Rightarrow> int \<Rightarrow> time \<Rightarrow> Job \<Rightarrow> bool" where
  "leased_to i w n now j \<longleftrightarrow> job_ID j = i \<and> job_State j = StateRunning \<and> job_LeaseOwner j = Some w
     \<and> job_AttemptCount j = n \<and> (case job_LeaseExpiresAt j of None \<Rightarrow> False | Some e \<Rightarrow> now < e)"

abbreviation holds_lease :: "Claim \<Rightarrow> time \<Rightarrow> Job \<Rightarrow> bool" where
  "holds_lease c now \<equiv>
     leased_to (job_ID (claim_Job c)) (claim_WorkerID c) (job_AttemptCount (claim_Job c)) now"

definition open_attempt :: "string \<Rightarrow> int \<Rightarrow> Attempt \<Rightarrow> bool" where
  "open_attempt i n a \<longleftrightarrow> att_JobID a = i \<and> att_Attempt a = n \<and> att_FinishedAt a = None"

definition completed :: "string \<Rightarrow> string \<Rightarrow> time \<Rightarrow> Job \<Rightarrow> Job" where
  "completed data hash now j = j\<lparr>job_State := StateSucceeded, job_Result := Some data,
     job_ResultHash := Some hash, job_LeaseOwner := None, job_LeaseExpiresAt := None,
     job_CompletedAt := Some now\<rparr>"

definition complete_tx :: "(string \<Rightarrow> string) \<Rightarrow> db_fault \<Rightarrow> time \<Rightarrow> Claim \<Rightarrow> string
    \<Rightarrow> jobs_db \<Rightarrow> jobs_db \<times> (string + bool)" where
  "complete_tx sha fault now c data db =
     (if fault DbBegin then (db, Inl ''begin'')
      else if fault (DbStmt 0) then (db, Inl ''complete job'')
      else if sql_count (holds_lease c now) (risk_jobs db) = 0 then (db, Inr False)
      else if fault (DbStmt 1) then (db, Inl ''finish attempt'')
      else if fault DbCommit then (db, Inl ''commit'')
      else (db\<lparr>risk_jobs := sql_update (holds_lease c now) (completed data (sha data) now) (risk_jobs db),
              risk_job_attempts := sql_update (open_attempt (job_ID (claim_Job c)) (job_AttemptCount (claim_Job c)))
                (\<lambda>a. a\<lparr>att_FinishedAt := Some now, att_Outcome := Some ''succeeded''\<rparr>) (risk_job_attempts db)\<rparr>,
            Inr True))"

definition Complete :: "(rat \<Rightarrow> string) \<Rightarrow> (string \<Rightarrow> string) \<Rightarrow> db_fault \<Rightarrow> time \<Rightarrow> Claim \<Rightarrow> goval
    \<Rightarrow> jobs_db \<Rightarrow> jobs_db \<times> (string + bool)" where
  "Complete fmt sha fault now c result db =
     (case CanonicalJSON fmt result of None \<Rightarrow> (db, Inl ''serialize result'')
      | Some data \<Rightarrow> complete_tx sha fault now c data db)"

definition Renew :: "bool \<Rightarrow> db_fault \<Rightarrow> time \<Rightarrow> Claim \<Rightarrow> int \<Rightarrow> jobs_db \<Rightarrow> jobs_db \<times> (string + bool)" where
  "Renew pool fault now c lease db =
     (if \<not> pool \<or> claim_WorkerID c = [] \<or> job_ID (claim_Job c) = []
      then (db, Inl ''worker ID, job ID, and database pool are required'')
      else if lease \<le> 0 then (db, Inl ''lease must be positive'')
      else if fault DbBegin then (db, Inl ''begin lease renewal transaction'')
      else if fault (DbStmt 0) then (db, Inl ''renew job lease'')
      else if sql_count (holds_lease c now) (risk_jobs db) = 0 then (db, Inr False)
      else if fault DbCommit then (db, Inl ''commit lease renewal'')
      else (db\<lparr>risk_jobs := sql_update (holds_lease c now) (\<lambda>j. j\<lparr>job_LeaseExpiresAt := Some (now + lease)\<rparr>) (risk_jobs db)\<rparr>,
            Inr True))"

definition DetailsOrEmpty :: "Failure \<Rightarrow> goval" where
  "DetailsOrEmpty f = (if fail_Details f = GNil then GMap [] else fail_Details f)"

definition state_name :: "State \<Rightarrow> string" where
  "state_name s = (case s of StateQueued \<Rightarrow> ''queued'' | StateRunning \<Rightarrow> ''running''
     | StateSucceeded \<Rightarrow> ''succeeded'' | StateRetryableFailed \<Rightarrow> ''retryable_failed''
     | StateFailed \<Rightarrow> ''failed'' | StateCancelled \<Rightarrow> ''cancelled'')"

definition fail_state :: "Claim \<Rightarrow> Failure \<Rightarrow> State" where
  "fail_state c f =
     (if fail_Retryable f \<and> job_AttemptCount (claim_Job c) < job_MaxAttempts (claim_Job c)
      then StateRetryableFailed else StateFailed)"

definition failed :: "State \<Rightarrow> Failure \<Rightarrow> string \<Rightarrow> time \<Rightarrow> Job \<Rightarrow> Job" where
  "failed st f details now j = j\<lparr>job_State := st, job_AvailableAt := now + fail_Delay f,
     job_ErrorCode := Some (fail_Code f), job_ErrorMessage := Some (fail_Message f),
     job_ErrorDetails := Some details, job_LeaseOwner := None, job_LeaseExpiresAt := None,
     job_CompletedAt := (if st \<in> {StateFailed, StateCancelled} then Some now else None)\<rparr>"

definition fail_tx :: "db_fault \<Rightarrow> time \<Rightarrow> Claim \<Rightarrow> Failure \<Rightarrow> string
    \<Rightarrow> jobs_db \<Rightarrow> jobs_db \<times> (string + bool)" where
  "fail_tx fault now c f details db =
     (let st = fail_state c f in
      if fault DbBegin then (db, Inl ''begin'')
      else if fault (DbStmt 0) then (db, Inl ''fail job'')
      else if sql_count (holds_lease c now) (risk_jobs db) = 0 then (db, Inr False)
      else if fault (DbStmt 1) then (db, Inl ''finish attempt'')
      else if fault DbCommit then (db, Inl ''commit'')
      else (db\<lparr>risk_jobs := sql_update (holds_lease c now) (failed st f details now) (risk_jobs db),
              risk_job_attempts := sql_update (open_attempt (job_ID (claim_Job c)) (job_AttemptCount (claim_Job c)))
                (\<lambda>a. a\<lparr>att_FinishedAt := Some now, att_Outcome := Some (state_name st),
                   att_ErrorCode := Some (fail_Code f), att_ErrorMessage := Some (fail_Message f),
                   att_ErrorDetails := Some details\<rparr>) (risk_job_attempts db)\<rparr>,
            Inr True))"

definition Fail :: "(rat \<Rightarrow> string) \<Rightarrow> db_fault \<Rightarrow> time \<Rightarrow> Claim \<Rightarrow> Failure
    \<Rightarrow> jobs_db \<Rightarrow> jobs_db \<times> (string + bool)" where
  "Fail fmt fault now c f db =
     (case CanonicalJSON fmt (DetailsOrEmpty f) of None \<Rightarrow> (db, Inl ''serialize details'')
      | Some details \<Rightarrow> fail_tx fault now c f details db)"

subsection \<open>Cancel and RecoverExpired\<close>

definition cancellable :: "string \<Rightarrow> Job \<Rightarrow> bool" where
  "cancellable i j \<longleftrightarrow> job_ID j = i \<and> job_State j \<in> {StateQueued, StateRetryableFailed, StateRunning}"

definition cancelled :: "string \<Rightarrow> time \<Rightarrow> Job \<Rightarrow> Job" where
  "cancelled reason now j = j\<lparr>job_State := StateCancelled, job_ErrorCode := Some ''JOB_CANCELLED'',
     job_ErrorMessage := Some reason, job_LeaseOwner := None, job_LeaseExpiresAt := None,
     job_CompletedAt := Some now\<rparr>"

definition Cancel :: "db_fault \<Rightarrow> time \<Rightarrow> string \<Rightarrow> string \<Rightarrow> jobs_db \<Rightarrow> jobs_db \<times> (string + bool)" where
  "Cancel fault now i reason db =
     (if fault DbBegin then (db, Inl ''begin'')
      else if fault (DbStmt 0) then (db, Inl ''cancel job'')
      else if sql_count (cancellable i) (risk_jobs db) \<noteq> 1 then (db, Inr False)
      else if fault (DbStmt 1) then (db, Inl ''finish attempts'')
      else if fault DbCommit then (db, Inl ''commit'')
      else (db\<lparr>risk_jobs := sql_update (cancellable i) (cancelled reason now) (risk_jobs db),
              risk_job_attempts := sql_update (\<lambda>a. att_JobID a = i \<and> att_FinishedAt a = None)
                (\<lambda>a. a\<lparr>att_FinishedAt := Some now, att_Outcome := Some ''cancelled'',
                   att_ErrorCode := Some ''JOB_CANCELLED'', att_ErrorMessage := Some reason\<rparr>) (risk_job_attempts db)\<rparr>,
            Inr True))"

definition lease_expired :: "time \<Rightarrow> Job \<Rightarrow> bool" where
  "lease_expired now j \<longleftrightarrow> job_State j = StateRunning
     \<and> (case job_LeaseExpiresAt j of None \<Rightarrow> False | Some e \<Rightarrow> e \<le> now)"

definition expired :: "time \<Rightarrow> Job \<Rightarrow> Job" where
  "expired now j = (let over = job_AttemptCount j \<ge> job_MaxAttempts j in
     j\<lparr>job_State := (if over then StateFailed else StateRetryableFailed), job_AvailableAt := now,
       job_LeaseOwner := None, job_LeaseExpiresAt := None,
       job_CompletedAt := (if over then Some now else None),
       job_ErrorCode := Some ''LEASE_EXPIRED'', job_ErrorMessage := Some ''worker lease expired''\<rparr>)"

definition close_run :: "time \<Rightarrow> Job \<Rightarrow> ScenarioRun list \<Rightarrow> ScenarioRun list" where
  "close_run now j runs =
     (if job_Kind j \<noteq> ''scenario.revalue'' then runs
      else if job_State j = StateFailed
      then sql_update (\<lambda>r. run_JobID r = job_ID j \<and> run_State r \<in> {''queued'', ''running''})
             (\<lambda>r. r\<lparr>run_State := ''failed'', run_CompletedAt := Some now\<rparr>) runs
      else if job_State j = StateRetryableFailed
      then sql_update (\<lambda>r. run_JobID r = job_ID j \<and> run_State r = ''running'')
             (\<lambda>r. r\<lparr>run_State := ''queued'', run_CompletedAt := None\<rparr>) runs
      else runs)"

fun recover_each :: "db_fault \<Rightarrow> nat \<Rightarrow> time \<Rightarrow> Job list \<Rightarrow> jobs_db \<Rightarrow> string + jobs_db" where
  "recover_each fault n now [] db = Inr db"
| "recover_each fault n now (j # js) db =
     (if fault (DbStmt n) then Inl ''finish expired job attempt''
      else let db1 = db\<lparr>risk_job_attempts := sql_update (open_attempt (job_ID j) (job_AttemptCount j))
             (\<lambda>a. a\<lparr>att_FinishedAt := Some now, att_Outcome := Some ''expired'',
                att_ErrorCode := Some ''LEASE_EXPIRED'', att_ErrorMessage := Some ''worker lease expired''\<rparr>)
             (risk_job_attempts db)\<rparr>
      in if job_Kind j = ''scenario.revalue'' \<and> fault (DbStmt (n + 1))
         then Inl ''close scenario run after lease expiry''
         else recover_each fault (n + 2) now js (db1\<lparr>scenario_runs := close_run now j (scenario_runs db1)\<rparr>))"

definition RecoverExpired :: "bool \<Rightarrow> db_fault \<Rightarrow> time \<Rightarrow> jobs_db \<Rightarrow> jobs_db \<times> (string + int)" where
  "RecoverExpired pool fault now db =
     (if \<not> pool then (db, Inl ''jobs queue requires a database pool'')
      else if fault DbBegin then (db, Inl ''begin expired-job recovery transaction'')
      else if fault (DbStmt 0) then (db, Inl ''recover expired jobs'')
      else if fault (DbStmt 1) then (db, Inl ''scan expired job'')
      else if fault (DbStmt 2) then (db, Inl ''read expired jobs'')
      else let rows = map (expired now) (filter (lease_expired now) (risk_jobs db));
               db1 = db\<lparr>risk_jobs := sql_update (lease_expired now) (expired now) (risk_jobs db)\<rparr>
           in case recover_each fault 3 now rows db1 of
             Inl e \<Rightarrow> (db, Inl e)
           | Inr db2 \<Rightarrow> if fault DbCommit then (db, Inl ''commit expired-job recovery'')
                       else (db2, Inr (int (length rows))))"

end
