(* ===== verification/Jobs_Safety.thy ===== *)
theory Jobs_Safety
  imports Jobs
begin

text \<open>
  What the job queue guarantees. A state of the system is the tables together with the claims
  that \<open>Claim\<close> has handed to workers; one step is one call of a \<open>Queue\<close> method, with
  arbitrary clocks, faults and locks, in any order. \<open>queue_inv\<close> is kept by every step, so it
  holds in every reachable state; the properties below rest on it and on the lease interface.
\<close>

subsection \<open>The step relation\<close>

type_synonym queue_sys = "jobs_db \<times> Claim set"

inductive queue_step :: "(rat \<Rightarrow> string) \<Rightarrow> (string \<Rightarrow> string) \<Rightarrow> queue_sys \<Rightarrow> queue_sys \<Rightarrow> bool"
  for fmt :: "rat \<Rightarrow> string" and sha :: "string \<Rightarrow> string" where
  enqueue: "newID \<notin> job_ID ` set (risk_jobs db) \<Longrightarrow>
    queue_step fmt sha (db, cs) (fst (Enqueue pool fmt fault wall now newID r db), cs)"
| claim: "Claim_job pool fault locked now w lease db = (db', Inr (Some c)) \<Longrightarrow>
    queue_step fmt sha (db, cs) (db', insert c cs)"
| complete: "c \<in> cs \<Longrightarrow> queue_step fmt sha (db, cs) (fst (Complete fmt sha fault now c v db), cs)"
| renew: "c \<in> cs \<Longrightarrow> queue_step fmt sha (db, cs) (fst (Renew pool fault now c lease db), cs)"
| fail: "c \<in> cs \<Longrightarrow> queue_step fmt sha (db, cs) (fst (Fail fmt fault now c f db), cs)"
| cancel: "queue_step fmt sha (db, cs) (fst (Cancel fault now i reason db), cs)"
| recover: "queue_step fmt sha (db, cs) (fst (RecoverExpired pool fault now db), cs)"

definition empty_db :: jobs_db where
  "empty_db = \<lparr>risk_jobs = [], risk_job_attempts = [], scenario_runs = []\<rparr>"

inductive queue_reachable :: "(rat \<Rightarrow> string) \<Rightarrow> (string \<Rightarrow> string) \<Rightarrow> queue_sys \<Rightarrow> bool"
  for fmt :: "rat \<Rightarrow> string" and sha :: "string \<Rightarrow> string" where
  start: "queue_reachable fmt sha (empty_db, {})"
| step: "queue_reachable fmt sha s \<Longrightarrow> queue_step fmt sha s t \<Longrightarrow> queue_reachable fmt sha t"

subsection \<open>The invariant\<close>

definition terminal :: "Job \<Rightarrow> bool" where
  "terminal j \<longleftrightarrow> job_State j \<in> {StateSucceeded, StateFailed, StateCancelled}"

definition job_inv :: "Job \<Rightarrow> bool" where
  "job_inv j \<longleftrightarrow> job_row_ok j
     \<and> (job_State j = StateRunning \<longrightarrow> 1 \<le> job_AttemptCount j)
     \<and> (job_State j \<noteq> StateRunning \<longrightarrow> job_LeaseOwner j = None \<and> job_LeaseExpiresAt j = None)
     \<and> (job_State j \<in> {StateQueued, StateRetryableFailed} \<longrightarrow> job_AttemptCount j < job_MaxAttempts j)
     \<and> (job_State j = StateSucceeded \<longleftrightarrow> job_Result j \<noteq> None)"

definition jobs_inv :: "Job list \<Rightarrow> bool" where
  "jobs_inv js \<longleftrightarrow> distinct (map job_ID js)
     \<and> distinct (map (\<lambda>j. (job_Kind j, job_IdempotencyKey j)) js) \<and> (\<forall>j \<in> set js. job_inv j)"

abbreviation att_key :: "Attempt \<Rightarrow> string \<times> int" where
  "att_key a \<equiv> (att_JobID a, att_Attempt a)"

definition attempts_inv :: "Job list \<Rightarrow> Attempt list \<Rightarrow> bool" where
  "attempts_inv js as \<longleftrightarrow> distinct (map att_key as)
     \<and> (\<forall>a \<in> set as. 1 \<le> att_Attempt a \<and> (\<exists>j \<in> set js. job_ID j = att_JobID a
          \<and> att_Attempt a \<le> job_AttemptCount j
          \<and> (att_FinishedAt a = None \<longrightarrow> job_State j = StateRunning \<and> job_AttemptCount j = att_Attempt a)))
     \<and> (\<forall>j \<in> set js. job_State j = StateRunning \<longrightarrow>
          (\<exists>a \<in> set as. open_attempt (job_ID j) (job_AttemptCount j) a))"

definition claims_inv :: "Job list \<Rightarrow> Claim set \<Rightarrow> bool" where
  "claims_inv js cs \<longleftrightarrow>
     (\<forall>c \<in> cs. \<exists>j \<in> set js. job_ID j = job_ID (claim_Job c)
        \<and> job_MaxAttempts j = job_MaxAttempts (claim_Job c)
        \<and> 1 \<le> job_AttemptCount (claim_Job c) \<and> job_AttemptCount (claim_Job c) \<le> job_AttemptCount j
        \<and> (job_State j = StateRunning \<and> job_AttemptCount j = job_AttemptCount (claim_Job c)
             \<longrightarrow> job_LeaseOwner j = Some (claim_WorkerID c)))
     \<and> (\<forall>c \<in> cs. \<forall>c' \<in> cs. job_ID (claim_Job c) = job_ID (claim_Job c') \<longrightarrow>
          job_AttemptCount (claim_Job c) = job_AttemptCount (claim_Job c') \<longrightarrow> c = c')"

definition queue_inv :: "queue_sys \<Rightarrow> bool" where
  "queue_inv s \<longleftrightarrow> jobs_inv (risk_jobs (fst s))
     \<and> attempts_inv (risk_jobs (fst s)) (risk_job_attempts (fst s))
     \<and> claims_inv (risk_jobs (fst s)) (snd s)"

subsection \<open>Updates that keep the invariant\<close>

text \<open>What every UPDATE of the queue leaves alone.\<close>

definition same_input :: "Job \<Rightarrow> Job \<Rightarrow> bool" where
  "same_input j k \<longleftrightarrow> job_ID k = job_ID j \<and> job_Kind k = job_Kind j \<and> job_SchemaVersion k = job_SchemaVersion j
     \<and> job_IdempotencyKey k = job_IdempotencyKey j \<and> job_InputSnapshotIDs k = job_InputSnapshotIDs j
     \<and> job_Payload k = job_Payload j \<and> job_MaxAttempts k = job_MaxAttempts j
     \<and> job_CreatedAt k = job_CreatedAt j"

definition settles :: "Job \<Rightarrow> Job \<Rightarrow> bool" where
  "settles j k \<longleftrightarrow> same_input j k \<and> job_AttemptCount k = job_AttemptCount j \<and> job_inv k
     \<and> (job_State k = StateRunning \<longrightarrow> job_State j = StateRunning \<and> job_LeaseOwner k = job_LeaseOwner j)"

lemma settles_refl: "job_inv j \<Longrightarrow> settles j j"
  by (simp add: settles_def same_input_def)

lemma jobs_inv_update:
  assumes "jobs_inv js" and "\<And>j. j \<in> set js \<Longrightarrow> p j \<Longrightarrow> settles j (f j)"
  shows "jobs_inv (sql_update p f js)"
proof -
  have "map job_ID (sql_update p f js) = map job_ID js"
    "map (\<lambda>j. (job_Kind j, job_IdempotencyKey j)) (sql_update p f js) = map (\<lambda>j. (job_Kind j, job_IdempotencyKey j)) js"
    using assms(2) by (auto simp: sql_update_def settles_def same_input_def)
  then show ?thesis
    using assms by (auto simp: jobs_inv_def set_sql_update settles_def)
qed

lemma claims_inv_update:
  assumes "claims_inv js cs" and "\<And>j. j \<in> set js \<Longrightarrow> p j \<Longrightarrow> settles j (f j)"
  shows "claims_inv (sql_update p f js) cs"
  unfolding claims_inv_def
proof (intro conjI ballI)
  fix c assume "c \<in> cs"
  with assms(1) obtain j where j: "j \<in> set js" "job_ID j = job_ID (claim_Job c)"
    "job_MaxAttempts j = job_MaxAttempts (claim_Job c)" "1 \<le> job_AttemptCount (claim_Job c)"
    "job_AttemptCount (claim_Job c) \<le> job_AttemptCount j"
    "job_State j = StateRunning \<and> job_AttemptCount j = job_AttemptCount (claim_Job c)
       \<longrightarrow> job_LeaseOwner j = Some (claim_WorkerID c)"
    unfolding claims_inv_def by meson
  let ?k = "if p j then f j else j"
  have "?k \<in> set (sql_update p f js)" using j(1) by (auto simp: set_sql_update)
  moreover have "settles j (f j)" if "p j" using assms(2) j(1) that by simp
  ultimately show "\<exists>j \<in> set (sql_update p f js). job_ID j = job_ID (claim_Job c)
        \<and> job_MaxAttempts j = job_MaxAttempts (claim_Job c)
        \<and> 1 \<le> job_AttemptCount (claim_Job c) \<and> job_AttemptCount (claim_Job c) \<le> job_AttemptCount j
        \<and> (job_State j = StateRunning \<and> job_AttemptCount j = job_AttemptCount (claim_Job c)
             \<longrightarrow> job_LeaseOwner j = Some (claim_WorkerID c))"
    using j by (intro bexI [of _ ?k]) (auto simp: settles_def same_input_def)
qed (use assms(1) in \<open>auto simp: claims_inv_def\<close>)

definition closes :: "Attempt \<Rightarrow> Attempt \<Rightarrow> bool" where
  "closes a b \<longleftrightarrow> att_key b = att_key a \<and> att_FinishedAt b \<noteq> None"

lemma attempts_inv_update:
  assumes inv: "jobs_inv js" "attempts_inv js as"
    and f: "\<And>j. j \<in> set js \<Longrightarrow> p j \<Longrightarrow> settles j (f j)"
    and g: "\<And>a. q a \<Longrightarrow> closes a (g a)"
    and stop: "\<And>j a. j \<in> set js \<Longrightarrow> p j \<Longrightarrow> a \<in> set as \<Longrightarrow> open_attempt (job_ID j) (job_AttemptCount j) a
        \<Longrightarrow> q a \<or> job_State (f j) = StateRunning"
    and run: "\<And>j a. j \<in> set js \<Longrightarrow> a \<in> set as \<Longrightarrow> q a \<Longrightarrow> open_attempt (job_ID j) (job_AttemptCount j) a
        \<Longrightarrow> p j \<and> job_State (f j) \<noteq> StateRunning"
  shows "attempts_inv (sql_update p f js) (sql_update q g as)"
  unfolding attempts_inv_def
proof (intro conjI ballI impI)
  have "map att_key (sql_update q g as) = map att_key as"
    using g by (intro map_sql_update) (auto simp: closes_def)
  then show "distinct (map att_key (sql_update q g as))" using inv(2) by (simp only: attempts_inv_def)
next
  fix b assume "b \<in> set (sql_update q g as)"
  then obtain a where a: "a \<in> set as" "b = (if q a then g a else a)" by (auto simp: set_sql_update)
  then have key: "att_key b = att_key a" using g [of a] by (auto simp: closes_def)
  show "1 \<le> att_Attempt b" using inv(2) a(1) key by (simp add: attempts_inv_def)
  obtain j where j: "j \<in> set js" "job_ID j = att_JobID a" "att_Attempt a \<le> job_AttemptCount j"
    "att_FinishedAt a = None \<Longrightarrow> job_State j = StateRunning \<and> job_AttemptCount j = att_Attempt a"
    using inv(2) a(1) by (auto simp: attempts_inv_def)
  let ?k = "if p j then f j else j"
  have k1: "?k \<in> set (sql_update p f js)" using j(1) by (auto simp: set_sql_update)
  have k2: "job_ID ?k = att_JobID b" "att_Attempt b \<le> job_AttemptCount ?k"
    using j(1-3) key f [of j] by (auto simp: settles_def same_input_def)
  have k3: "job_State ?k = StateRunning \<and> job_AttemptCount ?k = att_Attempt b" if "att_FinishedAt b = None"
  proof -
    have nq: "\<not> q a" and fa: "att_FinishedAt a = None"
      using that a(2) g [of a] by (auto simp: closes_def split: if_splits)
    then have "open_attempt (job_ID j) (job_AttemptCount j) a" using j by (simp add: open_attempt_def)
    then have run_f: "p j \<Longrightarrow> job_State (f j) = StateRunning" using stop [of j a] j(1) a(1) nq by blast
    have cnt_f: "p j \<Longrightarrow> job_AttemptCount (f j) = job_AttemptCount j"
      using f [OF j(1)] by (simp add: settles_def)
    have att: "att_Attempt a = att_Attempt b" using key by simp
    show ?thesis
    proof (cases "p j")
      case True
      then show ?thesis using j(4) [OF fa] run_f cnt_f unfolding att by (simp only: if_True)
    next
      case False
      then show ?thesis using j(4) [OF fa] unfolding att by (simp only: if_False)
    qed
  qed
  show "\<exists>j \<in> set (sql_update p f js). job_ID j = att_JobID b
      \<and> att_Attempt b \<le> job_AttemptCount j
      \<and> (att_FinishedAt b = None \<longrightarrow> job_State j = StateRunning \<and> job_AttemptCount j = att_Attempt b)"
    by (intro bexI [OF _ k1] conjI impI k2 k3)
next
  fix k assume k: "k \<in> set (sql_update p f js)" "job_State k = StateRunning"
  then obtain j where j: "j \<in> set js" "k = (if p j then f j else j)" by (auto simp: set_sql_update)
  have kj: "job_State j = StateRunning" "job_ID k = job_ID j" "job_AttemptCount k = job_AttemptCount j"
    using j f [of j] k(2) by (auto simp: settles_def same_input_def split: if_splits)
  then obtain a where a: "a \<in> set as" "open_attempt (job_ID j) (job_AttemptCount j) a"
    using inv(2) j(1) by (auto simp: attempts_inv_def)
  have "\<not> q a"
  proof
    assume "q a"
    with run [OF j(1) a(1) _ a(2)] have "p j \<and> job_State (f j) \<noteq> StateRunning" by blast
    with k(2) j(2) show False by simp
  qed
  then have "a \<in> set (sql_update q g as)" using a(1) by (force simp: set_sql_update)
  then show "\<exists>a \<in> set (sql_update q g as). open_attempt (job_ID k) (job_AttemptCount k) a"
    using a(2) kj by auto
qed

subsection \<open>Each operation\<close>

lemma queue_inv_update:
  assumes "queue_inv (db, cs)"
    and "\<And>j. j \<in> set (risk_jobs db) \<Longrightarrow> p j \<Longrightarrow> settles j (f j)"
    and "\<And>a. q a \<Longrightarrow> closes a (g a)"
    and "\<And>j a. j \<in> set (risk_jobs db) \<Longrightarrow> p j \<Longrightarrow> a \<in> set (risk_job_attempts db) \<Longrightarrow>
        open_attempt (job_ID j) (job_AttemptCount j) a \<Longrightarrow> q a \<or> job_State (f j) = StateRunning"
    and "\<And>j a. j \<in> set (risk_jobs db) \<Longrightarrow> a \<in> set (risk_job_attempts db) \<Longrightarrow> q a \<Longrightarrow>
        open_attempt (job_ID j) (job_AttemptCount j) a \<Longrightarrow> p j \<and> job_State (f j) \<noteq> StateRunning"
    and "risk_jobs db' = sql_update p f (risk_jobs db)"
    and "risk_job_attempts db' = sql_update q g (risk_job_attempts db)"
  shows "queue_inv (db', cs)"
proof -
  have j: "jobs_inv (risk_jobs db)" and a: "attempts_inv (risk_jobs db) (risk_job_attempts db)"
    and c: "claims_inv (risk_jobs db) cs"
    using assms(1) by (simp_all add: queue_inv_def)
  have "jobs_inv (sql_update p f (risk_jobs db))"
    using j assms(2) by (rule jobs_inv_update)
  moreover have "claims_inv (sql_update p f (risk_jobs db)) cs"
    using c assms(2) by (rule claims_inv_update)
  moreover have "attempts_inv (sql_update p f (risk_jobs db)) (sql_update q g (risk_job_attempts db))"
    by (rule attempts_inv_update [OF j a assms(2-5)])
  ultimately show ?thesis by (simp only: queue_inv_def fst_conv snd_conv assms(6,7))
qed

lemma sql_update_False: "sql_update (\<lambda>_. False) g rows = rows"
  by (simp add: sql_update_def)

lemma find_None_key:
  "find (\<lambda>e. k e = k0 \<and> l e = l0) xs = None \<Longrightarrow> (k0, l0) \<notin> (\<lambda>e. (k e, l e)) ` set xs"
  by (auto simp: find_None_iff)

lemma job_inv_new_job:
  "job_row_ok (new_job newID version maxAttempts availableAt now payload r) \<Longrightarrow>
   job_inv (new_job newID version maxAttempts availableAt now payload r)"
  by (simp add: job_inv_def new_job_def job_row_ok_def)

lemma Enqueue_insert:
  obtains e where "Enqueue pool fmt fault wall now newID r db = (db, Inl e)"
  | version maxAttempts availableAt payload where
    "Enqueue pool fmt fault wall now newID r db =
       insert_job fault (new_job newID version maxAttempts availableAt now payload r) db"
  unfolding Enqueue_def Let_def by (cases pool; cases "validateEnvelope r"; cases "CanonicalJSON fmt (req_Payload r)") auto

lemma insert_job_cases:
  obtains "fst (insert_job fault j db) = db"
  | "job_row_ok j" and "fst (insert_job fault j db) = db\<lparr>risk_jobs := risk_jobs db @ [j]\<rparr>"
    and "(job_Kind j, job_IdempotencyKey j) \<notin> (\<lambda>e. (job_Kind e, job_IdempotencyKey e)) ` set (risk_jobs db)"
proof (cases "fault (DbStmt 0) \<or> \<not> job_row_ok j")
  case True
  then show ?thesis by (intro that(1)) (simp add: insert_job_def)
next
  case False
  show ?thesis
  proof (cases "find (\<lambda>e. job_Kind e = job_Kind j \<and> job_IdempotencyKey e = job_IdempotencyKey j) (risk_jobs db)")
    case None
    with False find_None_key [OF None] show ?thesis by (intro that(2)) (simp_all add: insert_job_def)
  next
    case (Some e)
    with False show ?thesis by (intro that(1)) (simp add: insert_job_def)
  qed
qed

lemma queue_inv_append:
  assumes "queue_inv (db, cs)" and "job_inv j" and "job_State j = StateQueued"
    and "job_ID j \<notin> job_ID ` set (risk_jobs db)"
    and "(job_Kind j, job_IdempotencyKey j) \<notin> (\<lambda>e. (job_Kind e, job_IdempotencyKey e)) ` set (risk_jobs db)"
  shows "queue_inv (db\<lparr>risk_jobs := risk_jobs db @ [j]\<rparr>, cs)"
proof -
  have "jobs_inv (risk_jobs db @ [j])" using assms by (auto simp: queue_inv_def jobs_inv_def)
  moreover have "attempts_inv (risk_jobs db @ [j]) (risk_job_attempts db)"
    using assms(1,3) unfolding queue_inv_def attempts_inv_def fst_conv set_append bex_Un ball_Un
    by (auto simp del: split_paired_Ex)
  moreover have "claims_inv (risk_jobs db @ [j]) cs"
    using assms(1) unfolding queue_inv_def claims_inv_def fst_conv snd_conv set_append bex_Un by blast
  ultimately show ?thesis by (simp add: queue_inv_def)
qed

lemma queue_inv_Enqueue:
  assumes "queue_inv (db, cs)" and "newID \<notin> job_ID ` set (risk_jobs db)"
  shows "queue_inv (fst (Enqueue pool fmt fault wall now newID r db), cs)"
proof (cases rule: Enqueue_insert [of pool fmt fault wall now newID r db])
  case 1
  with assms(1) show ?thesis by simp
next
  case (2 version maxAttempts availableAt payload)
  let ?j = "new_job newID version maxAttempts availableAt now payload r"
  show ?thesis
  proof (cases rule: insert_job_cases [of fault ?j db])
    case 1
    with 2 assms(1) show ?thesis by simp
  next
    case 2
    have "queue_inv (db\<lparr>risk_jobs := risk_jobs db @ [?j]\<rparr>, cs)"
      by (rule queue_inv_append [OF assms(1) job_inv_new_job [OF 2(1)] _ _ 2(3)])
        (use assms(2) in \<open>simp_all add: new_job_def\<close>)
    then show ?thesis using 2(2) \<open>Enqueue _ _ _ _ _ _ _ _ = _\<close> by simp
  qed
qed

lemma holds_lease_unique:
  "jobs_inv js \<Longrightarrow> j \<in> set js \<Longrightarrow> k \<in> set js \<Longrightarrow> leased_to i w n now j \<Longrightarrow> job_ID k = i \<Longrightarrow> k = j"
  unfolding jobs_inv_def leased_to_def by (metis distinct_key_eq)

lemma settles_completed:
  "job_inv j \<Longrightarrow> leased_to i w n now j \<Longrightarrow> settles j (completed data hash now' j)"
  by (auto simp: settles_def same_input_def completed_def leased_to_def job_inv_def job_row_ok_def)

lemma settles_renewed:
  "job_inv j \<Longrightarrow> leased_to i w n now j \<Longrightarrow> settles j (j\<lparr>job_LeaseExpiresAt := Some e\<rparr>)"
  by (auto simp: settles_def same_input_def leased_to_def job_inv_def job_row_ok_def)

lemma settles_failed:
  assumes "job_inv j" and "holds_lease c now j" and "job_MaxAttempts j = job_MaxAttempts (claim_Job c)"
  shows "settles j (failed (fail_state c f) f details now' j)"
  using assms
  by (auto simp: settles_def same_input_def failed_def fail_state_def leased_to_def job_inv_def job_row_ok_def)

lemma settles_cancelled: "job_inv j \<Longrightarrow> cancellable i j \<Longrightarrow> settles j (cancelled reason now j)"
  by (auto simp: settles_def same_input_def cancelled_def cancellable_def job_inv_def job_row_ok_def)

lemma settles_expired: "job_inv j \<Longrightarrow> lease_expired now j \<Longrightarrow> settles j (expired now j)"
  by (auto simp: settles_def same_input_def expired_def lease_expired_def job_inv_def job_row_ok_def Let_def)

lemma queue_inv_job_inv: "queue_inv (db, cs) \<Longrightarrow> j \<in> set (risk_jobs db) \<Longrightarrow> job_inv j"
  by (simp add: queue_inv_def jobs_inv_def)

lemma queue_inv_id_eq:
  "queue_inv (db, cs) \<Longrightarrow> j \<in> set (risk_jobs db) \<Longrightarrow> k \<in> set (risk_jobs db) \<Longrightarrow> job_ID j = job_ID k \<Longrightarrow> j = k"
  unfolding queue_inv_def jobs_inv_def fst_conv by (metis distinct_key_eq)

lemma queue_inv_claim_max:
  assumes "queue_inv (db, cs)" and "c \<in> cs" and "j \<in> set (risk_jobs db)" and "job_ID j = job_ID (claim_Job c)"
  shows "job_MaxAttempts j = job_MaxAttempts (claim_Job c)"
proof -
  from assms(1,2) obtain k where "k \<in> set (risk_jobs db)" "job_ID k = job_ID (claim_Job c)"
    "job_MaxAttempts k = job_MaxAttempts (claim_Job c)"
    unfolding queue_inv_def claims_inv_def fst_conv snd_conv by blast
  then show ?thesis using queue_inv_id_eq [OF assms(1)] assms(3,4) by metis
qed

text \<open>
  \<open>Complete\<close>, \<open>Fail\<close>, \<open>Renew\<close>: the row is the leased one, and the attempt rows they
  close are the open ones of that lease.
\<close>

lemma queue_inv_leased:
  assumes inv: "queue_inv (db, cs)"
    and settle: "\<And>j. j \<in> set (risk_jobs db) \<Longrightarrow> holds_lease c now j \<Longrightarrow> settles j (f j)"
    and stop: "\<And>j. job_State (f j) \<noteq> StateRunning"
    and close: "\<And>a. open_attempt (job_ID (claim_Job c)) (job_AttemptCount (claim_Job c)) a \<Longrightarrow> closes a (g a)"
    and some: "sql_count (holds_lease c now) (risk_jobs db) \<noteq> 0"
  shows "queue_inv (db\<lparr>risk_jobs := sql_update (holds_lease c now) f (risk_jobs db),
      risk_job_attempts := sql_update (open_attempt (job_ID (claim_Job c)) (job_AttemptCount (claim_Job c))) g
        (risk_job_attempts db)\<rparr>, cs)"
proof (rule queue_inv_update [OF inv settle close])
  fix j a
  assume "holds_lease c now j" and "open_attempt (job_ID j) (job_AttemptCount j) a"
  then show "open_attempt (job_ID (claim_Job c)) (job_AttemptCount (claim_Job c)) a \<or> job_State (f j) = StateRunning"
    by (simp add: leased_to_def)
next
  fix j a
  assume j: "j \<in> set (risk_jobs db)"
    and a: "open_attempt (job_ID (claim_Job c)) (job_AttemptCount (claim_Job c)) a"
      "open_attempt (job_ID j) (job_AttemptCount j) a"
  from some obtain k where k: "k \<in> set (risk_jobs db)" "holds_lease c now k" by auto
  have "job_ID j = job_ID k" using a k(2) by (simp add: open_attempt_def leased_to_def)
  then have "j = k" using queue_inv_id_eq [OF inv j k(1)] by blast
  then show "holds_lease c now j \<and> job_State (f j) \<noteq> StateRunning" using k(2) stop by simp
qed simp_all

lemma queue_inv_Complete:
  assumes "queue_inv (db, cs)"
  shows "queue_inv (fst (Complete fmt sha fault now c v db), cs)"
proof -
  have "queue_inv (db\<lparr>risk_jobs := sql_update (holds_lease c now) (completed data (sha data) now) (risk_jobs db),
      risk_job_attempts := sql_update (open_attempt (job_ID (claim_Job c)) (job_AttemptCount (claim_Job c)))
        (\<lambda>a. a\<lparr>att_FinishedAt := Some now, att_Outcome := Some ''succeeded''\<rparr>) (risk_job_attempts db)\<rparr>, cs)"
    if "sql_count (holds_lease c now) (risk_jobs db) \<noteq> 0" for data
    by (rule queue_inv_leased [OF assms _ _ _ that])
      (auto simp: completed_def closes_def intro: settles_completed [unfolded completed_def] queue_inv_job_inv [OF assms])
  then show ?thesis using assms by (auto simp: Complete_def complete_tx_def split: option.splits)
qed

lemma queue_inv_Fail:
  assumes "queue_inv (db, cs)" and "c \<in> cs"
  shows "queue_inv (fst (Fail fmt fault now c f db), cs)"
proof -
  let ?st = "fail_state c f"
  have "queue_inv (db\<lparr>risk_jobs := sql_update (holds_lease c now) (failed ?st f details now) (risk_jobs db),
      risk_job_attempts := sql_update (open_attempt (job_ID (claim_Job c)) (job_AttemptCount (claim_Job c)))
        (\<lambda>a. a\<lparr>att_FinishedAt := Some now, att_Outcome := Some (state_name ?st),
           att_ErrorCode := Some (fail_Code f), att_ErrorMessage := Some (fail_Message f),
           att_ErrorDetails := Some details\<rparr>) (risk_job_attempts db)\<rparr>, cs)"
    if "sql_count (holds_lease c now) (risk_jobs db) \<noteq> 0" for details
  proof (rule queue_inv_leased [OF assms(1) _ _ _ that])
    fix j assume "j \<in> set (risk_jobs db)" and "holds_lease c now j"
    then show "settles j (failed ?st f details now j)"
      using queue_inv_claim_max [OF assms] queue_inv_job_inv [OF assms(1)]
      by (intro settles_failed) (auto simp: leased_to_def)
  qed (auto simp: failed_def fail_state_def closes_def)
  then show ?thesis using assms by (auto simp: Fail_def fail_tx_def Let_def split: option.splits)
qed

lemma queue_inv_Renew:
  assumes "queue_inv (db, cs)"
  shows "queue_inv (fst (Renew pool fault now c lease db), cs)"
proof -
  have "queue_inv (db\<lparr>risk_jobs := sql_update (holds_lease c now)
      (\<lambda>j. j\<lparr>job_LeaseExpiresAt := Some (now + lease)\<rparr>) (risk_jobs db)\<rparr>, cs)"
  proof (rule queue_inv_update [OF assms, where q = "\<lambda>_. False" and g = id])
    fix j assume "j \<in> set (risk_jobs db)" and "holds_lease c now j"
    then show "settles j (j\<lparr>job_LeaseExpiresAt := Some (now + lease)\<rparr>)"
      using queue_inv_job_inv [OF assms] settles_renewed by blast
  next
    fix j assume "holds_lease c now j"
    then show "False \<or> job_State (j\<lparr>job_LeaseExpiresAt := Some (now + lease)\<rparr>) = StateRunning"
      by (simp add: leased_to_def)
  qed (simp_all add: sql_update_False)
  then show ?thesis using assms by (auto simp: Renew_def)
qed

lemma queue_inv_Cancel:
  assumes inv: "queue_inv (db, cs)"
  shows "queue_inv (fst (Cancel fault now i reason db), cs)"
proof -
  let ?g = "\<lambda>a. a\<lparr>att_FinishedAt := Some now, att_Outcome := Some ''cancelled'',
                   att_ErrorCode := Some ''JOB_CANCELLED'', att_ErrorMessage := Some reason\<rparr>"
  have "queue_inv (db\<lparr>risk_jobs := sql_update (cancellable i) (cancelled reason now) (risk_jobs db),
      risk_job_attempts := sql_update (\<lambda>a. att_JobID a = i \<and> att_FinishedAt a = None) ?g (risk_job_attempts db)\<rparr>, cs)"
    if some: "sql_count (cancellable i) (risk_jobs db) = 1"
  proof (rule queue_inv_update [OF inv])
    fix j assume "j \<in> set (risk_jobs db)" and "cancellable i j"
    then show "settles j (cancelled reason now j)"
      using queue_inv_job_inv [OF inv] settles_cancelled by blast
  next
    fix j a assume "cancellable i j" and "open_attempt (job_ID j) (job_AttemptCount j) a"
    then show "(att_JobID a = i \<and> att_FinishedAt a = None) \<or> job_State (cancelled reason now j) = StateRunning"
      by (simp add: cancellable_def open_attempt_def)
  next
    fix j a assume j: "j \<in> set (risk_jobs db)" and a: "att_JobID a = i \<and> att_FinishedAt a = None"
      "open_attempt (job_ID j) (job_AttemptCount j) a"
    from some obtain k where k: "k \<in> set (risk_jobs db)" "cancellable i k"
      using sql_count_pos [of "cancellable i" "risk_jobs db"] by auto
    have "job_ID j = job_ID k" using a k(2) by (simp add: open_attempt_def cancellable_def)
    then have "j = k" using queue_inv_id_eq [OF inv j k(1)] by blast
    then show "cancellable i j \<and> job_State (cancelled reason now j) \<noteq> StateRunning"
      using k(2) by (simp add: cancelled_def)
  qed (simp_all add: closes_def)
  then show ?thesis using inv by (simp add: Cancel_def)
qed

subsection \<open>Recovery and claiming\<close>

abbreviation close_expired :: "time \<Rightarrow> Attempt \<Rightarrow> Attempt" where
  "close_expired now a \<equiv> a\<lparr>att_FinishedAt := Some now, att_Outcome := Some ''expired'',
     att_ErrorCode := Some ''LEASE_EXPIRED'', att_ErrorMessage := Some ''worker lease expired''\<rparr>"

lemma sql_update_twice:
  "(\<And>a. \<not> q (g a)) \<Longrightarrow> sql_update q g (sql_update p g rows) = sql_update (\<lambda>a. p a \<or> q a) g rows"
  by (auto simp: sql_update_def)

lemma recover_each_tables:
  assumes "recover_each fault n now js db = Inr db'"
  shows "risk_jobs db' = risk_jobs db"
    and "risk_job_attempts db' =
      sql_update (\<lambda>a. \<exists>j \<in> set js. open_attempt (job_ID j) (job_AttemptCount j) a) (close_expired now) (risk_job_attempts db)"
  using assms
proof (induction js arbitrary: n db)
  case Nil
  { case 1 then show ?case by simp next case 2 then show ?case by (simp add: sql_update_False) }
next
  case (Cons j js)
  { case 1 then show ?case using Cons.IH(1) by (fastforce simp: Let_def split: if_splits) }
  { case 2
    let ?as = "sql_update (open_attempt (job_ID j) (job_AttemptCount j)) (close_expired now) (risk_job_attempts db)"
    from 2 have "risk_job_attempts db' =
        sql_update (\<lambda>a. \<exists>j \<in> set js. open_attempt (job_ID j) (job_AttemptCount j) a) (close_expired now) ?as"
      using Cons.IH(2) by (fastforce simp: Let_def split: if_splits)
    also have "\<dots> = sql_update (\<lambda>a. open_attempt (job_ID j) (job_AttemptCount j) a
        \<or> (\<exists>j \<in> set js. open_attempt (job_ID j) (job_AttemptCount j) a)) (close_expired now) (risk_job_attempts db)"
      by (rule sql_update_twice) (simp add: open_attempt_def)
    finally show ?case by simp }
qed

lemma queue_inv_RecoverExpired:
  assumes inv: "queue_inv (db, cs)"
  shows "queue_inv (fst (RecoverExpired pool fault now db), cs)"
proof -
  let ?rows = "map (expired now) (filter (lease_expired now) (risk_jobs db))"
  let ?q = "\<lambda>a. \<exists>j \<in> set ?rows. open_attempt (job_ID j) (job_AttemptCount j) a"
  let ?db1 = "db\<lparr>risk_jobs := sql_update (lease_expired now) (expired now) (risk_jobs db)\<rparr>"
  have q: "?q a \<longleftrightarrow> (\<exists>j \<in> set (risk_jobs db). lease_expired now j \<and> open_attempt (job_ID j) (job_AttemptCount j) a)" for a
    by (auto simp: expired_def Let_def)
  have "queue_inv (db2, cs)" if "recover_each fault 3 now ?rows ?db1 = Inr db2" for db2
  proof (rule queue_inv_update [OF inv])
    fix j assume "j \<in> set (risk_jobs db)" and "lease_expired now j"
    then show "settles j (expired now j)" using queue_inv_job_inv [OF inv] settles_expired by blast
  next
    fix j a assume "j \<in> set (risk_jobs db)" "lease_expired now j" "open_attempt (job_ID j) (job_AttemptCount j) a"
    then show "?q a \<or> job_State (expired now j) = StateRunning" unfolding q by blast
  next
    fix j a assume j: "j \<in> set (risk_jobs db)" and a: "?q a" "open_attempt (job_ID j) (job_AttemptCount j) a"
    from a(1) obtain k where k: "k \<in> set (risk_jobs db)" "lease_expired now k"
      "open_attempt (job_ID k) (job_AttemptCount k) a" unfolding q by blast
    have "job_ID j = job_ID k" using a(2) k(3) by (simp add: open_attempt_def)
    then have "j = k" using queue_inv_id_eq [OF inv j k(1)] by blast
    then show "lease_expired now j \<and> job_State (expired now j) \<noteq> StateRunning"
      using k(2) by (simp add: expired_def Let_def)
  next
    show "risk_jobs db2 = sql_update (lease_expired now) (expired now) (risk_jobs db)"
      using recover_each_tables(1) [OF that] by simp
    show "risk_job_attempts db2 = sql_update ?q (close_expired now) (risk_job_attempts db)"
      using recover_each_tables(2) [OF that] by simp
  qed (simp add: closes_def)
  then show ?thesis using inv by (auto simp: RecoverExpired_def Let_def split: sum.splits)
qed

lemma candidates_least:
  assumes "candidates locked now db = j # rest"
  shows "j \<in> set (risk_jobs db)" and "claimable now j" and "\<not> locked (job_ID j)"
    and "\<And>k. k \<in> set (risk_jobs db) \<Longrightarrow> claimable now k \<Longrightarrow> \<not> locked (job_ID k) \<Longrightarrow> claim_order j \<le> claim_order k"
proof -
  let ?xs = "filter (\<lambda>j. claimable now j \<and> \<not> locked (job_ID j)) (risk_jobs db)"
  have "j \<in> set (candidates locked now db)" using assms by simp
  then show "j \<in> set (risk_jobs db)" "claimable now j" "\<not> locked (job_ID j)"
    by (auto simp: candidates_def)
  fix k assume "k \<in> set (risk_jobs db)" "claimable now k" "\<not> locked (job_ID k)"
  then have k: "k \<in> set ?xs" by simp
  then have "?xs \<noteq> []" by (metis emptyE list.set(1))
  then have "claim_order (hd (sort_key claim_order ?xs)) \<le> claim_order k"
    using k by (rule hd_sort_key_min(2))
  then show "claim_order j \<le> claim_order k" using assms by (simp add: candidates_def)
qed

lemma Claim_cases:
  assumes "Claim_job pool fault locked now w lease db = (db', Inr (Some c))"
  obtains j where "j \<in> set (risk_jobs db)" and "claimable now j" and "\<not> locked (job_ID j)"
    and "\<And>k. k \<in> set (risk_jobs db) \<Longrightarrow> claimable now k \<Longrightarrow> \<not> locked (job_ID k) \<Longrightarrow> claim_order j \<le> claim_order k"
    and "job_row_ok (claimed w lease now j)" and "0 < lease"
    and "c = \<lparr>claim_Job = claimed w lease now j, claim_WorkerID = w\<rparr>"
    and "attempt_key_free db (new_attempt w lease now (claimed w lease now j))"
    and "db' = db\<lparr>risk_jobs := sql_update (\<lambda>r. job_ID r = job_ID j) (claimed w lease now) (risk_jobs db),
           risk_job_attempts := risk_job_attempts db @ [new_attempt w lease now (claimed w lease now j)]\<rparr>"
proof -
  from assms obtain j rest where c: "candidates locked now db = j # rest"
    by (auto simp: Claim_job_def Let_def split: if_splits list.splits)
  from c assms have e: "job_row_ok (claimed w lease now j)" "0 < lease"
    "c = \<lparr>claim_Job = claimed w lease now j, claim_WorkerID = w\<rparr>"
    "attempt_key_free db (new_attempt w lease now (claimed w lease now j))"
    "db' = db\<lparr>risk_jobs := sql_update (\<lambda>r. job_ID r = job_ID j) (claimed w lease now) (risk_jobs db),
           risk_job_attempts := risk_job_attempts db @ [new_attempt w lease now (claimed w lease now j)]\<rparr>"
    by (auto simp: Claim_job_def Let_def split: if_splits)
  show ?thesis by (rule that [OF candidates_least [OF c] e])
qed

lemma claimed_fields [simp]:
  "job_ID (claimed w lease now j) = job_ID j" "job_Kind (claimed w lease now j) = job_Kind j"
  "job_IdempotencyKey (claimed w lease now j) = job_IdempotencyKey j"
  "job_State (claimed w lease now j) = StateRunning"
  "job_AttemptCount (claimed w lease now j) = job_AttemptCount j + 1"
  "job_MaxAttempts (claimed w lease now j) = job_MaxAttempts j"
  "job_LeaseOwner (claimed w lease now j) = Some w"
  "job_LeaseExpiresAt (claimed w lease now j) = Some (now + lease)"
  "job_Result (claimed w lease now j) = job_Result j"
  by (simp_all add: claimed_def)

lemma job_inv_claimed:
  "job_inv j \<Longrightarrow> claimable now j \<Longrightarrow> job_row_ok (claimed w lease now j) \<Longrightarrow> job_inv (claimed w lease now j)"
  by (auto simp: job_inv_def job_row_ok_def claimable_def)

lemma job_row_ok_claimed:
  "job_inv j \<Longrightarrow> claimable now j \<Longrightarrow> job_row_ok (claimed w lease now j)"
  by (auto simp: job_inv_def job_row_ok_def claimable_def claimed_def)

lemma update_row:
  assumes "distinct (map key rows)" and "j \<in> set rows"
  shows "set (sql_update (\<lambda>r. key r = key j) f rows) = insert (f j) (set rows - {j})"
proof -
  have "key r = key j \<longleftrightarrow> r = j" if "r \<in> set rows" for r
    using distinct_key_eq [OF assms(1) that assms(2)] by blast
  then show ?thesis using assms(2) by (auto simp: set_sql_update)
qed

lemma attempts_inv_claim:
  assumes inv: "jobs_inv js" "attempts_inv js as" and j: "j \<in> set js" "claimable now j"
    and a: "att_key a = (job_ID j, job_AttemptCount j + 1)" "att_FinishedAt a = None" "att_key a \<notin> att_key ` set as"
    and js': "set js' = insert (claimed w lease now j) (set js - {j})"
  shows "attempts_inv js' (as @ [a])"
  unfolding attempts_inv_def
proof (intro conjI ballI impI)
  show "distinct (map att_key (as @ [a]))" using inv(2) a(3) by (simp add: attempts_inv_def)
next
  fix b assume b: "b \<in> set (as @ [a])"
  have nonneg: "0 \<le> job_AttemptCount j" using inv(1) j(1) by (simp add: jobs_inv_def job_inv_def job_row_ok_def)
  have old: "1 \<le> att_Attempt b \<and> (\<exists>k \<in> set js. job_ID k = att_JobID b \<and> att_Attempt b \<le> job_AttemptCount k
      \<and> (att_FinishedAt b = None \<longrightarrow> job_State k = StateRunning \<and> job_AttemptCount k = att_Attempt b))" if "b \<in> set as"
    using inv(2) that by (simp add: attempts_inv_def)
  then show "1 \<le> att_Attempt b" using b a(1) nonneg by auto
  show "\<exists>k \<in> set js'. job_ID k = att_JobID b \<and> att_Attempt b \<le> job_AttemptCount k
      \<and> (att_FinishedAt b = None \<longrightarrow> job_State k = StateRunning \<and> job_AttemptCount k = att_Attempt b)"
  proof (cases "b \<in> set as")
    case True
    obtain k where k: "k \<in> set js" "job_ID k = att_JobID b" "att_Attempt b \<le> job_AttemptCount k"
      "att_FinishedAt b = None \<longrightarrow> job_State k = StateRunning \<and> job_AttemptCount k = att_Attempt b"
      using old [OF True] by (elim conjE bexE) (rule that)
    then show ?thesis
    proof (cases "k = j")
      case True
      with k(4) j(2) have "att_FinishedAt b \<noteq> None" by (auto simp: claimable_def)
      with k True show ?thesis by (intro bexI [of _ "claimed w lease now j"]) (auto simp: js')
    qed (auto simp: js')
  next
    case False
    with b a show ?thesis by (intro bexI [of _ "claimed w lease now j"]) (auto simp: js')
  qed
next
  fix k assume k: "k \<in> set js'" "job_State k = StateRunning"
  show "\<exists>b \<in> set (as @ [a]). open_attempt (job_ID k) (job_AttemptCount k) b"
  proof (cases "k = claimed w lease now j")
    case True
    with a show ?thesis by (auto simp: open_attempt_def)
  next
    case False
    with k have "k \<in> set js" by (simp add: js')
    with inv(2) k(2) show ?thesis by (auto simp: attempts_inv_def)
  qed
qed

lemma claims_inv_claim:
  assumes inv: "jobs_inv js" "claims_inv js cs" and j: "j \<in> set js" "claimable now j"
    and js': "set js' = insert (claimed w lease now j) (set js - {j})"
  shows "claims_inv js' (insert \<lparr>claim_Job = claimed w lease now j, claim_WorkerID = w\<rparr> cs)"
proof -
  let ?c = "\<lparr>claim_Job = claimed w lease now j, claim_WorkerID = w\<rparr>"
  have nonneg: "0 \<le> job_AttemptCount j" using inv(1) j(1) by (simp add: jobs_inv_def job_inv_def job_row_ok_def)
  have below: "job_AttemptCount (claim_Job c) \<le> job_AttemptCount j"
    if c: "c \<in> cs" "job_ID (claim_Job c) = job_ID j" for c
  proof -
    obtain k where "k \<in> set js" "job_ID k = job_ID (claim_Job c)" "job_AttemptCount (claim_Job c) \<le> job_AttemptCount k"
      using inv(2) c(1) unfolding claims_inv_def by blast
    moreover from this have "k = j"
      using c(2) j(1) inv(1) distinct_key_eq [of job_ID js k j] by (simp add: jobs_inv_def)
    ultimately show ?thesis by simp
  qed
  have old: "\<exists>k \<in> set js'. job_ID k = job_ID (claim_Job c) \<and> job_MaxAttempts k = job_MaxAttempts (claim_Job c)
        \<and> 1 \<le> job_AttemptCount (claim_Job c) \<and> job_AttemptCount (claim_Job c) \<le> job_AttemptCount k
        \<and> (job_State k = StateRunning \<and> job_AttemptCount k = job_AttemptCount (claim_Job c)
             \<longrightarrow> job_LeaseOwner k = Some (claim_WorkerID c))" if c: "c \<in> cs" for c
  proof -
    obtain k where k: "k \<in> set js" "job_ID k = job_ID (claim_Job c)" "job_MaxAttempts k = job_MaxAttempts (claim_Job c)"
      "1 \<le> job_AttemptCount (claim_Job c)" "job_AttemptCount (claim_Job c) \<le> job_AttemptCount k"
      "job_State k = StateRunning \<and> job_AttemptCount k = job_AttemptCount (claim_Job c)
             \<longrightarrow> job_LeaseOwner k = Some (claim_WorkerID c)"
      using inv(2) c unfolding claims_inv_def by blast
    show ?thesis
    proof (cases "k = j")
      case True
      with k show ?thesis by (intro bexI [of _ "claimed w lease now j"]) (auto simp: js')
    next
      case False
      with k show ?thesis by (intro bexI [of _ k]) (auto simp: js')
    qed
  qed
  have uniq: "c = c'" if "c \<in> cs" "c' \<in> cs" "job_ID (claim_Job c) = job_ID (claim_Job c')"
      "job_AttemptCount (claim_Job c) = job_AttemptCount (claim_Job c')" for c c'
    using inv(2) that unfolding claims_inv_def by blast
  show ?thesis unfolding claims_inv_def
  proof (intro conjI ballI impI)
    fix c c' assume "c \<in> insert ?c cs" "c' \<in> insert ?c cs" "job_ID (claim_Job c) = job_ID (claim_Job c')"
      "job_AttemptCount (claim_Job c) = job_AttemptCount (claim_Job c')"
    then show "c = c'" using uniq below [of c] below [of c'] by auto
  next
    fix c assume "c \<in> insert ?c cs"
    then show "\<exists>j \<in> set js'. job_ID j = job_ID (claim_Job c) \<and> job_MaxAttempts j = job_MaxAttempts (claim_Job c)
        \<and> 1 \<le> job_AttemptCount (claim_Job c) \<and> job_AttemptCount (claim_Job c) \<le> job_AttemptCount j
        \<and> (job_State j = StateRunning \<and> job_AttemptCount j = job_AttemptCount (claim_Job c)
             \<longrightarrow> job_LeaseOwner j = Some (claim_WorkerID c))"
      using old nonneg by (cases "c = ?c") (auto simp: js')
  qed
qed

lemma queue_inv_Claim:
  assumes inv: "queue_inv (db, cs)" and "Claim_job pool fault locked now w lease db = (db', Inr (Some c))"
  shows "queue_inv (db', insert c cs)"
proof -
  from assms(2) obtain j where j: "j \<in> set (risk_jobs db)" "claimable now j" "job_row_ok (claimed w lease now j)"
    and c: "c = \<lparr>claim_Job = claimed w lease now j, claim_WorkerID = w\<rparr>"
    and free: "attempt_key_free db (new_attempt w lease now (claimed w lease now j))"
    and db': "db' = db\<lparr>risk_jobs := sql_update (\<lambda>r. job_ID r = job_ID j) (claimed w lease now) (risk_jobs db),
           risk_job_attempts := risk_job_attempts db @ [new_attempt w lease now (claimed w lease now j)]\<rparr>"
    by (rule Claim_cases)
  have ij: "jobs_inv (risk_jobs db)" "attempts_inv (risk_jobs db) (risk_job_attempts db)" "claims_inv (risk_jobs db) cs"
    using inv by (simp_all add: queue_inv_def)
  let ?js = "sql_update (\<lambda>r. job_ID r = job_ID j) (claimed w lease now) (risk_jobs db)"
  have js: "set ?js = insert (claimed w lease now j) (set (risk_jobs db) - {j})"
    using ij(1) j(1) by (intro update_row) (simp_all add: jobs_inv_def)
  have "map job_ID ?js = map job_ID (risk_jobs db)"
    "map (\<lambda>j. (job_Kind j, job_IdempotencyKey j)) ?js = map (\<lambda>j. (job_Kind j, job_IdempotencyKey j)) (risk_jobs db)"
    by (simp_all add: sql_update_def)
  then have "jobs_inv ?js"
    using ij(1) j job_inv_claimed [OF _ j(2,3)] by (auto simp: jobs_inv_def js)
  moreover have "attempts_inv ?js (risk_job_attempts db @ [new_attempt w lease now (claimed w lease now j)])"
    by (rule attempts_inv_claim [OF ij(1,2) j(1,2) _ _ _ js])
      (use free in \<open>auto simp: new_attempt_def attempt_key_free_def\<close>)
  moreover have "claims_inv ?js (insert c cs)"
    unfolding c by (rule claims_inv_claim [OF ij(1,3) j(1,2) js])
  ultimately show ?thesis by (simp add: queue_inv_def db')
qed

lemma queue_inv_step:
  assumes "queue_step fmt sha s t" and "queue_inv s"
  shows "queue_inv t"
  using assms
  by (induction rule: queue_step.induct)
    (simp_all add: queue_inv_Enqueue queue_inv_Claim queue_inv_Complete queue_inv_Renew queue_inv_Fail
      queue_inv_Cancel queue_inv_RecoverExpired)

lemma queue_inv_reachable: "queue_reachable fmt sha s \<Longrightarrow> queue_inv s"
proof (induction rule: queue_reachable.induct)
  case start
  show ?case by (simp add: queue_inv_def jobs_inv_def attempts_inv_def claims_inv_def empty_db_def)
next
  case (step s t)
  then show ?case by (blast intro: queue_inv_step)
qed

subsection \<open>The lease interface\<close>

definition job_live :: "jobs_db \<Rightarrow> string \<Rightarrow> string \<times> int \<Rightarrow> time \<Rightarrow> bool" where
  "job_live db i t now \<longleftrightarrow> (\<exists>j \<in> set (risk_jobs db). leased_to i (fst t) (snd t) now j)"

definition ids_distinct :: "jobs_db \<Rightarrow> bool" where
  "ids_distinct db \<longleftrightarrow> distinct (map job_ID (risk_jobs db))"

definition token_claim :: "Job \<Rightarrow> string \<Rightarrow> string \<times> int \<Rightarrow> Claim" where
  "token_claim j i t = \<lparr>claim_Job = j\<lparr>job_ID := i, job_AttemptCount := snd t\<rparr>, claim_WorkerID = fst t\<rparr>"

definition finish_complete :: "Job \<Rightarrow> (string \<Rightarrow> string) \<Rightarrow> string \<Rightarrow> jobs_db \<Rightarrow> string \<Rightarrow> string \<times> int \<Rightarrow> time \<Rightarrow> jobs_db \<times> bool" where
  "finish_complete j sha data db i t now =
     (let r = complete_tx sha no_fault now (token_claim j i t) data db in (fst r, snd r = Inr True))"

definition finish_fail :: "Job \<Rightarrow> Failure \<Rightarrow> string \<Rightarrow> jobs_db \<Rightarrow> string \<Rightarrow> string \<times> int \<Rightarrow> time \<Rightarrow> jobs_db \<times> bool" where
  "finish_fail j f details db i t now =
     (let r = fail_tx no_fault now (token_claim j i t) f details db in (fst r, snd r = Inr True))"

lemma job_live_unique:
  assumes "ids_distinct db" and "job_live db i t now" and "job_live db i t' now'"
  shows "t = t'"
proof -
  obtain j k where j: "j \<in> set (risk_jobs db)" "leased_to i (fst t) (snd t) now j"
    and k: "k \<in> set (risk_jobs db)" "leased_to i (fst t') (snd t') now' k"
    using assms(2,3) by (auto simp: job_live_def)
  have "j = k"
    using distinct_key_eq [of job_ID "risk_jobs db" j k] assms(1) j k by (simp add: ids_distinct_def leased_to_def)
  then show ?thesis using j(2) k(2) by (auto simp: leased_to_def intro: prod_eqI)
qed

lemma job_live_earlier: "job_live db i t now \<Longrightarrow> now' \<le> now \<Longrightarrow> job_live db i t now'"
  unfolding job_live_def leased_to_def by (fastforce split: option.splits)

lemma holds_token: "holds_lease (token_claim j i t) now = leased_to i (fst t) (snd t) now"
  by (simp add: token_claim_def)

lemma job_live_count: "sql_count (leased_to i (fst t) (snd t) now) (risk_jobs db) = 0 \<longleftrightarrow> \<not> job_live db i t now"
  by (simp add: job_live_def)

text \<open>An update of the leased row that leaves it in another state than running frees the lease.\<close>

lemma finish_update:
  assumes "ids_distinct db" and "job_live db i t now"
    and f: "\<And>j. job_ID (f j) = job_ID j" "\<And>j. job_State (f j) \<noteq> StateRunning"
    and db': "risk_jobs db' = sql_update (leased_to i (fst t) (snd t) now) f (risk_jobs db)"
  shows "\<not> job_live db' i t' now'" and "i' \<noteq> i \<Longrightarrow> job_live db' i' t' now' \<longleftrightarrow> job_live db i' t' now'"
    and "ids_distinct db'"
proof -
  obtain j where j: "j \<in> set (risk_jobs db)" "leased_to i (fst t) (snd t) now j"
    using assms(2) by (auto simp: job_live_def)
  have only: "leased_to i (fst t) (snd t) now k" if "k \<in> set (risk_jobs db)" "job_ID k = i" for k
    using distinct_key_eq [of job_ID "risk_jobs db" k j] assms(1) j that by (simp add: ids_distinct_def leased_to_def)
  show "\<not> job_live db' i t' now'"
  proof
    assume "job_live db' i t' now'"
    then obtain k where "k \<in> set (risk_jobs db')" "job_ID k = i" "job_State k = StateRunning"
      by (auto simp: job_live_def leased_to_def)
    then show False using only f by (auto simp: db' set_sql_update split: if_splits)
  qed
  have other: "\<not> leased_to i (fst t) (snd t) now k" if "job_ID k \<noteq> i" for k
    using that by (simp add: leased_to_def)
  show "job_live db' i' t' now' \<longleftrightarrow> job_live db i' t' now'" if "i' \<noteq> i"
  proof -
    have "leased_to i' (fst t') (snd t') now' (if leased_to i (fst t) (snd t) now k then f k else k)
        \<longleftrightarrow> leased_to i' (fst t') (snd t') now' k" for k
      using that f(1) other by (auto simp: leased_to_def)
    then show ?thesis unfolding job_live_def db' set_sql_update by (simp only: bex_simps)
  qed
  show "ids_distinct db'" using assms(1) f(1) by (simp add: ids_distinct_def db' map_sql_update)
qed

lemma finish_complete_cases:
  "finish_complete j sha data db i t now =
    (if job_live db i t now then
      (db\<lparr>risk_jobs := sql_update (leased_to i (fst t) (snd t) now) (completed data (sha data) now) (risk_jobs db),
         risk_job_attempts := sql_update (open_attempt i (snd t))
           (\<lambda>a. a\<lparr>att_FinishedAt := Some now, att_Outcome := Some ''succeeded''\<rparr>) (risk_job_attempts db)\<rparr>, True)
     else (db, False))"
  unfolding finish_complete_def complete_tx_def holds_token job_live_count
  by (simp add: Let_def token_claim_def)

lemma finish_fail_cases:
  "finish_fail j f details db i t now =
    (if job_live db i t now then
      (let st = fail_state (token_claim j i t) f in
       db\<lparr>risk_jobs := sql_update (leased_to i (fst t) (snd t) now) (failed st f details now) (risk_jobs db),
         risk_job_attempts := sql_update (open_attempt i (snd t))
           (\<lambda>a. a\<lparr>att_FinishedAt := Some now, att_Outcome := Some (state_name st),
              att_ErrorCode := Some (fail_Code f), att_ErrorMessage := Some (fail_Message f),
              att_ErrorDetails := Some details\<rparr>) (risk_job_attempts db)\<rparr>, True)
     else (db, False))"
  unfolding finish_fail_def fail_tx_def holds_token job_live_count
  by (simp add: Let_def token_claim_def)

lemma lease_table_update:
  assumes fin: "\<And>db i t now. fin db i t now = (if job_live db i t now then (upd db i t now, True) else (db, False))"
    and upd: "\<And>db i t now. risk_jobs (upd db i t now) = sql_update (leased_to i (fst t) (snd t) now) (f i t now) (risk_jobs db)"
    and f: "\<And>i t now j. job_ID (f i t now j) = job_ID j" "\<And>i t now j. job_State (f i t now j) \<noteq> StateRunning"
  shows "lease_table ids_distinct job_live fin"
proof
  fix s k t t' now now'
  show "ids_distinct s \<Longrightarrow> job_live s k t now \<Longrightarrow> job_live s k t' now' \<Longrightarrow> t = t'"
    by (rule job_live_unique)
  show "ids_distinct s \<Longrightarrow> job_live s k t now \<Longrightarrow> now' \<le> now \<Longrightarrow> job_live s k t now'"
    by (rule job_live_earlier)
  show "ids_distinct s \<Longrightarrow> job_live s k t now \<Longrightarrow> \<not> job_live (fst (fin s k t now)) k t' now'"
    using finish_update(1) [OF _ _ f upd] by (simp add: fin)
  show "ids_distinct s \<Longrightarrow> k' \<noteq> k \<Longrightarrow> job_live (fst (fin s k t now)) k' t' now' \<longleftrightarrow> job_live s k' t' now'" for k'
    using finish_update(2) [OF _ _ f upd] by (simp add: fin)
  show "ids_distinct s \<Longrightarrow> ids_distinct (fst (fin s k t now))"
    using finish_update(3) [OF _ _ f upd] by (simp add: fin)
qed (simp_all add: fin)

interpretation completing: lease_table ids_distinct job_live "finish_complete j sha data" for j sha data
  by (rule lease_table_update [OF finish_complete_cases, where f = "\<lambda>i t now. completed data (sha data) now"])
    (simp_all add: completed_def)

interpretation failing: lease_table ids_distinct job_live "finish_fail j f details" for j f details
  by (rule lease_table_update [OF finish_fail_cases, where f = "\<lambda>i t now. failed (fail_state (token_claim j i t) f) f details now"])
    (simp_all add: failed_def fail_state_def Let_def)

end
