(* ===== verification/Jobs_Properties.thy ===== *)
theory Jobs_Properties
  imports Jobs_Safety
begin

text \<open>
  The guarantees of the risk job queue, for every interleaving of its operations: attempts are
  bounded and accounted for, a finished job never changes again, a lease is reported at most once, a
  stale or expired lease has no effect, claiming makes progress and takes the oldest job,
  recovery settles exactly the expired leases, and enqueueing is idempotent.
\<close>

subsection \<open>Demonstration data\<close>

definition demo_fmt :: "rat \<Rightarrow> string" where "demo_fmt r = []"

definition demo_request :: EnqueueRequest where
  "demo_request = \<lparr>req_Kind = ''scenario.revalue'', req_SchemaVersion = ''1.0'', req_IdempotencyKey = ''k'',
     req_InputSnapshotIDs = [''s1''], req_Payload = GBool True, req_MaxAttempts = 2, req_AvailableAt = Some 0\<rparr>"

definition demo_db1 :: jobs_db where
  "demo_db1 = fst (Enqueue True demo_fmt no_fault 0 0 ''j1'' demo_request empty_db)"

definition demo_claim :: Claim where
  "demo_claim = \<lparr>claim_Job = claimed ''w'' 10 1 (hd (risk_jobs demo_db1)), claim_WorkerID = ''w''\<rparr>"

definition demo_db2 :: jobs_db where
  "demo_db2 = fst (Claim_job True no_fault (\<lambda>_. False) 1 ''w'' 10 demo_db1)"

definition demo_db3 :: jobs_db where
  "demo_db3 = fst (Complete demo_fmt id no_fault 2 demo_claim (GInt 7) demo_db2)"

definition demo_failure :: Failure where
  "demo_failure = \<lparr>fail_Code = ''E'', fail_Message = ''m'', fail_Details = GNil, fail_Retryable = True, fail_Delay = 0\<rparr>"

lemma demo_claim_ok: "Claim_job True no_fault (\<lambda>_. False) 1 ''w'' 10 demo_db1 = (demo_db2, Inr (Some demo_claim))"
  by code_simp

lemma demo_reachable1: "queue_reachable demo_fmt id (demo_db1, {})"
  unfolding demo_db1_def
  by (rule queue_reachable.step [OF queue_reachable.start]) (rule queue_step.enqueue, simp add: empty_db_def)

lemma demo_reachable2: "queue_reachable demo_fmt id (demo_db2, {demo_claim})"
  using queue_reachable.step [OF demo_reachable1 queue_step.claim [OF demo_claim_ok]] by simp

lemma demo_step3: "queue_step demo_fmt id (demo_db2, {demo_claim}) (demo_db3, {demo_claim})"
  unfolding demo_db3_def by (rule queue_step.complete) simp

lemma demo_reachable3: "queue_reachable demo_fmt id (demo_db3, {demo_claim})"
  by (rule queue_reachable.step [OF demo_reachable2 demo_step3])

subsection \<open>Attempts\<close>

lemma attempts_of_job_bounded:
  assumes inv: "queue_inv (db, cs)" and j: "j \<in> set (risk_jobs db)"
  shows "int (sql_count (\<lambda>a. att_JobID a = job_ID j) (risk_job_attempts db)) \<le> job_AttemptCount j"
proof -
  let ?as = "filter (\<lambda>a. att_JobID a = job_ID j) (risk_job_attempts db)"
  have d: "distinct (map att_key (risk_job_attempts db))"
    using inv by (simp add: queue_inv_def attempts_inv_def)
  have "inj_on att_Attempt (set ?as)"
  proof (rule inj_onI)
    fix a b assume "a \<in> set ?as" "b \<in> set ?as" "att_Attempt a = att_Attempt b"
    then show "a = b" using distinct_key_eq [OF d, of a b] by auto
  qed
  moreover have "distinct ?as" using d by (simp add: distinct_map)
  ultimately have card: "length ?as = card (att_Attempt ` set ?as)"
    by (metis card_image distinct_card)
  have "att_Attempt ` set ?as \<subseteq> {1..job_AttemptCount j}"
  proof
    fix n assume "n \<in> att_Attempt ` set ?as"
    then obtain a where a: "a \<in> set (risk_job_attempts db)" "att_JobID a = job_ID j" "n = att_Attempt a" by auto
    from inv a(1) obtain k where k: "k \<in> set (risk_jobs db)" "job_ID k = att_JobID a"
      "att_Attempt a \<le> job_AttemptCount k" "1 \<le> att_Attempt a"
      by (auto simp: queue_inv_def attempts_inv_def)
    then have "k = j" using queue_inv_id_eq [OF inv k(1) j] a(2) by simp
    then show "n \<in> {1..job_AttemptCount j}" using k a(3) by simp
  qed
  then have "card (att_Attempt ` set ?as) \<le> card {1..job_AttemptCount j}" by (intro card_mono) simp_all
  moreover have "0 \<le> job_AttemptCount j" using queue_inv_job_inv [OF inv j] by (simp add: job_inv_def job_row_ok_def)
  ultimately show ?thesis using card by (simp add: sql_count_def)
qed

lemma open_attempts_of_job:
  assumes inv: "queue_inv (db, cs)" and j: "j \<in> set (risk_jobs db)"
  shows "sql_count (\<lambda>a. att_JobID a = job_ID j \<and> att_FinishedAt a = None) (risk_job_attempts db)
    = (if job_State j = StateRunning then 1 else 0)"
proof -
  let ?p = "\<lambda>a. att_JobID a = job_ID j \<and> att_FinishedAt a = None"
  have d: "distinct (map att_key (risk_job_attempts db))"
    using inv by (simp add: queue_inv_def attempts_inv_def)
  have run: "job_State j = StateRunning \<and> job_AttemptCount j = att_Attempt a"
    if a: "a \<in> set (risk_job_attempts db)" "?p a" for a
  proof -
    obtain k where k: "k \<in> set (risk_jobs db)" "job_ID k = att_JobID a"
      "job_State k = StateRunning" "job_AttemptCount k = att_Attempt a"
      using inv a by (auto simp: queue_inv_def attempts_inv_def)
    then have "k = j" using queue_inv_id_eq [OF inv k(1) j] a(2) by simp
    with k show ?thesis by simp
  qed
  have le: "sql_count ?p (risk_job_attempts db) \<le> 1"
  proof -
    have "sql_count (\<lambda>a. ?p a \<and> att_Attempt a = job_AttemptCount j) (risk_job_attempts db) \<le> 1"
      by (rule sql_count_distinct [OF d]) auto
    moreover have "filter ?p (risk_job_attempts db) = filter (\<lambda>a. ?p a \<and> att_Attempt a = job_AttemptCount j) (risk_job_attempts db)"
      using run by (intro filter_cong) auto
    ultimately show ?thesis by (simp add: sql_count_def)
  qed
  show ?thesis
  proof (cases "job_State j = StateRunning")
    case True
    then obtain a where "a \<in> set (risk_job_attempts db)" "open_attempt (job_ID j) (job_AttemptCount j) a"
      using inv j by (auto simp: queue_inv_def attempts_inv_def)
    then have "0 < sql_count ?p (risk_job_attempts db)" by (auto simp: sql_count_pos open_attempt_def)
    with le True show ?thesis by simp
  next
    case False
    then have "\<forall>a \<in> set (risk_job_attempts db). \<not> ?p a" using run by blast
    then have "sql_count ?p (risk_job_attempts db) = 0" by simp
    with False show ?thesis by simp
  qed
qed

text \<open>
  C1. In every state reachable by any interleaving of queue operations, a job is attempted at most
  \<open>max_attempts\<close> times (its attempt rows number at most its attempt count, which never
  exceeds the maximum), and it has exactly one unfinished attempt row while it runs and none
  otherwise.
\<close>

theorem job_attempts_accounted:
  assumes "queue_reachable fmt sha (db, cs)" and "j \<in> set (risk_jobs db)"
  shows "int (sql_count (\<lambda>a. att_JobID a = job_ID j) (risk_job_attempts db)) \<le> job_AttemptCount j
    \<and> 0 \<le> job_AttemptCount j \<and> job_AttemptCount j \<le> job_MaxAttempts j
    \<and> sql_count (\<lambda>a. att_JobID a = job_ID j \<and> att_FinishedAt a = None) (risk_job_attempts db)
        = (if job_State j = StateRunning then 1 else 0)"
proof -
  have inv: "queue_inv (db, cs)" using assms(1) by (rule queue_inv_reachable)
  from queue_inv_job_inv [OF inv assms(2)] attempts_of_job_bounded [OF inv assms(2)] open_attempts_of_job [OF inv assms(2)]
  show ?thesis by (simp add: job_inv_def job_row_ok_def)
qed

theorem job_attempts_accounted_witness:
  "int (sql_count (\<lambda>a. att_JobID a = ''j1'') (risk_job_attempts demo_db2)) \<le> 1
    \<and> sql_count (\<lambda>a. att_JobID a = ''j1'' \<and> att_FinishedAt a = None) (risk_job_attempts demo_db2) = 1"
proof -
  have j: "hd (risk_jobs demo_db2) \<in> set (risk_jobs demo_db2)" "job_ID (hd (risk_jobs demo_db2)) = ''j1''"
    "job_State (hd (risk_jobs demo_db2)) = StateRunning" "job_AttemptCount (hd (risk_jobs demo_db2)) = 1"
    by code_simp+
  show ?thesis using job_attempts_accounted [OF demo_reachable2 j(1)] j(2-4) by simp
qed

subsection \<open>Finished jobs and leases\<close>

lemma sql_update_keeps: "j \<in> set rows \<Longrightarrow> \<not> p j \<Longrightarrow> j \<in> set (sql_update p f rows)"
  by (force simp: set_sql_update)

lemma recover_keeps:
  assumes "recover_each fault n now js db = Inr db'" and "j \<in> set (risk_jobs db)"
  shows "j \<in> set (risk_jobs db')"
  using recover_each_tables(1) [OF assms(1)] assms(2) by simp

lemma terminal_not_leased: "terminal j \<Longrightarrow> \<not> leased_to i w n now j"
  by (auto simp: terminal_def leased_to_def)

lemma terminal_step:
  assumes "queue_step fmt sha s t" and "queue_inv s" and "j \<in> set (risk_jobs (fst s))" and "terminal j"
  shows "j \<in> set (risk_jobs (fst t))"
  using assms
proof (induction rule: queue_step.induct)
  case (enqueue newID db cs pool fault wall now r)
  have keep: "j \<in> set (risk_jobs (fst (insert_job fault k db)))" for k
    using enqueue.prems by (cases rule: insert_job_cases [of fault k db]) simp_all
  show ?case
    by (cases rule: Enqueue_insert [of pool fmt fault wall now newID r db])
      (use enqueue.prems keep in simp_all)
next
  case (claim pool fault locked now w lease db db' c cs)
  from claim.hyps obtain k where k: "k \<in> set (risk_jobs db)" "claimable now k"
    "risk_jobs db' = sql_update (\<lambda>r. job_ID r = job_ID k) (claimed w lease now) (risk_jobs db)"
    by (rule Claim_cases) simp
  have "job_ID j \<noteq> job_ID k"
  proof
    assume "job_ID j = job_ID k"
    then have "j = k" using queue_inv_id_eq [OF claim.prems(1)] claim.prems(2) k(1) by simp
    then show False using k(2) claim.prems(3) by (auto simp: claimable_def terminal_def)
  qed
  then show ?case using claim.prems(2) by (simp add: k(3) sql_update_keeps)
next
  case (complete c cs db fault now v)
  then show ?case
    by (auto simp: Complete_def complete_tx_def terminal_not_leased sql_update_keeps split: option.splits)
next
  case (renew c cs db pool fault now lease)
  then show ?case by (simp add: Renew_def terminal_not_leased sql_update_keeps)
next
  case (fail c cs db fault now f)
  then show ?case
    by (auto simp: Fail_def fail_tx_def Let_def terminal_not_leased sql_update_keeps split: option.splits)
next
  case (cancel db cs fault now i reason)
  then have "\<not> cancellable i j" by (auto simp: cancellable_def terminal_def)
  with cancel.prems show ?case by (simp add: Cancel_def sql_update_keeps)
next
  case (recover db cs pool fault now)
  then have "\<not> lease_expired now j" by (auto simp: lease_expired_def terminal_def)
  then have "j \<in> set (sql_update (lease_expired now) (expired now) (risk_jobs db))"
    using recover.prems by (simp add: sql_update_keeps)
  then show ?case using recover.prems
    by (auto simp: RecoverExpired_def Let_def dest: recover_keeps split: sum.splits)
qed

lemma terminal_steps:
  assumes "(queue_step fmt sha)\<^sup>*\<^sup>* s t" and "queue_inv s" and "j \<in> set (risk_jobs (fst s))" and "terminal j"
  shows "queue_inv t \<and> j \<in> set (risk_jobs (fst t))"
  using assms by (induction rule: rtranclp_induct) (auto intro: queue_inv_step terminal_step)

text \<open>
  C2. A job that has succeeded, failed for good or been cancelled is never changed again: whatever
  operations follow, its row stays in the table exactly as it was, result and hash included.
\<close>

theorem finished_job_immutable:
  assumes "queue_reachable fmt sha s" and "(queue_step fmt sha)\<^sup>*\<^sup>* s t"
    and "j \<in> set (risk_jobs (fst s))" and "terminal j"
  shows "j \<in> set (risk_jobs (fst t))"
  using terminal_steps [OF assms(2) queue_inv_reachable [OF assms(1)] assms(3,4)] by blast

theorem finished_job_immutable_witness:
  "hd (risk_jobs demo_db3) \<in> set (risk_jobs (fst (Cancel no_fault 3 ''j1'' ''late'' demo_db3)))"
proof -
  have "(queue_step demo_fmt id)\<^sup>*\<^sup>* (demo_db3, {demo_claim}) (fst (Cancel no_fault 3 ''j1'' ''late'' demo_db3), {demo_claim})"
    by (rule r_into_rtranclp) (rule queue_step.cancel)
  moreover have "hd (risk_jobs demo_db3) \<in> set (risk_jobs demo_db3)" "terminal (hd (risk_jobs demo_db3))"
    by code_simp+
  ultimately show ?thesis using finished_job_immutable [OF demo_reachable3] by force
qed

text \<open>
  What a step does to a job row: the attempt count never falls, and a row that runs after the step
  under the same attempt number ran before it.
\<close>

definition progresses :: "Job \<Rightarrow> Job \<Rightarrow> bool" where
  "progresses j k \<longleftrightarrow> job_ID k = job_ID j \<and> job_AttemptCount j \<le> job_AttemptCount k
     \<and> (job_AttemptCount k = job_AttemptCount j \<and> job_State k = StateRunning \<longrightarrow> job_State j = StateRunning)"

lemma progresses_refl: "progresses j j"
  by (simp add: progresses_def)

lemma progresses_settles: "settles j k \<Longrightarrow> progresses j k"
  by (simp add: progresses_def settles_def same_input_def)

lemma progresses_update:
  assumes "j \<in> set rows" and "\<And>j. j \<in> set rows \<Longrightarrow> p j \<Longrightarrow> progresses j (f j)"
  shows "\<exists>k \<in> set (sql_update p f rows). progresses j k"
  using assms progresses_refl by (intro bexI [of _ "if p j then f j else j"]) (simp_all add: set_sql_update)

lemma step_progresses:
  assumes "queue_step fmt sha s t" and "queue_inv s" and "j \<in> set (risk_jobs (fst s))"
  shows "\<exists>k \<in> set (risk_jobs (fst t)). progresses j k"
  using assms
proof (induction rule: queue_step.induct)
  case (enqueue newID db cs pool fault wall now r)
  have keep: "j \<in> set (risk_jobs (fst (insert_job fault k db)))" for k
    using enqueue.prems by (cases rule: insert_job_cases [of fault k db]) simp_all
  show ?case
    by (cases rule: Enqueue_insert [of pool fmt fault wall now newID r db])
      (use enqueue.prems keep progresses_refl in auto)
next
  case (claim pool fault locked now w lease db db' c cs)
  from claim.hyps obtain k where "k \<in> set (risk_jobs db)" "claimable now k"
    and k: "risk_jobs db' = sql_update (\<lambda>r. job_ID r = job_ID k) (claimed w lease now) (risk_jobs db)"
    by (rule Claim_cases) simp
  show ?case
    using claim.prems(2) unfolding fst_conv k by (intro progresses_update) (simp_all add: progresses_def claimed_def)
next
  case (complete c cs db fault now v)
  have "\<exists>k \<in> set (sql_update (holds_lease c now) (completed data (sha data) now) (risk_jobs db)). progresses j k" for data
    by (rule progresses_update)
      (use complete.prems queue_inv_job_inv [OF complete.prems(1)] in \<open>auto intro: progresses_settles settles_completed\<close>)
  then show ?case using complete.prems progresses_refl by (auto simp: Complete_def complete_tx_def split: option.splits)
next
  case (renew c cs db pool fault now lease)
  have "\<exists>k \<in> set (sql_update (holds_lease c now) (\<lambda>j. j\<lparr>job_LeaseExpiresAt := Some (now + lease)\<rparr>) (risk_jobs db)). progresses j k"
    by (rule progresses_update)
      (use renew.prems queue_inv_job_inv [OF renew.prems(1)] in \<open>auto intro: progresses_settles settles_renewed\<close>)
  then show ?case using renew.prems progresses_refl by (auto simp: Renew_def)
next
  case (fail c cs db fault now f)
  have "\<exists>k \<in> set (sql_update (holds_lease c now) (failed (fail_state c f) f details now) (risk_jobs db)). progresses j k" for details
    by (rule progresses_update)
      (use fail.prems queue_inv_job_inv [OF fail.prems(1)] queue_inv_claim_max [OF fail.prems(1) fail.hyps] in
        \<open>auto intro!: progresses_settles settles_failed simp: leased_to_def\<close>)
  then show ?case using fail.prems progresses_refl by (auto simp: Fail_def fail_tx_def Let_def split: option.splits)
next
  case (cancel db cs fault now i reason)
  have "\<exists>k \<in> set (sql_update (cancellable i) (cancelled reason now) (risk_jobs db)). progresses j k"
    by (rule progresses_update)
      (use cancel.prems queue_inv_job_inv [OF cancel.prems(1)] in \<open>auto intro: progresses_settles settles_cancelled\<close>)
  then show ?case using cancel.prems progresses_refl by (auto simp: Cancel_def)
next
  case (recover db cs pool fault now)
  have "\<exists>k \<in> set (sql_update (lease_expired now) (expired now) (risk_jobs db)). progresses j k"
    by (rule progresses_update)
      (use recover.prems queue_inv_job_inv [OF recover.prems(1)] in \<open>auto intro: progresses_settles settles_expired\<close>)
  then have "\<exists>k \<in> set (risk_jobs db2). progresses j k"
    if "recover_each fault 3 now js (db\<lparr>risk_jobs := sql_update (lease_expired now) (expired now) (risk_jobs db)\<rparr>) = Inr db2" for js db2
    using recover_each_tables(1) [OF that] by simp
  then show ?case using recover.prems progresses_refl by (auto simp: RecoverExpired_def Let_def split: sum.splits)
qed

text \<open>An attempt is spent when the job has gone on to a later one or no longer runs.\<close>

definition spent :: "string \<Rightarrow> int \<Rightarrow> jobs_db \<Rightarrow> bool" where
  "spent i n db \<longleftrightarrow> (\<exists>k \<in> set (risk_jobs db). job_ID k = i \<and> n \<le> job_AttemptCount k
     \<and> (job_AttemptCount k = n \<longrightarrow> job_State k \<noteq> StateRunning))"

lemma spent_step:
  assumes "queue_step fmt sha s t" and "queue_inv s" and "spent i n (fst s)"
  shows "spent i n (fst t)"
proof -
  obtain j where j: "j \<in> set (risk_jobs (fst s))" "job_ID j = i" "n \<le> job_AttemptCount j"
    "job_AttemptCount j = n \<longrightarrow> job_State j \<noteq> StateRunning" using assms(3) by (auto simp: spent_def)
  from step_progresses [OF assms(1,2) j(1)] obtain k where "k \<in> set (risk_jobs (fst t))" "progresses j k" by blast
  with j show ?thesis unfolding spent_def progresses_def by (intro bexI [of _ k]) auto
qed

lemma spent_steps:
  assumes "(queue_step fmt sha)\<^sup>*\<^sup>* s t" and "queue_inv s" and "spent i n (fst s)"
  shows "queue_inv t" and "spent i n (fst t)"
proof -
  have "queue_inv t \<and> spent i n (fst t)"
    using assms by (induction rule: rtranclp_induct) (auto intro: queue_inv_step spent_step)
  then show "queue_inv t" "spent i n (fst t)" by simp_all
qed

text \<open>
  A claim is powerless in a state when nothing its holder can report takes effect: \<open>Complete\<close>,
  \<open>Fail\<close> and \<open>Renew\<close> never answer \<open>true\<close> and change no table, whatever is reported and
  whichever statement fails.
\<close>

definition powerless :: "(rat \<Rightarrow> string) \<Rightarrow> (string \<Rightarrow> string) \<Rightarrow> time \<Rightarrow> Claim \<Rightarrow> jobs_db \<Rightarrow> bool" where
  "powerless fmt sha now c db \<longleftrightarrow>
     (\<forall>fault v. fst (Complete fmt sha fault now c v db) = db \<and> snd (Complete fmt sha fault now c v db) \<noteq> Inr True)
     \<and> (\<forall>fault f. fst (Fail fmt fault now c f db) = db \<and> snd (Fail fmt fault now c f db) \<noteq> Inr True)
     \<and> (\<forall>pool fault lease. fst (Renew pool fault now c lease db) = db \<and> snd (Renew pool fault now c lease db) \<noteq> Inr True)"

lemma powerlessI:
  assumes "\<And>k. k \<in> set (risk_jobs db) \<Longrightarrow> \<not> holds_lease c now k"
  shows "powerless fmt sha now c db"
proof -
  have "sql_count (holds_lease c now) (risk_jobs db) = 0" using assms by simp
  then show ?thesis
    by (simp add: powerless_def Complete_def complete_tx_def Fail_def fail_tx_def Renew_def Let_def split: option.splits)
qed

lemma spent_powerless:
  assumes "queue_inv (db, cs)" and "spent (job_ID (claim_Job c)) (job_AttemptCount (claim_Job c)) db"
  shows "powerless fmt sha now c db"
proof (rule powerlessI)
  fix k assume k: "k \<in> set (risk_jobs db)"
  obtain j where j: "j \<in> set (risk_jobs db)" "job_ID j = job_ID (claim_Job c)"
    "job_AttemptCount j = job_AttemptCount (claim_Job c) \<longrightarrow> job_State j \<noteq> StateRunning"
    using assms(2) by (auto simp: spent_def)
  then show "\<not> holds_lease c now k"
    using queue_inv_id_eq [OF assms(1) k j(1)] by (auto simp: leased_to_def)
qed

lemma report_spends:
  assumes "Complete fmt sha fault now c v db = (db1, Inr True) \<or> Fail fmt fault now c f db = (db1, Inr True)"
  shows "spent (job_ID (claim_Job c)) (job_AttemptCount (claim_Job c)) db1"
proof -
  from assms obtain g k where g: "\<And>j. job_ID (g j) = job_ID j" "\<And>j. job_AttemptCount (g j) = job_AttemptCount j"
      "\<And>j. job_State (g j) \<noteq> StateRunning"
    and jobs: "risk_jobs db1 = sql_update (holds_lease c now) g (risk_jobs db)"
    and k: "k \<in> set (risk_jobs db)" "holds_lease c now k"
  proof (elim disjE)
    assume "Complete fmt sha fault now c v db = (db1, Inr True)"
    then obtain data where "sql_count (holds_lease c now) (risk_jobs db) \<noteq> 0"
      "risk_jobs db1 = sql_update (holds_lease c now) (completed data (sha data) now) (risk_jobs db)"
      by (auto simp: Complete_def complete_tx_def split: option.splits if_splits)
    then show thesis using that [of "completed data (sha data) now"] by (auto simp: completed_def)
  next
    assume "Fail fmt fault now c f db = (db1, Inr True)"
    then obtain details where "sql_count (holds_lease c now) (risk_jobs db) \<noteq> 0"
      "risk_jobs db1 = sql_update (holds_lease c now) (failed (fail_state c f) f details now) (risk_jobs db)"
      by (auto simp: Fail_def fail_tx_def Let_def split: option.splits if_splits)
    then show thesis using that [of "failed (fail_state c f) f details now"] by (auto simp: failed_def fail_state_def)
  qed
  have "g k \<in> set (risk_jobs db1)" using k by (auto simp: jobs set_sql_update)
  then show ?thesis using g k(2) by (intro spent_def [THEN iffD2] bexI [of _ "g k"]) (simp_all add: leased_to_def)
qed

text \<open>Directly after a report nobody holds the lease of the job: the contract of the lease table.\<close>

lemma claim_token: "token_claim (claim_Job c) (job_ID (claim_Job c)) (claim_WorkerID c, job_AttemptCount (claim_Job c)) = c" for c :: Claim
  by (simp add: token_claim_def)

lemma report_frees:
  assumes "ids_distinct db" and "Complete fmt sha fault now c v db = (db1, Inr True) \<or> Fail fmt fault now c f db = (db1, Inr True)"
  shows "\<not> job_live db1 (job_ID (claim_Job c)) t now'"
  using assms(2)
proof
  let ?i = "job_ID (claim_Job c)" and ?t = "(claim_WorkerID c, job_AttemptCount (claim_Job c))"
  assume "Complete fmt sha fault now c v db = (db1, Inr True)"
  then obtain data where "complete_tx sha no_fault now c data db = (db1, Inr True)"
    by (auto simp: Complete_def complete_tx_def split: option.splits if_splits)
  then have fin: "finish_complete (claim_Job c) sha data db ?i ?t now = (db1, True)"
    unfolding finish_complete_def claim_token by simp
  then have "job_live db ?i ?t now" by (simp add: finish_complete_cases split: if_splits)
  from completing.finish_frees [OF assms(1) this, of "claim_Job c" sha data] show ?thesis by (simp add: fin)
next
  let ?i = "job_ID (claim_Job c)" and ?t = "(claim_WorkerID c, job_AttemptCount (claim_Job c))"
  assume "Fail fmt fault now c f db = (db1, Inr True)"
  then obtain details where "fail_tx no_fault now c f details db = (db1, Inr True)"
    by (auto simp: Fail_def fail_tx_def Let_def split: option.splits if_splits)
  then have fin: "finish_fail (claim_Job c) f details db ?i ?t now = (db1, True)"
    unfolding finish_fail_def claim_token by simp
  then have "job_live db ?i ?t now" by (simp add: finish_fail_cases split: if_splits)
  from failing.finish_frees [OF assms(1) this, of "claim_Job c" f details] show ?thesis by (simp add: fin)
qed

lemma completed_terminal:
  assumes "Complete fmt sha fault now c v db = (db1, Inr True)"
  obtains j where "j \<in> set (risk_jobs db1)" and "job_ID j = job_ID (claim_Job c)" and "terminal j"
proof -
  from assms obtain data where nz: "sql_count (holds_lease c now) (risk_jobs db) \<noteq> 0"
    and jobs: "risk_jobs db1 = sql_update (holds_lease c now) (completed data (sha data) now) (risk_jobs db)"
    by (auto simp: Complete_def complete_tx_def split: option.splits if_splits)
  from nz obtain k where "k \<in> set (risk_jobs db)" "holds_lease c now k" by auto
  then show ?thesis
    by (intro that [of "completed data (sha data) now k"])
      (auto simp: jobs set_sql_update completed_def leased_to_def terminal_def)
qed

text \<open>
  C3. A lease is reported once: when a claim has completed its job or failed it, every claim on the job
  is powerless directly afterwards; the claim itself is powerless in every state that follows, also when the job is
  retried, so it can neither complete nor fail the job again nor extend its lease; and once a job has been completed, every claim on it, an earlier or a
  later one, is powerless for good.
\<close>

theorem job_settled_once:
  assumes "queue_reachable fmt sha (db, cs)" and "c \<in> cs"
    and "Complete fmt sha fault now c v db = (db1, Inr True) \<or> Fail fmt fault now c f db = (db1, Inr True)"
    and "(queue_step fmt sha)\<^sup>*\<^sup>* (db1, cs) (db', cs')"
  shows "(\<forall>c' :: Claim. job_ID (claim_Job c') = job_ID (claim_Job c) \<longrightarrow> powerless fmt sha now' c' db1)
    \<and> powerless fmt sha now' c db'
    \<and> (Complete fmt sha fault now c v db = (db1, Inr True) \<longrightarrow>
        (\<forall>c' :: Claim. job_ID (claim_Job c') = job_ID (claim_Job c) \<longrightarrow> powerless fmt sha now' c' db'))"
proof (intro conjI impI allI)
  have inv: "queue_inv (db, cs)" using assms(1) by (rule queue_inv_reachable)
  have inv1: "queue_inv (db1, cs)"
    using assms(3) queue_inv_Complete [OF inv, of fmt sha fault now c v] queue_inv_Fail [OF inv assms(2), of fmt fault now f]
    by auto
  have d: "ids_distinct db" using inv by (simp add: queue_inv_def jobs_inv_def ids_distinct_def)
  show "powerless fmt sha now' c' db1" if "job_ID (claim_Job c') = job_ID (claim_Job c)" for c' :: Claim
    using report_frees [OF d assms(3), of "(claim_WorkerID c', job_AttemptCount (claim_Job c'))" now'] that
    by (intro powerlessI) (auto simp: job_live_def)
  have "spent (job_ID (claim_Job c)) (job_AttemptCount (claim_Job c)) (fst (db1, cs))" using report_spends [OF assms(3)] by simp
  note after = spent_steps [OF assms(4) inv1 this]
  show "powerless fmt sha now' c db'" using after(2) by (intro spent_powerless [OF after(1)]) simp
  fix c' :: Claim assume fin: "Complete fmt sha fault now c v db = (db1, Inr True)" and c': "job_ID (claim_Job c') = job_ID (claim_Job c)"
  obtain j where j: "j \<in> set (risk_jobs db1)" "job_ID j = job_ID (claim_Job c)" "terminal j"
    using completed_terminal [OF fin] .
  have later: "queue_inv (db', cs')" "j \<in> set (risk_jobs db')"
    using terminal_steps [OF assms(4) inv1 _ j(3)] j(1) by auto
  show "powerless fmt sha now' c' db'"
  proof (rule powerlessI)
    fix k assume "k \<in> set (risk_jobs db')"
    then show "\<not> holds_lease c' now' k"
      using queue_inv_id_eq [OF later(1) _ later(2), of k] terminal_not_leased [OF j(3)] c' j(2) by (auto simp: leased_to_def)
  qed
qed

theorem job_settled_once_witness:
  "snd (Fail demo_fmt no_fault 2 demo_claim demo_failure demo_db2) = Inr True
    \<and> powerless demo_fmt id 3 demo_claim (fst (Fail demo_fmt no_fault 2 demo_claim demo_failure demo_db2))
    \<and> powerless demo_fmt id 3 (demo_claim\<lparr>claim_WorkerID := ''x''\<rparr>) demo_db3"
proof -
  have f: "snd (Fail demo_fmt no_fault 2 demo_claim demo_failure demo_db2) = Inr True" by code_simp
  have c: "snd (Complete demo_fmt id no_fault 2 demo_claim (GInt 7) demo_db2) = Inr True" by code_simp
  have fd: "Fail demo_fmt no_fault 2 demo_claim demo_failure demo_db2
      = (fst (Fail demo_fmt no_fault 2 demo_claim demo_failure demo_db2), Inr True)"
    using f by (metis prod.collapse)
  have cd: "Complete demo_fmt id no_fault 2 demo_claim (GInt 7) demo_db2 = (demo_db3, Inr True)"
    using c unfolding demo_db3_def by (metis prod.collapse)
  show ?thesis
    using job_settled_once [OF demo_reachable2 _ disjI2 [OF fd] rtranclp.rtrancl_refl]
      job_settled_once [OF demo_reachable2 _ disjI1 [OF cd] rtranclp.rtrancl_refl] f cd by simp
qed

text \<open>
  C4. A worker that lost its lease has no effect. When the lease of the job has run out (or there is
  none), its claim is powerless at that instant, although nobody has taken the job over yet. When the
  job is under another attempt or another worker, or does not run, the claim is powerless in every state
  that follows and at every instant.
\<close>

theorem stale_worker_has_no_effect:
  assumes "queue_reachable fmt sha (db, cs)" and "c \<in> cs"
    and "k \<in> set (risk_jobs db)" and "job_ID k = job_ID (claim_Job c)"
  shows "((case job_LeaseExpiresAt k of None \<Rightarrow> True | Some e \<Rightarrow> e \<le> now) \<longrightarrow> powerless fmt sha now c db)
    \<and> (job_AttemptCount k \<noteq> job_AttemptCount (claim_Job c) \<or> job_LeaseOwner k \<noteq> Some (claim_WorkerID c) \<or> job_State k \<noteq> StateRunning \<longrightarrow>
        (\<forall>db' cs' now'. (queue_step fmt sha)\<^sup>*\<^sup>* (db, cs) (db', cs') \<longrightarrow> powerless fmt sha now' c db'))"
proof (intro conjI impI allI)
  have inv: "queue_inv (db, cs)" using assms(1) by (rule queue_inv_reachable)
  have only: "j = k" if "j \<in> set (risk_jobs db)" "job_ID j = job_ID (claim_Job c)" for j
    using queue_inv_id_eq [OF inv that(1) assms(3)] that(2) assms(4) by simp
  show "powerless fmt sha now c db" if "case job_LeaseExpiresAt k of None \<Rightarrow> True | Some e \<Rightarrow> e \<le> now"
  proof (rule powerlessI)
    fix j assume "j \<in> set (risk_jobs db)"
    then show "\<not> holds_lease c now j" using only that by (auto simp: leased_to_def split: option.splits)
  qed
  fix db' cs' now'
  assume lost: "job_AttemptCount k \<noteq> job_AttemptCount (claim_Job c) \<or> job_LeaseOwner k \<noteq> Some (claim_WorkerID c) \<or> job_State k \<noteq> StateRunning"
    and later: "(queue_step fmt sha)\<^sup>*\<^sup>* (db, cs) (db', cs')"
  from inv assms(2) obtain j where j: "j \<in> set (risk_jobs db)" "job_ID j = job_ID (claim_Job c)"
    "job_AttemptCount (claim_Job c) \<le> job_AttemptCount j"
    "job_State j = StateRunning \<and> job_AttemptCount j = job_AttemptCount (claim_Job c) \<longrightarrow> job_LeaseOwner j = Some (claim_WorkerID c)"
    unfolding queue_inv_def claims_inv_def fst_conv snd_conv by blast
  then have "spent (job_ID (claim_Job c)) (job_AttemptCount (claim_Job c)) (fst (db, cs))"
    using only [OF j(1,2)] lost assms(3,4) by (auto simp: spent_def)
  note after = spent_steps [OF later inv this]
  show "powerless fmt sha now' c db'" using after(2) by (intro spent_powerless [OF after(1)]) simp
qed

theorem stale_worker_has_no_effect_witness:
  "powerless demo_fmt id 11 demo_claim demo_db2 \<and> \<not> powerless demo_fmt id 10 demo_claim demo_db2
    \<and> powerless demo_fmt id 2 demo_claim (fst (Cancel no_fault 3 ''j1'' ''late'' demo_db3))"
proof -
  have k2: "hd (risk_jobs demo_db2) \<in> set (risk_jobs demo_db2)" "job_ID (hd (risk_jobs demo_db2)) = job_ID (claim_Job demo_claim)"
    "job_LeaseExpiresAt (hd (risk_jobs demo_db2)) = Some 11"
    and k3: "hd (risk_jobs demo_db3) \<in> set (risk_jobs demo_db3)" "job_ID (hd (risk_jobs demo_db3)) = job_ID (claim_Job demo_claim)"
    "job_State (hd (risk_jobs demo_db3)) \<noteq> StateRunning"
    and live: "snd (Complete demo_fmt id no_fault 10 demo_claim (GInt 7) demo_db2) = Inr True"
    by code_simp+
  have step: "(queue_step demo_fmt id)\<^sup>*\<^sup>* (demo_db3, {demo_claim}) (fst (Cancel no_fault 3 ''j1'' ''late'' demo_db3), {demo_claim})"
    by (rule r_into_rtranclp) (rule queue_step.cancel)
  have "\<not> powerless demo_fmt id 10 demo_claim demo_db2" using live by (auto simp: powerless_def)
  then show ?thesis
    using stale_worker_has_no_effect [OF demo_reachable2 _ k2(1,2), of 11] stale_worker_has_no_effect [OF demo_reachable3 _ k3(1,2), of 2]
      k2(3) k3(3) step by (simp add: ex_simps all_simps) blast
qed

subsection \<open>Claiming, recovery, enqueueing\<close>

text \<open>
  C5. Claiming makes progress and is fair: in a reachable state with a due, unlocked job and no
  database fault, \<open>Claim\<close> succeeds (no table constraint ever stops it), the claimed job is the
  least due one in the order of availability, creation and id, and it runs under the caller's
  lease with its attempt count raised by one.
\<close>

theorem claim_takes_oldest:
  assumes "queue_reachable fmt sha (db, cs)" and "w \<noteq> []" and "0 < lease"
    and "k \<in> set (risk_jobs db)" and "claimable now k" and "\<not> locked (job_ID k)"
  shows "\<exists>j c db'. Claim_job True no_fault locked now w lease db = (db', Inr (Some c))
    \<and> j \<in> set (risk_jobs db) \<and> claimable now j \<and> claim_order j \<le> claim_order k
    \<and> claim_Job c = claimed w lease now j \<and> claimed w lease now j \<in> set (risk_jobs db')"
proof -
  have inv: "queue_inv (db, cs)" using assms(1) by (rule queue_inv_reachable)
  have "k \<in> set (candidates locked now db)" using assms(4-6) by (simp add: candidates_def)
  then obtain j rest where c: "candidates locked now db = j # rest" by (cases "candidates locked now db") auto
  note least = candidates_least [OF c]
  have row: "job_row_ok (claimed w lease now j)"
    using job_row_ok_claimed [OF queue_inv_job_inv [OF inv least(1)] least(2)] .
  have "att_Attempt b \<le> job_AttemptCount j" if b: "b \<in> set (risk_job_attempts db)" "att_JobID b = job_ID j" for b
  proof -
    obtain i where i: "i \<in> set (risk_jobs db)" "job_ID i = att_JobID b" "att_Attempt b \<le> job_AttemptCount i"
      using inv b(1) by (auto simp: queue_inv_def attempts_inv_def)
    then show ?thesis using queue_inv_id_eq [OF inv i(1) least(1)] b(2) by simp
  qed
  then have free: "attempt_key_free db (new_attempt w lease now (claimed w lease now j))"
    by (fastforce simp: attempt_key_free_def new_attempt_def)
  let ?db' = "db\<lparr>risk_jobs := sql_update (\<lambda>r. job_ID r = job_ID j) (claimed w lease now) (risk_jobs db),
      risk_job_attempts := risk_job_attempts db @ [new_attempt w lease now (claimed w lease now j)]\<rparr>"
  have "Claim_job True no_fault locked now w lease db =
      (?db', Inr (Some \<lparr>claim_Job = claimed w lease now j, claim_WorkerID = w\<rparr>))"
    using assms(2,3) row free by (simp add: Claim_job_def c Let_def)
  moreover have "claimed w lease now j \<in> set (risk_jobs ?db')"
    using least(1) by (auto simp: set_sql_update)
  ultimately show ?thesis using least assms(4-6) by (metis Claim.select_convs(1))
qed

theorem claim_takes_oldest_witness:
  "\<exists>j c db'. Claim_job True no_fault (\<lambda>_. False) 1 ''w'' 10 demo_db1 = (db', Inr (Some c))
    \<and> j \<in> set (risk_jobs demo_db1) \<and> claimable 1 j \<and> claim_order j \<le> claim_order (hd (risk_jobs demo_db1))
    \<and> claim_Job c = claimed ''w'' 10 1 j \<and> claimed ''w'' 10 1 j \<in> set (risk_jobs db')"
proof -
  have "hd (risk_jobs demo_db1) \<in> set (risk_jobs demo_db1)" "claimable 1 (hd (risk_jobs demo_db1))"
    by code_simp+
  then show ?thesis by (intro claim_takes_oldest [OF demo_reachable1]) simp_all
qed

text \<open>
  The three tables after a recovery without faults, row by row.
\<close>

lemma recover_each_runs:
  assumes "recover_each fault n now js db = Inr db'"
  shows "scenario_runs db' = fold (close_run now) js (scenario_runs db)"
  using assms by (induction js arbitrary: n db) (fastforce simp: Let_def split: if_splits)+

lemma recover_each_returns: "\<exists>d. recover_each no_fault n now js e = Inr d"
  by (induction js arbitrary: n e) (auto simp: Let_def)

lemma RecoverExpired_tables:
  obtains db' where "RecoverExpired True no_fault now db = (db', Inr (int (sql_count (lease_expired now) (risk_jobs db))))"
    and "risk_jobs db' = sql_update (lease_expired now) (expired now) (risk_jobs db)"
    and "risk_job_attempts db' = sql_update (\<lambda>a. \<exists>j \<in> set (risk_jobs db). lease_expired now j \<and> open_attempt (job_ID j) (job_AttemptCount j) a)
           (close_expired now) (risk_job_attempts db)"
    and "scenario_runs db' = fold (close_run now) (map (expired now) (filter (lease_expired now) (risk_jobs db))) (scenario_runs db)"
proof -
  let ?rows = "map (expired now) (filter (lease_expired now) (risk_jobs db))"
  let ?db1 = "db\<lparr>risk_jobs := sql_update (lease_expired now) (expired now) (risk_jobs db)\<rparr>"
  obtain db' where r: "recover_each no_fault 3 now ?rows ?db1 = Inr db'" using recover_each_returns by blast
  have q: "(\<exists>j \<in> set ?rows. open_attempt (job_ID j) (job_AttemptCount j) a)
      \<longleftrightarrow> (\<exists>j \<in> set (risk_jobs db). lease_expired now j \<and> open_attempt (job_ID j) (job_AttemptCount j) a)" for a
    by (auto simp: expired_def Let_def)
  have "RecoverExpired True no_fault now db = (db', Inr (int (sql_count (lease_expired now) (risk_jobs db))))"
    by (simp add: RecoverExpired_def r sql_count_def)
  then show thesis
    using recover_each_tables [OF r] recover_each_runs [OF r] unfolding q by (intro that) simp_all
qed

lemma set_close_run: "r \<in> set (close_run now j runs) \<Longrightarrow> \<exists>s \<in> set runs. run_JobID s = run_JobID r \<and> (run_JobID r = job_ID j \<or> s = r)"
  by (auto simp: close_run_def set_sql_update split: if_splits)

lemma close_run_other: "run_JobID r \<noteq> job_ID j \<Longrightarrow> r \<in> set (close_run now j runs) \<longleftrightarrow> r \<in> set runs"
  by (auto simp: close_run_def set_sql_update split: if_splits)

lemma fold_close_run_other:
  "\<forall>j \<in> set js. run_JobID r \<noteq> job_ID j \<Longrightarrow> r \<in> set (fold (close_run now) js runs) \<longleftrightarrow> r \<in> set runs"
  by (induction js arbitrary: runs) (auto simp: close_run_other)

text \<open>The state of the scenario runs of a job that was recovered.\<close>

definition run_settled :: "bool \<Rightarrow> ScenarioRun \<Rightarrow> bool" where
  "run_settled over r \<longleftrightarrow> run_State r \<noteq> ''running'' \<and> (over \<longrightarrow> run_State r \<noteq> ''queued'')"

lemma close_run_settles:
  assumes "job_Kind j = ''scenario.revalue''" and "job_State j = (if over then StateFailed else StateRetryableFailed)"
    and "r \<in> set (close_run now j runs)" and "run_JobID r = job_ID j"
  shows "run_settled over r"
  using assms by (auto simp: close_run_def set_sql_update run_settled_def split: if_splits)

lemma fold_close_run_settles:
  assumes "distinct (map job_ID js)" and "j \<in> set js"
    and "job_Kind j = ''scenario.revalue''" and "job_State j = (if over then StateFailed else StateRetryableFailed)"
    and "r \<in> set (fold (close_run now) js runs)" and "run_JobID r = job_ID j"
  shows "run_settled over r"
  using assms
proof (induction js arbitrary: runs)
  case (Cons i js)
  show ?case
  proof (cases "i = j")
    case True
    have "\<forall>j \<in> set js. run_JobID r \<noteq> job_ID j" using True Cons.prems(1,6) by (auto simp: image_iff)
    then have "r \<in> set (close_run now j runs)"
      using True Cons.prems(5) fold_close_run_other [of js r now "close_run now j runs"] by simp
    then show ?thesis using Cons.prems(3,4,6) by (intro close_run_settles)
  next
    case False
    then show ?thesis using Cons by simp
  qed
qed simp

lemma filter_map_keep: "(\<And>a. q a \<Longrightarrow> g a = a) \<Longrightarrow> (\<And>a. q (g a) = q a) \<Longrightarrow> filter q (map g as) = filter q as"
  by (induction as) auto

lemma lease_expired_iff: "lease_expired now j \<longleftrightarrow> job_State j = StateRunning \<and> (\<exists>e. job_LeaseExpiresAt j = Some e \<and> e \<le> now)"
  by (auto simp: lease_expired_def split: option.splits)

lemma unexpired_attempts:
  assumes "\<And>i. i \<in> set js \<Longrightarrow> job_ID i = job_ID j \<Longrightarrow> \<not> lease_expired now i"
  shows "filter (\<lambda>a. att_JobID a = job_ID j) (sql_update (\<lambda>a. \<exists>j \<in> set js. lease_expired now j \<and> open_attempt (job_ID j) (job_AttemptCount j) a)
      (close_expired now) as) = filter (\<lambda>a. att_JobID a = job_ID j) as"
  unfolding sql_update_def by (rule filter_map_keep) (use assms in \<open>auto simp: open_attempt_def\<close>)

lemma stopped_powerless:
  assumes "queue_inv (db, cs)" and "k \<in> set (risk_jobs db)" and "job_State k \<noteq> StateRunning"
    and "c \<in> cs" and "job_ID (claim_Job c) = job_ID k"
  shows "powerless fmt sha now c db"
proof -
  obtain i where "i \<in> set (risk_jobs db)" "job_ID i = job_ID (claim_Job c)" "job_AttemptCount (claim_Job c) \<le> job_AttemptCount i"
    using assms(1,4) unfolding queue_inv_def claims_inv_def fst_conv snd_conv by blast
  then have "spent (job_ID (claim_Job c)) (job_AttemptCount (claim_Job c)) db"
    using queue_inv_id_eq [OF assms(1) _ assms(2)] assms(3,5) by (auto simp: spent_def)
  then show ?thesis by (rule spent_powerless [OF assms(1)])
qed

lemma open_attempt_closed:
  assumes "queue_inv (db, cs)" and "j \<in> set (risk_jobs db)" and "job_State j = StateRunning"
  obtains a where "a \<in> set (risk_job_attempts db)" and "open_attempt (job_ID j) (job_AttemptCount j) a"
  using assms by (auto simp: queue_inv_def attempts_inv_def)



text \<open>
  C7. Enqueueing is idempotent on the kind and the idempotency key: after a first request has been
  accepted, a second one with the same kind and key returns that very job and changes nothing,
  whatever else it carries.
\<close>

theorem enqueue_idempotent:
  assumes "Enqueue True fmt no_fault wall now newID r db = (db', Inr j)"
    and "req_Kind r' = req_Kind r" and "req_IdempotencyKey r' = req_IdempotencyKey r"
    and "\<exists>e. snd (Enqueue True fmt no_fault wall' now' newID' r' db') = Inr e"
  shows "\<exists>k. Enqueue True fmt no_fault wall' now' newID' r' db' = (db', Inr k)
    \<and> k \<in> set (risk_jobs db') \<and> job_Kind k = job_Kind j \<and> job_IdempotencyKey k = job_IdempotencyKey j"
proof -
  let ?same = "\<lambda>e. job_Kind e = req_Kind r \<and> job_IdempotencyKey e = req_IdempotencyKey r"
  have key: "job_Kind (new_job i ver m av n p q) = req_Kind q" "job_IdempotencyKey (new_job i ver m av n p q) = req_IdempotencyKey q"
    for i ver m av n p q by (simp_all add: new_job_def)
  obtain i where "insert_job no_fault i db = (db', Inr j)" and "?same i"
    by (cases rule: Enqueue_insert [of True fmt no_fault wall now newID r db]) (use assms(1) in \<open>auto simp: key\<close>)
  then have j: "j \<in> set (risk_jobs db')" "?same j"
    by (auto simp: insert_job_def find_Some_iff split: if_splits option.splits)
  obtain i' where i': "Enqueue True fmt no_fault wall' now' newID' r' db' = insert_job no_fault i' db'" "?same i'"
    by (cases rule: Enqueue_insert [of True fmt no_fault wall' now' newID' r' db']) (use assms in \<open>auto simp: key\<close>)
  with assms(4) have ok: "job_row_ok i'" by (auto simp: insert_job_def split: if_splits)
  obtain k where f: "find ?same (risk_jobs db') = Some k"
    using j by (cases "find ?same (risk_jobs db')") (auto simp: find_None_iff)
  then have "k \<in> set (risk_jobs db')" "?same k" by (auto simp: find_Some_iff)
  moreover have "insert_job no_fault i' db' = (db', Inr k)"
    using f ok i'(2) by (simp add: insert_job_def)
  ultimately show ?thesis using i'(1) j(2) by auto
qed

theorem enqueue_idempotent_witness:
  "\<exists>k. Enqueue True demo_fmt no_fault 5 5 ''j2'' (demo_request\<lparr>req_MaxAttempts := 9\<rparr>) demo_db1 = (demo_db1, Inr k)
    \<and> k \<in> set (risk_jobs demo_db1) \<and> job_Kind k = ''scenario.revalue'' \<and> job_IdempotencyKey k = ''k''"
proof -
  let ?j = "hd (risk_jobs demo_db1)"
  have e: "Enqueue True demo_fmt no_fault 0 0 ''j1'' demo_request empty_db = (demo_db1, Inr ?j)"
    by code_simp
  have j: "job_Kind ?j = ''scenario.revalue'' \<and> job_IdempotencyKey ?j = ''k''" by code_simp
  have "isl (snd (Enqueue True demo_fmt no_fault 5 5 ''j2'' (demo_request\<lparr>req_MaxAttempts := 9\<rparr>) demo_db1)) = False"
    by code_simp
  then have s: "\<exists>x. snd (Enqueue True demo_fmt no_fault 5 5 ''j2'' (demo_request\<lparr>req_MaxAttempts := 9\<rparr>) demo_db1) = Inr x"
    by (metis sum.exhaust_sel sum.disc(1) sum.collapse(2))
  show ?thesis using enqueue_idempotent [OF e _ _ s] j by simp
qed

subsection \<open>Canonical JSON\<close>

text \<open>
  C23. Canonical JSON does not depend on map iteration order: two values that differ only in the
  order of map members, at any depth, have the same canonical bytes and so the same hash, and
  normalising twice is normalising once.
\<close>

theorem canonical_json_order_free:
  assumes "same_goval v w" and "wf_goval v"
  shows "CanonicalJSON fmt v = CanonicalJSON fmt w
    \<and> HashCanonicalJSON fmt sha v = HashCanonicalJSON fmt sha w
    \<and> normalizeCanonical (normalizeCanonical v) = normalizeCanonical v"
  using CanonicalJSON_same [OF assms, of fmt] by (simp add: HashCanonicalJSON_def normalizeCanonical_idem)

theorem canonical_json_order_free_witness:
  "CanonicalJSON demo_fmt (GMap [(''b'', GInt 1), (''a'', GList [GNil])])
    = CanonicalJSON demo_fmt (GMap [(''a'', GList [GNil]), (''b'', GInt 1)])
   \<and> CanonicalJSON demo_fmt (GMap [(''b'', GInt 1)]) = Some [CHR 0x7B, CHR 0x22, CHR ''b'', CHR 0x22, CHR '':'', CHR ''1'', CHR 0x7D]"
proof -
  have s: "same_goval (GMap [(''b'', GInt 1), (''a'', GList [GNil])]) (GMap [(''a'', GList [GNil]), (''b'', GInt 1)])"
    by (rule same_goval.same_map [where m' = "[(''b'', GInt 1), (''a'', GList [GNil])]"]) (auto intro: same_goval.same_refl)
  have "CanonicalJSON demo_fmt (GMap [(''b'', GInt 1)]) = Some [CHR 0x7B, CHR 0x22, CHR ''b'', CHR 0x22, CHR '':'', CHR ''1'', CHR 0x7D]"
    by code_simp
  then show ?thesis using canonical_json_order_free [OF s, of demo_fmt id] by simp
qed

text \<open>
  An integral float strictly inside the signed 64-bit range is written as that integer, but the
  bound is compared after rounding to a float: \<open>2 ^ 63\<close> passes the test and comes out
  negative.
\<close>

theorem canonical_float_integers:
  "(\<forall>i. - (2 ^ 63) \<le> i \<and> i < 2 ^ 63 \<longrightarrow> CanonicalJSON fmt (GFloat (of_int i)) = Some (int_str i))
    \<and> CanonicalJSON fmt (GFloat (2 ^ 63)) = Some (int_str (- (2 ^ 63)))"
proof (intro conjI allI impI)
  fix i :: int assume i: "- (2 ^ 63) \<le> i \<and> i < 2 ^ 63"
  then have "(of_int (- (2 ^ 63)) :: rat) \<le> of_int i" and "(of_int i :: rat) \<le> of_int (2 ^ 63)"
    by (simp_all only: of_int_le_iff) simp_all
  then have "(- (2 ^ 63) :: rat) \<le> of_int i" and "of_int i \<le> (2 ^ 63 :: rat)" by simp_all
  then show "CanonicalJSON fmt (GFloat (of_int i)) = Some (int_str i)"
    using i by (auto simp: CanonicalJSON_def int64_of_float_def in_int64_def min_int64_def max_int64_def)
next
  have "\<lfloor>9223372036854775808 :: rat\<rfloor> = 9223372036854775808" by simp
  then show "CanonicalJSON fmt (GFloat (2 ^ 63)) = Some (int_str (- (2 ^ 63)))"
    by (simp add: CanonicalJSON_def int64_of_float_def in_int64_def min_int64_def max_int64_def)
qed

theorem canonical_float_integers_witness:
  "CanonicalJSON demo_fmt (GFloat 42) = Some ''42'' \<and> CanonicalJSON demo_fmt (GFloat (2 ^ 63)) = Some (int_str (- (2 ^ 63)))"
proof -
  have "int_str 42 = ''42''" by code_simp
  then show ?thesis using canonical_float_integers [of demo_fmt, THEN conjunct1, rule_format, of 42]
    canonical_float_integers [of demo_fmt, THEN conjunct2] by simp
qed

end
