(* ===== verification/GoDuration.thy ===== *)
theory GoDuration
  imports GoTime Complex_Main "HOL-Library.Log_Nat"
begin

text \<open>
  \<open>time.ParseDuration\<close>. The grammar is an optional sign followed by numbers with units; the
  integer part of a number is exact, its fraction is converted through \<open>float64\<close>, so the
  nearest double (\<open>float64\<close>, ties to even; every value here is far inside the normal
  range) is modelled too. Values past \<open>2 ^ 63\<close> nanoseconds are an error.
\<close>

definition pow2 :: "int \<Rightarrow> rat" where
  "pow2 k = (if 0 \<le> k then 2 ^ nat k else 1 / 2 ^ nat (- k))"

definition round_even :: "rat \<Rightarrow> int" where
  "round_even q = (let f = \<lfloor>q\<rfloor>; r = q - of_int f
     in if r < 1 / 2 \<or> r = 1 / 2 \<and> even f then f else f + 1)"

definition float64 :: "rat \<Rightarrow> rat" where
  "float64 q = (if q \<le> 0 then 0 else
     let (n, d) = quotient_of q;
         k = bitlen n - bitlen d;
         ulp = pow2 ((if pow2 k \<le> q then k else k - 1) - 52)
     in of_int (round_even (q / ulp)) * ulp)"

definition unit_map :: "string \<Rightarrow> int option" where
  "unit_map u =
     (if u = ''ns'' then Some 1
      else if u = ''us'' \<or> u = [CHR 0xC2, CHR 0xB5, CHR ''s''] \<or> u = [CHR 0xCE, CHR 0xBC, CHR ''s''] then Some (10 ^ 3)
      else if u = ''ms'' then Some (10 ^ 6)
      else if u = ''s'' then Some (10 ^ 9)
      else if u = ''m'' then Some (60 * 10 ^ 9)
      else if u = ''h'' then Some (3600 * 10 ^ 9)
      else None)"

text \<open>The digits of a fraction that fit 63 bits, and the power of ten they are scaled by.\<close>

fun leading_fraction :: "int \<Rightarrow> int \<Rightarrow> string \<Rightarrow> int \<times> int" where
  "leading_fraction x scale [] = (x, scale)"
| "leading_fraction x scale (c # s) =
     (if x > max_int64 div 10 then (x, scale)
      else let y = x * 10 + int (digit_val c)
           in if y > 2 ^ 63 then (x, scale) else leading_fraction y (scale * 10) s)"

text \<open>One number with its unit: its value in nanoseconds and the rest of the text.\<close>

definition duration_term :: "string \<Rightarrow> (int \<times> string) option" where
  "duration_term s =
     (let ip = takeWhile is_digit s; t = dropWhile is_digit s;
          point = (t \<noteq> [] \<and> hd t = CHR ''.'');
          fp = (if point then takeWhile is_digit (tl t) else []);
          r = (if point then dropWhile is_digit (tl t) else t);
          is_unit = (\<lambda>c. c \<noteq> CHR ''.'' \<and> \<not> is_digit c);
          u = takeWhile is_unit r; rest = dropWhile is_unit r;
          v = digits_int ip; (f, scale) = leading_fraction 0 1 fp
      in if v > 2 ^ 63 \<or> ip = [] \<and> fp = [] then None
         else case unit_map u of
           None \<Rightarrow> None
         | Some unit \<Rightarrow>
             if v > 2 ^ 63 div unit then None
             else let w = v * unit + (if f > 0
                    then \<lfloor>float64 (float64 (of_int f) * float64 (of_int unit / of_int scale))\<rfloor> else 0)
                  in if w > 2 ^ 63 then None else Some (w, rest))"

text \<open>The remaining terms, added to what has been read; the fuel is the length of the text.\<close>

fun duration_terms :: "nat \<Rightarrow> int \<Rightarrow> string \<Rightarrow> int option" where
  "duration_terms n d [] = Some d"
| "duration_terms 0 d (c # s) = None"
| "duration_terms (Suc n) d (c # s) =
     (if \<not> (c = CHR ''.'' \<or> is_digit c) then None
      else case duration_term (c # s) of
        None \<Rightarrow> None
      | Some (v, rest) \<Rightarrow> if d + v > 2 ^ 63 then None else duration_terms n (d + v) rest)"

definition ParseDuration :: "string \<Rightarrow> Duration option" where
  "ParseDuration orig =
     (let neg = (orig \<noteq> [] \<and> hd orig = CHR ''-'');
          s = (if orig \<noteq> [] \<and> (hd orig = CHR ''-'' \<or> hd orig = CHR ''+'') then tl orig else orig)
      in if s = ''0'' then Some 0
         else if s = [] then None
         else case duration_terms (length s) 0 s of
           None \<Rightarrow> None
         | Some d \<Rightarrow> if neg then Some (- d) else if d > max_int64 then None else Some d)"

text \<open>Every duration that is read fits 64 bits.\<close>

lemma duration_terms_bound: "duration_terms n d s = Some r \<Longrightarrow> d \<le> 2 ^ 63 \<Longrightarrow> r \<le> 2 ^ 63"
  by (induction n d s rule: duration_terms.induct) (auto split: if_splits option.splits)

lemma digits_int_nonneg: "0 \<le> digits_int s"
proof -
  have "0 \<le> v \<Longrightarrow> 0 \<le> foldl (\<lambda>v c. 10 * v + int (digit_val c)) v s" for v
    by (induction s arbitrary: v) auto
  then show ?thesis by (simp add: digits_int_def)
qed

lemma digits_int_eq: "digits_int s = int (digits_val s)"
proof -
  have "foldl (\<lambda>v c. 10 * v + int (digit_val c)) (int v) s = int (foldl (\<lambda>v c. 10 * v + digit_val c) v s)" for v
  proof (induction s arbitrary: v)
    case (Cons c s)
    from Cons [of "10 * v + digit_val c"] show ?case by simp
  qed simp
  from this [of 0] show ?thesis by (simp add: digits_int_def digits_val_def)
qed

lemma unit_map_pos: "unit_map u = Some k \<Longrightarrow> 0 < k"
  by (auto simp: unit_map_def split: if_splits)

lemma round_even_nonneg: "0 \<le> q \<Longrightarrow> 0 \<le> round_even q"
  by (auto simp: round_even_def Let_def)

lemma pow2_pos [simp]: "0 < pow2 k" "0 \<le> pow2 k"
  by (simp_all add: pow2_def)

lemma float64_nonneg: "0 \<le> float64 q"
  by (auto simp: float64_def Let_def split: prod.splits intro!: mult_nonneg_nonneg round_even_nonneg divide_nonneg_pos)

lemma duration_term_nonneg: "duration_term s = Some (v, r) \<Longrightarrow> 0 \<le> v"
  by (auto simp: duration_term_def Let_def digits_int_nonneg float64_nonneg less_imp_le unit_map_pos
      split: if_splits option.splits prod.splits intro!: add_nonneg_nonneg mult_nonneg_nonneg)

lemma duration_terms_nonneg: "duration_terms n d s = Some r \<Longrightarrow> 0 \<le> d \<Longrightarrow> 0 \<le> r"
  by (induction n d s rule: duration_terms.induct) (auto split: if_splits option.splits dest: duration_term_nonneg)

lemma ParseDuration_range: "ParseDuration s = Some d \<Longrightarrow> in_int64 d"
  using duration_terms_bound [of _ 0] duration_terms_nonneg [of _ 0]
  by (fastforce simp: ParseDuration_def Let_def in_int64_def min_int64_def max_int64_def split: if_splits option.splits)

end
