(* ===== verification/Json.thy ===== *)
theory Json
  imports Canonical_Json
begin

text \<open>
  Reading JSON text, the part of \<open>encoding/json\<close> that \<open>json.Valid\<close> and
  \<open>json.Unmarshal\<close> need: a value of type \<open>json\<close> is a syntax tree whose strings are
  unquoted (an escape that is no scalar value and a malformed UTF-8 byte both become U+FFFD) and
  whose numbers keep their literal. The fuel of the recursive descent is twice the length of the
  text plus two: between two calls that use one unit each at least one byte is read, so it never
  runs out. Struct fields are matched to object members without regard to ASCII case, a later
  member overrides an earlier one, and \<open>null\<close> leaves the field as it is.
\<close>

datatype json = JNull | JBool bool | JNum string | JStr string | JArr "json list" | JObj "(string \<times> json) list"

text \<open>A Go \<open>map[string]any\<close>.\<close>

type_synonym metadata = "(string \<times> json) list"

definition is_ws :: "char \<Rightarrow> bool" where
  "is_ws c \<longleftrightarrow> c = CHR '' '' \<or> c = CHR 0x09 \<or> c = CHR 0x0A \<or> c = CHR 0x0D"

abbreviation skip_ws :: "string \<Rightarrow> string" where "skip_ws \<equiv> dropWhile is_ws"

subsection \<open>Strings\<close>

definition hex_val :: "char \<Rightarrow> nat option" where
  "hex_val c = (let n = of_char c in
     if is_digit c then Some (n - 48)
     else if 97 \<le> n \<and> n \<le> 102 then Some (n - 87)
     else if 65 \<le> n \<and> n \<le> 70 then Some (n - 55) else None)"

text \<open>Hexadecimal groups of the given lengths, joined by hyphens.\<close>

fun hex_groups :: "nat list \<Rightarrow> string \<Rightarrow> bool" where
  "hex_groups [] s \<longleftrightarrow> s = []"
| "hex_groups [n] s \<longleftrightarrow> length s = n \<and> list_all (\<lambda>c. hex_val c \<noteq> None) s"
| "hex_groups (n # m # ns) s \<longleftrightarrow> length s > n \<and> list_all (\<lambda>c. hex_val c \<noteq> None) (take n s)
     \<and> s ! n = CHR ''-'' \<and> hex_groups (m # ns) (drop (Suc n) s)"

definition uuid_shape :: "string \<Rightarrow> bool" where
  "uuid_shape s = hex_groups [8, 4, 4, 4, 12] s"

fun hex4 :: "string \<Rightarrow> nat option" where
  "hex4 (a # b # c # d # _) = do {
     a \<leftarrow> hex_val a; b \<leftarrow> hex_val b; c \<leftarrow> hex_val c; d \<leftarrow> hex_val d;
     Some (((a * 16 + b) * 16 + c) * 16 + d) }"
| "hex4 _ = None"

definition utf8_encode :: "nat \<Rightarrow> string" where
  "utf8_encode u =
     (if u < 128 then [char_of u]
      else if u < 2048 then [char_of (192 + u div 64), char_of (128 + u mod 64)]
      else if u < 65536 then [char_of (224 + u div 4096), char_of (128 + u div 64 mod 64), char_of (128 + u mod 64)]
      else [char_of (240 + u div 262144), char_of (128 + u div 4096 mod 64), char_of (128 + u div 64 mod 64),
            char_of (128 + u mod 64)])"

definition replacement :: string where "replacement = utf8_encode 65533"

text \<open>The rune of a \<open>\u\<close> escape and how many bytes after the escape belong to it.\<close>

definition escaped_rune :: "nat \<Rightarrow> string \<Rightarrow> string \<times> nat" where
  "escaped_rune u t =
     (if u < 55296 \<or> 57343 < u then (utf8_encode u, 0)
      else case hex4 (drop 2 t) of
        Some v \<Rightarrow>
          if take 2 t = [backslash, CHR ''u''] \<and> u < 56320 \<and> 56320 \<le> v \<and> v \<le> 57343
          then (utf8_encode ((u - 55296) * 1024 + (v - 56320) + 65536), 6)
          else (replacement, 0)
      | None \<Rightarrow> (replacement, 0))"

definition simple_escape :: "char \<Rightarrow> char option" where
  "simple_escape e =
     (if e = dquote \<or> e = backslash \<or> e = CHR ''/'' then Some e
      else if e = CHR ''b'' then Some (CHR 0x08) else if e = CHR ''f'' then Some (CHR 0x0C)
      else if e = CHR ''n'' then Some (CHR 0x0A) else if e = CHR ''r'' then Some (CHR 0x0D)
      else if e = CHR ''t'' then Some (CHR 0x09) else None)"

text \<open>The rest of a string after its opening quote.\<close>

function string_body :: "string \<Rightarrow> (string \<times> string) option" where
  "string_body s = (case s of
      [] \<Rightarrow> None
    | c # t \<Rightarrow>
        if c = dquote then Some ([], t)
        else if c = backslash then (case t of
            [] \<Rightarrow> None
          | e # r \<Rightarrow> (case simple_escape e of
              Some x \<Rightarrow> map_option (apfst ((@) [x])) (string_body r)
            | None \<Rightarrow>
                if e = CHR ''u'' then (case hex4 r of
                    None \<Rightarrow> None
                  | Some u \<Rightarrow> (case escaped_rune u (drop 4 r) of
                      (rune, k) \<Rightarrow> map_option (apfst ((@) rune)) (string_body (drop (4 + k) r))))
                else None))
        else if (of_char c :: nat) < 32 then None
        else if rune_len s = 0 then map_option (apfst ((@) replacement)) (string_body t)
        else map_option (apfst ((@) (take (rune_len s) s))) (string_body (drop (rune_len s) s)))"
  by pat_completeness auto
termination by (relation "measure length") auto

declare string_body.simps [simp del]

subsection \<open>Numbers\<close>

definition scan_int :: "string \<Rightarrow> (string \<times> string) option" where
  "scan_int s = (case s of
      [] \<Rightarrow> None
    | c # t \<Rightarrow>
        if c = CHR ''0'' then Some ([c], t)
        else if is_digit c then Some (takeWhile is_digit s, dropWhile is_digit s)
        else None)"

text \<open>An optional part: one of the lead characters, an optional sign, one or more digits.\<close>

definition scan_part :: "string \<Rightarrow> string \<Rightarrow> string \<Rightarrow> (string \<times> string) option" where
  "scan_part lead signs s = (case s of
      [] \<Rightarrow> Some ([], [])
    | c # t \<Rightarrow>
        if c \<notin> set lead then Some ([], s)
        else let (sgn, r) = (case t of x # u \<Rightarrow> if x \<in> set signs then ([x], u) else ([], t) | [] \<Rightarrow> ([], []));
                 ds = takeWhile is_digit r
             in if ds = [] then None else Some (c # sgn @ ds, dropWhile is_digit r))"

definition scan_number :: "string \<Rightarrow> (string \<times> string) option" where
  "scan_number s = do {
     let (m, t) = (case s of c # r \<Rightarrow> if c = CHR ''-'' then ([c], r) else ([], s) | [] \<Rightarrow> ([], []));
     (i, t) \<leftarrow> scan_int t;
     (f, t) \<leftarrow> scan_part ''.'' [] t;
     (e, t) \<leftarrow> scan_part ''eE'' ''+-'' t;
     Some (m @ i @ f @ e, t) }"

subsection \<open>Values\<close>

definition scan_word :: "string \<Rightarrow> json \<Rightarrow> string \<Rightarrow> (json \<times> string) option" where
  "scan_word w v s = (if has_prefix s w then Some (v, drop (length w) s) else None)"

definition scan_key :: "string \<Rightarrow> (string \<times> string) option" where
  "scan_key s = (case skip_ws s of
      [] \<Rightarrow> None
    | c # t \<Rightarrow> if c \<noteq> dquote then None else do {
        (k, t) \<leftarrow> string_body t;
        (case skip_ws t of [] \<Rightarrow> None | d # r \<Rightarrow> if d = CHR '':'' then Some (k, r) else None) })"

fun json_value :: "nat \<Rightarrow> string \<Rightarrow> (json \<times> string) option"
  and json_elems :: "nat \<Rightarrow> string \<Rightarrow> (json list \<times> string) option"
  and json_members :: "nat \<Rightarrow> string \<Rightarrow> ((string \<times> json) list \<times> string) option"
  where
  "json_value 0 s = None"
| "json_value (Suc n) s = (case skip_ws s of
      [] \<Rightarrow> None
    | c # t \<Rightarrow>
        if c = CHR 0x7B then
          (if take 1 (skip_ws t) = [CHR 0x7D] then Some (JObj [], drop 1 (skip_ws t))
           else map_option (apfst JObj) (json_members n t))
        else if c = CHR ''['' then
          (if take 1 (skip_ws t) = '']'' then Some (JArr [], drop 1 (skip_ws t))
           else map_option (apfst JArr) (json_elems n t))
        else if c = dquote then map_option (apfst JStr) (string_body t)
        else if c = CHR ''t'' then scan_word ''true'' (JBool True) (c # t)
        else if c = CHR ''f'' then scan_word ''false'' (JBool False) (c # t)
        else if c = CHR ''n'' then scan_word ''null'' JNull (c # t)
        else map_option (apfst JNum) (scan_number (c # t)))"
| "json_elems 0 s = None"
| "json_elems (Suc n) s = (case json_value n s of
      None \<Rightarrow> None
    | Some (v, t) \<Rightarrow> (case skip_ws t of
        [] \<Rightarrow> None
      | c # r \<Rightarrow> if c = CHR '']'' then Some ([v], r)
                else if c = CHR '','' then map_option (apfst ((#) v)) (json_elems n r)
                else None))"
| "json_members 0 s = None"
| "json_members (Suc n) s = (case scan_key s of
      None \<Rightarrow> None
    | Some (k, s1) \<Rightarrow> (case json_value n s1 of
        None \<Rightarrow> None
      | Some (v, t) \<Rightarrow> (case skip_ws t of
          [] \<Rightarrow> None
        | c # r \<Rightarrow> if c = CHR 0x7D then Some ([(k, v)], r)
                  else if c = CHR '','' then map_option (apfst ((#) (k, v))) (json_members n r)
                  else None)))"

definition json_parse :: "string \<Rightarrow> json option" where
  "json_parse s = (case json_value (2 * length s + 2) s of
      Some (v, t) \<Rightarrow> if skip_ws t = [] then Some v else None
    | None \<Rightarrow> None)"

subsection \<open>Decoding into Go values\<close>

text \<open>A member of a \<open>map[string]any\<close>: the last one with that key.\<close>

definition map_get :: "(string \<times> json) list \<Rightarrow> string \<Rightarrow> json option" where
  "map_get ms k = map_of (rev ms) k"

text \<open>The values decoded into a struct field, in document order.\<close>

definition field_values :: "string \<Rightarrow> (string \<times> json) list \<Rightarrow> json list" where
  "field_values f ms = map snd (filter (\<lambda>m. EqualFold (fst m) f) ms)"

fun decode_each :: "(json \<Rightarrow> 'a option) \<Rightarrow> 'a \<Rightarrow> json list \<Rightarrow> 'a option" where
  "decode_each dec cur [] = Some cur"
| "decode_each dec cur (v # vs) =
     (if v = JNull then decode_each dec cur vs
      else case dec v of None \<Rightarrow> None | Some x \<Rightarrow> decode_each dec x vs)"

fun json_string :: "json \<Rightarrow> string option" where
  "json_string (JStr s) = Some s"
| "json_string _ = None"

definition json_strings :: "json \<Rightarrow> string list option" where
  "json_strings v = (case v of
      JArr xs \<Rightarrow> those (map (\<lambda>x. if x = JNull then Some [] else json_string x) xs)
    | _ \<Rightarrow> None)"

definition string_field :: "string \<Rightarrow> (string \<times> json) list \<Rightarrow> string option" where
  "string_field f ms = decode_each json_string [] (field_values f ms)"

end
