(* ===== verification/Quality.thy ===== *)
theory Quality
  imports GoDuration Json "HOL-Library.AList"
begin

text \<open>
  The quality of a series snapshot, \<open>internal/quality/evaluate.go\<close>. \<open>Evaluate\<close> reads a
  freshness policy, walks the samples, walks the expected days and classifies the snapshot. The
  time zone database is the argument \<open>LoadLocation\<close>. The loop over the expected days has no
  bound of its own, so it is a partial function: \<open>None\<close> is a call that never returns. The
  texts of a reason are the constructors of \<open>Message\<close>, with the values the code formats into
  them as arguments.
\<close>

datatype Classification = Fresh | Stale | Missing | Partial | Suspect | Revised

text \<open>A \<open>State\<close> is a string in Go; any value but the three constants is \<open>OtherState\<close>.\<close>

datatype QState = Valid | Degraded | Blocked | OtherState string

record Policy =
  pol_Version :: string
  pol_Expected :: string
  pol_MaxAge :: string
  pol_AvailabilityLag :: string
  pol_HolidayDates :: "string list"

record Sample =
  smp_ObservationTime :: time
  smp_QualityFlags :: string
  smp_Revised :: bool

datatype PolicyError =
    InvalidTimezone string
  | MalformedJSON
  | UndecodablePolicy
  | VersionRequired
  | UnsupportedExpected string
  | MaxAgeNotPositive
  | LagNegative
  | HolidayNotDate string

datatype Message = Text string | ErrInvalidPolicy PolicyError | OlderThanMaxAge Duration

record Reason =
  rsn_Code :: string
  rsn_Message :: Message
  rsn_AffectedDates :: "string list"

record QResult =
  res_Classification :: Classification
  res_State :: QState
  res_PolicyVersion :: string
  res_EvaluatedAt :: time
  res_Reasons :: "Reason list"

subsection \<open>The policy\<close>

definition parseDuration :: "string \<Rightarrow> Duration option" where
  "parseDuration value =
     (if has_prefix value ''P'' \<and> has_suffix value ''D''
      then map_option (\<lambda>d. wrap64 (d * 24)) (ParseDuration (trim_suffix (trim_prefix value ''P'') ''D'' @ ''h''))
      else ParseDuration value)"

definition defaultExpected :: "string \<Rightarrow> string" where
  "defaultExpected frequency = (let f = ToLower (TrimSpace frequency) in
     if f = ''daily'' \<or> f = ''day'' then ''calendar_daily''
     else if f = ''business_daily'' then ''business_daily''
     else if f = ''weekly'' \<or> f = ''week'' then ''weekly''
     else if f = ''monthly'' \<or> f = ''month'' then ''monthly''
     else if f = ''quarterly'' \<or> f = ''quarter'' then ''quarterly''
     else if f = ''irregular'' then ''irregular''
     else [])"

definition validExpected :: "string \<Rightarrow> bool" where
  "validExpected value \<longleftrightarrow> value \<in> {''calendar_daily'', ''business_daily'', ''weekly'', ''monthly'', ''quarterly'', ''irregular''}"

definition decode_policy :: "json \<Rightarrow> Policy option" where
  "decode_policy v = (case v of
      JNull \<Rightarrow> Some \<lparr>pol_Version = [], pol_Expected = [], pol_MaxAge = [], pol_AvailabilityLag = [], pol_HolidayDates = []\<rparr>
    | JObj ms \<Rightarrow> do {
        version \<leftarrow> string_field ''version'' ms;
        expected \<leftarrow> string_field ''expected'' ms;
        maxAge \<leftarrow> string_field ''max_age'' ms;
        lag \<leftarrow> string_field ''availability_lag'' ms;
        holidays \<leftarrow> decode_each json_strings [] (field_values ''holiday_dates'' ms);
        Some \<lparr>pol_Version = version, pol_Expected = expected, pol_MaxAge = maxAge,
              pol_AvailabilityLag = lag, pol_HolidayDates = holidays\<rparr> }
    | _ \<Rightarrow> None)"

fun check_holidays :: "string list \<Rightarrow> PolicyError + unit" where
  "check_holidays [] = Inr ()"
| "check_holidays (d # ds) = (if parse_date d = None then Inl (HolidayNotDate d) else check_holidays ds)"

text \<open>The checks after decoding: the version, the schedule, the two durations, the holidays.\<close>

definition check_policy :: "string \<Rightarrow> Policy \<Rightarrow> PolicyError + Policy \<times> Duration \<times> Duration" where
  "check_policy frequency p0 =
     (let p1 = p0\<lparr>pol_Version := TrimSpace (pol_Version p0)\<rparr>;
          p = (if pol_Expected p1 = [] then p1\<lparr>pol_Expected := defaultExpected frequency\<rparr> else p1)
      in if pol_Version p = [] then Inl VersionRequired
         else if \<not> validExpected (pol_Expected p) then Inl (UnsupportedExpected (pol_Expected p))
         else case parseDuration (pol_MaxAge p) of
           None \<Rightarrow> Inl MaxAgeNotPositive
         | Some maxAge \<Rightarrow>
             if maxAge \<le> 0 then Inl MaxAgeNotPositive
             else case (if pol_AvailabilityLag p = [] then Some 0 else parseDuration (pol_AvailabilityLag p)) of
               None \<Rightarrow> Inl LagNegative
             | Some lag \<Rightarrow>
                 if lag < 0 then Inl LagNegative
                 else res_bind (check_holidays (pol_HolidayDates p)) (\<lambda>_. Inr (p, maxAge, lag)))"

definition parsePolicy :: "(string \<Rightarrow> Location option) \<Rightarrow> string \<Rightarrow> string \<Rightarrow> string
    \<Rightarrow> PolicyError + Policy \<times> Duration \<times> Duration \<times> Location" where
  "parsePolicy LoadLocation frequency sourceTimezone raw =
     (case (if TrimSpace sourceTimezone \<noteq> [] then LoadLocation sourceTimezone else Some UTC) of
        None \<Rightarrow> Inl (InvalidTimezone sourceTimezone)
      | Some location \<Rightarrow> (case json_parse raw of
          None \<Rightarrow> Inl MalformedJSON
        | Some v \<Rightarrow> (case decode_policy v of
            None \<Rightarrow> Inl UndecodablePolicy
          | Some p \<Rightarrow> res_bind (check_policy frequency p) (\<lambda>(p, maxAge, lag). Inr (p, maxAge, lag, location)))))"

definition ValidatePolicy :: "(string \<Rightarrow> Location option) \<Rightarrow> string \<Rightarrow> string \<Rightarrow> string \<Rightarrow> PolicyError option" where
  "ValidatePolicy LoadLocation frequency sourceTimezone raw =
     (case parsePolicy LoadLocation frequency sourceTimezone raw of Inl e \<Rightarrow> Some e | Inr _ \<Rightarrow> None)"

subsection \<open>The flags of a sample\<close>

definition flag_set :: "(string \<times> json) list \<Rightarrow> string \<Rightarrow> bool" where
  "flag_set flags k \<longleftrightarrow> map_get flags k = Some (JBool True)"

definition flagsContainSuspect :: "string \<Rightarrow> bool" where
  "flagsContainSuspect raw = (case json_parse raw of
      Some (JObj flags) \<Rightarrow> flag_set flags ''suspect'' \<or> flag_set flags ''invalid''
        \<or> map_get flags ''quality'' = Some (JStr ''suspect'')
    | Some JNull \<Rightarrow> False
    | _ \<Rightarrow> True)"

definition flagsContainMissing :: "string \<Rightarrow> bool" where
  "flagsContainMissing raw = (case json_parse raw of
      Some (JObj flags) \<Rightarrow> flag_set flags ''missing'' \<or> flag_set flags ''missing_expected_period''
    | _ \<Rightarrow> False)"

definition uniqueDates :: "string list \<Rightarrow> string list" where
  "uniqueDates dates = remdups_adj (sort dates)"

subsection \<open>The expected days\<close>

definition isExpectedDate :: "Location \<Rightarrow> string \<Rightarrow> time \<Rightarrow> string list \<Rightarrow> bool" where
  "isExpectedDate loc expected day holidays =
     (let n = local_day loc day; (y, m, d) = civil n
      in if date_str n \<in> set holidays then False
         else if expected = ''calendar_daily'' then True
         else if expected = ''business_daily'' then weekday n \<noteq> 6 \<and> weekday n \<noteq> 0
         else if expected = ''weekly'' then weekday n = 5
         else if expected = ''monthly'' then d = 1
         else if expected = ''quarterly'' then d = 1 \<and> (m = 1 \<or> m = 4 \<or> m = 7 \<or> m = 10)
         else False)"

definition day_missing :: "Location \<Rightarrow> string \<Rightarrow> time \<Rightarrow> Duration \<Rightarrow> string list \<Rightarrow> string list \<Rightarrow> time \<Rightarrow> bool" where
  "day_missing loc expected cutoff lag holidays keys day \<longleftrightarrow>
     isExpectedDate loc expected day holidays \<and> \<not> day + lag > cutoff \<and> format_date loc day \<notin> set keys"

partial_function (option) missing_loop ::
    "Location \<Rightarrow> (time \<Rightarrow> bool) \<Rightarrow> time \<Rightarrow> time \<Rightarrow> string list \<Rightarrow> string list option" where
  "missing_loop loc miss end day acc =
     (if day > end then Some acc
      else missing_loop loc miss end (AddDays loc 1 day) (if miss day then acc @ [format_date loc day] else acc))"

declare missing_loop.simps [code]

definition first_day :: "Location \<Rightarrow> time \<Rightarrow> time" where
  "first_day loc from = (let start = Midnight loc (local_day loc from)
     in if from > start then AddDays loc 1 start else start)"

definition last_day :: "Location \<Rightarrow> time \<Rightarrow> time" where
  "last_day loc to = (let end = Midnight loc (local_day loc to)
     in if to = end then AddDays loc (- 1) end else end)"

definition expectedMissing :: "string \<Rightarrow> time \<Rightarrow> time \<Rightarrow> time \<Rightarrow> Duration \<Rightarrow> string list \<Rightarrow> string list \<Rightarrow> Location
    \<Rightarrow> string list option" where
  "expectedMissing expected from to cutoff lag holidays keys loc =
     (if expected = ''irregular'' then Some []
      else map_option sort
        (missing_loop loc (day_missing loc expected cutoff lag holidays keys) (last_day loc to) (first_day loc from) []))"

subsection \<open>Evaluate\<close>

record scan =
  byDate :: "(string \<times> Sample) list"
  latest :: time
  hasSuspect :: bool
  hasRevision :: bool
  hasExplicitMissing :: bool
  suspectDates :: "string list"
  revisionDates :: "string list"
  explicitMissingDates :: "string list"

definition empty_scan :: scan where
  "empty_scan = \<lparr>byDate = [], latest = zero_time, hasSuspect = False, hasRevision = False,
     hasExplicitMissing = False, suspectDates = [], revisionDates = [], explicitMissingDates = []\<rparr>"

definition scan_sample :: "Location \<Rightarrow> scan \<Rightarrow> Sample \<Rightarrow> scan" where
  "scan_sample location s sample =
     (let obs = smp_ObservationTime sample;
          key = format_date location obs;
          s1 = (if smp_Revised sample then s\<lparr>hasRevision := True, revisionDates := revisionDates s @ [key]\<rparr> else s);
          s2 = (if flagsContainSuspect (smp_QualityFlags sample)
                then s1\<lparr>hasSuspect := True, suspectDates := suspectDates s1 @ [key]\<rparr> else s1)
      in if flagsContainMissing (smp_QualityFlags sample)
         then s2\<lparr>hasExplicitMissing := True, explicitMissingDates := explicitMissingDates s2 @ [key]\<rparr>
         else let s3 = (case map_of (byDate s2) key of
                  Some prior \<Rightarrow> if obs > smp_ObservationTime prior
                    then s2\<lparr>byDate := AList.update key sample (byDate s2)\<rparr> else s2
                | None \<Rightarrow> s2\<lparr>byDate := AList.update key sample (byDate s2)\<rparr>)
              in if obs > latest s3 then s3\<lparr>latest := obs\<rparr> else s3)"

definition scan_samples :: "Location \<Rightarrow> Sample list \<Rightarrow> scan" where
  "scan_samples location samples = foldl (scan_sample location) empty_scan samples"

definition classify :: "scan \<Rightarrow> string list \<Rightarrow> time \<Rightarrow> Duration \<Rightarrow> Classification" where
  "classify s missingDates cutoff maxAge =
     (if hasSuspect s then Suspect
      else if byDate s = [] then Missing
      else if Sub cutoff (latest s) > maxAge then Stale
      else if missingDates \<noteq> [] \<or> hasExplicitMissing s then Partial
      else if hasRevision s then Revised
      else Fresh)"

definition state_of :: "bool \<Rightarrow> Classification \<Rightarrow> QState" where
  "state_of required c =
     (if c \<in> {Missing, Stale, Partial, Suspect} then (if required then Blocked else Degraded) else Valid)"

definition reason :: "bool \<Rightarrow> string \<Rightarrow> Message \<Rightarrow> string list \<Rightarrow> Reason list" where
  "reason given code message dates =
     (if given then [\<lparr>rsn_Code = code, rsn_Message = message, rsn_AffectedDates = dates\<rparr>] else [])"

definition reasons_of :: "scan \<Rightarrow> string list \<Rightarrow> time \<Rightarrow> time \<Rightarrow> time \<Rightarrow> Duration \<Rightarrow> Location \<Rightarrow> Reason list" where
  "reasons_of s missingDates from to cutoff maxAge location =
     reason (hasSuspect s) ''SOURCE_QUALITY_SUSPECT''
       (Text ''one or more persisted revisions carry a suspect quality flag'') (uniqueDates (suspectDates s))
   @ reason (hasExplicitMissing s) ''SOURCE_MARKED_MISSING''
       (Text ''the source explicitly marked an expected value as missing'') (uniqueDates (explicitMissingDates s))
   @ reason (latest s \<noteq> zero_time \<and> Sub cutoff (latest s) > maxAge) ''LATEST_OBSERVATION_STALE''
       (OlderThanMaxAge maxAge) [format_date location (latest s)]
   @ reason (hasRevision s) ''OBSERVATION_REVISED''
       (Text ''one or more observation dates have differing immutable revisions'') (uniqueDates (revisionDates s))
   @ (if byDate s = []
      then reason (missingDates \<noteq> []) ''EXPECTED_DATA_MISSING''
             (Text ''no eligible observation exists for the requested window'') missingDates
      else reason (missingDates \<noteq> []) ''EXPECTED_PERIOD_GAP''
             (Text ''one or more expected periods have no eligible observation'') missingDates)
   @ reason (byDate s = [] \<and> missingDates = [] \<and> \<not> hasExplicitMissing s) ''NO_ELIGIBLE_OBSERVATIONS''
       (Text ''no observation is eligible in the requested system-as-of window'')
       [format_date location from, format_date location (to - 1)]"

definition Evaluate :: "(string \<Rightarrow> Location option) \<Rightarrow> string \<Rightarrow> string \<Rightarrow> string \<Rightarrow> time \<Rightarrow> time \<Rightarrow> time
    \<Rightarrow> Sample list \<Rightarrow> bool \<Rightarrow> QResult option" where
  "Evaluate LoadLocation frequency sourceTimezone rawPolicy from to cutoff samples required =
     (case parsePolicy LoadLocation frequency sourceTimezone rawPolicy of
        Inl e \<Rightarrow> Some \<lparr>res_Classification = Suspect, res_State = Blocked, res_PolicyVersion = [],
          res_EvaluatedAt = cutoff,
          res_Reasons = [\<lparr>rsn_Code = ''QUALITY_POLICY_INVALID'', rsn_Message = ErrInvalidPolicy e, rsn_AffectedDates = []\<rparr>]\<rparr>
      | Inr (policy, maxAge, lag, location) \<Rightarrow>
          (let s = scan_samples location samples
           in map_option (\<lambda>missingDates.
                let c = classify s missingDates cutoff maxAge
                in \<lparr>res_Classification = c, res_State = state_of required c, res_PolicyVersion = pol_Version policy,
                    res_EvaluatedAt = cutoff,
                    res_Reasons = reasons_of s missingDates from to cutoff maxAge location\<rparr>)
              (expectedMissing (pol_Expected policy) from to cutoff lag (pol_HolidayDates policy)
                 (map fst (byDate s)) location)))"

subsection \<open>Aggregate\<close>

fun aggregate_from :: "QState \<Rightarrow> QState list \<Rightarrow> QState" where
  "aggregate_from aggregate [] = aggregate"
| "aggregate_from aggregate (state # states) = (case state of
      Blocked \<Rightarrow> Blocked
    | Degraded \<Rightarrow> aggregate_from Degraded states
    | Valid \<Rightarrow> aggregate_from aggregate states
    | OtherState _ \<Rightarrow> Blocked)"

definition Aggregate :: "QState list \<Rightarrow> QState" where
  "Aggregate states = aggregate_from Valid states"

end
