(* ===== verification/Quality_Properties.thy ===== *)
theory Quality_Properties
  imports Quality
begin

text \<open>
  What the evaluation of a snapshot guarantees. The walk over the expected days is exact in every
  location whose local midnights all exist (\<open>regular_location\<close>, the interface the walk relies
  on; every fixed offset, UTC and the Istanbul offset of the TCMB series among them, provides it),
  and the two ways it goes wrong elsewhere are proved on concrete time zones.
\<close>

subsection \<open>The walk over the days\<close>

locale regular_location =
  fixes loc :: Location
  assumes midnight_exists: "local_seconds loc (Midnight loc n) = 86400 * n"
    and midnight_next: "Midnight loc n < Midnight loc (n + 1)"
    and midnight_before: "Midnight loc (local_day loc t) \<le> t"
    and midnight_after: "t < Midnight loc (local_day loc t + 1)"
begin

lemma midnight_less: "m < n \<Longrightarrow> Midnight loc m < Midnight loc n"
proof (induction "nat (n - m)" arbitrary: n)
  case (Suc k)
  show ?case
  proof (cases "m < n - 1")
    case True
    then have "Midnight loc m < Midnight loc (n - 1)" using Suc.hyps(2) by (intro Suc.hyps(1)) auto
    then show ?thesis using midnight_next [of "n - 1"] by simp
  next
    case False
    then have "n = m + 1" using Suc.prems by simp
    then show ?thesis using midnight_next [of m] by simp
  qed
qed simp

lemma midnight_le_iff: "Midnight loc m \<le> Midnight loc n \<longleftrightarrow> m \<le> n"
  using midnight_less [of m n] midnight_less [of n m] by (cases m n rule: linorder_cases) auto

lemma midnight_less_iff: "Midnight loc m < Midnight loc n \<longleftrightarrow> m < n"
  using midnight_le_iff [of n m] by auto

lemma local_day_midnight: "local_day loc (Midnight loc n) = n"
  by (simp add: local_day_def midnight_exists)

lemma add_days_midnight: "AddDays loc k (Midnight loc n) = Midnight loc (n + k)"
proof -
  have "Midnight loc n mod second_ns = 0" by (simp add: Midnight_def)
  then show ?thesis by (simp add: AddDays_def midnight_exists) (simp add: Midnight_def algebra_simps)
qed

lemma missing_loop_exact:
  "missing_loop loc miss (Midnight loc b) (Midnight loc a) acc =
     Some (acc @ map date_str (filter (\<lambda>n. miss (Midnight loc n)) [a..b]))"
proof (induction "nat (b + 1 - a)" arbitrary: a acc)
  case 0
  then have "b < a" by simp
  then show ?case by (simp add: missing_loop.simps [of loc miss] midnight_less_iff)
next
  case (Suc k)
  then have ab: "a \<le> b" and k: "k = nat (b + 1 - (a + 1))" by simp_all
  have "[a..b] = a # [a + 1..b]" using ab by (simp add: upto_rec1)
  then show ?case
    using ab Suc.hyps(1) [OF k]
    by (subst missing_loop.simps) (simp add: midnight_less_iff add_days_midnight format_date_def local_day_midnight)
qed

lemma first_day_exact: "\<exists>a. first_day loc from = Midnight loc a \<and> (\<forall>n. a \<le> n \<longleftrightarrow> from \<le> Midnight loc n)"
proof -
  let ?d = "local_day loc from"
  note b = midnight_before [of "from"] midnight_after [of "from"]
  show ?thesis
  proof (cases "Midnight loc ?d < from")
    case True
    have "?d + 1 \<le> n \<longleftrightarrow> from \<le> Midnight loc n" for n
      using True b midnight_le_iff [of "?d + 1" n] midnight_le_iff [of n ?d] by linarith
    then show ?thesis using True by (auto simp: first_day_def Let_def add_days_midnight)
  next
    case False
    then have "Midnight loc ?d = from" using b by simp
    then have "first_day loc from = Midnight loc ?d" "\<forall>n. ?d \<le> n \<longleftrightarrow> from \<le> Midnight loc n"
      using midnight_le_iff [of ?d] by (simp_all add: first_day_def Let_def)
    then show ?thesis by blast
  qed
qed

lemma last_day_exact: "\<exists>b. last_day loc to = Midnight loc b \<and> (\<forall>n. n \<le> b \<longleftrightarrow> Midnight loc n < to)"
proof -
  let ?d = "local_day loc to"
  note b = midnight_before [of to] midnight_after [of to]
  show ?thesis
  proof (cases "to = Midnight loc ?d")
    case True
    then have "last_day loc to = Midnight loc (?d - 1)"
      using add_days_midnight [of "- 1" ?d] by (simp add: last_day_def)
    moreover have "n \<le> ?d - 1 \<longleftrightarrow> Midnight loc n < to" for n using True midnight_less_iff [of n ?d] by auto
    ultimately show ?thesis by blast
  next
    case False
    then have "last_day loc to = Midnight loc ?d" by (simp add: last_day_def Let_def)
    moreover have "n \<le> ?d \<longleftrightarrow> Midnight loc n < to" for n
      using False b midnight_le_iff [of n ?d] midnight_le_iff [of "?d + 1" n] by linarith
    ultimately show ?thesis by blast
  qed
qed

lemma walk_exact:
  assumes "expected \<noteq> ''irregular''"
  shows "\<exists>ds. expectedMissing expected from to cutoff lag holidays keys loc = Some ds
    \<and> sorted ds \<and> distinct ds
    \<and> set ds = {date_str n |n. from \<le> Midnight loc n \<and> Midnight loc n < to
        \<and> day_missing loc expected cutoff lag holidays keys (Midnight loc n)}"
proof -
  obtain a b where a: "first_day loc from = Midnight loc a" "\<forall>n. a \<le> n \<longleftrightarrow> from \<le> Midnight loc n"
    and b: "last_day loc to = Midnight loc b" "\<forall>n. n \<le> b \<longleftrightarrow> Midnight loc n < to"
    using first_day_exact [of "from"] last_day_exact [of to] by blast
  let ?ns = "filter (\<lambda>n. day_missing loc expected cutoff lag holidays keys (Midnight loc n)) [a..b]"
  have "distinct (map date_str ?ns)"
    by (simp add: distinct_map) (meson date_str_inj inj_onI)
  moreover have "set (map date_str ?ns) = {date_str n |n. from \<le> Midnight loc n \<and> Midnight loc n < to
        \<and> day_missing loc expected cutoff lag holidays keys (Midnight loc n)}"
    using a(2) b(2) by auto
  ultimately show ?thesis
    using assms by (simp add: expectedMissing_def a(1) b(1) missing_loop_exact)
qed

end

interpretation fixed_offset: regular_location "\<lambda>_. off" for off
proof
  fix n t
  show "local_seconds (\<lambda>_. off) (Midnight (\<lambda>_. off) n) = 86400 * n"
    by (simp add: local_seconds_def Midnight_def date_at_fixed)
  show "Midnight (\<lambda>_. off) n < Midnight (\<lambda>_. off) (n + 1)" using Midnight_fixed_le [of off "n + 1" n] by linarith
qed (use Midnight_fixed_bounds in auto)

interpretation utc: regular_location UTC
proof -
  have eq: "UTC = (\<lambda>_. 0)" by (simp add: UTC_def fun_eq_iff)
  show "regular_location UTC" unfolding eq by (rule fixed_offset.regular_location_axioms)
qed

subsection \<open>The scan of the samples\<close>

abbreviation given_missing :: "Sample \<Rightarrow> bool" where
  "given_missing x \<equiv> flagsContainMissing (smp_QualityFlags x)"

abbreviation given_suspect :: "Sample \<Rightarrow> bool" where
  "given_suspect x \<equiv> flagsContainSuspect (smp_QualityFlags x)"

lemma scan_samples_snoc [simp]:
  "scan_samples loc (xs @ [x]) = scan_sample loc (scan_samples loc xs) x"
  by (simp add: scan_samples_def)

lemma scan_samples_Nil [simp]: "scan_samples loc [] = empty_scan"
  by (simp add: scan_samples_def)

lemma scan_flags:
  "hasSuspect (scan_samples loc xs) \<longleftrightarrow> (\<exists>x \<in> set xs. given_suspect x)"
  "hasExplicitMissing (scan_samples loc xs) \<longleftrightarrow> (\<exists>x \<in> set xs. given_missing x)"
  by (induction xs rule: rev_induct)
    (auto simp: empty_scan_def scan_sample_def Let_def split: option.splits)

lemma scan_keys:
  "fst ` set (byDate (scan_samples loc xs)) =
     {format_date loc (smp_ObservationTime x) |x. x \<in> set xs \<and> \<not> given_missing x}"
proof (induction xs rule: rev_induct)
  case Nil
  then show ?case by (simp add: empty_scan_def)
next
  case (snoc x xs)
  let ?s = "scan_samples loc xs" and ?k = "format_date loc (smp_ObservationTime x)"
  have "fst ` set (byDate (scan_sample loc ?s x)) =
      (if given_missing x then fst ` set (byDate ?s) else insert ?k (fst ` set (byDate ?s)))"
    by (auto simp: scan_sample_def Let_def dom_map_of_conv_image_fst [symmetric] update_conv' split: option.splits if_splits)
  then show ?case using snoc by auto
qed

lemma scan_latest_upper: "x \<in> set xs \<Longrightarrow> \<not> given_missing x \<Longrightarrow> smp_ObservationTime x \<le> latest (scan_samples loc xs)"
proof (induction xs rule: rev_induct)
  case (snoc y xs)
  have "latest (scan_sample loc s y) = (if given_missing y then latest s else max (latest s) (smp_ObservationTime y))" for s
    by (auto simp: scan_sample_def Let_def split: option.splits)
  then show ?case using snoc by auto
qed simp

lemma scan_latest_attained:
  "latest (scan_samples loc xs) = zero_time
   \<or> (\<exists>x \<in> set xs. \<not> given_missing x \<and> smp_ObservationTime x = latest (scan_samples loc xs))"
proof (induction xs rule: rev_induct)
  case (snoc y xs)
  have "latest (scan_sample loc s y) = (if given_missing y then latest s else max (latest s) (smp_ObservationTime y))" for s
    by (auto simp: scan_sample_def Let_def split: option.splits)
  then show ?case using snoc by (auto simp: max_def)
qed (simp add: empty_scan_def)

lemma Sub_mono: "t \<le> u \<Longrightarrow> Sub c u \<le> Sub c t"
  by (auto simp: Sub_def)

text \<open>The newest sample is recent enough exactly when some sample is.\<close>

lemma scan_recent:
  assumes "\<forall>x \<in> set xs. zero_time \<le> smp_ObservationTime x"
  shows "byDate (scan_samples loc xs) \<noteq> [] \<and> Sub cutoff (latest (scan_samples loc xs)) \<le> maxAge
    \<longleftrightarrow> (\<exists>x \<in> set xs. \<not> given_missing x \<and> Sub cutoff (smp_ObservationTime x) \<le> maxAge)"
    (is "?l \<longleftrightarrow> ?r")
proof
  assume l: ?l
  then have "fst ` set (byDate (scan_samples loc xs)) \<noteq> {}" by simp
  then obtain x where x: "x \<in> set xs" "\<not> given_missing x" unfolding scan_keys by blast
  then have "smp_ObservationTime x \<le> latest (scan_samples loc xs)" "zero_time \<le> smp_ObservationTime x"
    using assms scan_latest_upper by blast+
  with x obtain y where "y \<in> set xs" "\<not> given_missing y" "smp_ObservationTime y = latest (scan_samples loc xs)"
    using scan_latest_attained [of loc xs] by force
  with l show ?r by metis
next
  assume ?r
  then obtain x where x: "x \<in> set xs" "\<not> given_missing x" "Sub cutoff (smp_ObservationTime x) \<le> maxAge" by blast
  then have "fst ` set (byDate (scan_samples loc xs)) \<noteq> {}" unfolding scan_keys by blast
  moreover have "Sub cutoff (latest (scan_samples loc xs)) \<le> maxAge"
    using Sub_mono [OF scan_latest_upper [OF x(1,2), of loc]] x(3) order_trans by blast
  ultimately show ?l by auto
qed

lemma state_of_Valid:
  "state_of required (classify s missingDates cutoff maxAge) = Valid \<longleftrightarrow>
     \<not> hasSuspect s \<and> (byDate s \<noteq> [] \<and> Sub cutoff (latest s) \<le> maxAge) \<and> missingDates = [] \<and> \<not> hasExplicitMissing s"
  by (auto simp: state_of_def classify_def)

text \<open>The days a policy expects to be covered when the snapshot is taken.\<close>

definition due_days :: "Location \<Rightarrow> string \<Rightarrow> string list \<Rightarrow> Duration \<Rightarrow> time \<Rightarrow> time \<Rightarrow> time \<Rightarrow> int set" where
  "due_days loc expected holidays lag from to cutoff =
     {n. from \<le> Midnight loc n \<and> Midnight loc n < to \<and> isExpectedDate loc expected (Midnight loc n) holidays
         \<and> Midnight loc n + lag \<le> cutoff}"

lemma no_day_missing:
  assumes "regular_location loc"
  shows "\<exists>ds. expectedMissing expected from to cutoff lag holidays (map fst (byDate (scan_samples loc xs))) loc = Some ds
    \<and> (ds = [] \<longleftrightarrow> (\<forall>n \<in> due_days loc expected holidays lag from to cutoff.
         \<exists>x \<in> set xs. \<not> given_missing x \<and> local_day loc (smp_ObservationTime x) = n))"
proof (cases "expected = ''irregular''")
  case True
  then have "due_days loc expected holidays lag from to cutoff = {}"
    by (auto simp: due_days_def isExpectedDate_def Let_def split: prod.splits)
  then show ?thesis using True by (auto simp: expectedMissing_def)
next
  case False
  let ?keys = "map fst (byDate (scan_samples loc xs))"
  have day: "format_date loc (Midnight loc n) = date_str n" for n
    using regular_location.local_day_midnight [OF assms, of n] by (simp add: format_date_def)
  have keys: "date_str n \<in> set ?keys \<longleftrightarrow> (\<exists>x \<in> set xs. \<not> given_missing x \<and> local_day loc (smp_ObservationTime x) = n)" for n
    unfolding set_map scan_keys using date_str_inj by (auto simp: format_date_def)
  obtain ds where ds: "expectedMissing expected from to cutoff lag holidays ?keys loc = Some ds"
    "set ds = {date_str n |n. from \<le> Midnight loc n \<and> Midnight loc n < to
        \<and> day_missing loc expected cutoff lag holidays ?keys (Midnight loc n)}"
    using regular_location.walk_exact [OF assms False] by meson
  have "ds = [] \<longleftrightarrow> set ds = {}" by simp
  also have "\<dots> \<longleftrightarrow> (\<forall>n \<in> due_days loc expected holidays lag from to cutoff. date_str n \<in> set ?keys)"
    unfolding ds(2) by (auto simp: due_days_def day_missing_def day)
  finally show ?thesis using ds(1) keys by auto
qed

subsection \<open>Properties\<close>

text \<open>
  C24. The walk over the expected days returns and is exact: in a location whose midnights all
  exist it lists, in order and without repetition, precisely the days whose midnight lies in the
  half-open window, that the schedule expects and no holiday removes, whose availability lag has
  passed at the cutoff, and that have no observation.
\<close>

theorem expected_missing_exact:
  assumes "regular_location loc" and "expected \<noteq> ''irregular''"
  shows "\<exists>ds. expectedMissing expected from to cutoff lag holidays keys loc = Some ds
    \<and> sorted ds \<and> distinct ds
    \<and> set ds = {date_str n |n. n \<in> due_days loc expected holidays lag from to cutoff \<and> date_str n \<notin> set keys}"
proof -
  have day: "format_date loc (Midnight loc n) = date_str n" for n
    using regular_location.local_day_midnight [OF assms(1), of n] by (simp add: format_date_def)
  show ?thesis
    using regular_location.walk_exact [OF assms, of "from" to cutoff lag holidays keys]
    by (simp add: due_days_def day_missing_def day conj_assoc) (simp add: not_less)
qed

theorem expected_missing_exact_witness:
  "\<exists>ds. expectedMissing ''weekly'' 0 (30 * day_ns) (40 * day_ns) 0 [] [''1970-01-02''] (\<lambda>_. 10800) = Some ds
    \<and> sorted ds \<and> distinct ds
    \<and> set ds = {date_str n |n. n \<in> due_days (\<lambda>_. 10800) ''weekly'' [] 0 0 (30 * day_ns) (40 * day_ns)
        \<and> date_str n \<notin> set [''1970-01-02'']}"
  by (rule expected_missing_exact [OF fixed_offset.regular_location_axioms]) simp

text \<open>
  C25. A snapshot is called valid exactly when it is: under a policy that can be read, in a regular
  location, \<open>Evaluate\<close> returns, and the state is \<open>Valid\<close> if and only if no sample is
  suspect or marked missing, some sample is no older than \<open>max_age\<close> at the cutoff, and every
  expected day of the window that is due has an observation.
\<close>

theorem evaluate_valid_iff:
  assumes "regular_location loc"
    and "parsePolicy LoadLocation frequency tz raw = Inr (policy, maxAge, lag, loc)"
    and "\<forall>x \<in> set samples. zero_time \<le> smp_ObservationTime x"
  shows "\<exists>r. Evaluate LoadLocation frequency tz raw from to cutoff samples required = Some r
    \<and> (res_State r = Valid \<longleftrightarrow>
        (\<forall>x \<in> set samples. \<not> flagsContainSuspect (smp_QualityFlags x) \<and> \<not> flagsContainMissing (smp_QualityFlags x))
      \<and> (\<exists>x \<in> set samples. Sub cutoff (smp_ObservationTime x) \<le> maxAge)
      \<and> (\<forall>n \<in> due_days loc (pol_Expected policy) (pol_HolidayDates policy) lag from to cutoff.
           \<exists>x \<in> set samples. local_day loc (smp_ObservationTime x) = n))"
proof -
  let ?s = "scan_samples loc samples"
  obtain ds where ds: "expectedMissing (pol_Expected policy) from to cutoff lag (pol_HolidayDates policy) (map fst (byDate ?s)) loc = Some ds"
    "ds = [] \<longleftrightarrow> (\<forall>n \<in> due_days loc (pol_Expected policy) (pol_HolidayDates policy) lag from to cutoff.
         \<exists>x \<in> set samples. \<not> given_missing x \<and> local_day loc (smp_ObservationTime x) = n)"
    using no_day_missing [OF assms(1), of "pol_Expected policy" "from" to cutoff lag "pol_HolidayDates policy" samples]
    by blast
  have "Evaluate LoadLocation frequency tz raw from to cutoff samples required =
      Some \<lparr>res_Classification = classify ?s ds cutoff maxAge, res_State = state_of required (classify ?s ds cutoff maxAge),
        res_PolicyVersion = pol_Version policy, res_EvaluatedAt = cutoff,
        res_Reasons = reasons_of ?s ds from to cutoff maxAge loc\<rparr>"
    by (simp add: Evaluate_def assms(2) ds(1) Let_def)
  moreover have "state_of required (classify ?s ds cutoff maxAge) = Valid \<longleftrightarrow>
        (\<forall>x \<in> set samples. \<not> given_suspect x \<and> \<not> given_missing x)
      \<and> (\<exists>x \<in> set samples. Sub cutoff (smp_ObservationTime x) \<le> maxAge)
      \<and> (\<forall>n \<in> due_days loc (pol_Expected policy) (pol_HolidayDates policy) lag from to cutoff.
           \<exists>x \<in> set samples. local_day loc (smp_ObservationTime x) = n)"
    unfolding state_of_Valid scan_flags scan_recent [OF assms(3)] ds(2) by blast
  ultimately show ?thesis by simp
qed

definition demo_policy :: string where
  "demo_policy = [CHR 0x7B] @ quote_string ''version'' @ '':'' @ quote_string ''v1'' @ '','' @ quote_string ''max_age''
     @ '':'' @ quote_string ''P3D'' @ [CHR 0x7D]"

definition demo_sample :: "int \<Rightarrow> Sample" where
  "demo_sample d = \<lparr>smp_ObservationTime = d * day_ns, smp_QualityFlags = [CHR 0x7B, CHR 0x7D], smp_Revised = False\<rparr>"

lemma demo_parse:
  "parsePolicy (\<lambda>_. None) ''daily'' [] demo_policy =
     Inr (\<lparr>pol_Version = ''v1'', pol_Expected = ''calendar_daily'', pol_MaxAge = ''P3D'', pol_AvailabilityLag = [],
          pol_HolidayDates = []\<rparr>, 3 * day_ns, 0, UTC)"
proof -
  have d: "decode_policy (the (json_parse demo_policy)) = Some \<lparr>pol_Version = ''v1'', pol_Expected = [], pol_MaxAge = ''P3D'',
      pol_AvailabilityLag = [], pol_HolidayDates = []\<rparr>" by code_simp
  have "json_parse demo_policy \<noteq> None" by code_simp
  with d have j: "\<exists>v. json_parse demo_policy = Some v \<and> decode_policy v = Some \<lparr>pol_Version = ''v1'', pol_Expected = [], pol_MaxAge = ''P3D'',
      pol_AvailabilityLag = [], pol_HolidayDates = []\<rparr>" by auto
  have "check_policy ''daily'' \<lparr>pol_Version = ''v1'', pol_Expected = [], pol_MaxAge = ''P3D'',
      pol_AvailabilityLag = [], pol_HolidayDates = []\<rparr> = Inr (\<lparr>pol_Version = ''v1'', pol_Expected = ''calendar_daily'',
      pol_MaxAge = ''P3D'', pol_AvailabilityLag = [], pol_HolidayDates = []\<rparr>, 3 * day_ns, 0)" by code_simp
  with j show ?thesis by (auto simp: parsePolicy_def TrimSpace_def)
qed

theorem evaluate_valid_iff_witness:
  "\<exists>r. Evaluate (\<lambda>_. None) ''daily'' [] demo_policy 0 day_ns (2 * day_ns) [demo_sample 0] True = Some r \<and> res_State r = Valid"
proof -
  have n: "n = 0" if "n \<in> due_days UTC ''calendar_daily'' [] 0 0 day_ns (2 * day_ns)" for n
  proof -
    have "Midnight UTC n = 86400 * n * second_ns" by (simp add: Midnight_def date_at_def UTC_def)
    then show ?thesis using that by (auto simp: due_days_def second_ns_def day_ns_def)
  qed
  have z: "\<forall>x \<in> set [demo_sample 0]. zero_time \<le> smp_ObservationTime x" by code_simp
  have f: "\<forall>x \<in> set [demo_sample 0]. \<not> flagsContainSuspect (smp_QualityFlags x) \<and> \<not> flagsContainMissing (smp_QualityFlags x)"
    by code_simp
  have a: "\<exists>x \<in> set [demo_sample 0]. Sub (2 * day_ns) (smp_ObservationTime x) \<le> 3 * day_ns" by code_simp
  have d: "local_day UTC (smp_ObservationTime (demo_sample 0)) = 0" by code_simp
  show ?thesis
    using evaluate_valid_iff [OF utc.regular_location_axioms demo_parse z, of 0 day_ns "2 * day_ns" True] f a d n by auto
qed

text \<open>
  Days as \<open>P<n>D\<close> are read as hours and multiplied by twenty-four in 64 bits: up to
  106751 days the duration is exact, above that the product wraps, so that 200000 days come out
  negative (and the policy is refused) and 300000 days come out as a shorter positive duration
  (and the policy is accepted with it).
\<close>

theorem day_durations:
  "(\<forall>n \<le> 106751. parseDuration (''P'' @ nat_str n @ ''D'') = Some (int n * day_ns))
   \<and> parseDuration ''P200000D'' = Some (200000 * day_ns - 2 ^ 64)
   \<and> parseDuration ''P300000D'' = Some (300000 * day_ns - 2 ^ 64) \<and> 0 < 300000 * day_ns - 2 ^ 64"
proof -
  have hours: "ParseDuration (nat_str n @ ''h'') = Some (int n * 3600000000000)" if n: "n \<le> 300000" for n
  proof -
    obtain c t where s: "nat_str n = c # t" by (cases "nat_str n") simp_all
    have digits: "\<forall>x \<in> set (nat_str n). is_digit x" using nat_str_digits by blast
    then have c: "is_digit c" "c \<noteq> CHR ''-''" "c \<noteq> CHR ''+''" "c \<noteq> CHR ''.''"
      unfolding s by (auto simp: is_digit_def)
    have "\<not> is_digit CHR ''h''" by code_simp
    then have tw: "takeWhile is_digit (nat_str n @ ''h'') = nat_str n" "dropWhile is_digit (nat_str n @ ''h'') = ''h''"
      using digits by (simp_all add: takeWhile_append2 dropWhile_append2)
    have "duration_term (nat_str n @ ''h'') = Some (int n * 3600000000000, [])"
      using n by (simp add: duration_term_def tw digits_int_eq unit_map_def is_digit_def)
    then have "duration_terms (length (nat_str n @ ''h'')) 0 (nat_str n @ ''h'') = Some (int n * 3600000000000)"
      using c n by (simp add: s)
    moreover have "nat_str n @ ''h'' \<noteq> ''0''" by (simp add: s)
    ultimately show ?thesis using c n by (simp add: ParseDuration_def s max_int64_def)
  qed
  have days: "parseDuration (''P'' @ nat_str n @ ''D'') = Some (wrap64 (int n * day_ns))" if "n \<le> 300000" for n
    using hours [OF that] by (simp add: parseDuration_def string_defs day_ns_def algebra_simps)
  have "nat_str 200000 = ''200000''" "nat_str 300000 = ''300000''" by (simp_all add: nat_str.simps)
  then have w: "parseDuration ''P200000D'' = Some (wrap64 (200000 * day_ns))" "parseDuration ''P300000D'' = Some (wrap64 (300000 * day_ns))"
    using days [of 200000] days [of 300000] by simp_all
  have "in_int64 (int n * day_ns)" if "n \<le> 106751" for n
    using that by (simp add: in_int64_def min_int64_def max_int64_def day_ns_def)
  then have "\<forall>n \<le> 106751. parseDuration (''P'' @ nat_str n @ ''D'') = Some (int n * day_ns)"
    using days wrap64_id by simp
  then show ?thesis by (simp add: w wrap64_def day_ns_def)
qed

theorem day_durations_witness: "parseDuration ''P30D'' = Some (30 * day_ns)"
proof -
  have "nat_str 30 = ''30''" by (simp add: nat_str.simps)
  then show ?thesis using day_durations [THEN conjunct1, rule_format, of 30] by simp
qed

subsection \<open>Locations that are not regular\<close>

lemma missing_loop_stuck:
  assumes "AddDays loc 1 day = day" and "day \<le> end"
  shows "missing_loop loc miss end day acc = None"
proof (rule ccontr)
  assume "missing_loop loc miss end day acc \<noteq> None"
  then obtain r where "missing_loop loc miss end day acc = Some r" by blast
  from _ this have "day \<le> end \<longrightarrow> AddDays loc 1 day \<noteq> day"
    by (rule missing_loop.raw_induct [where P = "\<lambda>loc miss end day acc r. day \<le> end \<longrightarrow> AddDays loc 1 day \<noteq> day"])
      (auto split: if_splits)
  with assms show False by simp
qed

text \<open>
  Samoa moved across the date line at the end of 29 December 2011: its local time went from UTC-10
  to UTC+14 and 30 December did not happen there.
\<close>

definition apia :: Location where
  "apia s = (if s < 1325239200 then - 36000 else 50400)"

lemma Midnight_apia: "n \<le> 15337 \<Longrightarrow> Midnight apia n = (86400 * n + 36000) * second_ns"
  by (simp add: Midnight_def date_at_def apia_def)

lemma AddDays_apia:
  assumes "n < 15337"
  shows "AddDays apia 1 (Midnight apia n) = Midnight apia (n + 1)"
proof -
  have "local_seconds apia (Midnight apia n) = 86400 * n"
    using assms by (simp add: Midnight_apia local_seconds_def) (simp add: apia_def)
  then show ?thesis
    using assms Midnight_apia [of n] Midnight_apia [of "n + 1"]
    by (simp add: AddDays_def) (simp add: date_at_def apia_def algebra_simps)
qed

lemma apia_stuck: "AddDays apia 1 (Midnight apia 15337) = Midnight apia 15337"
  by code_simp

lemma missing_loop_apia:
  "a \<le> 15337 \<Longrightarrow> Midnight apia 15337 \<le> end \<Longrightarrow> missing_loop apia miss end (Midnight apia a) acc = None"
proof (induction "nat (15337 - a)" arbitrary: a acc)
  case 0
  then have "a = 15337" by simp
  then show ?case using missing_loop_stuck [OF apia_stuck] 0 by simp
next
  case (Suc k)
  then have a: "a < 15337" by simp
  then have "\<not> end < Midnight apia a"
    using Suc.prems(2) Midnight_apia [of a] Midnight_apia [of 15337] by (simp add: second_ns_def)
  then show ?case using a Suc.hyps by (subst missing_loop.simps) (simp add: AddDays_apia Suc.prems(2))
qed

lemma first_day_apia:
  assumes "from \<le> Midnight apia 15337"
  shows "\<exists>a \<le> 15337. first_day apia from = Midnight apia a"
proof -
  let ?d = "local_day apia from"
  have "unix from \<le> unix (Midnight apia 15337)" using assms by (simp add: unix_def second_ns_def zdiv_mono1)
  then have u: "unix from \<le> 1325152800" by (simp add: Midnight_apia)
  then have d: "?d = (unix from - 36000) div 86400" by (simp add: local_day_def local_seconds_def apia_def)
  then have "?d \<le> (1325152800 - 36000) div 86400" using u by (simp add: zdiv_mono1)
  then have le: "?d \<le> 15337" by simp
  show ?thesis
  proof (cases "Midnight apia ?d < from")
    case True
    then have "?d \<noteq> 15337" using assms by auto
    then have "first_day apia from = Midnight apia (?d + 1)" "?d + 1 \<le> 15337"
      using True le by (simp_all add: first_day_def Let_def AddDays_apia)
    then show ?thesis by blast
  next
    case False
    then show ?thesis using le by (auto simp: first_day_def Let_def)
  qed
qed

lemma last_day_apia:
  assumes "1325239200 * second_ns \<le> to"
  shows "Midnight apia 15337 \<le> last_day apia to"
proof -
  let ?d = "local_day apia to"
  have "unix (1325239200 * second_ns) \<le> unix to" using assms unfolding unix_def second_ns_def by (intro zdiv_mono1) simp_all
  then have u: "1325239200 \<le> unix to" by simp
  then have "?d = (unix to + 50400) div 86400" by (simp add: local_day_def local_seconds_def apia_def)
  moreover have "(1325239200 + 50400) div 86400 \<le> (unix to + 50400) div 86400" using u by (intro zdiv_mono1) simp_all
  ultimately have d: "15339 \<le> ?d" by simp
  then have m: "Midnight apia ?d = (86400 * ?d - 50400) * second_ns" by (simp add: Midnight_def date_at_def apia_def)
  have "AddDays apia (- 1) (Midnight apia ?d) \<ge> Midnight apia 15337"
  proof -
    have "local_seconds apia (Midnight apia ?d) = 86400 * ?d" using d by (simp add: m local_seconds_def) (simp add: apia_def)
    moreover have "Midnight apia ?d mod second_ns = 0" by (simp add: m)
    ultimately have "AddDays apia (- 1) (Midnight apia ?d) = date_at apia (86400 * ?d - 86400) * second_ns" by (simp add: AddDays_def)
    moreover have "1325152800 \<le> date_at apia (86400 * ?d - 86400)" using d by (auto simp: date_at_def apia_def Let_def)
    ultimately show ?thesis by (simp add: Midnight_apia second_ns_def)
  qed
  moreover have "Midnight apia 15337 \<le> Midnight apia ?d" using d by (simp add: Midnight_apia m second_ns_def)
  ultimately show ?thesis by (auto simp: last_day_def Let_def)
qed

text \<open>
  C26. The walk does not return when the window spans a calendar day that the location skipped:
  \<open>AddDate(0, 0, 1)\<close> on the midnight before the gap is that midnight again.
\<close>

theorem skipped_day_never_returns:
  assumes "expected \<noteq> ''irregular''" and "from \<le> Midnight apia 15337" and "1325239200 * second_ns \<le> to"
  shows "expectedMissing expected from to cutoff lag holidays keys apia = None"
  using first_day_apia [OF assms(2)] missing_loop_apia [OF _ last_day_apia [OF assms(3)]] assms(1)
  by (auto simp: expectedMissing_def)

theorem skipped_day_never_returns_witness:
  "expectedMissing ''business_daily'' (1324980000 * second_ns) (1325584800 * second_ns) (1325584800 * second_ns) 0 [] [] apia = None"
  by (rule skipped_day_never_returns) (simp_all add: Midnight_apia second_ns_def)

text \<open>
  Where summer time starts at midnight the walk drifts: from the gap on it stands at 23:00 of
  the day before, so the last day of the window is never examined and the day before the gap is
  examined twice. Sao Paulo, 2 to 6 November 2018, with no observation at all: 3 November is listed
  twice, 6 November not at all.
\<close>

definition sao_paulo :: Location where
  "sao_paulo s = (if s < 1541300400 then - 10800 else - 7200)"

theorem midnight_gap_drifts:
  "expectedMissing ''calendar_daily'' (Midnight sao_paulo (days_of 2018 11 2)) (Midnight sao_paulo (days_of 2018 11 7))
     (Midnight sao_paulo (days_of 2018 12 1)) 0 [] [] sao_paulo
   = Some [''2018-11-02'', ''2018-11-03'', ''2018-11-03'', ''2018-11-04'', ''2018-11-05'']"
  by code_simp

lemma aggregate_from_eq:
  "a \<in> {Valid, Degraded} \<Longrightarrow> aggregate_from a states =
      (if \<exists>s \<in> set states. s \<noteq> Valid \<and> s \<noteq> Degraded then Blocked
       else if a = Degraded \<or> Degraded \<in> set states then Degraded else Valid)"
  by (induction states arbitrary: a) (auto split: QState.splits)

text \<open>
  \<open>Aggregate\<close> keeps the most restrictive state: it is valid only when every input is,
  blocked as soon as one input is blocked or unknown, and degraded otherwise.
\<close>

theorem aggregate_most_restrictive:
  "(Aggregate states = Valid \<longleftrightarrow> set states \<subseteq> {Valid})
   \<and> (Aggregate states = Blocked \<longleftrightarrow> (\<exists>s \<in> set states. s \<noteq> Valid \<and> s \<noteq> Degraded))
   \<and> (Aggregate states = Degraded \<longleftrightarrow> Degraded \<in> set states \<and> set states \<subseteq> {Valid, Degraded})"
  using aggregate_from_eq [of Valid states] by (auto simp: Aggregate_def)

end
