(* ===== verification/Quality_Service.thy ===== *)
theory Quality_Service
  imports Quality_Properties
begin

text \<open>
  The quality service, \<open>internal/application/quality/service.go\<close>: it validates a request,
  loads each series and its observations, evaluates them and aggregates the states. The generated
  queries are the arguments \<open>getSeries\<close> (an error, no row, or the row) and \<open>listObs\<close>
  (an error, or the rows), and the UUID codec of \<open>pgtype\<close> is \<open>scanUUID\<close> (the canonical
  text of the identifier). As for \<open>Quality.Evaluate\<close>, \<open>None\<close> is a call that never
  returns.
\<close>

datatype quality_error = QErrInvalidRequest | QErrNotFound | QErrInternal string

record QInput =
  in_SeriesID :: string
  in_Required :: bool

record QRequest =
  req_From :: time
  req_To :: time
  req_AsOf :: time
  req_Inputs :: "QInput list"

record QItem =
  item_SeriesID :: string
  item_Required :: bool
  item_Result :: QResult

record QResponse =
  resp_State :: QState
  resp_EvaluatedAt :: time
  resp_Items :: "QItem list"

record series_row =
  ser_Frequency :: string
  ser_SourceTimezone :: "string option"
  ser_FreshnessPolicy :: string
  ser_CreatedAt :: "time option"

definition maxInputs :: nat where "maxInputs = 100"
definition maxWindow :: Duration where "maxWindow = 370 * day_ns"
definition maxObservations :: nat where "maxObservations = 10000"

definition valid_quality_request :: "QRequest \<Rightarrow> bool" where
  "valid_quality_request r \<longleftrightarrow>
     \<not> (\<not> req_From r < req_To r \<or> req_To r > req_AsOf r \<or> req_AsOf r = zero_time \<or> Sub (req_To r) (req_From r) > maxWindow)
     \<and> \<not> (req_Inputs r = [] \<or> length (req_Inputs r) > maxInputs)"

text \<open>One round of the loop: the item, and the number of rows it read.\<close>

definition evaluate_input :: "(string \<Rightarrow> Location option) \<Rightarrow> (string \<Rightarrow> string option) \<Rightarrow> (string \<Rightarrow> string + series_row option)
    \<Rightarrow> (string \<Rightarrow> time \<Rightarrow> time \<Rightarrow> time \<Rightarrow> string + Sample list) \<Rightarrow> QRequest \<Rightarrow> string list \<Rightarrow> nat \<Rightarrow> QInput
    \<Rightarrow> (quality_error + QItem \<times> nat) option" where
  "evaluate_input LoadLocation scanUUID getSeries listObs r seen totalObservations i =
     (case scanUUID (in_SeriesID i) of
        None \<Rightarrow> Some (Inl QErrInvalidRequest)
      | Some seriesID \<Rightarrow>
          if seriesID \<in> set seen then Some (Inl QErrInvalidRequest)
          else case getSeries seriesID of
            Inl e \<Rightarrow> Some (Inl (QErrInternal e))
          | Inr None \<Rightarrow> Some (Inl QErrNotFound)
          | Inr (Some series) \<Rightarrow>
              if (case ser_CreatedAt series of None \<Rightarrow> True | Some t \<Rightarrow> t > req_AsOf r) then Some (Inl QErrNotFound)
              else case listObs seriesID (req_From r) (req_To r) (req_AsOf r) of
                Inl e \<Rightarrow> Some (Inl (QErrInternal e))
              | Inr rows \<Rightarrow>
                  if totalObservations + length rows > maxObservations then Some (Inl QErrInvalidRequest)
                  else map_option (\<lambda>result. Inr (\<lparr>item_SeriesID = seriesID, item_Required = in_Required i, item_Result = result\<rparr>, length rows))
                    (Evaluate LoadLocation (ser_Frequency series) (case ser_SourceTimezone series of None \<Rightarrow> [] | Some z \<Rightarrow> z)
                      (ser_FreshnessPolicy series) (req_From r) (req_To r) (req_AsOf r) rows (in_Required i)))"

fun evaluate_inputs :: "(string \<Rightarrow> Location option) \<Rightarrow> (string \<Rightarrow> string option) \<Rightarrow> (string \<Rightarrow> string + series_row option)
    \<Rightarrow> (string \<Rightarrow> time \<Rightarrow> time \<Rightarrow> time \<Rightarrow> string + Sample list) \<Rightarrow> QRequest \<Rightarrow> string list \<Rightarrow> nat \<Rightarrow> QItem list
    \<Rightarrow> QInput list \<Rightarrow> (quality_error + QItem list) option" where
  "evaluate_inputs LoadLocation scanUUID getSeries listObs r seen totalObservations items [] = Some (Inr items)"
| "evaluate_inputs LoadLocation scanUUID getSeries listObs r seen totalObservations items (i # inputs) =
     (case evaluate_input LoadLocation scanUUID getSeries listObs r seen totalObservations i of
        None \<Rightarrow> None
      | Some (Inl e) \<Rightarrow> Some (Inl e)
      | Some (Inr (item, k)) \<Rightarrow>
          evaluate_inputs LoadLocation scanUUID getSeries listObs r (item_SeriesID item # seen) (totalObservations + k)
            (items @ [item]) inputs)"

definition Evaluate_request :: "(string \<Rightarrow> Location option) \<Rightarrow> (string \<Rightarrow> string option) \<Rightarrow> (string \<Rightarrow> string + series_row option)
    \<Rightarrow> (string \<Rightarrow> time \<Rightarrow> time \<Rightarrow> time \<Rightarrow> string + Sample list) \<Rightarrow> QRequest \<Rightarrow> (quality_error + QResponse) option" where
  "Evaluate_request LoadLocation scanUUID getSeries listObs r =
     (if \<not> valid_quality_request r then Some (Inl QErrInvalidRequest)
      else map_option (map_sum id (\<lambda>items. \<lparr>resp_State = Aggregate (map (res_State \<circ> item_Result) items),
             resp_EvaluatedAt = req_AsOf r, resp_Items = items\<rparr>))
        (evaluate_inputs LoadLocation scanUUID getSeries listObs r [] 0 [] (req_Inputs r)))"

lemma evaluate_input_item:
  "evaluate_input LoadLocation scanUUID getSeries listObs r seen totalObservations i = Some (Inr (item, k)) \<Longrightarrow>
   scanUUID (in_SeriesID i) = Some (item_SeriesID item) \<and> item_Required item = in_Required i \<and> item_SeriesID item \<notin> set seen"
  by (auto simp: evaluate_input_def split: option.splits if_splits sum.splits)

lemma evaluate_inputs_items:
  assumes "evaluate_inputs LoadLocation scanUUID getSeries listObs r seen totalObservations items inputs = Some (Inr out)"
    and "distinct (map item_SeriesID items)" and "set (map item_SeriesID items) = set seen"
  shows "distinct (map item_SeriesID out) \<and> (\<exists>new. out = items @ new
    \<and> list_all2 (\<lambda>i x. scanUUID (in_SeriesID i) = Some (item_SeriesID x) \<and> item_Required x = in_Required i) inputs new)"
  using assms
proof (induction inputs arbitrary: seen totalObservations items)
  case (Cons i inputs)
  from Cons.prems(1) obtain item k where
    i: "evaluate_input LoadLocation scanUUID getSeries listObs r seen totalObservations i = Some (Inr (item, k))"
    and rest: "evaluate_inputs LoadLocation scanUUID getSeries listObs r (item_SeriesID item # seen) (totalObservations + k)
        (items @ [item]) inputs = Some (Inr out)"
    by (auto split: option.splits sum.splits)
  note item = evaluate_input_item [OF i]
  have "distinct (map item_SeriesID out) \<and> (\<exists>new. out = (items @ [item]) @ new
    \<and> list_all2 (\<lambda>i x. scanUUID (in_SeriesID i) = Some (item_SeriesID x) \<and> item_Required x = in_Required i) inputs new)"
    by (rule Cons.IH [OF rest]) (use item Cons.prems(2,3) in auto)
  then show ?case using item by auto
qed auto

text \<open>
  A quality response answers its request: one item per input, in the order of the inputs, for
  distinct series; its state is valid only when every item is, and a required input that is
  missing, stale, partial or suspect blocks it.
\<close>

theorem quality_response_complete:
  assumes "Evaluate_request LoadLocation scanUUID getSeries listObs r = Some (Inr resp)"
  shows "valid_quality_request r \<and> distinct (map item_SeriesID (resp_Items resp))
    \<and> list_all2 (\<lambda>i x. scanUUID (in_SeriesID i) = Some (item_SeriesID x) \<and> item_Required x = in_Required i)
        (req_Inputs r) (resp_Items resp)
    \<and> (resp_State resp = Valid \<longleftrightarrow> (\<forall>x \<in> set (resp_Items resp). res_State (item_Result x) = Valid))
    \<and> ((\<exists>x \<in> set (resp_Items resp). res_State (item_Result x) = Blocked) \<longrightarrow> resp_State resp = Blocked)"
proof -
  from assms obtain items where i: "valid_quality_request r"
    "evaluate_inputs LoadLocation scanUUID getSeries listObs r [] 0 [] (req_Inputs r) = Some (Inr items)"
    and resp: "resp_Items resp = items" "resp_State resp = Aggregate (map (res_State \<circ> item_Result) items)"
    by (auto simp: Evaluate_request_def split: if_splits) (case_tac z, auto)
  have agg: "Aggregate ss = Valid \<longleftrightarrow> set ss \<subseteq> {Valid}" "Blocked \<in> set ss \<Longrightarrow> Aggregate ss = Blocked" for ss
    using aggregate_from_eq [of Valid ss] by (auto simp: Aggregate_def)
  show ?thesis
    using i(1) evaluate_inputs_items [OF i(2)] by (auto simp: resp agg(1) intro!: agg(2)) force
qed

theorem quality_response_complete_witness:
  "\<exists>resp. Evaluate_request (\<lambda>_. None) Some (\<lambda>_. Inr (Some \<lparr>ser_Frequency = ''daily'', ser_SourceTimezone = None,
      ser_FreshnessPolicy = [], ser_CreatedAt = Some 0\<rparr>)) (\<lambda>_ _ _ _. Inr [])
      \<lparr>req_From = 0, req_To = 1, req_AsOf = 2, req_Inputs = [\<lparr>in_SeriesID = ''s'', in_Required = True\<rparr>]\<rparr> = Some (Inr resp)
    \<and> resp_State resp = Blocked"
proof -
  let ?call = "Evaluate_request (\<lambda>_. None) Some (\<lambda>_. Inr (Some \<lparr>ser_Frequency = ''daily'', ser_SourceTimezone = None,
      ser_FreshnessPolicy = [], ser_CreatedAt = Some 0\<rparr>)) (\<lambda>_ _ _ _. Inr [])
      \<lparr>req_From = 0, req_To = 1, req_AsOf = 2, req_Inputs = [\<lparr>in_SeriesID = ''s'', in_Required = True\<rparr>]\<rparr>"
  have "map_option (\<lambda>r. case r of Inl _ \<Rightarrow> None | Inr x \<Rightarrow> Some (map (res_State \<circ> item_Result) (resp_Items x))) ?call
      = Some (Some [Blocked])" by code_simp
  from returned_Inr [OF this] obtain resp where
    c: "?call = Some (Inr resp)" "map (res_State \<circ> item_Result) (resp_Items resp) = [Blocked]"
    by (elim exE conjE)
  then have "\<exists>x \<in> set (resp_Items resp). res_State (item_Result x) = Blocked" by auto
  then have "resp_State resp = Blocked" using quality_response_complete [OF c(1)] by (simp only: simp_thms)
  then show ?thesis using c(1) by (intro exI conjI)
qed

end
