(* ===== verification/Collector_Config.thy ===== *)
theory Collector_Config
  imports Quality
begin

text \<open>
  The collector's configuration: \<open>internal/collector/config.go\<close> and the catalog declared in
  \<open>internal/collector/catalog.go\<close>. A configuration file has been decoded into the records;
  the \<open>request\<close> of a schedule is still its raw JSON text. \<open>url.Parse\<close> is the argument
  \<open>parseURL\<close>, and the hash of the JSON text of the normalised request is the argument
  \<open>digest\<close> of the record \<open>requestPayload\<close> that is encoded (its \<open>request\<close> member
  is the decoded object with its members in key order, as \<open>encoding/json\<close> writes a map).
  Where Go walks a map to report the first offending entry, the model walks it in document order.
\<close>

record URL =
  url_Scheme :: string
  url_Hostname :: string
  url_HasUser :: bool
  url_RawQuery :: string
  url_Fragment :: string

record ArchiveConfig =
  arc_Endpoint :: string
  arc_Region :: string
  arc_Bucket :: string
  arc_AccessKeyEnv :: string
  arc_SecretKeyEnv :: string

record FXPair =
  fx_Base :: string
  fx_Quote :: string

record ScheduleInput =
  sch_Name :: string
  sch_Provider :: string
  sch_SourceID :: string
  sch_DatasetID :: string
  sch_SeriesID :: string
  sch_InstrumentID :: string
  sch_SourceCode :: string
  sch_DatasetKey :: string
  sch_SeriesCode :: string
  sch_CredentialEnv :: string
  sch_BaseURL :: string
  sch_Request :: string
  sch_IntervalSeconds :: int
  sch_MaxAttempts :: int
  sch_LeaseSeconds :: int
  sch_NextRunAt :: "time option"
  sch_FXPair :: "FXPair option"

record requestPayload =
  pay_Provider :: string
  pay_SourceID :: string
  pay_DatasetID :: string
  pay_SeriesID :: string
  pay_InstrumentID :: string
  pay_Request :: "(string \<times> json) list"
  pay_CredentialEnv :: string
  pay_BaseURL :: string
  pay_Interval :: int
  pay_MaxAttempts :: int
  pay_LeaseSeconds :: int
  pay_FXPair :: "FXPair option"

record Schedule =
  sched_Input :: ScheduleInput
  sched_RequestFingerprint :: string
  sched_Configuration :: requestPayload

record CatalogSeries =
  cser_SourceCode :: string
  cser_Name :: string
  cser_Unit :: string
  cser_Frequency :: string
  cser_SourceTimezone :: string
  cser_FreshnessPolicy :: string

record CatalogDataset =
  cds_ExternalKey :: string
  cds_Name :: string
  cds_Series :: "CatalogSeries list"

record CatalogSource =
  csrc_Code :: string
  csrc_Name :: string
  csrc_Provider :: string
  csrc_Datasets :: "CatalogDataset list"

record FileConfig =
  cfg_DatabaseURLEnv :: string
  cfg_Archive :: ArchiveConfig
  cfg_Catalog :: "CatalogSource list"
  cfg_Schedules :: "ScheduleInput list"

subsection \<open>Patterns\<close>

definition is_word_char :: "char \<Rightarrow> bool" where
  "is_word_char c \<longleftrightarrow> is_upper c \<or> is_lower c \<or> is_digit c \<or> c = CHR ''_''"

definition envNamePattern :: "string \<Rightarrow> bool" where
  "envNamePattern s \<longleftrightarrow> s \<noteq> [] \<and> \<not> is_digit (hd s) \<and> list_all is_word_char s"

definition currencyPattern :: "string \<Rightarrow> bool" where
  "currencyPattern s \<longleftrightarrow> length s = 3 \<and> list_all is_upper s"

definition uuidPattern :: "string \<Rightarrow> bool" where
  "uuidPattern s \<longleftrightarrow> uuid_shape s \<and> s ! 14 \<in> set ''12345'' \<and> s ! 19 \<in> set ''89abAB''"

fun contains_str :: "string \<Rightarrow> string \<Rightarrow> bool" where
  "contains_str sub [] \<longleftrightarrow> sub = []"
| "contains_str sub (c # s) \<longleftrightarrow> has_prefix (c # s) sub \<or> contains_str sub s"

subsection \<open>Schedules\<close>

definition validateCatalogReferences :: "ScheduleInput \<Rightarrow> string + unit" where
  "validateCatalogReferences i =
     (if list_ex (\<lambda>p. fst p \<noteq> [] \<and> snd p \<noteq> [])
           [(sch_SourceID i, sch_SourceCode i), (sch_DatasetID i, sch_DatasetKey i), (sch_SeriesID i, sch_SeriesCode i)]
      then Inl ''use either catalog codes or IDs for an identity, not both''
      else if (sch_DatasetKey i \<noteq> [] \<and> sch_SourceCode i = []) \<or> (sch_SeriesCode i \<noteq> [] \<and> sch_DatasetKey i = [])
      then Inl ''dataset_key requires source_code and series_code requires dataset_key''
      else if sch_SourceCode i \<noteq> [] \<and> (sch_DatasetID i \<noteq> [] \<or> sch_SeriesID i \<noteq> [])
      then Inl ''a schedule with source_code must reference its dataset and series by code''
      else Inr ())"

definition allowed_fields :: "string \<Rightarrow> string list" where
  "allowed_fields provider =
     (if provider = ''fred'' then [''series_id'', ''realtime_start'', ''realtime_end'', ''vintage_dates'', ''observation_start'',
        ''observation_end'', ''units'', ''frequency'', ''aggregation_method'', ''output_type'', ''limit'', ''offset'', ''max_pages'']
      else if provider = ''tcmb'' then [''series'', ''startdate'', ''enddate'', ''frequency'', ''aggregationtypes'', ''formulas'',
        ''decimalseparator'', ''max_pages'']
      else if provider = ''binance'' then [''symbol'', ''symbols'', ''start_time'', ''end_time'', ''limit'', ''max_pages'']
      else [])"

definition credential_field :: "string \<Rightarrow> bool" where
  "credential_field lower \<longleftrightarrow>
     list_ex (\<lambda>w. contains_str w lower) [''api'', ''secret'', ''token'', ''password'', ''credential'', ''key'']"

fun validateRequestFields :: "string \<Rightarrow> string list \<Rightarrow> string + unit" where
  "validateRequestFields provider [] = Inr ()"
| "validateRequestFields provider (key # keys) =
     (let lower = ToLower (TrimSpace key) in
      if credential_field lower then Inl ''request field cannot contain credentials; use credential_env''
      else if lower \<notin> set (allowed_fields provider) then Inl ''unsupported request field''
      else validateRequestFields provider keys)"

text \<open>A decoded JSON object as a Go map, in the order it is encoded.\<close>

definition json_map :: "(string \<times> json) list \<Rightarrow> (string \<times> json) list" where
  "json_map ms = sort_key fst (AList.clearjunk (rev ms))"

definition decode_request :: "string \<Rightarrow> (string \<times> json) list option" where
  "decode_request raw = (case json_parse raw of Some (JObj ms) \<Rightarrow> Some (json_map ms) | _ \<Rightarrow> None)"

definition trimmed :: "ScheduleInput \<Rightarrow> ScheduleInput" where
  "trimmed i = i\<lparr>sch_Name := TrimSpace (sch_Name i), sch_Provider := ToLower (TrimSpace (sch_Provider i))\<rparr>"

definition base_url_ok :: "(string \<Rightarrow> URL option) \<Rightarrow> string \<Rightarrow> bool" where
  "base_url_ok parseURL s = (case parseURL s of
      None \<Rightarrow> False
    | Some u \<Rightarrow> \<not> (url_Scheme u \<noteq> ''https'' \<or> url_Hostname u = [] \<or> url_HasUser u \<or> url_RawQuery u \<noteq> []))"

text \<open>The checks before the request is decoded.\<close>

definition check_identity :: "(string \<Rightarrow> URL option) \<Rightarrow> ScheduleInput \<Rightarrow> string + unit" where
  "check_identity parseURL i =
     (if sch_Name i = [] \<or> CHR 0x0D \<in> set (sch_Name i) \<or> CHR 0x0A \<in> set (sch_Name i) then Inl ''schedule name is required''
      else if sch_Provider i \<noteq> ''fred'' \<and> sch_Provider i \<noteq> ''tcmb'' \<and> sch_Provider i \<noteq> ''binance'' then Inl ''unsupported provider''
      else res_bind (validateCatalogReferences i) (\<lambda>_.
        if sch_SourceCode i = [] \<and> \<not> uuidPattern (sch_SourceID i) then Inl ''source_id must be a UUID''
        else if sch_Provider i \<noteq> ''binance'' \<and> \<not> envNamePattern (TrimSpace (sch_CredentialEnv i))
        then Inl ''credential_env must name an environment variable''
        else if sch_BaseURL i \<noteq> [] \<and> \<not> base_url_ok parseURL (sch_BaseURL i)
        then Inl ''base_url must be HTTPS without credentials or query parameters''
        else if list_ex (\<lambda>v. v \<noteq> [] \<and> \<not> uuidPattern v) [sch_DatasetID i, sch_SeriesID i, sch_InstrumentID i]
        then Inl ''identity must be a UUID''
        else if (sch_Provider i = ''fred'' \<or> sch_Provider i = ''tcmb'') \<and> sch_SeriesID i = [] \<and> sch_SeriesCode i = []
        then Inl ''schedules require series_id''
        else if sch_Provider i = ''binance'' \<and> sch_InstrumentID i = [] then Inl ''binance schedules require instrument_id''
        else Inr ()))"

definition check_limits :: "ScheduleInput \<Rightarrow> string + unit" where
  "check_limits i =
     (if (case sch_FXPair i of None \<Rightarrow> False | Some _ \<Rightarrow> sch_Provider i \<noteq> ''tcmb'')
      then Inl ''fx_pair is supported only for tcmb schedules''
      else if (case sch_FXPair i of None \<Rightarrow> False
               | Some p \<Rightarrow> \<not> currencyPattern (fx_Base p) \<or> \<not> currencyPattern (fx_Quote p) \<or> fx_Base p = fx_Quote p)
      then Inl ''fx_pair base and quote must be distinct uppercase ISO 4217 codes''
      else if sch_IntervalSeconds i \<le> 0 \<or> sch_IntervalSeconds i > 31 * 24 * 60 * 60
      then Inl ''interval_seconds must be between 1 and 2678400''
      else if sch_MaxAttempts i \<le> 0 \<or> sch_MaxAttempts i > 20 then Inl ''max_attempts must be between 1 and 20''
      else if sch_LeaseSeconds i \<le> 0 \<or> sch_LeaseSeconds i > 24 * 60 * 60
      then Inl ''lease_seconds must be between 1 and 86400''
      else Inr ())"

definition payload_of :: "ScheduleInput \<Rightarrow> (string \<times> json) list \<Rightarrow> requestPayload" where
  "payload_of i request = \<lparr>pay_Provider = sch_Provider i, pay_SourceID = sch_SourceID i, pay_DatasetID = sch_DatasetID i,
     pay_SeriesID = sch_SeriesID i, pay_InstrumentID = sch_InstrumentID i, pay_Request = request,
     pay_CredentialEnv = sch_CredentialEnv i, pay_BaseURL = sch_BaseURL i, pay_Interval = sch_IntervalSeconds i,
     pay_MaxAttempts = sch_MaxAttempts i, pay_LeaseSeconds = sch_LeaseSeconds i, pay_FXPair = sch_FXPair i\<rparr>"

definition NormalizeSchedule :: "(string \<Rightarrow> URL option) \<Rightarrow> (requestPayload \<Rightarrow> string) \<Rightarrow> ScheduleInput \<Rightarrow> string + Schedule" where
  "NormalizeSchedule parseURL digest input =
     (let i = trimmed input in
      res_bind (check_identity parseURL i) (\<lambda>_.
        if sch_Request i = [] \<or> sch_Request i = ''null'' \<or> sch_Request i = [CHR 0x7B, CHR 0x7D] then Inl ''request is required''
        else case decode_request (sch_Request i) of
          None \<Rightarrow> Inl ''request must be a JSON object''
        | Some request \<Rightarrow>
            res_bind (validateRequestFields (sch_Provider i) (map fst request)) (\<lambda>_.
            res_bind (check_limits i) (\<lambda>_.
              let payload = payload_of i request
              in Inr \<lparr>sched_Input = i, sched_RequestFingerprint = digest payload, sched_Configuration = payload\<rparr>))))"

subsection \<open>The catalog\<close>

definition blank :: "string \<Rightarrow> bool" where
  "blank value \<longleftrightarrow> TrimSpace value = []"

definition known_provider :: "string \<Rightarrow> bool" where
  "known_provider p \<longleftrightarrow> p \<in> {''fred'', ''tcmb'', ''binance''}"

fun check_series :: "(string \<Rightarrow> Location option) \<Rightarrow> string list \<Rightarrow> CatalogSeries list \<Rightarrow> string + unit" where
  "check_series LoadLocation seen [] = Inr ()"
| "check_series LoadLocation seen (s # ss) =
     (if blank (cser_SourceCode s) \<or> blank (cser_Name s) \<or> blank (cser_Unit s) \<or> blank (cser_Frequency s)
      then Inl ''catalog series require source_code, name, unit and frequency''
      else if cser_SourceCode s \<in> set seen then Inl ''catalog series is duplicated''
      else if ValidatePolicy LoadLocation (cser_Frequency s) (cser_SourceTimezone s) (cser_FreshnessPolicy s) \<noteq> None
      then Inl ''catalog series: invalid freshness policy''
      else check_series LoadLocation (cser_SourceCode s # seen) ss)"

fun check_datasets :: "(string \<Rightarrow> Location option) \<Rightarrow> string list \<Rightarrow> CatalogDataset list \<Rightarrow> string + unit" where
  "check_datasets LoadLocation seen [] = Inr ()"
| "check_datasets LoadLocation seen (d # ds) =
     (if blank (cds_ExternalKey d) \<or> blank (cds_Name d) then Inl ''catalog datasets require external_key and name''
      else if cds_ExternalKey d \<in> set seen then Inl ''catalog dataset is duplicated''
      else res_bind (check_series LoadLocation [] (cds_Series d)) (\<lambda>_.
        check_datasets LoadLocation (cds_ExternalKey d # seen) ds))"

fun check_sources :: "(string \<Rightarrow> Location option) \<Rightarrow> string list \<Rightarrow> CatalogSource list \<Rightarrow> string + unit" where
  "check_sources LoadLocation seen [] = Inr ()"
| "check_sources LoadLocation seen (s # ss) =
     (if blank (csrc_Code s) \<or> blank (csrc_Name s) then Inl ''catalog sources require code and name''
      else if \<not> known_provider (csrc_Provider s) then Inl ''catalog source has unsupported provider''
      else if csrc_Code s \<in> set seen then Inl ''catalog source is duplicated''
      else res_bind (check_datasets LoadLocation [] (csrc_Datasets s)) (\<lambda>_.
        check_sources LoadLocation (csrc_Code s # seen) ss))"

definition Validate_catalog :: "(string \<Rightarrow> Location option) \<Rightarrow> CatalogSource list \<Rightarrow> string + unit" where
  "Validate_catalog LoadLocation sources = check_sources LoadLocation [] sources"

definition catalog_provider :: "CatalogSource list \<Rightarrow> string \<Rightarrow> string option" where
  "catalog_provider sources code = map_option csrc_Provider (find (\<lambda>s. csrc_Code s = code) sources)"

definition catalog_has :: "CatalogSource list \<Rightarrow> string \<Rightarrow> string \<Rightarrow> string \<Rightarrow> bool" where
  "catalog_has sources sourceCode datasetKey seriesCode =
     list_ex (\<lambda>s. csrc_Code s = sourceCode
       \<and> (datasetKey = [] \<or> list_ex (\<lambda>d. cds_ExternalKey d = datasetKey
            \<and> (seriesCode = [] \<or> list_ex (\<lambda>x. cser_SourceCode x = seriesCode) (cds_Series d))) (csrc_Datasets s))) sources"

record CatalogIDs =
  ids_sources :: "(string \<times> string) list"
  ids_datasets :: "((string \<times> string) \<times> string) list"
  ids_series :: "((string \<times> string) \<times> string) list"

definition Resolve :: "CatalogIDs \<Rightarrow> ScheduleInput \<Rightarrow> string + ScheduleInput" where
  "Resolve ids i =
     (if sch_SourceCode i = [] then Inr i
      else case map_of (ids_sources ids) (sch_SourceCode i) of
        None \<Rightarrow> Inl ''schedule references unregistered source''
      | Some sourceID \<Rightarrow>
          let i1 = i\<lparr>sch_SourceID := sourceID, sch_SourceCode := []\<rparr> in
          res_bind
            (if sch_DatasetKey i1 = [] then Inr i1
             else case map_of (ids_datasets ids) (sourceID, sch_DatasetKey i1) of
               None \<Rightarrow> Inl ''schedule references unregistered dataset''
             | Some datasetID \<Rightarrow> Inr (i1\<lparr>sch_DatasetID := datasetID, sch_DatasetKey := []\<rparr>)) (\<lambda>i2.
          if sch_SeriesCode i2 = [] then Inr i2
          else case map_of (ids_series ids) (sch_DatasetID i2, sch_SeriesCode i2) of
            None \<Rightarrow> Inl ''schedule references unregistered series''
          | Some seriesID \<Rightarrow> Inr (i2\<lparr>sch_SeriesID := seriesID, sch_SeriesCode := []\<rparr>)))"

subsection \<open>The file\<close>

definition Validate_archive :: "(string \<Rightarrow> URL option) \<Rightarrow> ArchiveConfig \<Rightarrow> string + unit" where
  "Validate_archive parseURL c =
     (if (case parseURL (TrimSpace (arc_Endpoint c)) of None \<Rightarrow> True | Some u \<Rightarrow>
            (url_Scheme u \<noteq> ''http'' \<and> url_Scheme u \<noteq> ''https'') \<or> url_Hostname u = [] \<or> url_HasUser u
            \<or> url_RawQuery u \<noteq> [] \<or> url_Fragment u \<noteq> [])
      then Inl ''endpoint must be an HTTP(S) URL without credentials or query parameters''
      else if blank (arc_Region c) \<or> blank (arc_Bucket c) then Inl ''endpoint, region, and bucket are required''
      else if \<not> envNamePattern (TrimSpace (arc_AccessKeyEnv c)) \<or> \<not> envNamePattern (TrimSpace (arc_SecretKeyEnv c))
      then Inl ''access_key_env and secret_key_env must be environment variable names''
      else Inr ())"

fun check_schedules :: "(string \<Rightarrow> URL option) \<Rightarrow> (requestPayload \<Rightarrow> string) \<Rightarrow> CatalogSource list \<Rightarrow> string list
    \<Rightarrow> ScheduleInput list \<Rightarrow> string + unit" where
  "check_schedules parseURL digest catalog seen [] = Inr ()"
| "check_schedules parseURL digest catalog seen (i # is) =
     (if sch_Name i \<in> set seen then Inl ''schedule is duplicated''
      else res_bind (NormalizeSchedule parseURL digest i) (\<lambda>_.
        if sch_SourceCode i \<noteq> []
           \<and> (case catalog_provider catalog (sch_SourceCode i) of None \<Rightarrow> [] | Some p \<Rightarrow> p) \<noteq> ToLower (TrimSpace (sch_Provider i))
        then Inl ''source_code is not a catalog source for provider''
        else if sch_SourceCode i \<noteq> [] \<and> \<not> catalog_has catalog (sch_SourceCode i) (sch_DatasetKey i) (sch_SeriesCode i)
        then Inl ''catalog has no such dataset and series''
        else check_schedules parseURL digest catalog (sch_Name i # seen) is))"

definition Validate_config :: "(string \<Rightarrow> URL option) \<Rightarrow> (string \<Rightarrow> Location option) \<Rightarrow> (requestPayload \<Rightarrow> string)
    \<Rightarrow> FileConfig \<Rightarrow> string + unit" where
  "Validate_config parseURL LoadLocation digest c =
     (if \<not> envNamePattern (TrimSpace (cfg_DatabaseURLEnv c))
      then Inl ''database_url_env must be a valid environment variable name''
      else res_bind (Validate_archive parseURL (cfg_Archive c)) (\<lambda>_.
        res_bind (Validate_catalog LoadLocation (cfg_Catalog c)) (\<lambda>_.
          if cfg_Schedules c = [] then Inl ''at least one collector schedule is required''
          else check_schedules parseURL digest (cfg_Catalog c) [] (cfg_Schedules c))))"

end
