(* ===== verification/Schedules.thy ===== *)
theory Schedules
  imports Collector_Config Lease
begin

text \<open>
  The collector's schedules: \<open>internal/collector/store.go\<close> and \<open>worker.go\<close>. The table
  \<open>collector_schedules\<close> is a list of rows; every method of \<open>Store\<close> is one definition
  that takes the tables and returns them with its result. As for the job queue, the database clock
  is the argument \<open>now\<close>, a fresh id and a fresh lease token (\<open>gen_random_uuid()\<close>) are
  arguments, \<open>locked\<close> names the rows other statements hold, \<open>fault\<close> the statements
  that fail (without effect). The identities a schedule refers to are looked up in \<open>catalog_db\<close>.
  A \<open>configuration\<close> is kept as the record that was encoded. The columns \<open>created_at\<close>
  and \<open>updated_at\<close>, which no Go code reads, are left out.
\<close>

record schedule_row =
  row_id :: string
  row_name :: string
  row_provider :: string
  row_source_id :: string
  row_dataset_id :: "string option"
  row_series_id :: "string option"
  row_instrument_id :: "string option"
  row_configuration :: requestPayload
  row_request_fingerprint :: string
  row_interval_seconds :: int
  row_lease_seconds :: int
  row_next_run_at :: time
  row_retry_available_at :: "time option"
  row_active :: bool
  row_lease_owner :: "string option"
  row_lease_token :: "string option"
  row_lease_expires_at :: "time option"
  row_checkpoint :: string
  row_attempt_count :: int
  row_max_attempts :: int
  row_last_run_id :: "string option"
  row_last_error_code :: "string option"

record SClaim =
  sc_ID :: string
  sc_Name :: string
  sc_Provider :: string
  sc_SourceID :: string
  sc_DatasetID :: "string option"
  sc_SeriesID :: "string option"
  sc_InstrumentID :: "string option"
  sc_Configuration :: requestPayload
  sc_RequestFingerprint :: string
  sc_Checkpoint :: string
  sc_LeaseOwner :: string
  sc_LeaseToken :: string
  sc_LeaseExpiresAt :: time
  sc_AttemptCount :: int
  sc_MaxAttempts :: int
  sc_IntervalSeconds :: int
  sc_LeaseSeconds :: int
  sc_DueAt :: time
  sc_OccurrenceKey :: string

record catalog_db =
  db_sources :: "string list"
  db_datasets :: "(string \<times> string) list"
  db_series :: "(string \<times> string) list"
  db_instruments :: "string list"

datatype sched_error =
    ErrNoDueSchedule
  | ErrLeaseLost
  | ErrRequestChanged
  | SchedErr string
  | HandlerErr string
  | HandlerAndFailErr string sched_error

subsection \<open>Registration\<close>

text \<open>The CHECK constraints of table \<open>collector_schedules\<close>.\<close>

definition schedule_row_ok :: "schedule_row \<Rightarrow> bool" where
  "schedule_row_ok r \<longleftrightarrow> row_provider r \<in> {''fred'', ''tcmb'', ''binance''}
     \<and> 0 < row_interval_seconds r \<and> 0 < row_lease_seconds r \<and> 0 < row_max_attempts r
     \<and> length (row_request_fingerprint r) = 64
     \<and> list_all (\<lambda>c. is_digit c \<or> CHR ''a'' \<le> c \<and> c \<le> CHR ''f'') (row_request_fingerprint r)
     \<and> (row_lease_owner r = None \<longleftrightarrow> row_lease_token r = None)
     \<and> (row_lease_token r = None \<or> row_lease_expires_at r \<noteq> None)"

definition identities_valid :: "catalog_db \<Rightarrow> ScheduleInput \<Rightarrow> bool" where
  "identities_valid cat i \<longleftrightarrow> sch_SourceID i \<in> set (db_sources cat)
     \<and> (sch_DatasetID i = [] \<or> (sch_DatasetID i, sch_SourceID i) \<in> set (db_datasets cat))
     \<and> (sch_SeriesID i = [] \<or> (sch_DatasetID i \<noteq> [] \<and> sch_DatasetID i \<in> fst ` set (db_datasets cat)
          \<and> (sch_SeriesID i, sch_DatasetID i) \<in> set (db_series cat)))
     \<and> (sch_InstrumentID i = [] \<or> sch_InstrumentID i \<in> set (db_instruments cat))"

definition null_if_empty :: "string \<Rightarrow> string option" where
  "null_if_empty s = (if s = [] then None else Some s)"

definition new_row :: "string \<Rightarrow> time \<Rightarrow> Schedule \<Rightarrow> schedule_row" where
  "new_row newID next s = (let i = sched_Input s in
     \<lparr>row_id = newID, row_name = sch_Name i, row_provider = sch_Provider i, row_source_id = sch_SourceID i,
      row_dataset_id = null_if_empty (sch_DatasetID i), row_series_id = null_if_empty (sch_SeriesID i),
      row_instrument_id = null_if_empty (sch_InstrumentID i), row_configuration = sched_Configuration s,
      row_request_fingerprint = sched_RequestFingerprint s, row_interval_seconds = sch_IntervalSeconds i,
      row_lease_seconds = sch_LeaseSeconds i, row_next_run_at = next, row_retry_available_at = None,
      row_active = True, row_lease_owner = None, row_lease_token = None, row_lease_expires_at = None,
      row_checkpoint = [CHR 0x7B, CHR 0x7D], row_attempt_count = 0, row_max_attempts = sch_MaxAttempts i,
      row_last_run_id = None, row_last_error_code = None\<rparr>)"

definition UpsertSchedule :: "bool \<Rightarrow> db_fault \<Rightarrow> catalog_db \<Rightarrow> time \<Rightarrow> string \<Rightarrow> Schedule \<Rightarrow> schedule_row list
    \<Rightarrow> schedule_row list \<times> (sched_error + string)" where
  "UpsertSchedule pool fault cat wall newID s rows =
     (let i = sched_Input s in
      if \<not> pool then (rows, Inl (SchedErr ''collector database pool is required''))
      else if sch_SourceCode i \<noteq> [] \<or> sch_DatasetKey i \<noteq> [] \<or> sch_SeriesCode i \<noteq> []
      then (rows, Inl (SchedErr ''collector schedule catalog codes must be resolved before registration''))
      else if fault (DbStmt 0) then (rows, Inl (SchedErr ''validate collector schedule identities''))
      else if \<not> identities_valid cat i
      then (rows, Inl (SchedErr ''collector schedule identities do not belong to the configured source''))
      else let next = (case sch_NextRunAt i of None \<Rightarrow> wall | Some t \<Rightarrow> t); row = new_row newID next s
      in if fault (DbStmt 1) \<or> \<not> schedule_row_ok row then (rows, Inl (SchedErr ''insert collector schedule''))
         else case find (\<lambda>r. row_name r = sch_Name i) rows of
           None \<Rightarrow> (rows @ [row], Inr newID)
         | Some existing \<Rightarrow>
             if fault (DbStmt 2) then (rows, Inl (SchedErr ''load collector schedule''))
             else if row_request_fingerprint existing \<noteq> sched_RequestFingerprint s then (rows, Inl ErrRequestChanged)
             else (rows, Inr (row_id existing)))"

subsection \<open>Claiming\<close>

definition due :: "time \<Rightarrow> schedule_row \<Rightarrow> bool" where
  "due now r \<longleftrightarrow> row_active r
     \<and> (case row_retry_available_at r of None \<Rightarrow> row_next_run_at r | Some t \<Rightarrow> t) \<le> now
     \<and> (case row_lease_expires_at r of None \<Rightarrow> True | Some e \<Rightarrow> e \<le> now)
     \<and> row_attempt_count r < row_max_attempts r"

definition due_order :: "schedule_row \<Rightarrow> time \<times> string" where
  "due_order r = (row_next_run_at r, row_id r)"

definition due_rows :: "(string \<Rightarrow> bool) \<Rightarrow> time \<Rightarrow> schedule_row list \<Rightarrow> schedule_row list" where
  "due_rows locked now rows = sort_key due_order (filter (\<lambda>r. due now r \<and> \<not> locked (row_id r)) rows)"

definition leased :: "string \<Rightarrow> string \<Rightarrow> time \<Rightarrow> schedule_row \<Rightarrow> schedule_row" where
  "leased owner token now r = r\<lparr>row_lease_owner := Some owner, row_lease_token := Some token,
     row_lease_expires_at := Some (now + row_lease_seconds r * second_ns),
     row_attempt_count := row_attempt_count r + 1\<rparr>"

definition claim_of :: "string \<Rightarrow> string \<Rightarrow> time \<Rightarrow> schedule_row \<Rightarrow> SClaim" where
  "claim_of owner token now r =
     \<lparr>sc_ID = row_id r, sc_Name = row_name r, sc_Provider = row_provider r, sc_SourceID = row_source_id r,
      sc_DatasetID = row_dataset_id r, sc_SeriesID = row_series_id r, sc_InstrumentID = row_instrument_id r,
      sc_Configuration = row_configuration r, sc_RequestFingerprint = row_request_fingerprint r,
      sc_Checkpoint = row_checkpoint r, sc_LeaseOwner = owner, sc_LeaseToken = token,
      sc_LeaseExpiresAt = now + row_lease_seconds r * second_ns, sc_AttemptCount = row_attempt_count r + 1,
      sc_MaxAttempts = row_max_attempts r, sc_IntervalSeconds = row_interval_seconds r,
      sc_LeaseSeconds = row_lease_seconds r, sc_DueAt = row_next_run_at r,
      sc_OccurrenceKey = row_id r @ '':'' @ row_request_fingerprint r @ '':'' @ format_RFC3339Nano (row_next_run_at r)\<rparr>"

definition ClaimDue :: "bool \<Rightarrow> db_fault \<Rightarrow> (string \<Rightarrow> bool) \<Rightarrow> time \<Rightarrow> string \<Rightarrow> string \<Rightarrow> Duration \<Rightarrow> schedule_row list
    \<Rightarrow> schedule_row list \<times> (sched_error + SClaim)" where
  "ClaimDue pool fault locked now token owner lease rows =
     (if \<not> pool then (rows, Inl (SchedErr ''collector database pool is required''))
      else if owner = [] \<or> lease \<le> 0 then (rows, Inl (SchedErr ''collector lease owner and duration are required''))
      else if fault (DbStmt 0) then (rows, Inl (SchedErr ''claim collector schedule''))
      else case due_rows locked now rows of
        [] \<Rightarrow> (rows, Inl ErrNoDueSchedule)
      | r # _ \<Rightarrow> (sql_update (\<lambda>x. row_id x = row_id r) (leased owner token now) rows, Inr (claim_of owner token now r)))"

subsection \<open>Finishing\<close>

text \<open>The \<^verbatim>\<open>WHERE\<close> clause \<open>Complete\<close> and \<open>Fail\<close> share.\<close>

definition lease_held :: "string \<Rightarrow> string \<Rightarrow> string \<Rightarrow> time \<Rightarrow> schedule_row \<Rightarrow> bool" where
  "lease_held i owner token now r \<longleftrightarrow> row_id r = i \<and> row_lease_owner r = Some owner \<and> row_lease_token r = Some token
     \<and> (case row_lease_expires_at r of None \<Rightarrow> False | Some e \<Rightarrow> e > now)"

abbreviation claim_held :: "SClaim \<Rightarrow> time \<Rightarrow> schedule_row \<Rightarrow> bool" where
  "claim_held c now \<equiv> lease_held (sc_ID c) (sc_LeaseOwner c) (sc_LeaseToken c) now"

definition completed_row :: "string \<Rightarrow> string \<Rightarrow> time \<Rightarrow> schedule_row \<Rightarrow> schedule_row" where
  "completed_row runID checkpoint nextRun r = r\<lparr>row_checkpoint := checkpoint, row_next_run_at := nextRun,
     row_last_run_id := null_if_empty runID, row_retry_available_at := None, row_lease_owner := None,
     row_lease_token := None, row_lease_expires_at := None, row_attempt_count := 0, row_last_error_code := None\<rparr>"

definition Complete_schedule :: "db_fault \<Rightarrow> time \<Rightarrow> SClaim \<Rightarrow> string \<Rightarrow> string \<Rightarrow> time \<Rightarrow> schedule_row list
    \<Rightarrow> schedule_row list \<times> (sched_error + unit)" where
  "Complete_schedule fault now c runID checkpoint nextRun rows =
     (let cp = (if checkpoint = [] then [CHR 0x7B, CHR 0x7D] else checkpoint) in
      if fault (DbStmt 1) then (rows, Inl (SchedErr ''complete collector schedule''))
      else (sql_update (claim_held c now) (completed_row runID cp nextRun) rows,
            if sql_count (claim_held c now) rows \<noteq> 1 then Inl ErrLeaseLost else Inr ()))"

definition failed_row :: "SClaim \<Rightarrow> string \<Rightarrow> time \<Rightarrow> schedule_row \<Rightarrow> schedule_row" where
  "failed_row c code retryAt r = r\<lparr>row_retry_available_at := Some retryAt, row_last_error_code := Some code,
     row_active := (if sc_AttemptCount c \<ge> row_max_attempts r then False else row_active r),
     row_lease_owner := None, row_lease_token := None, row_lease_expires_at := None\<rparr>"

definition Fail_schedule :: "db_fault \<Rightarrow> time \<Rightarrow> SClaim \<Rightarrow> string \<Rightarrow> time \<Rightarrow> schedule_row list
    \<Rightarrow> schedule_row list \<times> (sched_error + unit)" where
  "Fail_schedule fault now c code retryAt rows =
     (if fault (DbStmt 1) then (rows, Inl (SchedErr ''fail collector schedule''))
      else (sql_update (claim_held c now) (failed_row c code retryAt) rows,
            if sql_count (claim_held c now) rows \<noteq> 1 then Inl ErrLeaseLost else Inr ()))"

definition checkpointObject :: "string \<Rightarrow> (string \<times> json) list" where
  "checkpointObject value = (case decode_request value of Some m \<Rightarrow> m | None \<Rightarrow> [])"

definition intervalLiteral :: "Duration \<Rightarrow> string" where
  "intervalLiteral d = int_str (quo_big d 1000) @ '' microseconds''"

subsection \<open>The worker\<close>

record RunOutcome =
  out_RunID :: string
  out_Checkpoint :: string
  out_Complete :: bool

record Worker =
  wrk_Owner :: string
  wrk_Lease :: Duration

text \<open>
  \<open>RunOnce\<close> with the handler as an argument: \<open>claimNow\<close> and \<open>doneNow\<close> are the
  database clock at the claim and at the finish, \<open>wall\<close> is the worker's clock at the finish.
\<close>

definition RunOnce :: "bool \<Rightarrow> db_fault \<Rightarrow> (string \<Rightarrow> bool) \<Rightarrow> time \<Rightarrow> time \<Rightarrow> time \<Rightarrow> string
    \<Rightarrow> (SClaim \<Rightarrow> string + RunOutcome) option \<Rightarrow> Worker \<Rightarrow> schedule_row list \<Rightarrow> schedule_row list \<times> (sched_error + unit)" where
  "RunOnce pool fault locked claimNow doneNow wall token handler w rows =
     (case handler of
        None \<Rightarrow> (rows, Inl (SchedErr ''collector handler is required''))
      | Some h \<Rightarrow>
          let lease = (if wrk_Lease w \<le> 0 then 2 * 60 * second_ns else wrk_Lease w) in
          (case ClaimDue pool fault locked claimNow token (wrk_Owner w) lease rows of
             (rows1, Inl e) \<Rightarrow> (rows1, if e = ErrNoDueSchedule then Inr () else Inl e)
           | (rows1, Inr claim) \<Rightarrow>
               let later = wall + wrap64 (sc_IntervalSeconds claim * second_ns) in
               (case h claim of
                  Inl err \<Rightarrow>
                    (case Fail_schedule fault doneNow claim ''handler_failed'' later rows1 of
                       (rows2, Inl failErr) \<Rightarrow> (rows2, Inl (HandlerAndFailErr err failErr))
                     | (rows2, Inr _) \<Rightarrow> (rows2, Inl (HandlerErr err)))
                | Inr outcome \<Rightarrow>
                    if \<not> out_Complete outcome then (rows1, Inl (SchedErr ''collector handler returned incomplete outcome''))
                    else Complete_schedule fault doneNow claim (out_RunID outcome) (out_Checkpoint outcome) later rows1)))"

end
