(* ===== verification/Schedules_Safety.thy ===== *)
theory Schedules_Safety
  imports Schedules
begin

text \<open>
  What the schedule store guarantees. A state is the table with the claims handed out so far; a
  step is one call of a \<open>Store\<close> method with any clock, fault and lock, in any order (a worker
  that crashes takes no step). \<open>sched_inv\<close> holds in every reachable state, and the two finish
  operations provide the lease interface.
\<close>

type_synonym sched_sys = "schedule_row list \<times> SClaim set"

inductive sched_step :: "(requestPayload \<Rightarrow> string) \<Rightarrow> (string \<Rightarrow> URL option) \<Rightarrow> sched_sys \<Rightarrow> sched_sys \<Rightarrow> bool"
  for digest :: "requestPayload \<Rightarrow> string" and parseURL :: "string \<Rightarrow> URL option" where
  upsert: "NormalizeSchedule parseURL digest input = Inr s \<Longrightarrow> newID \<notin> row_id ` set rows \<Longrightarrow>
    sched_step digest parseURL (rows, cs) (fst (UpsertSchedule pool fault cat wall newID s rows), cs)"
| claim_due: "ClaimDue pool fault locked now token owner lease rows = (rows', Inr c) \<Longrightarrow> token \<notin> sc_LeaseToken ` cs \<Longrightarrow>
    sched_step digest parseURL (rows, cs) (rows', insert c cs)"
| complete_claim: "c \<in> cs \<Longrightarrow>
    sched_step digest parseURL (rows, cs) (fst (Complete_schedule fault now c runID checkpoint nextRun rows), cs)"
| fail_claim: "c \<in> cs \<Longrightarrow>
    sched_step digest parseURL (rows, cs) (fst (Fail_schedule fault now c code retryAt rows), cs)"

inductive sched_reachable :: "(requestPayload \<Rightarrow> string) \<Rightarrow> (string \<Rightarrow> URL option) \<Rightarrow> sched_sys \<Rightarrow> bool"
  for digest :: "requestPayload \<Rightarrow> string" and parseURL :: "string \<Rightarrow> URL option" where
  no_schedules: "sched_reachable digest parseURL ([], {})"
| after_step: "sched_reachable digest parseURL s \<Longrightarrow> sched_step digest parseURL s t \<Longrightarrow> sched_reachable digest parseURL t"

definition row_inv :: "schedule_row \<Rightarrow> bool" where
  "row_inv r \<longleftrightarrow> schedule_row_ok r \<and> 0 \<le> row_attempt_count r \<and> row_attempt_count r \<le> row_max_attempts r
     \<and> row_interval_seconds r \<le> 2678400 \<and> (row_lease_token r \<noteq> None \<longrightarrow> 1 \<le> row_attempt_count r)
     \<and> (\<not> row_active r \<longrightarrow> row_attempt_count r = row_max_attempts r \<and> row_lease_token r = None)"

definition rows_inv :: "schedule_row list \<Rightarrow> bool" where
  "rows_inv rows \<longleftrightarrow> distinct (map row_id rows) \<and> distinct (map row_name rows) \<and> (\<forall>r \<in> set rows. row_inv r)"

text \<open>A row whose token is that of a claim is the row as that claim left it.\<close>

definition claim_matches :: "SClaim \<Rightarrow> schedule_row \<Rightarrow> bool" where
  "claim_matches c r \<longleftrightarrow> row_id r = sc_ID c \<and> row_attempt_count r = sc_AttemptCount c
     \<and> row_lease_owner r = Some (sc_LeaseOwner c) \<and> row_active r
     \<and> row_lease_expires_at r = Some (sc_LeaseExpiresAt c) \<and> row_max_attempts r = sc_MaxAttempts c"

definition sched_inv :: "sched_sys \<Rightarrow> bool" where
  "sched_inv s \<longleftrightarrow> rows_inv (fst s)
     \<and> (\<forall>r \<in> set (fst s). \<forall>t. row_lease_token r = Some t \<longrightarrow> (\<exists>c \<in> snd s. sc_LeaseToken c = t \<and> claim_matches c r))
     \<and> (\<forall>c \<in> snd s. \<forall>c' \<in> snd s. sc_LeaseToken c = sc_LeaseToken c' \<longrightarrow> c = c')"

lemma NormalizeSchedule_Inr:
  assumes "NormalizeSchedule parseURL digest input = Inr s"
  obtains request where "sched_Input s = trimmed input" and "check_identity parseURL (trimmed input) = Inr ()"
    and "sch_Request input \<notin> {[], ''null'', [CHR 0x7B, CHR 0x7D]}" and "decode_request (sch_Request input) = Some request"
    and "validateRequestFields (sch_Provider (trimmed input)) (map fst request) = Inr ()"
    and "check_limits (trimmed input) = Inr ()" and "sched_Configuration s = payload_of (trimmed input) request"
    and "sched_RequestFingerprint s = digest (payload_of (trimmed input) request)"
  using assms by (auto simp: NormalizeSchedule_def Let_def res_simps trimmed_def split: if_splits option.splits)

lemma check_limits_Inr:
  "check_limits i = Inr () \<Longrightarrow> 0 < sch_IntervalSeconds i \<and> sch_IntervalSeconds i \<le> 2678400 \<and> 0 < sch_MaxAttempts i
     \<and> sch_MaxAttempts i \<le> 20 \<and> 0 < sch_LeaseSeconds i \<and> sch_LeaseSeconds i \<le> 86400"
  by (auto simp: check_limits_def split: if_splits)

lemma row_inv_new:
  assumes "schedule_row_ok (new_row newID runAt s)" and "NormalizeSchedule parseURL digest input = Inr s"
  shows "row_inv (new_row newID runAt s)"
proof -
  obtain "sched_Input s = trimmed input" "check_limits (trimmed input) = Inr ()"
    using assms(2) by (rule NormalizeSchedule_Inr)
  then have "sch_IntervalSeconds (sched_Input s) \<le> 2678400" using check_limits_Inr by simp
  then show ?thesis using assms(1) by (simp add: row_inv_def schedule_row_ok_def new_row_def Let_def)
qed

lemma UpsertSchedule_cases:
  obtains "fst (UpsertSchedule pool fault cat wall newID s rows) = rows"
  | runAt where "fst (UpsertSchedule pool fault cat wall newID s rows) = rows @ [new_row newID runAt s]"
    and "schedule_row_ok (new_row newID runAt s)" and "sch_Name (sched_Input s) \<notin> row_name ` set rows"
proof (cases "fst (UpsertSchedule pool fault cat wall newID s rows) = rows")
  case False
  let ?runAt = "case sch_NextRunAt (sched_Input s) of None \<Rightarrow> wall | Some t \<Rightarrow> t"
  have none: "find (\<lambda>r. row_name r = sch_Name (sched_Input s)) rows = None"
    using False by (auto simp: UpsertSchedule_def Let_def split: if_splits option.splits)
  then have name: "sch_Name (sched_Input s) \<notin> row_name ` set rows" by (auto simp: find_None_iff)
  have "fst (UpsertSchedule pool fault cat wall newID s rows) = rows @ [new_row newID ?runAt s] \<and> schedule_row_ok (new_row newID ?runAt s)"
    using False by (simp add: UpsertSchedule_def Let_def none split: if_splits)
  with name have "fst (UpsertSchedule pool fault cat wall newID s rows) = rows @ [new_row newID ?runAt s]
      \<and> schedule_row_ok (new_row newID ?runAt s) \<and> sch_Name (sched_Input s) \<notin> row_name ` set rows" by blast
  then show ?thesis using that(2) by blast
qed (rule that(1))

lemma sched_inv_upsert:
  assumes "sched_inv (rows, cs)" and "newID \<notin> row_id ` set rows" and "NormalizeSchedule parseURL digest input = Inr s"
  shows "sched_inv (fst (UpsertSchedule pool fault cat wall newID s rows), cs)"
proof (cases rule: UpsertSchedule_cases [of pool fault cat wall newID s rows])
  case (2 runAt)
  have "row_id (new_row newID runAt s) = newID" "row_name (new_row newID runAt s) = sch_Name (sched_Input s)"
    "row_lease_token (new_row newID runAt s) = None" by (simp_all add: new_row_def Let_def)
  then show ?thesis using assms 2 row_inv_new [OF 2(2) assms(3)] by (auto simp: sched_inv_def rows_inv_def)
qed (use assms in simp)

lemma due_rows_head:
  assumes "due_rows locked now rows = r # rs"
  shows "r \<in> set rows" "due now r" "\<not> locked (row_id r)"
    "\<And>k. k \<in> set rows \<Longrightarrow> due now k \<Longrightarrow> \<not> locked (row_id k) \<Longrightarrow> due_order r \<le> due_order k"
proof -
  have "set (due_rows locked now rows) = {k \<in> set rows. due now k \<and> \<not> locked (row_id k)}" by (auto simp: due_rows_def)
  then have "r \<in> {k \<in> set rows. due now k \<and> \<not> locked (row_id k)}" using assms by force
  then show "r \<in> set rows" "due now r" "\<not> locked (row_id r)" by simp_all
  fix k assume "k \<in> set rows" "due now k" "\<not> locked (row_id k)"
  then show "due_order r \<le> due_order k"
    using hd_sort_key_min(2) [of "filter (\<lambda>r. due now r \<and> \<not> locked (row_id r)) rows" k due_order] assms
    by (auto simp: due_rows_def filter_empty_conv)
qed

lemma ClaimDue_Inr:
  assumes "ClaimDue pool fault locked now token owner lease rows = (rows', Inr c)"
  obtains r where "r \<in> set rows" "due now r" "c = claim_of owner token now r"
    "rows' = sql_update (\<lambda>x. row_id x = row_id r) (leased owner token now) rows"
  using assms due_rows_head by (fastforce simp: ClaimDue_def split: if_splits list.splits)

lemma rows_inv_update:
  assumes "rows_inv rows"
    and "\<And>r. r \<in> set rows \<Longrightarrow> p r \<Longrightarrow> row_id (f r) = row_id r \<and> row_name (f r) = row_name r \<and> row_inv (f r)"
  shows "rows_inv (sql_update p f rows)"
proof -
  have "map row_id (sql_update p f rows) = map row_id rows" "map row_name (sql_update p f rows) = map row_name rows"
    using assms(2) by (auto simp: sql_update_def)
  then show ?thesis using assms by (auto simp: rows_inv_def set_sql_update)
qed

lemma row_inv_leased: "row_inv r \<Longrightarrow> due now r \<Longrightarrow> row_inv (leased owner token now r)"
  by (auto simp: row_inv_def schedule_row_ok_def leased_def due_def)

lemma rows_inv_id_eq: "rows_inv rows \<Longrightarrow> r \<in> set rows \<Longrightarrow> k \<in> set rows \<Longrightarrow> row_id r = row_id k \<Longrightarrow> r = k"
  unfolding rows_inv_def by (meson distinct_key_eq)

lemma sched_inv_claim:
  assumes inv: "sched_inv (rows, cs)" and fresh: "token \<notin> sc_LeaseToken ` cs"
    and c: "ClaimDue pool fault locked now token owner lease rows = (rows', Inr c)"
  shows "sched_inv (rows', insert c cs)"
proof -
  obtain r where r: "r \<in> set rows" "due now r" "c = claim_of owner token now r"
    and rows': "rows' = sql_update (\<lambda>x. row_id x = row_id r) (leased owner token now) rows"
    using c by (rule ClaimDue_Inr)
  have rinv: "rows_inv rows" using inv by (simp add: sched_inv_def)
  have eq: "x = r" if "x \<in> set rows" "row_id x = row_id r" for x using rows_inv_id_eq [OF rinv that(1) r(1) that(2)] .
  have "rows_inv rows'"
    unfolding rows'
  proof (rule rows_inv_update [OF rinv])
    fix x assume "x \<in> set rows" "row_id x = row_id r"
    then have "x = r" by (rule eq)
    then show "row_id (leased owner token now x) = row_id x \<and> row_name (leased owner token now x) = row_name x
        \<and> row_inv (leased owner token now x)"
      using rinv r row_inv_leased [of r now owner token] by (simp add: rows_inv_def) (simp add: leased_def)
  qed
  moreover have "\<exists>d \<in> insert c cs. sc_LeaseToken d = t \<and> claim_matches d x"
    if x: "x \<in> set rows'" "row_lease_token x = Some t" for x t
  proof -
    from x(1) obtain y where y: "y \<in> set rows" "x = (if row_id y = row_id r then leased owner token now y else y)"
      by (auto simp: rows' set_sql_update)
    show ?thesis
    proof (cases "row_id y = row_id r")
      case True
      then have "x = leased owner token now r" using y eq [OF y(1)] by simp
      then have "sc_LeaseToken c = t \<and> claim_matches c x"
        using x(2) r(2) by (auto simp: r(3) claim_matches_def claim_of_def leased_def due_def)
      then show ?thesis by blast
    next
      case False
      then show ?thesis using inv y x(2) by (auto simp: sched_inv_def)
    qed
  qed
  moreover have "\<forall>d \<in> insert c cs. \<forall>e \<in> insert c cs. sc_LeaseToken d = sc_LeaseToken e \<longrightarrow> d = e"
    using inv fresh by (auto simp: sched_inv_def r(3) claim_of_def image_iff)
  ultimately show ?thesis by (auto simp: sched_inv_def)
qed

text \<open>An update that frees the rows it touches.\<close>

lemma sched_inv_release:
  assumes inv: "sched_inv (rows, cs)"
    and f: "\<And>r. r \<in> set rows \<Longrightarrow> p r \<Longrightarrow> row_id (f r) = row_id r \<and> row_name (f r) = row_name r \<and> row_inv (f r)
        \<and> row_lease_token (f r) = None"
  shows "sched_inv (sql_update p f rows, cs)"
proof -
  have "rows_inv (sql_update p f rows)"
    by (rule rows_inv_update) (use inv f in \<open>auto simp: sched_inv_def\<close>)
  moreover have "\<exists>c \<in> cs. sc_LeaseToken c = t \<and> claim_matches c x"
    if x: "x \<in> set (sql_update p f rows)" "row_lease_token x = Some t" for x t
  proof -
    obtain y where y: "x = (if p y then f y else y)" "y \<in> set rows"
      using x(1) unfolding set_sql_update by (rule imageE)
    then have "\<not> p y" using f [of y] x(2) by auto
    then show ?thesis using inv y x(2) by (auto simp: sched_inv_def)
  qed
  ultimately show ?thesis using inv by (auto simp: sched_inv_def)
qed

lemma row_inv_completed: "row_inv r \<Longrightarrow> row_lease_token r \<noteq> None \<Longrightarrow> row_inv (completed_row runID cp nextRun r)"
  by (auto simp: row_inv_def schedule_row_ok_def completed_row_def)

lemma row_inv_failed:
  "row_inv r \<Longrightarrow> row_lease_token r \<noteq> None \<Longrightarrow> sc_AttemptCount c = row_attempt_count r \<Longrightarrow> row_inv (failed_row c code retryAt r)"
  by (auto simp: row_inv_def schedule_row_ok_def failed_row_def)

lemma held_claim_matches:
  assumes "sched_inv (rows, cs)" and "c \<in> cs" and "r \<in> set rows" and "claim_held c now r"
  shows "claim_matches c r"
proof -
  have "row_lease_token r = Some (sc_LeaseToken c)" using assms(4) by (simp add: lease_held_def)
  then obtain d where "d \<in> cs" "sc_LeaseToken d = sc_LeaseToken c" "claim_matches d r"
    using assms(1,3) unfolding sched_inv_def fst_conv snd_conv by blast
  then show ?thesis using assms(1,2) by (auto simp: sched_inv_def)
qed

lemma sched_inv_complete:
  assumes "sched_inv (rows, cs)"
  shows "sched_inv (fst (Complete_schedule fault now c runID checkpoint nextRun rows), cs)"
proof (cases "fault (DbStmt 1)")
  case False
  let ?f = "completed_row runID (if checkpoint = [] then [CHR 0x7B, CHR 0x7D] else checkpoint) nextRun"
  have "sched_inv (sql_update (claim_held c now) ?f rows, cs)"
  proof (rule sched_inv_release [OF assms])
    fix r assume r: "r \<in> set rows" "claim_held c now r"
    then have "row_inv (?f r)"
      using assms by (intro row_inv_completed) (auto simp: sched_inv_def rows_inv_def lease_held_def)
    then show "row_id (?f r) = row_id r \<and> row_name (?f r) = row_name r \<and> row_inv (?f r) \<and> row_lease_token (?f r) = None"
      by (simp add: completed_row_def)
  qed
  then show ?thesis using False by (simp add: Complete_schedule_def Let_def)
qed (use assms in \<open>simp add: Complete_schedule_def\<close>)

lemma sched_inv_fail:
  assumes "sched_inv (rows, cs)" and "c \<in> cs"
  shows "sched_inv (fst (Fail_schedule fault now c code retryAt rows), cs)"
proof (cases "fault (DbStmt 1)")
  case False
  have "sched_inv (sql_update (claim_held c now) (failed_row c code retryAt) rows, cs)"
  proof (rule sched_inv_release [OF assms(1)])
    fix r assume r: "r \<in> set rows" "claim_held c now r"
    have "claim_matches c r" using assms r by (rule held_claim_matches)
    moreover have "row_inv r" using assms(1) r(1) by (simp add: sched_inv_def rows_inv_def)
    ultimately have "row_inv (failed_row c code retryAt r)"
      using r(2) by (auto intro!: row_inv_failed simp: claim_matches_def lease_held_def)
    then show "row_id (failed_row c code retryAt r) = row_id r \<and> row_name (failed_row c code retryAt r) = row_name r
        \<and> row_inv (failed_row c code retryAt r) \<and> row_lease_token (failed_row c code retryAt r) = None"
      by (simp add: failed_row_def)
  qed
  then show ?thesis using False by (simp add: Fail_schedule_def)
qed (use assms in \<open>simp add: Fail_schedule_def\<close>)

lemma sched_inv_step: "sched_step digest parseURL s t \<Longrightarrow> sched_inv s \<Longrightarrow> sched_inv t"
  by (induction rule: sched_step.induct)
    (simp_all add: sched_inv_upsert sched_inv_claim sched_inv_complete sched_inv_fail)

lemma sched_inv_reachable: "sched_reachable digest parseURL s \<Longrightarrow> sched_inv s"
proof (induction rule: sched_reachable.induct)
  case no_schedules
  show ?case by (simp add: sched_inv_def rows_inv_def)
qed (rule sched_inv_step)

subsection \<open>The lease interface\<close>

definition schedule_live :: "schedule_row list \<Rightarrow> string \<Rightarrow> string \<times> string \<Rightarrow> time \<Rightarrow> bool" where
  "schedule_live rows i t now \<longleftrightarrow> (\<exists>r \<in> set rows. lease_held i (fst t) (snd t) now r)"

definition row_ids_distinct :: "schedule_row list \<Rightarrow> bool" where
  "row_ids_distinct rows \<longleftrightarrow> distinct (map row_id rows)"

text \<open>Finishing for the holder \<open>t\<close> of the lease of schedule \<open>i\<close>; \<open>True\<close> is success.\<close>

definition holder_claim :: "SClaim \<Rightarrow> string \<Rightarrow> string \<times> string \<Rightarrow> SClaim" where
  "holder_claim c i t = c\<lparr>sc_ID := i, sc_LeaseOwner := fst t, sc_LeaseToken := snd t\<rparr>"

definition finish_completed :: "SClaim \<Rightarrow> string \<Rightarrow> string \<Rightarrow> time \<Rightarrow> schedule_row list \<Rightarrow> string \<Rightarrow> string \<times> string \<Rightarrow> time
    \<Rightarrow> schedule_row list \<times> bool" where
  "finish_completed c runID cp nextRun rows i t now =
     map_prod id (\<lambda>r. \<not> isl r) (Complete_schedule no_fault now (holder_claim c i t) runID cp nextRun rows)"

definition finish_failed :: "SClaim \<Rightarrow> string \<Rightarrow> time \<Rightarrow> schedule_row list \<Rightarrow> string \<Rightarrow> string \<times> string \<Rightarrow> time
    \<Rightarrow> schedule_row list \<times> bool" where
  "finish_failed c code retryAt rows i t now =
     map_prod id (\<lambda>r. \<not> isl r) (Fail_schedule no_fault now (holder_claim c i t) code retryAt rows)"

lemma held_count:
  assumes "row_ids_distinct rows"
  shows "sql_count (lease_held i (fst t) (snd t) now) rows = (if schedule_live rows i t now then 1 else 0)"
proof (cases "schedule_live rows i t now")
  case True
  then have "0 < sql_count (lease_held i (fst t) (snd t) now) rows" by (auto simp: sql_count_pos schedule_live_def)
  moreover have "sql_count (lease_held i (fst t) (snd t) now) rows \<le> 1"
    using assms unfolding row_ids_distinct_def by (rule sql_count_distinct) (simp add: lease_held_def)
  ultimately show ?thesis using True by simp
qed (simp add: schedule_live_def)

lemma live_after_release:
  assumes "\<And>r. row_id (f r) = row_id r" and "\<And>r. row_lease_token (f r) = None"
  shows "schedule_live (sql_update (lease_held i o' t' now) f rows) k t n \<longleftrightarrow>
     (\<exists>r \<in> set rows. lease_held k (fst t) (snd t) n r \<and> \<not> lease_held i o' t' now r)"
  using assms by (auto simp: schedule_live_def set_sql_update lease_held_def split: if_splits)

lemma release_lease_table:
  assumes f: "\<And>r. row_id (f r) = row_id r" "\<And>r. row_lease_token (f r) = None"
    and fin: "\<And>rows i t now. finish rows i t now =
      (sql_update (lease_held i (fst t) (snd t) now) f rows, sql_count (lease_held i (fst t) (snd t) now) rows = 1)"
  shows "lease_table row_ids_distinct schedule_live finish"
proof
  fix rows k t now k' t' now'
  assume d: "row_ids_distinct rows"
  have one: "r = r'" if "r \<in> set rows" "r' \<in> set rows" "row_id r = row_id r'" for r r'
    using d that distinct_key_eq unfolding row_ids_distinct_def by metis
  { assume "schedule_live rows k t now" "schedule_live rows k t' now'"
    then show "t = t'" using one by (fastforce simp: schedule_live_def lease_held_def prod_eq_iff) }
  { assume "schedule_live rows k t now" "now' \<le> now"
    then show "schedule_live rows k t now'" by (auto simp: schedule_live_def lease_held_def split: option.splits) }
  show "snd (finish rows k t now) = schedule_live rows k t now" by (simp add: fin held_count [OF d])
  { assume "schedule_live rows k t now"
    then show "\<not> schedule_live (fst (finish rows k t now)) k t' now'"
      using one by (simp add: fin live_after_release [OF f]) (fastforce simp: schedule_live_def lease_held_def) }
  { assume "\<not> schedule_live rows k t now"
    then show "fst (finish rows k t now) = rows"
      using held_count [OF d, of k t now] by (simp add: fin sql_update_none) }
  { assume "k' \<noteq> k"
    then show "schedule_live (fst (finish rows k t now)) k' t' now' = schedule_live rows k' t' now'"
      by (auto simp: fin live_after_release [OF f]) (auto simp: schedule_live_def lease_held_def) }
  have "map row_id (sql_update p f rows) = map row_id rows" for p by (simp add: sql_update_def f)
  then show "row_ids_distinct (fst (finish rows k t now))" using d by (simp add: fin row_ids_distinct_def)
qed

interpretation completing_schedule: lease_table row_ids_distinct schedule_live "finish_completed c runID cp nextRun"
  for c runID cp nextRun
  by (rule release_lease_table [where f = "completed_row runID (if cp = [] then [CHR 0x7B, CHR 0x7D] else cp) nextRun"])
    (simp_all add: finish_completed_def Complete_schedule_def completed_row_def holder_claim_def Let_def)

lemma failed_row_holder: "failed_row (holder_claim c i t) code retryAt = failed_row c code retryAt"
  by (simp add: fun_eq_iff failed_row_def holder_claim_def)

interpretation failing_schedule: lease_table row_ids_distinct schedule_live "finish_failed c code retryAt"
  for c code retryAt
  by (rule release_lease_table [where f = "failed_row c code retryAt"])
    (simp_all add: finish_failed_def Fail_schedule_def failed_row_holder, simp_all add: failed_row_def holder_claim_def)

end
