(* ===== verification/Schedules_Properties.thy ===== *)
theory Schedules_Properties
  imports Schedules_Safety
begin

text \<open>
  The properties of the collector's configuration and of its schedules, with a concrete schedule
  on which each of them is applied.
\<close>

subsection \<open>A concrete schedule\<close>

definition demo_uuid :: string where "demo_uuid = ''11111111-1111-4111-8111-111111111111''"

definition demo_digest :: "requestPayload \<Rightarrow> string" where "demo_digest p = replicate 64 CHR ''0''"

definition demo_url :: "string \<Rightarrow> URL option" where "demo_url s = None"

definition demo_input :: ScheduleInput where
  "demo_input = \<lparr>sch_Name = '' candles '', sch_Provider = ''Binance'', sch_SourceID = demo_uuid, sch_DatasetID = [],
     sch_SeriesID = [], sch_InstrumentID = demo_uuid, sch_SourceCode = [], sch_DatasetKey = [], sch_SeriesCode = [],
     sch_CredentialEnv = [], sch_BaseURL = [],
     sch_Request = [CHR 0x7B] @ quote_string ''limit'' @ '':10'' @ [CHR 0x7D],
     sch_IntervalSeconds = 60, sch_MaxAttempts = 2, sch_LeaseSeconds = 120, sch_NextRunAt = Some 0, sch_FXPair = None\<rparr>"

definition demo_schedule :: Schedule where
  "demo_schedule = \<lparr>sched_Input = trimmed demo_input, sched_RequestFingerprint = replicate 64 CHR ''0'',
     sched_Configuration = payload_of (trimmed demo_input) [(''limit'', JNum ''10'')]\<rparr>"

definition demo_catalog :: catalog_db where
  "demo_catalog = \<lparr>db_sources = [demo_uuid], db_datasets = [], db_series = [], db_instruments = [demo_uuid]\<rparr>"

definition demo_row :: schedule_row where
  "demo_row = new_row ''s1'' 0 demo_schedule"

lemma demo_normalized: "NormalizeSchedule demo_url demo_digest demo_input = Inr demo_schedule"
proof -
  have "check_identity demo_url (trimmed demo_input) = Inr ()" by code_simp
  moreover have "decode_request (sch_Request demo_input) = Some [(''limit'', JNum ''10'')]" by code_simp
  moreover have "validateRequestFields (sch_Provider (trimmed demo_input)) [''limit''] = Inr ()" by code_simp
  moreover have "check_limits (trimmed demo_input) = Inr ()" by code_simp
  moreover have "sch_Request demo_input \<notin> {[], ''null'', [CHR 0x7B, CHR 0x7D]}" by code_simp
  moreover have "sch_Request (trimmed demo_input) = sch_Request demo_input" by (simp add: trimmed_def)
  ultimately show ?thesis by (simp add: NormalizeSchedule_def demo_schedule_def demo_digest_def Let_def)
qed

lemma demo_upserted: "UpsertSchedule True no_fault demo_catalog 0 ''s1'' demo_schedule [] = ([demo_row], Inr ''s1'')"
proof -
  have "schedule_row_ok demo_row" by code_simp
  moreover have "identities_valid demo_catalog (sched_Input demo_schedule)" by code_simp
  moreover have "sch_SourceCode (sched_Input demo_schedule) = [] \<and> sch_DatasetKey (sched_Input demo_schedule) = []
      \<and> sch_SeriesCode (sched_Input demo_schedule) = [] \<and> sch_NextRunAt (sched_Input demo_schedule) = Some 0" by code_simp
  ultimately show ?thesis by (simp add: UpsertSchedule_def Let_def demo_row_def)
qed

lemma demo_reachable: "sched_reachable demo_digest demo_url ([demo_row], {})"
proof -
  have "sched_step demo_digest demo_url ([], {}) (fst (UpsertSchedule True no_fault demo_catalog 0 ''s1'' demo_schedule []), {})"
    using demo_normalized by (rule sched_step.upsert) simp
  then show ?thesis using sched_reachable.no_schedules sched_reachable.after_step demo_upserted by (metis fst_conv)
qed

lemma demo_claim:
  "ClaimDue True no_fault (\<lambda>_. False) 1 ''t1'' ''w'' 5 [demo_row] = ([leased ''w'' ''t1'' 1 demo_row], Inr (claim_of ''w'' ''t1'' 1 demo_row))"
proof -
  have "due 1 demo_row" by code_simp
  then show ?thesis by (simp add: ClaimDue_def due_rows_def sql_update_def)
qed

lemma demo_reachable_claimed:
  "sched_reachable demo_digest demo_url ([leased ''w'' ''t1'' 1 demo_row], {claim_of ''w'' ''t1'' 1 demo_row})"
  using demo_reachable sched_step.claim_due [OF demo_claim, of "{}" demo_digest demo_url]
  by (auto intro: sched_reachable.after_step)

subsection \<open>Configuration\<close>

lemma allowed_no_credentials: "k \<in> set (allowed_fields provider) \<Longrightarrow> \<not> credential_field k"
proof -
  have "list_all (\<lambda>k. \<not> credential_field k) (allowed_fields ''fred'' @ allowed_fields ''tcmb'' @ allowed_fields ''binance'')"
    by code_simp
  moreover have "provider \<notin> {''fred'', ''tcmb'', ''binance''} \<Longrightarrow> allowed_fields provider = []" by (simp add: allowed_fields_def)
  ultimately show "k \<in> set (allowed_fields provider) \<Longrightarrow> \<not> credential_field k" unfolding list_all_iff by fastforce
qed

lemma trimmed_idem: "trimmed (trimmed i) = trimmed i"
  by (simp add: trimmed_def TrimSpace_ToLower)

text \<open>
  Normalising a schedule is idempotent and what it accepts can be stored: the normalised
  schedule normalises to itself, with the same fingerprint, and the row registered for it meets
  every constraint of the table, provided the digest is, as documented, 64 lower-case hexadecimal
  digits.
\<close>

theorem normalized_schedule_stable:
  assumes "NormalizeSchedule parseURL digest input = Inr s"
    and "length (sched_RequestFingerprint s) = 64"
    and "list_all (\<lambda>c. is_digit c \<or> CHR ''a'' \<le> c \<and> c \<le> CHR ''f'') (sched_RequestFingerprint s)"
  shows "NormalizeSchedule parseURL digest (sched_Input s) = Inr s \<and> schedule_row_ok (new_row newID runAt s)"
proof -
  obtain request where s: "sched_Input s = trimmed input" "check_identity parseURL (trimmed input) = Inr ()"
    "sch_Request input \<notin> {[], ''null'', [CHR 0x7B, CHR 0x7D]}" "decode_request (sch_Request input) = Some request"
    "validateRequestFields (sch_Provider (trimmed input)) (map fst request) = Inr ()"
    "check_limits (trimmed input) = Inr ()" "sched_Configuration s = payload_of (trimmed input) request"
    "sched_RequestFingerprint s = digest (payload_of (trimmed input) request)"
    using assms(1) by (rule NormalizeSchedule_Inr)
  have "sch_Request (trimmed input) = sch_Request input" by (simp add: trimmed_def)
  then have "NormalizeSchedule parseURL digest (trimmed input) = Inr s"
    using s(2-8) by (simp add: NormalizeSchedule_def trimmed_idem Let_def s(1) Schedule.equality)
  moreover have "sch_Provider (trimmed input) \<in> {''fred'', ''tcmb'', ''binance''}"
    using s(2) by (auto simp: check_identity_def split: if_splits)
  then have "schedule_row_ok (new_row newID runAt s)"
    using check_limits_Inr [OF s(6)] assms(2,3) by (simp add: schedule_row_ok_def new_row_def Let_def s(1))
  ultimately show ?thesis by (simp add: s(1))
qed

theorem normalized_schedule_stable_witness:
  "NormalizeSchedule demo_url demo_digest (trimmed demo_input) = Inr demo_schedule \<and> schedule_row_ok (new_row ''s1'' 0 demo_schedule)"
proof -
  have "length (sched_RequestFingerprint demo_schedule) = 64"
    "list_all (\<lambda>c. is_digit c \<or> CHR ''a'' \<le> c \<and> c \<le> CHR ''f'') (sched_RequestFingerprint demo_schedule)"
    by code_simp+
  then show ?thesis using normalized_schedule_stable [OF demo_normalized] by (simp add: demo_schedule_def)
qed

text \<open>
  The fields of a provider request are an allow list: a request is accepted exactly when every
  field, up to case and surrounding space, is one the provider supports; none of those names looks
  like a credential, so the credential check only chooses the error message.
\<close>

theorem request_fields_allow_list:
  "(validateRequestFields provider keys = Inr () \<longleftrightarrow>
     (\<forall>k \<in> set keys. ToLower (TrimSpace k) \<in> set (allowed_fields provider)))
   \<and> (\<forall>f \<in> set (allowed_fields provider). \<not> credential_field f)"
  by (induction keys) (auto simp: Let_def dest: allowed_no_credentials)

theorem request_fields_allow_list_witness: "validateRequestFields ''binance'' [''Symbol '', ''LIMIT''] = Inr ()"
proof -
  have "\<forall>k \<in> set [''Symbol '', ''LIMIT'']. ToLower (TrimSpace k) \<in> set (allowed_fields ''binance'')" by code_simp
  then show ?thesis using request_fields_allow_list [of "''binance''" "[''Symbol '', ''LIMIT'']"] by blast
qed

subsection \<open>Leases and attempts\<close>

text \<open>
  C27. In every reachable state of the schedule table the attempts of a schedule stay within
  its limit, the lease columns are set together, a leased schedule has been claimed by exactly one
  claim, with that claim's attempt number and expiry, and an inactive schedule has used up its
  attempts.
\<close>

theorem schedule_attempts_accounted:
  assumes "sched_reachable digest parseURL (rows, cs)" and "r \<in> set rows"
  shows "0 \<le> row_attempt_count r \<and> row_attempt_count r \<le> row_max_attempts r
    \<and> (row_lease_owner r = None \<longleftrightarrow> row_lease_token r = None)
    \<and> (\<not> row_active r \<longrightarrow> row_attempt_count r = row_max_attempts r)
    \<and> (row_lease_token r \<noteq> None \<longrightarrow> (\<exists>!c. c \<in> cs \<and> Some (sc_LeaseToken c) = row_lease_token r)
        \<and> (\<exists>c \<in> cs. Some (sc_LeaseToken c) = row_lease_token r \<and> sc_AttemptCount c = row_attempt_count r
             \<and> Some (sc_LeaseExpiresAt c) = row_lease_expires_at r))"
proof -
  have inv: "sched_inv (rows, cs)" using assms(1) by (rule sched_inv_reachable)
  then have r: "row_inv r" using assms(2) by (simp add: sched_inv_def rows_inv_def)
  have "\<exists>c. c \<in> cs \<and> sc_LeaseToken c = t \<and> claim_matches c r" if "row_lease_token r = Some t" for t
    using inv assms(2) that by (auto simp: sched_inv_def)
  moreover have "c = d" if "c \<in> cs" "d \<in> cs" "sc_LeaseToken c = sc_LeaseToken d" for c d
    using inv that by (auto simp: sched_inv_def)
  ultimately show ?thesis using r by (auto simp: row_inv_def schedule_row_ok_def claim_matches_def) metis+
qed

theorem schedule_attempts_accounted_witness:
  "row_attempt_count (leased ''w'' ''t1'' 1 demo_row) \<le> row_max_attempts (leased ''w'' ''t1'' 1 demo_row)"
  using schedule_attempts_accounted [OF demo_reachable_claimed, of "leased ''w'' ''t1'' 1 demo_row"] by simp

text \<open>
  A claim is lost at an instant when its holder is told so and changes nothing, whatever it reports.
\<close>

definition lease_lost :: "SClaim \<Rightarrow> time \<Rightarrow> schedule_row list \<Rightarrow> bool" where
  "lease_lost c now rows \<longleftrightarrow>
     (\<forall>runID cp nextRun. Complete_schedule no_fault now c runID cp nextRun rows = (rows, Inl ErrLeaseLost))
     \<and> (\<forall>code retryAt. Fail_schedule no_fault now c code retryAt rows = (rows, Inl ErrLeaseLost))"

abbreviation holder :: "SClaim \<Rightarrow> string \<times> string" where
  "holder c \<equiv> (sc_LeaseOwner c, sc_LeaseToken c)"

lemma lease_lostI:
  assumes "row_ids_distinct rows" and "\<not> schedule_live rows (sc_ID c) (holder c) now"
  shows "lease_lost c now rows"
proof -
  have "sql_count (claim_held c now) rows = 0" using held_count [OF assms(1), of "sc_ID c" "holder c" now] assms(2) by simp
  then show ?thesis by (simp add: lease_lost_def Complete_schedule_def Fail_schedule_def sql_update_none del: sql_count_zero)
qed

lemma sched_inv_ids: "sched_inv (rows, cs) \<Longrightarrow> row_ids_distinct rows"
  by (simp add: sched_inv_def rows_inv_def row_ids_distinct_def)

lemma token_claim_matches:
  assumes "sched_inv (rows, cs)" and "c \<in> cs" and "r \<in> set rows" and "row_lease_token r = Some (sc_LeaseToken c)"
  shows "claim_matches c r"
proof -
  obtain d where "d \<in> cs" "sc_LeaseToken d = sc_LeaseToken c" "claim_matches d r"
    using assms(1,3,4) unfolding sched_inv_def fst_conv snd_conv by blast
  then show ?thesis using assms(1,2) by (auto simp: sched_inv_def)
qed

text \<open>A token that no row carries never comes back: tokens are drawn fresh.\<close>

definition token_gone :: "SClaim \<Rightarrow> sched_sys \<Rightarrow> bool" where
  "token_gone c s \<longleftrightarrow> c \<in> snd s \<and> (\<forall>r \<in> set (fst s). row_lease_token r \<noteq> Some (sc_LeaseToken c))"

lemma token_gone_step: "sched_step digest parseURL s t \<Longrightarrow> token_gone c s \<Longrightarrow> token_gone c t"
proof (induction rule: sched_step.induct)
  case (upsert input s newID rows cs pool fault cat wall)
  then show ?case
    by (cases rule: UpsertSchedule_cases [of pool fault cat wall newID s rows]) (auto simp: token_gone_def new_row_def Let_def)
next
  case (claim_due pool fault locked now token owner lease rows rows' d cs)
  from claim_due.hyps(1) obtain r where "r \<in> set rows" "due now r" "d = claim_of owner token now r"
    and "rows' = sql_update (\<lambda>x. row_id x = row_id r) (leased owner token now) rows" by (rule ClaimDue_Inr)
  then show ?case using claim_due by (auto simp: token_gone_def set_sql_update leased_def split: if_splits)
next
  case (complete_claim d cs rows fault now runID checkpoint nextRun)
  then show ?case by (auto simp: token_gone_def Complete_schedule_def Let_def set_sql_update completed_row_def split: if_splits)
next
  case (fail_claim d cs rows fault now code retryAt)
  then show ?case by (auto simp: token_gone_def Fail_schedule_def set_sql_update failed_row_def split: if_splits)
qed

lemma token_gone_lost:
  assumes "(sched_step digest parseURL)\<^sup>*\<^sup>* s t" and "sched_inv s" and "token_gone c s"
  shows "lease_lost c now (fst t)"
proof -
  have t: "sched_inv t \<and> token_gone c t"
    using assms by (induction rule: rtranclp_induct) (auto intro: sched_inv_step token_gone_step)
  then have "\<not> schedule_live (fst t) (sc_ID c) (holder c) now" by (auto simp: schedule_live_def lease_held_def token_gone_def)
  then show ?thesis using t sched_inv_ids [of "fst t" "snd t"] by (simp add: lease_lostI)
qed

lemma report_releases:
  assumes "sched_inv (rows, cs)" and "c \<in> cs"
    and "Complete_schedule fault now c runID cp nextRun rows = (rows1, Inr ()) \<or> Fail_schedule fault now c code retryAt rows = (rows1, Inr ())"
  shows "sched_inv (rows1, cs)" and "token_gone c (rows1, cs)"
proof -
  have d: "row_ids_distinct rows" using assms(1) by (rule sched_inv_ids)
  have c: "holder_claim c (sc_ID c) (holder c) = c" by (simp add: holder_claim_def)
  show inv1: "sched_inv (rows1, cs)"
    using assms(3) sched_inv_complete [OF assms(1), of fault now c runID cp nextRun] sched_inv_fail [OF assms(1,2), of fault now code retryAt]
    by auto
  have free: "\<not> schedule_live rows1 (sc_ID c) t now'" for t now'
    using assms(3)
  proof
    assume "Complete_schedule fault now c runID cp nextRun rows = (rows1, Inr ())"
    then have fin: "finish_completed c runID cp nextRun rows (sc_ID c) (holder c) now = (rows1, True)"
      unfolding finish_completed_def c by (auto simp: Complete_schedule_def Let_def split: if_splits)
    then have "schedule_live rows (sc_ID c) (holder c) now" using completing_schedule.finish_live [OF d] by (metis snd_conv)
    from completing_schedule.finish_frees [OF d this, of c runID cp nextRun] show ?thesis by (simp add: fin)
  next
    assume "Fail_schedule fault now c code retryAt rows = (rows1, Inr ())"
    then have fin: "finish_failed c code retryAt rows (sc_ID c) (holder c) now = (rows1, True)"
      unfolding finish_failed_def c by (auto simp: Fail_schedule_def split: if_splits)
    then have "schedule_live rows (sc_ID c) (holder c) now" using failing_schedule.finish_live [OF d] by (metis snd_conv)
    from failing_schedule.finish_frees [OF d this, of c code retryAt] show ?thesis by (simp add: fin)
  qed
  have "row_lease_token r \<noteq> Some (sc_LeaseToken c)" if r: "r \<in> set rows1" for r
  proof
    assume t: "row_lease_token r = Some (sc_LeaseToken c)"
    then have "claim_matches c r" by (rule token_claim_matches [OF inv1 assms(2) r])
    then have "claim_held c (sc_LeaseExpiresAt c - 1) r" using t by (simp add: lease_held_def claim_matches_def)
    then show False using free [of "holder c" "sc_LeaseExpiresAt c - 1"] r by (auto simp: schedule_live_def)
  qed
  then show "token_gone c (rows1, cs)" using assms(2) by (simp add: token_gone_def)
qed

text \<open>
  C28. A collector that has lost its lease changes nothing and is told so. From the expiry written into its
  claim on, in every reachable state, completing or failing the schedule reports \<open>ErrLeaseLost\<close> and leaves
  the table as it is, also while nobody has taken the schedule over. Once no row carries its token (the
  schedule was claimed again), the claim stays lost whatever follows; and so it does once it has completed or
  failed the schedule itself.
\<close>

theorem stale_collector_has_no_effect:
  assumes "sched_reachable digest parseURL (rows, cs)" and "c \<in> cs"
  shows "(sc_LeaseExpiresAt c \<le> now \<longrightarrow> lease_lost c now rows)
    \<and> ((\<forall>r \<in> set rows. row_lease_token r \<noteq> Some (sc_LeaseToken c)) \<longrightarrow>
        (\<forall>rows' cs' now'. (sched_step digest parseURL)\<^sup>*\<^sup>* (rows, cs) (rows', cs') \<longrightarrow> lease_lost c now' rows'))
    \<and> (Complete_schedule fault now c runID cp nextRun rows = (rows1, Inr ()) \<or> Fail_schedule fault now c code retryAt rows = (rows1, Inr ()) \<longrightarrow>
        (\<forall>rows' cs' now'. (sched_step digest parseURL)\<^sup>*\<^sup>* (rows1, cs) (rows', cs') \<longrightarrow> lease_lost c now' rows'))"
proof (intro conjI impI allI)
  have inv: "sched_inv (rows, cs)" using assms(1) by (rule sched_inv_reachable)
  have d: "row_ids_distinct rows" using inv by (rule sched_inv_ids)
  show "lease_lost c now rows" if now: "sc_LeaseExpiresAt c \<le> now"
  proof (rule lease_lostI [OF d])
    have "\<not> schedule_live rows (sc_ID c) (holder c) (sc_LeaseExpiresAt c)"
    proof
      assume "schedule_live rows (sc_ID c) (holder c) (sc_LeaseExpiresAt c)"
      then obtain r where r: "r \<in> set rows" "claim_held c (sc_LeaseExpiresAt c) r" by (auto simp: schedule_live_def)
      from held_claim_matches [OF inv assms(2) r] r(2) show False by (simp add: claim_matches_def lease_held_def)
    qed
    from completing_schedule.expired_holder [OF d this now] show "\<not> schedule_live rows (sc_ID c) (holder c) now"
      using completing_schedule.finish_live [OF d] by (metis snd_conv)
  qed
  show "lease_lost c now' rows'"
    if "\<forall>r \<in> set rows. row_lease_token r \<noteq> Some (sc_LeaseToken c)" "(sched_step digest parseURL)\<^sup>*\<^sup>* (rows, cs) (rows', cs')" for rows' cs' now'
    using token_gone_lost [OF that(2) inv, of c now'] that(1) assms(2) by (simp add: token_gone_def)
  show "lease_lost c now' rows'"
    if "Complete_schedule fault now c runID cp nextRun rows = (rows1, Inr ()) \<or> Fail_schedule fault now c code retryAt rows = (rows1, Inr ())"
      "(sched_step digest parseURL)\<^sup>*\<^sup>* (rows1, cs) (rows', cs')" for rows' cs' now'
    using token_gone_lost [OF that(2) report_releases [OF inv assms(2) that(1)]] by simp
qed

theorem stale_collector_has_no_effect_witness:
  "lease_lost (claim_of ''w'' ''t1'' 1 demo_row) 120000000001 [leased ''w'' ''t1'' 1 demo_row]
    \<and> \<not> lease_lost (claim_of ''w'' ''t1'' 1 demo_row) 120000000000 [leased ''w'' ''t1'' 1 demo_row]"
proof -
  have "sc_LeaseExpiresAt (claim_of ''w'' ''t1'' 1 demo_row) \<le> 120000000001" by code_simp
  moreover have "snd (Complete_schedule no_fault 120000000000 (claim_of ''w'' ''t1'' 1 demo_row) ''r'' [] 9 [leased ''w'' ''t1'' 1 demo_row]) = Inr ()"
    by code_simp
  then have "\<not> lease_lost (claim_of ''w'' ''t1'' 1 demo_row) 120000000000 [leased ''w'' ''t1'' 1 demo_row]"
    unfolding lease_lost_def by (metis Inl_Inr_False snd_conv)
  ultimately show ?thesis
    using stale_collector_has_no_effect [OF demo_reachable_claimed, of "claim_of ''w'' ''t1'' 1 demo_row" 120000000001] by simp
qed

subsection \<open>The worker\<close>

text \<open>The row a worker takes next.\<close>

definition next_due :: "(string \<Rightarrow> bool) \<Rightarrow> time \<Rightarrow> schedule_row list \<Rightarrow> schedule_row \<Rightarrow> bool" where
  "next_due locked now rows r \<longleftrightarrow> r \<in> set rows \<and> due now r \<and> \<not> locked (row_id r)
     \<and> (\<forall>k \<in> set rows. due now k \<and> \<not> locked (row_id k) \<longrightarrow> due_order r \<le> due_order k)"

lemma due_rows_next:
  assumes "rows_inv rows" and "next_due locked now rows r"
  shows "\<exists>rs. due_rows locked now rows = r # rs"
proof -
  have "r \<in> set (due_rows locked now rows)" using assms(2) by (simp add: due_rows_def next_due_def)
  then obtain h rs where h: "due_rows locked now rows = h # rs" by (cases "due_rows locked now rows") auto
  note head = due_rows_head [OF h]
  have "due_order h \<le> due_order r" using assms(2) by (intro head(4)) (auto simp: next_due_def)
  moreover have "due_order r \<le> due_order h" using assms(2) head by (auto simp: next_due_def)
  ultimately have "due_order h = due_order r" by (rule antisym)
  then have "row_id h = row_id r" by (simp add: due_order_def)
  then have "h = r" using assms head(1) by (auto simp: next_due_def intro: rows_inv_id_eq)
  then show ?thesis using h by simp
qed

lemma ClaimDue_next:
  assumes "rows_inv rows" and "next_due locked now rows r" and "owner \<noteq> []" and "0 < lease"
  shows "ClaimDue True no_fault locked now token owner lease rows =
    (sql_update (\<lambda>x. row_id x = row_id r) (leased owner token now) rows, Inr (claim_of owner token now r))"
  using due_rows_next [OF assms(1,2)] assms(3,4) by (auto simp: ClaimDue_def)

text \<open>After the claim the row is the only one its lease matches.\<close>

lemma leased_held_iff:
  assumes "rows_inv rows" and "r \<in> set rows" and "now < claimNow + row_lease_seconds r * second_ns"
    and "x \<in> set rows" and "\<forall>k \<in> set rows. row_lease_token k \<noteq> Some token"
  shows "claim_held (claim_of owner token claimNow r) now (if row_id x = row_id r then leased owner token claimNow x else x)
    \<longleftrightarrow> row_id x = row_id r"
proof (cases "row_id x = row_id r")
  case True
  then have "x = r" using assms rows_inv_id_eq by blast
  then show ?thesis using assms(3) by (simp add: lease_held_def claim_of_def leased_def)
qed (use assms in \<open>auto simp: lease_held_def claim_of_def\<close>)

lemma finish_after_claim:
  assumes "rows_inv rows" and "r \<in> set rows" and "now < claimNow + row_lease_seconds r * second_ns"
    and "\<forall>k \<in> set rows. row_lease_token k \<noteq> Some token"
  shows "sql_update (claim_held (claim_of owner token claimNow r) now) f
      (sql_update (\<lambda>x. row_id x = row_id r) (leased owner token claimNow) rows)
      = sql_update (\<lambda>x. row_id x = row_id r) (\<lambda>x. f (leased owner token claimNow x)) rows"
    and "sql_count (claim_held (claim_of owner token claimNow r) now)
      (sql_update (\<lambda>x. row_id x = row_id r) (leased owner token claimNow) rows) = 1"
proof -
  let ?held = "claim_held (claim_of owner token claimNow r) now"
  let ?g = "\<lambda>x. if row_id x = row_id r then leased owner token claimNow x else x"
  have held: "?held (?g x) \<longleftrightarrow> row_id x = row_id r" if "x \<in> set rows" for x
    using leased_held_iff [OF assms(1-3) that assms(4)] .
  show "sql_update ?held f (sql_update (\<lambda>x. row_id x = row_id r) (leased owner token claimNow) rows)
      = sql_update (\<lambda>x. row_id x = row_id r) (\<lambda>x. f (leased owner token claimNow x)) rows"
    using held by (auto simp: sql_update_def)
  have "filter ?held (map ?g rows) = map ?g (filter (\<lambda>x. row_id x = row_id r) rows)"
    unfolding filter_map comp_def using held by (intro arg_cong [of _ _ "map ?g"] filter_cong) simp_all
  then have "sql_count ?held (map ?g rows) = sql_count (\<lambda>x. row_id x = row_id r) rows" by (simp add: sql_count_def)
  also have "\<dots> = 1"
  proof -
    have "0 < sql_count (\<lambda>x. row_id x = row_id r) rows" using assms(2) by (auto simp: sql_count_pos)
    moreover have "sql_count (\<lambda>x. row_id x = row_id r) rows \<le> 1"
      by (rule sql_count_distinct [where g = row_id]) (use assms(1) in \<open>auto simp: rows_inv_def\<close>)
    ultimately show ?thesis by simp
  qed
  finally show "sql_count ?held (sql_update (\<lambda>x. row_id x = row_id r) (leased owner token claimNow) rows) = 1"
    by (simp add: sql_update_def)
qed

lemma interval_exact: "row_inv r \<Longrightarrow> wrap64 (row_interval_seconds r * second_ns) = row_interval_seconds r * second_ns"
  by (rule wrap64_id) (auto simp: row_inv_def schedule_row_ok_def in_int64_def min_int64_def max_int64_def second_ns_def)

text \<open>
  A run that succeeds within its lease takes the due schedule that is first in the order of its
  next run and id, and leaves it free, with no attempts used, the handler's checkpoint, the run
  recorded and the next run one interval after the worker's clock; no other schedule changes.
\<close>

theorem run_once_success:
  assumes "sched_reachable digest parseURL (rows, cs)" and "next_due locked claimNow rows r"
    and "wrk_Owner w \<noteq> []" and "\<forall>k \<in> set rows. row_lease_token k \<noteq> Some token"
    and "h (claim_of (wrk_Owner w) token claimNow r) = Inr outcome" and "out_Complete outcome"
    and "doneNow < claimNow + row_lease_seconds r * second_ns"
  shows "RunOnce True no_fault locked claimNow doneNow wall token (Some h) w rows =
    (map (\<lambda>x. if row_id x = row_id r
        then x\<lparr>row_checkpoint := (if out_Checkpoint outcome = [] then [CHR 0x7B, CHR 0x7D] else out_Checkpoint outcome),
               row_next_run_at := wall + row_interval_seconds x * second_ns,
               row_last_run_id := null_if_empty (out_RunID outcome), row_retry_available_at := None,
               row_lease_owner := None, row_lease_token := None, row_lease_expires_at := None,
               row_attempt_count := 0, row_last_error_code := None\<rparr>
        else x) rows, Inr ())"
proof -
  have inv: "rows_inv rows" using sched_inv_reachable [OF assms(1)] by (simp add: sched_inv_def)
  have r: "r \<in> set rows" using assms(2) by (simp add: next_due_def)
  then have rinv: "row_inv r" using inv by (simp add: rows_inv_def)
  let ?lease = "if wrk_Lease w \<le> 0 then 2 * 60 * second_ns else wrk_Lease w"
  have lease: "0 < ?lease" by (simp add: second_ns_def)
  let ?later = "wall + row_interval_seconds r * second_ns"
  let ?cp = "if out_Checkpoint outcome = [] then [CHR 0x7B, CHR 0x7D] else out_Checkpoint outcome"
  have "RunOnce True no_fault locked claimNow doneNow wall token (Some h) w rows =
      (sql_update (\<lambda>x. row_id x = row_id r) (\<lambda>x. completed_row (out_RunID outcome) ?cp ?later (leased (wrk_Owner w) token claimNow x)) rows, Inr ())"
    using assms(5,6) interval_exact [OF rinv]
      finish_after_claim(1) [OF inv r assms(7,4), of "wrk_Owner w" "completed_row (out_RunID outcome) ?cp ?later"]
      finish_after_claim(2) [OF inv r assms(7,4), of "wrk_Owner w"]
    by (simp only: RunOnce_def option.case Let_def ClaimDue_next [OF inv assms(2,3) lease] prod.case sum.case
        Complete_schedule_def if_False not_not) (simp add: claim_of_def)
  moreover have "x = r" if "x \<in> set rows" "row_id x = row_id r" for x using rows_inv_id_eq [OF inv that(1) r that(2)] .
  ultimately show ?thesis by (auto simp: sql_update_def completed_row_def leased_def)
qed

lemma demo_next_due: "next_due (\<lambda>_. False) 1 [demo_row] demo_row"
proof -
  have "due 1 demo_row" by code_simp
  then show ?thesis by (simp add: next_due_def)
qed

lemma demo_tokens: "\<forall>k \<in> set [demo_row]. row_lease_token k \<noteq> Some t"
  by (simp add: demo_row_def new_row_def Let_def)

lemma demo_in_time: "60 < 1 + row_lease_seconds demo_row * second_ns"
  by code_simp

theorem run_once_success_witness:
  "\<exists>rows. RunOnce True no_fault (\<lambda>_. False) 1 60 100 ''t1''
      (Some (\<lambda>_. Inr \<lparr>out_RunID = ''run'', out_Checkpoint = [], out_Complete = True\<rparr>))
      \<lparr>wrk_Owner = ''w'', wrk_Lease = 0\<rparr> [demo_row] = (rows, Inr ())
    \<and> map row_next_run_at rows = [100 + 60 * second_ns]"
proof -
  have "row_interval_seconds demo_row = 60" by code_simp
  then show ?thesis
    using run_once_success [OF demo_reachable demo_next_due, of "\<lparr>wrk_Owner = ''w'', wrk_Lease = 0\<rparr>" "''t1''"
        "\<lambda>_. Inr \<lparr>out_RunID = ''run'', out_Checkpoint = [], out_Complete = True\<rparr>"
        "\<lparr>out_RunID = ''run'', out_Checkpoint = [], out_Complete = True\<rparr>" 60 100] demo_tokens demo_in_time
    by simp
qed

text \<open>
  A run whose handler fails within the lease returns the handler's error and frees the
  schedule, keeping the attempt it used and its checkpoint: before the last attempt the schedule
  stays active and waits one interval, at the last attempt it is switched off and no worker
  takes it again.
\<close>

theorem run_once_failure:
  assumes "sched_reachable digest parseURL (rows, cs)" and "next_due locked claimNow rows r"
    and "wrk_Owner w \<noteq> []" and "\<forall>k \<in> set rows. row_lease_token k \<noteq> Some token"
    and "h (claim_of (wrk_Owner w) token claimNow r) = Inl err"
    and "doneNow < claimNow + row_lease_seconds r * second_ns"
  shows "\<exists>rows' r'. RunOnce True no_fault locked claimNow doneNow wall token (Some h) w rows = (rows', Inl (HandlerErr err))
    \<and> rows' = map (\<lambda>x. if row_id x = row_id r then r' else x) rows
    \<and> row_attempt_count r' = row_attempt_count r + 1 \<and> row_checkpoint r' = row_checkpoint r \<and> row_lease_token r' = None
    \<and> (row_attempt_count r + 1 < row_max_attempts r \<longrightarrow>
         (\<forall>t. due t r' \<longleftrightarrow> wall + row_interval_seconds r * second_ns \<le> t))
    \<and> (row_attempt_count r + 1 = row_max_attempts r \<longrightarrow> \<not> row_active r' \<and> (\<forall>t. \<not> due t r'))"
proof -
  have inv: "rows_inv rows" using sched_inv_reachable [OF assms(1)] by (simp add: sched_inv_def)
  have r: "r \<in> set rows" "due claimNow r" using assms(2) by (simp_all add: next_due_def)
  then have rinv: "row_inv r" using inv by (simp add: rows_inv_def)
  let ?lease = "if wrk_Lease w \<le> 0 then 2 * 60 * second_ns else wrk_Lease w"
  have lease: "0 < ?lease" by (simp add: second_ns_def)
  let ?c = "claim_of (wrk_Owner w) token claimNow r"
  let ?f = "failed_row ?c ''handler_failed'' (wall + row_interval_seconds r * second_ns)"
  let ?r' = "?f (leased (wrk_Owner w) token claimNow r)"
  have "RunOnce True no_fault locked claimNow doneNow wall token (Some h) w rows =
      (sql_update (\<lambda>x. row_id x = row_id r) (\<lambda>x. ?f (leased (wrk_Owner w) token claimNow x)) rows, Inl (HandlerErr err))"
    using assms(5) interval_exact [OF rinv] finish_after_claim(1) [OF inv r(1) assms(6,4), of "wrk_Owner w" ?f]
      finish_after_claim(2) [OF inv r(1) assms(6,4), of "wrk_Owner w"]
    by (simp only: RunOnce_def option.case Let_def ClaimDue_next [OF inv assms(2,3) lease] prod.case sum.case
        Fail_schedule_def) (simp add: claim_of_def)
  moreover have "x = r" if "x \<in> set rows" "row_id x = row_id r" for x using rows_inv_id_eq [OF inv that(1) r(1) that(2)] .
  then have "sql_update (\<lambda>x. row_id x = row_id r) (\<lambda>x. ?f (leased (wrk_Owner w) token claimNow x)) rows
      = map (\<lambda>x. if row_id x = row_id r then ?r' else x) rows" by (auto simp: sql_update_def)
  moreover have "row_attempt_count ?r' = row_attempt_count r + 1 \<and> row_checkpoint ?r' = row_checkpoint r \<and> row_lease_token ?r' = None"
    by (simp add: failed_row_def leased_def)
  moreover have "row_attempt_count r + 1 < row_max_attempts r \<longrightarrow> (\<forall>t. due t ?r' \<longleftrightarrow> wall + row_interval_seconds r * second_ns \<le> t)"
    "row_attempt_count r + 1 = row_max_attempts r \<longrightarrow> \<not> row_active ?r' \<and> (\<forall>t. \<not> due t ?r')"
    using r(2) by (auto simp: failed_row_def leased_def due_def claim_of_def)
  ultimately show ?thesis by blast
qed

theorem run_once_failure_witness:
  "\<exists>rows. RunOnce True no_fault (\<lambda>_. False) 1 60 100 ''t1'' (Some (\<lambda>_. Inl ''boom'')) \<lparr>wrk_Owner = ''w'', wrk_Lease = 0\<rparr> [demo_row]
    = (rows, Inl (HandlerErr ''boom''))"
  using run_once_failure [OF demo_reachable demo_next_due, of "\<lparr>wrk_Owner = ''w'', wrk_Lease = 0\<rparr>" "''t1''" "\<lambda>_. Inl ''boom''" "''boom''" 60 100]
    demo_tokens demo_in_time by auto

text \<open>
  C29. A schedule whose last attempt neither completes nor fails is lost: if the worker that holds
  the last attempt crashes, or its handler reports an incomplete outcome, the schedule stays marked
  active, but from the expiry of that lease on no claim takes it and no holder of any lease can
  finish it.
\<close>

theorem unfinished_last_attempt_is_lost:
  assumes "sched_reachable digest parseURL (rows, cs)" and "next_due locked claimNow rows r"
    and "wrk_Owner w \<noteq> []" and "row_attempt_count r + 1 = row_max_attempts r"
    and "h (claim_of (wrk_Owner w) token claimNow r) = Inr outcome" and "\<not> out_Complete outcome"
  shows "\<exists>rows' r'. fst (RunOnce True no_fault locked claimNow doneNow wall token (Some h) w rows) = rows'
    \<and> r' \<in> set rows' \<and> row_id r' = row_id r \<and> row_active r'
    \<and> (\<forall>t \<ge> claimNow + row_lease_seconds r * second_ns. \<not> due t r' \<and> (\<forall>owner token. \<not> lease_held (row_id r) owner token t r'))"
proof -
  have inv: "rows_inv rows" using sched_inv_reachable [OF assms(1)] by (simp add: sched_inv_def)
  have r: "r \<in> set rows" "due claimNow r" using assms(2) by (simp_all add: next_due_def)
  let ?lease = "if wrk_Lease w \<le> 0 then 2 * 60 * second_ns else wrk_Lease w"
  have lease: "0 < ?lease" by (simp add: second_ns_def)
  let ?rows' = "sql_update (\<lambda>x. row_id x = row_id r) (leased (wrk_Owner w) token claimNow) rows"
  let ?r' = "leased (wrk_Owner w) token claimNow r"
  have "fst (RunOnce True no_fault locked claimNow doneNow wall token (Some h) w rows) = ?rows'"
    using assms(5,6) by (simp only: RunOnce_def option.case Let_def ClaimDue_next [OF inv assms(2,3) lease] prod.case sum.case
        if_True simp_thms fst_conv)
  moreover have "?r' \<in> set ?rows'" using r(1) by (auto simp: set_sql_update)
  moreover have "row_id ?r' = row_id r \<and> row_active ?r'
      \<and> (\<forall>t \<ge> claimNow + row_lease_seconds r * second_ns. \<not> due t ?r' \<and> (\<forall>owner token. \<not> lease_held (row_id r) owner token t ?r'))"
    using r(2) assms(4) by (auto simp: leased_def due_def lease_held_def)
  ultimately show ?thesis by blast
qed

definition demo_last :: schedule_row where
  "demo_last = failed_row (claim_of ''w'' ''t1'' 1 demo_row) ''handler_failed'' 0 (leased ''w'' ''t1'' 1 demo_row)"

lemma demo_last_reachable: "sched_reachable demo_digest demo_url ([demo_last], {claim_of ''w'' ''t1'' 1 demo_row})"
proof -
  let ?c = "claim_of ''w'' ''t1'' 1 demo_row"
  have "claim_held ?c 2 (leased ''w'' ''t1'' 1 demo_row)" by code_simp
  then have "fst (Fail_schedule no_fault 2 ?c ''handler_failed'' 0 [leased ''w'' ''t1'' 1 demo_row]) = [demo_last]"
    by (simp add: Fail_schedule_def sql_update_def demo_last_def)
  then show ?thesis
    using sched_step.fail_claim [of ?c "{?c}" demo_digest demo_url "[leased ''w'' ''t1'' 1 demo_row]" no_fault 2 "''handler_failed''" 0]
      sched_reachable.after_step [OF demo_reachable_claimed] by simp
qed

theorem unfinished_last_attempt_is_lost_witness:
  "\<exists>rows' r'. fst (RunOnce True no_fault (\<lambda>_. False) 1 60 100 ''t2'' (Some (\<lambda>_. Inr \<lparr>out_RunID = [], out_Checkpoint = [], out_Complete = False\<rparr>))
      \<lparr>wrk_Owner = ''w'', wrk_Lease = 0\<rparr> [demo_last]) = rows' \<and> r' \<in> set rows' \<and> row_active r' \<and> \<not> due (10 ^ 12) r'"
proof -
  have d: "due 1 demo_last" and a: "row_attempt_count demo_last + 1 = row_max_attempts demo_last"
    and l: "1 + row_lease_seconds demo_last * second_ns \<le> 10 ^ 12" by code_simp+
  from d have "next_due (\<lambda>_. False) 1 [demo_last] demo_last" by (simp add: next_due_def)
  from unfinished_last_attempt_is_lost [OF demo_last_reachable this _ a, of "\<lparr>wrk_Owner = ''w'', wrk_Lease = 0\<rparr>"
      "\<lambda>_. Inr \<lparr>out_RunID = [], out_Checkpoint = [], out_Complete = False\<rparr>" "''t2''"
      "\<lparr>out_RunID = [], out_Checkpoint = [], out_Complete = False\<rparr>" 60 100] l
  show ?thesis by auto
qed

end
