(* ===== verification/Postgres.thy ===== *)
theory Postgres
  imports GoTime
begin

text \<open>
  What the services rely on of the database and its driver, \<open>pgx\<close>. An instant stored in or
  compared with a \<^verbatim>\<open>timestamptz\<close> column is cut to microseconds. An identifier reaches a
  statement as text and is cast to \<^verbatim>\<open>uuid\<close> by the server; that cast is an argument of the
  definitions that use it, \<open>castUUID\<close>, which gives the canonical text of the identifier, or
  \<open>None\<close> where the server refuses the text. \<open>scanUUID\<close> is the driver's own reading,
  \<open>pgtype.UUID.Scan\<close>, in the same form. An identifier column is its canonical text.
\<close>

datatype sql_error = SqlFailed | SqlNoRows | SqlState string

text \<open>
  A statement ends in an error of the connection, in an error of the server with its SQLSTATE, or
  in \<open>pgx.ErrNoRows\<close> where one row was asked for and there is none.
\<close>

definition pg_time :: "time \<Rightarrow> time" where
  "pg_time t = t div 1000 * 1000"

lemma pg_time_le: "pg_time t \<le> t"
  by (simp add: pg_time_def)

lemma pg_time_idem [simp]: "pg_time (pg_time t) = pg_time t"
  by (simp add: pg_time_def)

lemma pg_time_mono: "x \<le> t \<Longrightarrow> pg_time x \<le> pg_time t"
  by (simp add: pg_time_def zdiv_mono1)

lemma pg_time_ge_iff: "pg_time x = x \<Longrightarrow> x \<le> pg_time t \<longleftrightarrow> x \<le> t"
  using pg_time_mono [of x t] pg_time_le [of t] by auto

end
