(* ===== verification/Valuation.thy ===== *)
theory Valuation
  imports Decimal Postgres
begin

text \<open>
  Valuation of a portfolio snapshot, \<open>internal/application/valuation/service.go\<close> and
  \<open>internal/domain/valuation/model.go\<close>. The tables are lists of rows in the record
  \<open>val_db\<close>; a statement that selects and orders rows is a filter and a sort by key.
  \<open>big.Rat\<close> is \<open>rat\<close>, and a NUMERIC column is the text the driver reads or writes.
  \<open>currency.ParseISO\<close> is the argument \<open>isISO\<close>, the UUID codec of \<open>pgtype\<close> and
  the cast of the server the arguments \<open>scanUUID\<close> and \<open>castUUID\<close>, the hash of the encoded result the argument \<open>hash\<close>, generated
  ids and the database clock arguments, and \<open>fault\<close> the failing database calls. The
  per-instrument cache of loaded prices is left out: it returns what loading again would. An amount that does
  not fit \<^verbatim>\<open>NUMERIC(38,18)\<close> is one of the failing statements.
\<close>

record vRequest =
  vr_SnapshotID :: string
  vr_Cutoff :: time
  vr_KnowledgeMode :: string
  vr_KnownAt :: time
  vr_PriceMaxAgeSeconds :: int
  vr_FXMaxAgeSeconds :: int

record FXPathEntry =
  fpe_QuoteRevisionID :: string
  fpe_Direction :: string

record vReason =
  vrs_Code :: string
  vrs_Message :: string

record vLine =
  vl_ID :: string
  vl_SnapshotLineID :: string
  vl_InstrumentID :: string
  vl_NativeCurrency :: string
  vl_NativeAmount :: "string option"
  vl_TryAmount :: "string option"
  vl_USDAmount :: "string option"
  vl_State :: string
  vl_ReasonCodes :: "vReason list"
  vl_PriceMethod :: string
  vl_PriceRevisionID :: "string option"
  vl_PriceQuoteUnit :: "string option"
  vl_TryFXPath :: "FXPathEntry list"
  vl_USDFXPath :: "FXPathEntry list"

record vTotals =
  vt_TRY :: string
  vt_USD :: string

record vRun =
  run_ID :: string
  run_SnapshotID :: string
  run_Cutoff :: time
  run_KnowledgeMode :: string
  run_KnownAt :: time
  run_PriceMaxAgeSeconds :: int
  run_FXMaxAgeSeconds :: int
  vrun_State :: string
  run_ResultHash :: string
  run_Lines :: "vLine list"
  run_Totals :: vTotals
  run_CreatedAt :: time

abbreviation KnowledgeSystem :: string where "KnowledgeSystem \<equiv> ''system_as_of''"
abbreviation KnowledgeSource :: string where "KnowledgeSource \<equiv> ''source_as_of''"
abbreviation StateValid :: string where "StateValid \<equiv> ''valid''"
abbreviation StateBlocked :: string where "StateBlocked \<equiv> ''blocked''"

record snapshotLine =
  sl_id :: string
  sl_instrumentID :: string
  sl_nativeCurrency :: string
  sl_instrumentType :: string
  sl_quantity :: rat

record priceRevision =
  pr_id :: string
  pr_quote :: string
  pr_rawID :: string
  pr_observation :: time
  pr_price :: rat
  pr_sourceKnown :: "time option"
  pr_systemKnown :: time

record fxRevision =
  fx_id :: string
  fxr_base :: string
  fxr_quote :: string
  fx_rawID :: string
  fx_observation :: time
  fx_rate :: rat
  fx_sourceKnown :: "time option"
  fx_systemKnown :: time

record selectedPath =
  path_rate :: rat
  path_edges :: "FXPathEntry list"

datatype val_error = VErrInvalidRequest | VErrNotFound | VErr string

subsection \<open>The tables\<close>

record snapshot_line_row =
  slr_snapshot :: string
  slr_id :: string
  slr_account :: string
  slr_portfolio :: string
  slr_instrument :: string
  slr_quantity :: string
  slr_native_currency :: string
  slr_instrument_type :: string
  slr_reporting_currency :: string

record price_row =
  prw_id :: string
  prw_instrument :: string
  prw_quote :: string
  prw_observation :: time
  prw_price :: string
  prw_source_known :: "time option"
  prw_system_known :: time
  prw_raw :: string

record fx_row =
  frw_id :: string
  frw_base :: string
  frw_quote :: string
  frw_observation :: time
  frw_rate :: string
  frw_source_known :: "time option"
  frw_system_known :: time
  frw_raw :: string

record run_row =
  rrw_run :: vRun
  rrw_request :: vRequest

record line_row =
  lrw_run :: string
  lrw_line :: vLine
  lrw_try :: "string list \<times> string list"
  lrw_usd :: "string list \<times> string list"

record val_db =
  portfolio_snapshot_lines :: "snapshot_line_row list"
  price_revisions :: "price_row list"
  fx_quote_revisions :: "fx_row list"
  valuation_runs :: "run_row list"
  valuation_lines :: "line_row list"

subsection \<open>Decimals\<close>

definition parseDecimal :: "string \<Rightarrow> rat option" where
  "parseDecimal value = SetString (TrimSpace value)"

definition formatDecimal :: "rat \<Rightarrow> string" where
  "formatDecimal value = print18 (scaled_quotient value)"

definition roundedDecimal :: "rat \<Rightarrow> rat" where
  "roundedDecimal value = (case parseDecimal (formatDecimal value) of None \<Rightarrow> 0 | Some r \<Rightarrow> r)"

subsection \<open>Requests and eligibility\<close>

definition maxAgeSeconds :: int where "maxAgeSeconds = 9223372036"

definition validUUID :: "(string \<Rightarrow> string option) \<Rightarrow> string \<Rightarrow> bool" where
  "validUUID scanUUID value \<longleftrightarrow> scanUUID (TrimSpace value) \<noteq> None"

definition validRequest :: "(string \<Rightarrow> string option) \<Rightarrow> vRequest \<Rightarrow> bool" where
  "validRequest scanUUID r \<longleftrightarrow> validUUID scanUUID (vr_SnapshotID r) \<and> vr_Cutoff r \<noteq> zero_time \<and> vr_KnownAt r \<noteq> zero_time
     \<and> (vr_KnowledgeMode r = KnowledgeSystem \<or> vr_KnowledgeMode r = KnowledgeSource)
     \<and> 0 \<le> vr_PriceMaxAgeSeconds r \<and> vr_PriceMaxAgeSeconds r \<le> maxAgeSeconds
     \<and> 0 \<le> vr_FXMaxAgeSeconds r \<and> vr_FXMaxAgeSeconds r \<le> maxAgeSeconds"

definition eligibleRevision :: "time \<Rightarrow> time option \<Rightarrow> time \<Rightarrow> string \<Rightarrow> time \<Rightarrow> time \<Rightarrow> int \<Rightarrow> bool" where
  "eligibleRevision observation sourceKnown systemKnown knowledgeMode cutoff knownAt maxAge =
     (if observation > cutoff \<or> Sub cutoff observation > wrap64 (maxAge * second_ns) then False
      else if knowledgeMode = KnowledgeSource then (case sourceKnown of None \<Rightarrow> False | Some s \<Rightarrow> \<not> s > knownAt)
      else \<not> systemKnown > knownAt)"

text \<open>The \<^verbatim>\<open>WHERE\<close> clause on the clocks, and the order of the revisions: newest first.\<close>

definition in_window :: "vRequest \<Rightarrow> int \<Rightarrow> time \<Rightarrow> time option \<Rightarrow> time \<Rightarrow> bool" where
  "in_window r maxAge observation sourceKnown systemKnown \<longleftrightarrow>
     observation \<le> pg_time (vr_Cutoff r) \<and> observation \<ge> pg_time (vr_Cutoff r) - maxAge * second_ns
     \<and> (if vr_KnowledgeMode r = KnowledgeSource
        then (case sourceKnown of None \<Rightarrow> False | Some s \<Rightarrow> s \<le> pg_time (vr_KnownAt r))
        else systemKnown \<le> pg_time (vr_KnownAt r))"

definition newest_first :: "vRequest \<Rightarrow> time \<Rightarrow> time option \<Rightarrow> time \<Rightarrow> string \<Rightarrow> int \<times> int \<times> int \<times> string" where
  "newest_first r observation sourceKnown systemKnown i =
     (- observation, if vr_KnowledgeMode r = KnowledgeSource then - (case sourceKnown of None \<Rightarrow> 0 | Some s \<Rightarrow> s) else 0,
      - systemKnown, i)"

subsection \<open>Loading\<close>

fun load_lines :: "snapshot_line_row list \<Rightarrow> string + snapshotLine list" where
  "load_lines [] = Inr []"
| "load_lines (row # rows) = (case parseDecimal (slr_quantity row) of
      None \<Rightarrow> Inl ''invalid valuation request''
    | Some q \<Rightarrow> res_bind (load_lines rows) (\<lambda>ls.
        Inr (\<lparr>sl_id = slr_id row, sl_instrumentID = slr_instrument row, sl_nativeCurrency = slr_native_currency row,
              sl_instrumentType = slr_instrument_type row, sl_quantity = q\<rparr> # ls)))"

definition loadSnapshot :: "(string \<Rightarrow> string option) \<Rightarrow> db_fault \<Rightarrow> string \<Rightarrow> val_db \<Rightarrow> val_error + snapshotLine list" where
  "loadSnapshot castUUID fault i db =
     (let rows = sort_key slr_id (filter (\<lambda>row. Some (slr_snapshot row) = castUUID i) (portfolio_snapshot_lines db)) in
      if fault (DbStmt 0) \<or> castUUID i = None then Inl (VErr ''load snapshot'')
      else case load_lines rows of
        Inl _ \<Rightarrow> Inl (VErr ''load snapshot'')
      | Inr ls \<Rightarrow> if rows = [] \<or> slr_reporting_currency (last rows) = [] then Inl VErrNotFound else Inr ls)"

text \<open>The loops over the rows: eligible, and the first of its quote unit, or currency pair.\<close>

fun collect_prices :: "vRequest \<Rightarrow> string list \<Rightarrow> price_row list \<Rightarrow> priceRevision list option" where
  "collect_prices r seen [] = Some []"
| "collect_prices r seen (row # rows) =
     (if \<not> eligibleRevision (prw_observation row) (prw_source_known row) (prw_system_known row) (vr_KnowledgeMode r)
           (vr_Cutoff r) (vr_KnownAt r) (vr_PriceMaxAgeSeconds r) \<or> prw_quote row \<in> set seen
      then collect_prices r seen rows
      else case parseDecimal (prw_price row) of
        None \<Rightarrow> None
      | Some p \<Rightarrow> map_option ((#) \<lparr>pr_id = prw_id row, pr_quote = prw_quote row, pr_rawID = prw_raw row,
            pr_observation = prw_observation row, pr_price = p, pr_sourceKnown = prw_source_known row,
            pr_systemKnown = prw_system_known row\<rparr>) (collect_prices r (prw_quote row # seen) rows))"

definition loadPrices :: "db_fault \<Rightarrow> string \<Rightarrow> vRequest \<Rightarrow> val_db \<Rightarrow> val_error + priceRevision list" where
  "loadPrices fault instrumentID r db =
     (let rows = sort_key (\<lambda>row. newest_first r (prw_observation row) (prw_source_known row) (prw_system_known row) (prw_id row))
          (filter (\<lambda>row. prw_instrument row = instrumentID
             \<and> in_window r (vr_PriceMaxAgeSeconds r) (prw_observation row) (prw_source_known row) (prw_system_known row))
           (price_revisions db))
      in if fault (DbStmt 2) then Inl (VErr ''load prices'')
         else case collect_prices r [] rows of None \<Rightarrow> Inl (VErr ''load prices'') | Some ps \<Rightarrow> Inr ps)"

fun collect_fx :: "vRequest \<Rightarrow> (string \<times> string) list \<Rightarrow> fx_row list \<Rightarrow> fxRevision list option" where
  "collect_fx r seen [] = Some []"
| "collect_fx r seen (row # rows) =
     (if \<not> eligibleRevision (frw_observation row) (frw_source_known row) (frw_system_known row) (vr_KnowledgeMode r)
           (vr_Cutoff r) (vr_KnownAt r) (vr_FXMaxAgeSeconds r) \<or> (frw_base row, frw_quote row) \<in> set seen
      then collect_fx r seen rows
      else case parseDecimal (frw_rate row) of
        None \<Rightarrow> None
      | Some q \<Rightarrow> map_option ((#) \<lparr>fx_id = frw_id row, fxr_base = frw_base row, fxr_quote = frw_quote row, fx_rawID = frw_raw row,
            fx_observation = frw_observation row, fx_rate = q, fx_sourceKnown = frw_source_known row,
            fx_systemKnown = frw_system_known row\<rparr>) (collect_fx r ((frw_base row, frw_quote row) # seen) rows))"

definition loadFX :: "db_fault \<Rightarrow> vRequest \<Rightarrow> val_db \<Rightarrow> val_error + fxRevision list" where
  "loadFX fault r db =
     (let rows = sort_key (\<lambda>row. (frw_base row, frw_quote row,
             newest_first r (frw_observation row) (frw_source_known row) (frw_system_known row) (frw_id row)))
          (filter (\<lambda>row. in_window r (vr_FXMaxAgeSeconds r) (frw_observation row) (frw_source_known row) (frw_system_known row))
           (fx_quote_revisions db))
      in if fault (DbStmt 1) then Inl (VErr ''load fx revisions'')
         else case collect_fx r [] rows of None \<Rightarrow> Inl (VErr ''load fx revisions'') | Some qs \<Rightarrow> Inr qs)"

subsection \<open>Conversion paths\<close>

datatype path_error = NonFiat | NonPositiveFXRate | NoDirectUSD | NoUSDBridge

definition isFiatCode :: "(string \<Rightarrow> bool) \<Rightarrow> string \<Rightarrow> bool" where
  "isFiatCode isISO code = (let c = ToUpper (TrimSpace code) in
     isISO c \<and> c \<notin> {''XXX'', ''XAU'', ''XAG'', ''XDR'', ''XBA'', ''XBB'', ''XBC'', ''XBD'', ''XTS''})"

definition direct_quotes :: "string \<Rightarrow> string \<Rightarrow> fxRevision list \<Rightarrow> fxRevision list" where
  "direct_quotes source target quotes =
     List.map_filter (\<lambda>q.
       if fxr_base q = source \<and> fxr_quote q = target then Some q
       else if fxr_base q = target \<and> fxr_quote q = source
       then Some (if fx_rate q > 0 then q\<lparr>fx_rate := inverse (fx_rate q)\<rparr> else q)
       else None) quotes"

definition newer_quote :: "fxRevision \<Rightarrow> fxRevision \<Rightarrow> bool" where
  "newer_quote a b =
     (if fx_observation a \<noteq> fx_observation b then fx_observation a > fx_observation b
      else if (case (fx_sourceKnown a, fx_sourceKnown b) of (Some s, Some t) \<Rightarrow> s \<noteq> t | _ \<Rightarrow> False)
      then the (fx_sourceKnown a) > the (fx_sourceKnown b)
      else if fx_systemKnown a \<noteq> fx_systemKnown b then fx_systemKnown a > fx_systemKnown b
      else fx_id a < fx_id b)"

fun bridgeQuote :: "string \<Rightarrow> string \<Rightarrow> fxRevision list \<Rightarrow> (fxRevision \<times> string) option" where
  "bridgeQuote source target [] = None"
| "bridgeQuote source target (q # qs) =
     (if fxr_base q = source \<and> fxr_quote q = target
      then (if fx_rate q \<le> 0 then None else Some (q, ''forward''))
      else if fxr_base q = target \<and> fxr_quote q = source
      then (if fx_rate q \<le> 0 then None else Some (q\<lparr>fx_rate := inverse (fx_rate q)\<rparr>, ''reverse''))
      else bridgeQuote source target qs)"

definition pathFor :: "(string \<Rightarrow> bool) \<Rightarrow> string \<Rightarrow> string \<Rightarrow> fxRevision list \<Rightarrow> path_error + selectedPath" where
  "pathFor isISO source target quotes =
     (if \<not> isFiatCode isISO source \<or> \<not> isFiatCode isISO target then Inl NonFiat
      else if source = target then Inr \<lparr>path_rate = 1, path_edges = []\<rparr>
      else case SliceStable newer_quote (direct_quotes source target quotes) of
        q # _ \<Rightarrow>
          if fx_rate q \<le> 0 then Inl NonPositiveFXRate
          else Inr \<lparr>path_rate = fx_rate q, path_edges = [\<lparr>fpe_QuoteRevisionID = fx_id q,
                 fpe_Direction = (if fxr_base q = target then ''reverse'' else ''forward'')\<rparr>]\<rparr>
      | [] \<Rightarrow>
          if source = ''USD'' \<or> target = ''USD'' then Inl NoDirectUSD
          else case (bridgeQuote source ''USD'' quotes, bridgeQuote ''USD'' target quotes) of
            (Some (first, firstDir), Some (second, secondDir)) \<Rightarrow>
              Inr \<lparr>path_rate = fx_rate first * fx_rate second, path_edges =
                [\<lparr>fpe_QuoteRevisionID = fx_id first, fpe_Direction = firstDir\<rparr>,
                 \<lparr>fpe_QuoteRevisionID = fx_id second, fpe_Direction = secondDir\<rparr>]\<rparr>
          | _ \<Rightarrow> Inl NoUSDBridge)"

definition fxReason :: "string \<Rightarrow> path_error \<Rightarrow> vReason" where
  "fxReason target e =
     (if e = NonPositiveFXRate
      then \<lparr>vrs_Code = ''FX_INVALID_RATE'', vrs_Message = ''eligible FX quote has a non-positive rate for '' @ target\<rparr>
      else \<lparr>vrs_Code = ''FX_'' @ target @ ''_MISSING_OR_STALE'', vrs_Message = ''no explicit eligible conversion path to '' @ target\<rparr>)"

subsection \<open>Valuing the lines\<close>

definition is_cash :: "snapshotLine \<Rightarrow> bool" where
  "is_cash line \<longleftrightarrow> sl_instrumentType line = ''cash'' \<or> sl_instrumentType line = ''currency''"

definition selectPrice :: "priceRevision list \<Rightarrow> priceRevision option" where
  "selectPrice ps = (case ps of [] \<Rightarrow> None | p # _ \<Rightarrow> Some p)"

definition base_line :: "snapshotLine \<Rightarrow> vLine" where
  "base_line line = \<lparr>vl_ID = [], vl_SnapshotLineID = sl_id line, vl_InstrumentID = sl_instrumentID line,
     vl_NativeCurrency = sl_nativeCurrency line, vl_NativeAmount = None, vl_TryAmount = None, vl_USDAmount = None,
     vl_State = [], vl_ReasonCodes = [], vl_PriceMethod = (if is_cash line then ''identity'' else ''revision''),
     vl_PriceRevisionID = None, vl_PriceQuoteUnit = None, vl_TryFXPath = [], vl_USDFXPath = []\<rparr>"

text \<open>The path to a reporting currency: the identity when the quote already is in it.\<close>

definition path_to :: "(string \<Rightarrow> bool) \<Rightarrow> string \<Rightarrow> string \<Rightarrow> fxRevision list \<Rightarrow> path_error + selectedPath" where
  "path_to isISO quote target fx = (case pathFor isISO quote target fx of
      Inl e \<Rightarrow> Inl e
    | Inr p \<Rightarrow> Inr (if quote = target then \<lparr>path_rate = 1, path_edges = []\<rparr> else p))"

text \<open>A valued line with the two exact amounts, where there is a path.\<close>

type_synonym resultLine = "vLine \<times> rat option \<times> rat option"

definition convert_line :: "(string \<Rightarrow> bool) \<Rightarrow> fxRevision list \<Rightarrow> rat \<Rightarrow> string \<Rightarrow> vLine \<Rightarrow> resultLine" where
  "convert_line isISO fx amount quote l =
     (let try_path = path_to isISO quote ''TRY'' fx; usd_path = path_to isISO quote ''USD'' fx;
          reasons = (case try_path of Inl e \<Rightarrow> [fxReason ''TRY'' e] | Inr _ \<Rightarrow> [])
                  @ (case usd_path of Inl e \<Rightarrow> [fxReason ''USD'' e] | Inr _ \<Rightarrow> []);
          tryRat = (case try_path of Inl _ \<Rightarrow> None | Inr p \<Rightarrow> Some (amount * path_rate p));
          usdRat = (case usd_path of Inl _ \<Rightarrow> None | Inr p \<Rightarrow> Some (amount * path_rate p))
      in (l\<lparr>vl_NativeAmount := Some (formatDecimal amount),
            vl_TryAmount := map_option formatDecimal tryRat, vl_USDAmount := map_option formatDecimal usdRat,
            vl_State := (if reasons \<noteq> [] then StateBlocked else StateValid), vl_ReasonCodes := reasons,
            vl_TryFXPath := (case try_path of Inl _ \<Rightarrow> [] | Inr p \<Rightarrow> path_edges p),
            vl_USDFXPath := (case usd_path of Inl _ \<Rightarrow> [] | Inr p \<Rightarrow> path_edges p)\<rparr>, tryRat, usdRat))"

definition value_line :: "(string \<Rightarrow> bool) \<Rightarrow> fxRevision list \<Rightarrow> priceRevision list \<Rightarrow> snapshotLine \<Rightarrow> resultLine" where
  "value_line isISO fx prices line =
     (if is_cash line then convert_line isISO fx (sl_quantity line) (sl_nativeCurrency line) (base_line line)
      else case selectPrice prices of
        None \<Rightarrow> ((base_line line)\<lparr>vl_State := StateBlocked, vl_ReasonCodes := [\<lparr>vrs_Code = ''PRICE_MISSING_OR_STALE'',
            vrs_Message = ''no eligible price revision at the requested cutoff and knowledge clock''\<rparr>]\<rparr>, None, None)
      | Some p \<Rightarrow> convert_line isISO fx (sl_quantity line * pr_price p) (pr_quote p)
          ((base_line line)\<lparr>vl_PriceRevisionID := Some (pr_id p), vl_PriceQuoteUnit := Some (pr_quote p)\<rparr>))"

fun value_lines :: "(string \<Rightarrow> bool) \<Rightarrow> (string \<Rightarrow> val_error + priceRevision list) \<Rightarrow> fxRevision list \<Rightarrow> snapshotLine list
    \<Rightarrow> val_error + resultLine list" where
  "value_lines isISO prices fx [] = Inr []"
| "value_lines isISO prices fx (l # ls) =
     res_bind (if is_cash l then Inr [] else prices (sl_instrumentID l)) (\<lambda>ps.
     res_bind (value_lines isISO prices fx ls) (\<lambda>rs. Inr (value_line isISO fx ps l # rs)))"

definition add_total :: "rat option list \<Rightarrow> rat" where
  "add_total xs = foldl (\<lambda>t x. case x of None \<Rightarrow> t | Some v \<Rightarrow> t + roundedDecimal v) 0 xs"

subsection \<open>Persisting and reading back\<close>

fun pathArrays :: "(string \<Rightarrow> string option) \<Rightarrow> FXPathEntry list \<Rightarrow> (string list \<times> string list) option" where
  "pathArrays scanUUID [] = Some ([], [])"
| "pathArrays scanUUID (e # es) = (case scanUUID (fpe_QuoteRevisionID e) of
      None \<Rightarrow> None
    | Some i \<Rightarrow> map_option (\<lambda>(ids, ds). (i # ids, fpe_Direction e # ds)) (pathArrays scanUUID es))"

fun fxPathFromArrays :: "string list \<Rightarrow> string list \<Rightarrow> FXPathEntry list" where
  "fxPathFromArrays (i # ids) (d # ds) = \<lparr>fpe_QuoteRevisionID = i, fpe_Direction = d\<rparr> # fxPathFromArrays ids ds"
| "fxPathFromArrays _ _ = []"

fun persist_lines :: "(string \<Rightarrow> string option) \<Rightarrow> db_fault \<Rightarrow> string \<Rightarrow> (nat \<Rightarrow> string) \<Rightarrow> nat \<Rightarrow> vLine list
    \<Rightarrow> val_error + line_row list" where
  "persist_lines scanUUID fault runID newID n [] = Inr []"
| "persist_lines scanUUID fault runID newID n (l # ls) =
     (case (pathArrays scanUUID (vl_TryFXPath l), pathArrays scanUUID (vl_USDFXPath l)) of
        (Some t, Some u) \<Rightarrow>
          if fault (DbStmt (4 + n)) then Inl (VErr ''insert valuation line'')
          else res_bind (persist_lines scanUUID fault runID newID (n + 1) ls) (\<lambda>rows.
            Inr (\<lparr>lrw_run = runID, lrw_line = l\<lparr>vl_ID := newID n, vl_TryFXPath := [], vl_USDFXPath := []\<rparr>,
                  lrw_try = t, lrw_usd = u\<rparr> # rows))
      | _ \<Rightarrow> Inl (VErr ''scan uuid''))"

definition persist :: "(string \<Rightarrow> string option) \<Rightarrow> (string \<Rightarrow> string option) \<Rightarrow> db_fault \<Rightarrow> time \<Rightarrow> string \<Rightarrow> (nat \<Rightarrow> string) \<Rightarrow> vRequest \<Rightarrow> vRun
    \<Rightarrow> val_db \<Rightarrow> val_db \<times> (val_error + string)" where
  "persist castUUID scanUUID fault now runID newID request run db =
     (if fault DbBegin then (db, Inl (VErr ''begin valuation transaction''))
      else if fault (DbStmt 3) \<or> castUUID (vr_SnapshotID request) = None then (db, Inl (VErr ''insert valuation run''))
      else case persist_lines scanUUID fault runID newID 0 (run_Lines run) of
        Inl e \<Rightarrow> (db, Inl e)
      | Inr rows \<Rightarrow>
          if fault DbCommit then (db, Inl (VErr ''commit valuation''))
          else (db\<lparr>valuation_runs := valuation_runs db @ [\<lparr>rrw_run = run\<lparr>run_ID := runID,
                    run_SnapshotID := the (castUUID (vr_SnapshotID request)), run_Cutoff := pg_time (vr_Cutoff request),
                    run_KnownAt := pg_time (vr_KnownAt request), run_CreatedAt := now\<rparr>, rrw_request = request\<rparr>],
                  valuation_lines := valuation_lines db @ rows\<rparr>, Inr runID))"

definition stored_total :: "(vLine \<Rightarrow> string option) \<Rightarrow> vLine list \<Rightarrow> rat" where
  "stored_total amount ls =
     foldl (\<lambda>t l. case amount l of None \<Rightarrow> t | Some s \<Rightarrow> (case parseDecimal s of None \<Rightarrow> t | Some v \<Rightarrow> t + v)) 0 ls"

definition get_run :: "(string \<Rightarrow> string option) \<Rightarrow> db_fault \<Rightarrow> string \<Rightarrow> val_db \<Rightarrow> val_error + vRun" where
  "get_run castUUID fault i db =
     (if fault (DbStmt 0) \<or> castUUID i = None then Inl (VErr ''get'')
      else case find (\<lambda>row. Some (run_ID (rrw_run row)) = castUUID i) (valuation_runs db) of
        None \<Rightarrow> Inl VErrNotFound
      | Some row \<Rightarrow>
          if fault (DbStmt 1) then Inl (VErr ''get'')
          else let ls = map (\<lambda>x. (lrw_line x)\<lparr>vl_TryFXPath := fxPathFromArrays (fst (lrw_try x)) (snd (lrw_try x)),
                     vl_USDFXPath := fxPathFromArrays (fst (lrw_usd x)) (snd (lrw_usd x))\<rparr>)
                   (sort_key (vl_ID \<circ> lrw_line) (filter (\<lambda>x. lrw_run x = run_ID (rrw_run row)) (valuation_lines db)))
               in Inr ((rrw_run row)\<lparr>run_Lines := ls,
                    run_Totals := \<lparr>vt_TRY = formatDecimal (stored_total vl_TryAmount ls),
                                   vt_USD = formatDecimal (stored_total vl_USDAmount ls)\<rparr>\<rparr>))"

definition Get :: "bool \<Rightarrow> (string \<Rightarrow> string option) \<Rightarrow> (string \<Rightarrow> string option) \<Rightarrow> db_fault \<Rightarrow> string \<Rightarrow> val_db \<Rightarrow> val_error + vRun" where
  "Get pool castUUID scanUUID fault i db =
     (if \<not> pool \<or> \<not> validUUID scanUUID i then Inl VErrInvalidRequest else get_run castUUID fault i db)"

definition build_run :: "(vRequest \<Rightarrow> vLine list \<Rightarrow> vTotals \<Rightarrow> string) \<Rightarrow> vRequest \<Rightarrow> resultLine list \<Rightarrow> vRun" where
  "build_run hash request results =
     (let ls = map fst results;
          totals = \<lparr>vt_TRY = formatDecimal (add_total (map (fst \<circ> snd) results)),
                    vt_USD = formatDecimal (add_total (map (snd \<circ> snd) results))\<rparr>
      in \<lparr>run_ID = [], run_SnapshotID = vr_SnapshotID request, run_Cutoff = vr_Cutoff request,
          run_KnowledgeMode = vr_KnowledgeMode request, run_KnownAt = vr_KnownAt request,
          run_PriceMaxAgeSeconds = vr_PriceMaxAgeSeconds request, run_FXMaxAgeSeconds = vr_FXMaxAgeSeconds request,
          vrun_State = (if list_ex (\<lambda>l. vl_ReasonCodes l \<noteq> []) ls then StateBlocked else StateValid),
          run_ResultHash = hash request ls totals, run_Lines = ls, run_Totals = totals, run_CreatedAt = 0\<rparr>)"

definition Create :: "bool \<Rightarrow> (string \<Rightarrow> bool) \<Rightarrow> (string \<Rightarrow> string option) \<Rightarrow> (string \<Rightarrow> string option) \<Rightarrow> (vRequest \<Rightarrow> vLine list \<Rightarrow> vTotals \<Rightarrow> string)
    \<Rightarrow> db_fault \<Rightarrow> db_fault \<Rightarrow> time \<Rightarrow> string \<Rightarrow> (nat \<Rightarrow> string) \<Rightarrow> vRequest \<Rightarrow> val_db \<Rightarrow> val_db \<times> (val_error + vRun)" where
  "Create pool isISO castUUID scanUUID hash fault getFault now runID newID request db =
     (if \<not> pool \<or> \<not> validRequest scanUUID request then (db, Inl VErrInvalidRequest)
      else case loadSnapshot castUUID fault (vr_SnapshotID request) db of
        Inl e \<Rightarrow> (db, Inl e)
      | Inr ls \<Rightarrow> (case loadFX fault request db of
          Inl e \<Rightarrow> (db, Inl e)
        | Inr fx \<Rightarrow> (case value_lines isISO (\<lambda>i. loadPrices fault i request db) fx ls of
            Inl e \<Rightarrow> (db, Inl e)
          | Inr results \<Rightarrow>
              (case persist castUUID scanUUID fault now runID newID request (build_run hash request results) db of
                 (db1, Inl e) \<Rightarrow> (db1, Inl e)
               | (db1, Inr i) \<Rightarrow> (db1, get_run castUUID getFault i db1)))))"

end
