(* ===== verification/Reconciliation.thy ===== *)
theory Reconciliation
  imports Valuation "HOL-Library.AList"
begin

text \<open>
  Reconciliation of an account with an external statement,
  \<open>internal/application/reconciliation/service.go\<close> and
  \<open>internal/domain/reconciliation/model.go\<close>. The service reads the tables of the valuation
  (\<open>val_db\<close>) and adds its own: tolerance versions, checkpoints and line checks. The snapshot
  and the portfolio of a run are read off the lines of the snapshot; a run has at least one. A Go
  map that is only looked up or summed is an association list; where the order of iteration can be
  observed it is the argument \<open>mapOrder\<close>. As in \<open>Valuation\<close>, \<open>castUUID\<close> is
  the cast of the server, \<open>scanUUID\<close> that of the driver and \<open>fault\<close> the failing
  database calls, the violation of a constraint of the tables included.
\<close>

abbreviation CurrencyTRY :: string where "CurrencyTRY \<equiv> ''TRY''"
abbreviation CurrencyUSD :: string where "CurrencyUSD \<equiv> ''USD''"
abbreviation StateReconciled :: string where "StateReconciled \<equiv> ''reconciled''"
abbreviation StateUnreconciled :: string where "StateUnreconciled \<equiv> ''unreconciled''"
abbreviation LineCheckNone :: string where "LineCheckNone \<equiv> ''none''"
abbreviation LineCheckPartial :: string where "LineCheckPartial \<equiv> ''partial''"
abbreviation LineCheckComplete :: string where "LineCheckComplete \<equiv> ''complete''"

record ToleranceVersion =
  tv_ID :: string
  tv_AccountID :: string
  tv_Version :: int
  tv_ToleranceAmount :: string
  tv_CreatedAt :: time

record LineCheckInput =
  lci_SnapshotLineID :: string
  lci_ExternalAmount :: string

record recRequest =
  rr_AccountID :: string
  rr_SourceLabel :: string
  rr_Currency :: string
  rr_Cutoff :: time
  rr_ExternalNAV :: string
  rr_LineChecks :: "LineCheckInput list"
  rr_LineChecksComplete :: bool

record LineCheck =
  lc_SnapshotLineID :: string
  lc_ExternalAmount :: string
  lc_ValuationAmount :: string
  lc_Difference :: string
  lc_AbsoluteDifference :: string

record Checkpoint =
  cp_ID :: string
  cp_ValuationID :: string
  cp_AccountID :: string
  cp_SourceLabel :: string
  cp_Currency :: string
  cp_Cutoff :: time
  cp_ExternalNAV :: string
  cp_ValuationNAV :: string
  cp_AbsoluteDifference :: string
  cp_RelativeDifference :: "string option"
  cp_EffectiveTolerance :: string
  cp_ToleranceVersion :: int
  cp_State :: string
  cp_ReasonCode :: "string option"
  cp_LineCheckState :: string
  cp_LineChecks :: "LineCheck list"
  cp_CreatedAt :: time

record valuationInfo =
  vi_id :: string
  vi_snapshotID :: string
  vi_portfolioID :: string
  vi_state :: string
  vi_reportingCurrency :: string
  vi_cutoff :: time

record valueLine =
  vln_id :: string
  vln_accountID :: string
  vln_amount :: rat

datatype rec_error = RErrInvalidRequest | RErrNotFound | ConflictError string string | RErr string

record account_row =
  acc_id :: string
  acc_portfolio :: string

record rec_db =
  rec_val :: val_db
  rec_accounts :: "account_row list"
  tolerance_versions :: "ToleranceVersion list"
  checkpoints :: "Checkpoint list"
  line_checks :: "(string \<times> LineCheck) list"

subsection \<open>Decimals\<close>

definition rec_validDecimal :: "string \<Rightarrow> bool" where
  "rec_validDecimal value = decimalPattern (TrimSpace value)"

definition rec_parseDecimal :: "string \<Rightarrow> rat option" where
  "rec_parseDecimal value = (if \<not> rec_validDecimal value then None else SetString (TrimSpace value))"

definition rec_formatDecimal :: "rat \<Rightarrow> string" where
  "rec_formatDecimal value = print18 (scaled_quotient value)"

definition scaleDecimal :: "rat \<Rightarrow> rat" where
  "scaleDecimal value = (case rec_parseDecimal (rec_formatDecimal value) of None \<Rightarrow> 0 | Some r \<Rightarrow> r)"

definition defaultTolerance :: "rat \<Rightarrow> rat" where
  "defaultTolerance externalNAV =
     (let minimum = 1 / 100; basisPoint = \<bar>externalNAV\<bar> / 10000 in if basisPoint > minimum then basisPoint else minimum)"

subsection \<open>Tolerances\<close>

definition CreateTolerance :: "bool \<Rightarrow> (string \<Rightarrow> string option) \<Rightarrow> (string \<Rightarrow> string option) \<Rightarrow> db_fault \<Rightarrow> time \<Rightarrow> string
    \<Rightarrow> string \<Rightarrow> string \<Rightarrow> rec_db \<Rightarrow> rec_db \<times> (rec_error + ToleranceVersion)" where
  "CreateTolerance pool castUUID scanUUID fault now newID accountID toleranceAmount db =
     (if \<not> pool \<or> \<not> validUUID scanUUID accountID \<or> \<not> rec_validDecimal toleranceAmount then (db, Inl RErrInvalidRequest)
      else case rec_parseDecimal toleranceAmount of
        None \<Rightarrow> (db, Inl RErrInvalidRequest)
      | Some t \<Rightarrow>
          if t < 0 then (db, Inl RErrInvalidRequest)
          else let tolerance = scaleDecimal t in
            if fault DbBegin then (db, Inl (RErr ''begin tolerance transaction''))
            else if fault (DbStmt 0) \<or> castUUID accountID = None then (db, Inl (RErr ''lock tolerance account''))
            else case find (\<lambda>a. Some (acc_id a) = castUUID accountID) (rec_accounts db) of
              None \<Rightarrow> (db, Inl RErrNotFound)
            | Some a \<Rightarrow>
                if fault (DbStmt 1) then (db, Inl (RErr ''read tolerance version''))
                else let versions = map tv_Version (filter (\<lambda>v. tv_AccountID v = acc_id a) (tolerance_versions db));
                         version = (if versions = [] then 0 else Max (set versions)) + 1;
                         row = \<lparr>tv_ID = newID, tv_AccountID = acc_id a, tv_Version = version,
                                tv_ToleranceAmount = rec_formatDecimal tolerance, tv_CreatedAt = now\<rparr>
                     in if fault (DbStmt 2) then (db, Inl (RErr ''insert tolerance version''))
                        else if fault DbCommit then (db, Inl (RErr ''commit tolerance version''))
                        else (db\<lparr>tolerance_versions := tolerance_versions db @ [row]\<rparr>, Inr (row\<lparr>tv_AccountID := accountID\<rparr>)))"

subsection \<open>Validation\<close>

definition rec_validRequest :: "(string \<Rightarrow> string option) \<Rightarrow> recRequest \<Rightarrow> bool" where
  "rec_validRequest scanUUID r \<longleftrightarrow> validUUID scanUUID (rr_AccountID r) \<and> TrimSpace (rr_SourceLabel r) \<noteq> []
     \<and> (EqualFold (rr_Currency r) CurrencyTRY \<or> EqualFold (rr_Currency r) CurrencyUSD)
     \<and> rr_Cutoff r \<noteq> zero_time \<and> rec_validDecimal (rr_ExternalNAV r)"

definition rec_normalize :: "recRequest \<Rightarrow> recRequest" where
  "rec_normalize r = r\<lparr>rr_AccountID := TrimSpace (rr_AccountID r), rr_SourceLabel := TrimSpace (rr_SourceLabel r),
     rr_Currency := ToUpper (TrimSpace (rr_Currency r)), rr_ExternalNAV := TrimSpace (rr_ExternalNAV r)\<rparr>"

fun check_inputs :: "(string \<Rightarrow> string option) \<Rightarrow> string list \<Rightarrow> LineCheckInput list \<Rightarrow> rec_error + unit" where
  "check_inputs scanUUID seen [] = Inr ()"
| "check_inputs scanUUID seen (c # cs) =
     (if \<not> validUUID scanUUID (lci_SnapshotLineID c) \<or> \<not> rec_validDecimal (lci_ExternalAmount c) then Inl RErrInvalidRequest
      else if lci_SnapshotLineID c \<in> set seen
      then Inl (ConflictError ''LINE_CHECK_DUPLICATE'' ''the same snapshot line was supplied more than once'')
      else check_inputs scanUUID (lci_SnapshotLineID c # seen) cs)"

subsection \<open>The lines of the valuation\<close>

text \<open>The run with its portfolio and reporting currency.\<close>

definition load_valuation :: "(string \<Rightarrow> string option) \<Rightarrow> db_fault \<Rightarrow> string \<Rightarrow> rec_db \<Rightarrow> rec_error + valuationInfo" where
  "load_valuation castUUID fault valuationID db =
     (if fault (DbStmt 1) \<or> castUUID valuationID = None then Inl (RErr ''load valuation'')
      else case find (\<lambda>row. Some (run_ID (rrw_run row)) = castUUID valuationID) (valuation_runs (rec_val db)) of
        None \<Rightarrow> Inl RErrNotFound
      | Some row \<Rightarrow> (case find (\<lambda>l. slr_snapshot l = run_SnapshotID (rrw_run row)) (portfolio_snapshot_lines (rec_val db)) of
          None \<Rightarrow> Inl RErrNotFound
        | Some l \<Rightarrow> Inr \<lparr>vi_id = run_ID (rrw_run row), vi_snapshotID = run_SnapshotID (rrw_run row),
            vi_portfolioID = slr_portfolio l, vi_state = vrun_State (rrw_run row),
            vi_reportingCurrency = slr_reporting_currency l, vi_cutoff = run_Cutoff (rrw_run row)\<rparr>))"

text \<open>A row of the left join: the snapshot line, its account, and the amount and state of its valuation line.\<close>

type_synonym joined = "string \<times> string \<times> (string option \<times> string) option"

definition joined_lines :: "string \<Rightarrow> string \<Rightarrow> string \<Rightarrow> val_db \<Rightarrow> joined list" where
  "joined_lines runID snapshotID cur db =
     concat (map (\<lambda>sl. (case filter (\<lambda>vl. vl_SnapshotLineID (lrw_line vl) = slr_id sl \<and> lrw_run vl = runID) (valuation_lines db) of
           [] \<Rightarrow> [(slr_id sl, slr_account sl, None)]
         | vls \<Rightarrow> map (\<lambda>vl. (slr_id sl, slr_account sl,
               Some (if cur = CurrencyTRY then vl_TryAmount (lrw_line vl) else vl_USDAmount (lrw_line vl), vl_State (lrw_line vl)))) vls))
       (sort_key slr_id (filter (\<lambda>sl. slr_snapshot sl = snapshotID) (portfolio_snapshot_lines db))))"

record scanned =
  sc_allLines :: "(string \<times> valueLine) list"
  sc_accountLines :: "(string \<times> valueLine) list"
  sc_expected :: "string list"
  sc_invalid :: "string list"
  sc_counted :: "string list"

definition empty_scan :: scanned where
  "empty_scan = \<lparr>sc_allLines = [], sc_accountLines = [], sc_expected = [], sc_invalid = [], sc_counted = []\<rparr>"

definition scan_row :: "string \<Rightarrow> scanned \<Rightarrow> joined \<Rightarrow> scanned" where
  "scan_row account st row = (case row of (lineID, accountID, vl) \<Rightarrow>
     (let st = (if accountID = account then st\<lparr>sc_expected := List.insert lineID (sc_expected st)\<rparr> else st) in
      case vl of
        None \<Rightarrow> st
      | Some (amount, state) \<Rightarrow>
          let st = st\<lparr>sc_counted := lineID # sc_counted st\<rparr> in
          if amount = None \<or> state \<noteq> ''valid'' then st
          else case rec_parseDecimal (the amount) of
            None \<Rightarrow> if accountID = account then st\<lparr>sc_invalid := lineID # sc_invalid st\<rparr> else st
          | Some r \<Rightarrow>
              let line = \<lparr>vln_id = lineID, vln_accountID = accountID, vln_amount = r\<rparr>;
                  st = st\<lparr>sc_allLines := AList.update lineID line (sc_allLines st)\<rparr>
              in if accountID = account then st\<lparr>sc_accountLines := AList.update lineID line (sc_accountLines st)\<rparr> else st))"

definition scan_rows :: "string \<Rightarrow> joined list \<Rightarrow> scanned" where
  "scan_rows account rows = foldl (scan_row account) empty_scan rows"

definition line_problem :: "scanned \<Rightarrow> string \<Rightarrow> rec_error option" where
  "line_problem st lineID =
     (if count_list (sc_counted st) lineID > 1
      then Some (ConflictError ''VALUATION_LINE_DUPLICATE'' ''valuation has more than one line for a snapshot line'')
      else if count_list (sc_counted st) lineID = 0
      then Some (ConflictError ''VALUATION_ACCOUNT_LINES_INCOMPLETE'' ''valuation is missing an account snapshot line'')
      else if lineID \<in> set (sc_invalid st)
      then Some (ConflictError ''VALUATION_ACCOUNT_LINES_INCOMPLETE'' ''valuation account line has an invalid amount'')
      else if map_of (sc_accountLines st) lineID = None
      then Some (ConflictError ''VALUATION_ACCOUNT_LINES_INCOMPLETE'' ''valuation account line is not valid with a non-null amount'')
      else None)"

fun first_problem :: "scanned \<Rightarrow> string list \<Rightarrow> rec_error + unit" where
  "first_problem st [] = Inr ()"
| "first_problem st (i # is) = (case line_problem st i of Some e \<Rightarrow> Inl e | None \<Rightarrow> first_problem st is)"

definition account_lines_ok :: "(string list \<Rightarrow> string list) \<Rightarrow> string \<Rightarrow> valuationInfo \<Rightarrow> scanned \<Rightarrow> rec_error + unit" where
  "account_lines_ok mapOrder accountPortfolioID v st =
     (if sc_expected st = [] then
        Inl (if accountPortfolioID = vi_portfolioID v
             then ConflictError ''ACCOUNT_HAS_NO_LINES'' ''account has no lines in the valuation snapshot''
             else ConflictError ''ACCOUNT_NOT_IN_SNAPSHOT'' ''account is not part of the valuation snapshot'')
      else first_problem st (mapOrder (sc_expected st)))"

definition valuation_nav :: "scanned \<Rightarrow> rat" where
  "valuation_nav st = foldl (\<lambda>nav l. nav + vln_amount (snd l)) 0 (sc_accountLines st)"

subsection \<open>Tolerance, state and line checks\<close>

text \<open>The newest tolerance version of the account, or version 0 with the default.\<close>

definition load_tolerance :: "(string \<Rightarrow> string option) \<Rightarrow> db_fault \<Rightarrow> string \<Rightarrow> rat \<Rightarrow> rec_db \<Rightarrow> rec_error + int \<times> rat" where
  "load_tolerance castUUID fault accountID externalNAV db =
     (let (version, toleranceText) =
        (case rev (sort_key tv_Version (filter (\<lambda>v. Some (tv_AccountID v) = castUUID accountID) (tolerance_versions db))) of
           [] \<Rightarrow> (0, rec_formatDecimal (defaultTolerance externalNAV))
         | v # _ \<Rightarrow> (tv_Version v, tv_ToleranceAmount v))
      in if fault (DbStmt 3) then Inl (RErr ''load tolerance version'')
         else case rec_parseDecimal toleranceText of
           None \<Rightarrow> Inl (RErr ''parse tolerance'')
         | Some tolerance \<Rightarrow> Inr (version, tolerance))"

definition check_line :: "(string \<Rightarrow> string option) \<Rightarrow> db_fault \<Rightarrow> string \<Rightarrow> valuationInfo \<Rightarrow> rec_db \<Rightarrow> scanned \<Rightarrow> LineCheckInput
    \<Rightarrow> rec_error + rat \<times> LineCheck" where
  "check_line castUUID fault account v db st input =
     (case map_of (sc_allLines st) (lci_SnapshotLineID input) of
        None \<Rightarrow>
          if fault (DbStmt 4) \<or> castUUID (lci_SnapshotLineID input) = None then Inl (RErr ''check line membership'')
          else (case find (\<lambda>l. Some (slr_id l) = castUUID (lci_SnapshotLineID input) \<and> slr_snapshot l = vi_snapshotID v)
                  (portfolio_snapshot_lines (rec_val db)) of
            None \<Rightarrow> Inl (ConflictError ''LINE_CHECK_UNKNOWN'' ''snapshot line is not part of the valuation snapshot'')
          | Some l \<Rightarrow>
              if slr_account l = account
              then Inl (ConflictError ''LINE_CHECK_UNKNOWN'' ''snapshot line has no valid persisted valuation amount'')
              else Inl (ConflictError ''LINE_CHECK_CROSS_ACCOUNT'' ''snapshot line belongs to another account''))
      | Some line \<Rightarrow>
          if vln_accountID line \<noteq> account
          then Inl (ConflictError ''LINE_CHECK_CROSS_ACCOUNT'' ''snapshot line belongs to another account'')
          else case rec_parseDecimal (lci_ExternalAmount input) of
            None \<Rightarrow> Inl RErrInvalidRequest
          | Some x \<Rightarrow>
              let externalAmount = scaleDecimal x; lineDifference = externalAmount - vln_amount line
              in Inr (externalAmount, \<lparr>lc_SnapshotLineID = vln_id line, lc_ExternalAmount = rec_formatDecimal externalAmount,
                   lc_ValuationAmount = rec_formatDecimal (vln_amount line), lc_Difference = rec_formatDecimal lineDifference,
                   lc_AbsoluteDifference = rec_formatDecimal \<bar>lineDifference\<bar>\<rparr>))"

definition incomplete :: rec_error where
  "incomplete = ConflictError ''LINE_CHECK_INCOMPLETE'' ''complete line checks must include every account line''"

definition check_lines :: "(string \<Rightarrow> string option) \<Rightarrow> db_fault \<Rightarrow> recRequest \<Rightarrow> rat \<Rightarrow> valuationInfo \<Rightarrow> rec_db \<Rightarrow> scanned
    \<Rightarrow> rec_error + string \<times> LineCheck list" where
  "check_lines castUUID fault r externalNAV v db st =
     (if rr_LineChecks r \<noteq> [] then
        res_bind (res_map (check_line castUUID fault (rr_AccountID r) v db st) (rr_LineChecks r)) (\<lambda>checked.
          let lineTotal = foldl (\<lambda>t x. t + fst x) 0 checked in
          if length (rr_LineChecks r) = length (sc_accountLines st) then
            (if lineTotal \<noteq> externalNAV
             then Inl (ConflictError ''LINE_CHECK_TOTAL_MISMATCH'' ''complete line checks do not sum to external NAV'')
             else Inr (LineCheckComplete, map snd checked))
          else if rr_LineChecksComplete r then Inl incomplete
          else Inr (LineCheckPartial, map snd checked))
      else if rr_LineChecksComplete r then Inl incomplete
      else Inr (LineCheckNone, []))"

text \<open>The values of a checkpoint, before it has an identifier.\<close>

definition build_checkpoint :: "string \<Rightarrow> recRequest \<Rightarrow> rat \<Rightarrow> rat \<Rightarrow> int \<times> rat \<Rightarrow> string \<times> LineCheck list \<Rightarrow> Checkpoint" where
  "build_checkpoint valuationID r externalNAV valuationNAV tol checks =
     (let absoluteDifference = \<bar>externalNAV - valuationNAV\<bar>
      in \<lparr>cp_ID = [], cp_ValuationID = valuationID, cp_AccountID = rr_AccountID r, cp_SourceLabel = rr_SourceLabel r,
          cp_Currency = rr_Currency r, cp_Cutoff = rr_Cutoff r, cp_ExternalNAV = rec_formatDecimal externalNAV,
          cp_ValuationNAV = rec_formatDecimal valuationNAV, cp_AbsoluteDifference = rec_formatDecimal absoluteDifference,
          cp_RelativeDifference = (if externalNAV = 0 then None else Some (rec_formatDecimal (absoluteDifference / \<bar>externalNAV\<bar>))),
          cp_EffectiveTolerance = rec_formatDecimal (snd tol), cp_ToleranceVersion = fst tol,
          cp_State = (if absoluteDifference \<le> snd tol then StateReconciled else StateUnreconciled), cp_ReasonCode = None,
          cp_LineCheckState = fst checks, cp_LineChecks = snd checks, cp_CreatedAt = 0\<rparr>)"

text \<open>Everything between the lock of the account and the first insert.\<close>

definition reconcile :: "(string \<Rightarrow> string option) \<Rightarrow> (string list \<Rightarrow> string list) \<Rightarrow> db_fault \<Rightarrow> string \<Rightarrow> recRequest \<Rightarrow> rat
    \<Rightarrow> rec_db \<Rightarrow> rec_error + Checkpoint" where
  "reconcile castUUID mapOrder fault valuationID r externalNAV db =
     (if fault (DbStmt 0) \<or> castUUID (rr_AccountID r) = None then Inl (RErr ''lock reconciliation account'')
      else case find (\<lambda>a. Some (acc_id a) = castUUID (rr_AccountID r)) (rec_accounts db) of
        None \<Rightarrow> Inl RErrNotFound
      | Some a \<Rightarrow>
          res_bind (load_valuation castUUID fault valuationID db) (\<lambda>v.
          if vi_state v \<noteq> ''valid'' then Inl (ConflictError ''VALUATION_NOT_VALID'' ''only valid valuations can be reconciled'')
          else if vi_reportingCurrency v \<noteq> rr_Currency r
          then Inl (ConflictError ''CURRENCY_MISMATCH'' ''reconciliation currency must equal the portfolio reporting currency'')
          else if vi_cutoff v \<noteq> rr_Cutoff r
          then Inl (ConflictError ''CUTOFF_MISMATCH'' ''reconciliation cutoff must equal the valuation cutoff'')
          else if fault (DbStmt 2) then Inl (RErr ''load valuation lines'')
          else let st = scan_rows (rr_AccountID r) (joined_lines (vi_id v) (vi_snapshotID v) (rr_Currency r) (rec_val db)) in
            res_bind (account_lines_ok mapOrder (acc_portfolio a) v st) (\<lambda>_.
            res_bind (load_tolerance castUUID fault (rr_AccountID r) externalNAV db) (\<lambda>tol.
            res_bind (check_lines castUUID fault r externalNAV v db st) (\<lambda>checks.
            Inr (build_checkpoint valuationID r externalNAV (valuation_nav st) tol checks))))))"

definition Create_checkpoint :: "bool \<Rightarrow> (string \<Rightarrow> string option) \<Rightarrow> (string \<Rightarrow> string option) \<Rightarrow> (string list \<Rightarrow> string list)
    \<Rightarrow> db_fault \<Rightarrow> time \<Rightarrow> string \<Rightarrow> string \<Rightarrow> recRequest \<Rightarrow> rec_db \<Rightarrow> rec_db \<times> (rec_error + Checkpoint)" where
  "Create_checkpoint pool castUUID scanUUID mapOrder fault now newID valuationID request db =
     (if \<not> pool \<or> \<not> validUUID scanUUID valuationID \<or> \<not> rec_validRequest scanUUID request then (db, Inl RErrInvalidRequest)
      else let r = rec_normalize request in
        case rec_parseDecimal (rr_ExternalNAV r) of
          None \<Rightarrow> (db, Inl RErrInvalidRequest)
        | Some nav \<Rightarrow> (case check_inputs scanUUID [] (rr_LineChecks r) of
            Inl e \<Rightarrow> (db, Inl e)
          | Inr _ \<Rightarrow>
              if fault DbBegin then (db, Inl (RErr ''begin reconciliation transaction''))
              else case reconcile castUUID mapOrder fault valuationID r (scaleDecimal nav) db of
                Inl e \<Rightarrow> (db, Inl e)
              | Inr cp \<Rightarrow>
                  if fault (DbStmt 5) then (db, Inl (RErr ''insert reconciliation checkpoint''))
                  else if (\<exists>n\<in>{0..<length (cp_LineChecks cp)}. fault (DbStmt (6 + n))) then (db, Inl (RErr ''insert line check''))
                  else if fault DbCommit then (db, Inl (RErr ''commit reconciliation checkpoint''))
                  else (db\<lparr>checkpoints := checkpoints db @ [cp\<lparr>cp_ID := newID, cp_ValuationID := the (castUUID valuationID),
                             cp_AccountID := the (castUUID (rr_AccountID r)), cp_Cutoff := pg_time (rr_Cutoff r),
                             cp_LineChecks := [], cp_CreatedAt := now\<rparr>],
                           line_checks := line_checks db @ map (Pair newID) (cp_LineChecks cp)\<rparr>,
                        Inr (cp\<lparr>cp_ID := newID, cp_CreatedAt := now\<rparr>))))"

definition Get_checkpoint :: "bool \<Rightarrow> (string \<Rightarrow> string option) \<Rightarrow> (string \<Rightarrow> string option) \<Rightarrow> db_fault \<Rightarrow> string \<Rightarrow> rec_db
    \<Rightarrow> rec_error + Checkpoint" where
  "Get_checkpoint pool castUUID scanUUID fault i db =
     (if \<not> pool \<or> \<not> validUUID scanUUID i then Inl RErrInvalidRequest
      else if fault (DbStmt 0) \<or> castUUID i = None then Inl (RErr ''get reconciliation checkpoint'')
      else case find (\<lambda>c. Some (cp_ID c) = castUUID i) (checkpoints db) of
        None \<Rightarrow> Inl RErrNotFound
      | Some c \<Rightarrow>
          if fault (DbStmt 1) then Inl (RErr ''get reconciliation line checks'')
          else Inr (c\<lparr>cp_LineChecks := sort_key lc_SnapshotLineID (map snd (filter (\<lambda>x. fst x = cp_ID c) (line_checks db)))\<rparr>))"

end
