(* ===== verification/Valuation_Properties.thy ===== *)
theory Valuation_Properties
  imports Valuation
begin

text \<open>
  What the valuation service promises: a request's age bounds are exact and never wrap, the price
  of a line is the newest eligible revision, a conversion path composes existing quotes and its
  inverse is the path back, a line is valid exactly when both amounts are there, a failed
  \<open>Create\<close> stores nothing unless only the final read failed, and the totals a caller reads
  are the sums of the stored line amounts and equal those the run was hashed with. The decimal
  codec of the service is an interpretation of the interface \<open>decimal_codec\<close>.
\<close>

interpretation valuation_decimal: decimal_codec formatDecimal parseDecimal roundedDecimal
  by unfold_locales
    (simp_all add: formatDecimal_def parseDecimal_def roundedDecimal_def SetString_scaled_quotient)

subsection \<open>Eligibility\<close>

lemma age_no_wrap:
  assumes "0 \<le> maxAge" and "maxAge \<le> maxAgeSeconds"
  shows "wrap64 (maxAge * second_ns) = maxAge * second_ns" and "maxAge * second_ns < max_int64"
  using assms by (auto intro!: wrap64_id simp: in_int64_def min_int64_def max_int64_def maxAgeSeconds_def second_ns_def)

lemma Sub_le_iff:
  assumes "0 \<le> b" and "b < max_int64"
  shows "Sub t u \<le> b \<longleftrightarrow> t - u \<le> b"
  using assms by (auto simp: Sub_def min_int64_def max_int64_def)

definition known_by :: "string \<Rightarrow> time option \<Rightarrow> time \<Rightarrow> time \<Rightarrow> bool" where
  "known_by mode sourceKnown systemKnown knownAt =
     (if mode = KnowledgeSource then (\<exists>s. sourceKnown = Some s \<and> s \<le> knownAt) else systemKnown \<le> knownAt)"

lemma eligible_iff:
  assumes "0 \<le> maxAge" and "maxAge \<le> maxAgeSeconds"
  shows "eligibleRevision observation sourceKnown systemKnown mode cutoff knownAt maxAge \<longleftrightarrow>
    observation \<le> cutoff \<and> cutoff - observation \<le> maxAge * second_ns \<and> known_by mode sourceKnown systemKnown knownAt"
  using Sub_le_iff [of "maxAge * second_ns" cutoff observation] age_no_wrap [OF assms] assms(1)
  by (auto simp: eligibleRevision_def known_by_def second_ns_def not_less split: option.splits)

text \<open>
  Within the bounds that \<open>validRequest\<close> enforces, a revision is eligible exactly when its
  observation is not after the cutoff, at most the maximal age before it, and known by the
  requested clock: the saturation of \<open>Sub\<close> and the 64-bit product cannot be observed. The
  bound is tight: with one second more the product wraps and no revision is eligible, not even
  one observed at the cutoff.
\<close>
theorem eligible_revision_exact:
  assumes "0 \<le> maxAge" and "maxAge \<le> maxAgeSeconds"
  shows "(eligibleRevision observation sourceKnown systemKnown mode cutoff knownAt maxAge \<longleftrightarrow>
      observation \<le> cutoff \<and> cutoff \<le> observation + maxAge * second_ns
      \<and> (if mode = KnowledgeSource then (\<exists>s. sourceKnown = Some s \<and> s \<le> knownAt) else systemKnown \<le> knownAt))
    \<and> \<not> eligibleRevision observation sourceKnown systemKnown mode cutoff knownAt (maxAgeSeconds + 1)"
proof
  show "eligibleRevision observation sourceKnown systemKnown mode cutoff knownAt maxAge \<longleftrightarrow>
      observation \<le> cutoff \<and> cutoff \<le> observation + maxAge * second_ns
      \<and> (if mode = KnowledgeSource then (\<exists>s. sourceKnown = Some s \<and> s \<le> knownAt) else systemKnown \<le> knownAt)"
    using eligible_iff [OF assms] by (auto simp: known_by_def)
  have "wrap64 ((maxAgeSeconds + 1) * second_ns) < 0"
    by (simp add: wrap64_def maxAgeSeconds_def second_ns_def)
  then show "\<not> eligibleRevision observation sourceKnown systemKnown mode cutoff knownAt (maxAgeSeconds + 1)"
    by (auto simp: eligibleRevision_def Sub_def max_int64_def min_int64_def split: if_splits)
qed

theorem eligible_revision_exact_witness:
  "eligibleRevision 0 None 5 KnowledgeSystem (9223372036 * second_ns) 5 maxAgeSeconds
   \<and> \<not> eligibleRevision (- 1) None 5 KnowledgeSystem (9223372036 * second_ns) 5 maxAgeSeconds"
  using eligible_revision_exact [of maxAgeSeconds 0 None 5 KnowledgeSystem "9223372036 * second_ns" 5]
    eligible_revision_exact [of maxAgeSeconds "- 1" None 5 KnowledgeSystem "9223372036 * second_ns" 5]
  by (simp add: maxAgeSeconds_def second_ns_def)

subsection \<open>Conversion paths\<close>

text \<open>The specification: a chain of positive quotes, each used in one of its two directions.\<close>

inductive conversion :: "fxRevision list \<Rightarrow> string \<Rightarrow> string \<Rightarrow> rat \<Rightarrow> FXPathEntry list \<Rightarrow> bool" for qs where
  stay: "conversion qs a a 1 []"
| forward: "q \<in> set qs \<Longrightarrow> fxr_base q = a \<Longrightarrow> fxr_quote q = b \<Longrightarrow> 0 < fx_rate q \<Longrightarrow> conversion qs b c r es
    \<Longrightarrow> conversion qs a c (fx_rate q * r) (\<lparr>fpe_QuoteRevisionID = fx_id q, fpe_Direction = ''forward''\<rparr> # es)"
| reverse: "q \<in> set qs \<Longrightarrow> fxr_base q = b \<Longrightarrow> fxr_quote q = a \<Longrightarrow> 0 < fx_rate q \<Longrightarrow> conversion qs b c r es
    \<Longrightarrow> conversion qs a c (inverse (fx_rate q) * r) (\<lparr>fpe_QuoteRevisionID = fx_id q, fpe_Direction = ''reverse''\<rparr> # es)"

inductive_cases conversion_NilE: "conversion qs a b r []"

lemma conversion_pos: "conversion qs a b r es \<Longrightarrow> 0 < r"
  by (induction rule: conversion.induct) auto

definition links :: "fxRevision \<Rightarrow> string \<Rightarrow> string \<Rightarrow> bool" where
  "links q a b \<longleftrightarrow> fxr_base q = a \<and> fxr_quote q = b \<or> fxr_base q = b \<and> fxr_quote q = a"

definition flip_rate :: "fxRevision \<Rightarrow> fxRevision" where
  "flip_rate q = (if fx_rate q > 0 then q\<lparr>fx_rate := inverse (fx_rate q)\<rparr> else q)"

definition flip_dir :: "string \<Rightarrow> string" where
  "flip_dir d = (if d = ''forward'' then ''reverse'' else ''forward'')"

lemma flip_rate_simps [simp]:
  "fxr_base (flip_rate q) = fxr_base q" "fxr_quote (flip_rate q) = fxr_quote q" "fx_id (flip_rate q) = fx_id q"
  "fx_observation (flip_rate q) = fx_observation q" "fx_sourceKnown (flip_rate q) = fx_sourceKnown q"
  "fx_systemKnown (flip_rate q) = fx_systemKnown q" "flip_rate (flip_rate q) = q"
  "0 < fx_rate (flip_rate q) \<longleftrightarrow> 0 < fx_rate q"
  by (simp_all add: flip_rate_def)

lemma newer_quote_flip [simp]: "newer_quote (flip_rate q) (flip_rate q') = newer_quote q q'"
  by (simp add: newer_quote_def)

lemma fx_rate_flip: "0 < fx_rate q \<Longrightarrow> fx_rate (flip_rate q) = inverse (fx_rate q)"
  by (simp add: flip_rate_def)

lemma links_commute: "links q a b = links q b a"
  by (auto simp: links_def)

lemma direct_quotes_eq:
  "direct_quotes a b qs = map (\<lambda>q. if fxr_base q = a \<and> fxr_quote q = b then q else flip_rate q) (filter (\<lambda>q. links q a b) qs)"
  unfolding direct_quotes_def flip_rate_def [symmetric] List.map_filter_def
proof (rule map_cong)
  show "filter (\<lambda>q. (if fxr_base q = a \<and> fxr_quote q = b then Some q
      else if fxr_base q = b \<and> fxr_quote q = a then Some (flip_rate q) else None) \<noteq> None) qs = filter (\<lambda>q. links q a b) qs"
    by (rule filter_cong) (simp_all add: links_def)
qed (auto simp: links_def)

lemma direct_quotes_flip:
  "a \<noteq> b \<Longrightarrow> direct_quotes b a qs = map flip_rate (direct_quotes a b qs)"
  unfolding direct_quotes_eq links_commute [of _ b a] map_map
  by (rule map_cong) (auto simp: links_def)

lemma bridgeQuote_flip:
  "a \<noteq> b \<Longrightarrow> bridgeQuote b a qs = map_option (\<lambda>(q, d). (flip_rate q, flip_dir d)) (bridgeQuote a b qs)"
  by (induction qs) (auto simp: flip_rate_def flip_dir_def)

lemma bridgeQuote_Some:
  assumes "bridgeQuote a b qs = Some (q, d)"
  shows "0 < fx_rate q \<and> (\<exists>q'\<in>set qs. 0 < fx_rate q' \<and> fx_id q = fx_id q'
    \<and> (fxr_base q' = a \<and> fxr_quote q' = b \<and> d = ''forward'' \<and> fx_rate q = fx_rate q'
       \<or> fxr_base q' = b \<and> fxr_quote q' = a \<and> d = ''reverse'' \<and> fx_rate q = inverse (fx_rate q')))"
  using assms by (induction qs) (auto simp: not_le split: if_splits)

lemma bridge_conversion:
  assumes "bridgeQuote a b qs = Some (q, d)" and "conversion qs b c r es"
  shows "conversion qs a c (fx_rate q * r) (\<lparr>fpe_QuoteRevisionID = fx_id q, fpe_Direction = d\<rparr> # es)"
  using bridgeQuote_Some [OF assms(1)] assms(2) by (auto intro: conversion.intros)

lemma newest_direct:
  assumes "SliceStable newer_quote (direct_quotes a b qs) = q # rest" and "a \<noteq> b" and "0 < fx_rate q"
  shows "\<exists>q'\<in>set qs. 0 < fx_rate q' \<and> fx_id q = fx_id q' \<and> fxr_base q = fxr_base q'
    \<and> (fxr_base q' = a \<and> fxr_quote q' = b \<and> fx_rate q = fx_rate q'
       \<or> fxr_base q' = b \<and> fxr_quote q' = a \<and> fx_rate q = inverse (fx_rate q'))"
proof -
  have "q \<in> set (direct_quotes a b qs)" using assms(1) by (rule SliceStable_head)
  then obtain x where x: "x \<in> set qs" "links x a b" and q: "q = (if fxr_base x = a \<and> fxr_quote x = b then x else flip_rate x)"
    by (auto simp: direct_quotes_eq)
  with assms(3) have "0 < fx_rate x" by (simp split: if_splits)
  with x q assms(2) show ?thesis
    by (intro bexI [of _ x]) (auto simp: links_def fx_rate_flip)
qed

definition bridged :: "fxRevision \<Rightarrow> string \<Rightarrow> fxRevision \<Rightarrow> string \<Rightarrow> selectedPath" where
  "bridged q1 d1 q2 d2 = \<lparr>path_rate = fx_rate q1 * fx_rate q2, path_edges =
     [\<lparr>fpe_QuoteRevisionID = fx_id q1, fpe_Direction = d1\<rparr>, \<lparr>fpe_QuoteRevisionID = fx_id q2, fpe_Direction = d2\<rparr>]\<rparr>"

lemma pathFor_bridged:
  assumes "pathFor isISO a b qs = Inr p" and "a \<noteq> b" and "SliceStable newer_quote (direct_quotes a b qs) = []"
  obtains q1 d1 q2 d2 where "a \<noteq> ''USD''" and "b \<noteq> ''USD''" and "bridgeQuote a ''USD'' qs = Some (q1, d1)"
    and "bridgeQuote ''USD'' b qs = Some (q2, d2)" and "p = bridged q1 d1 q2 d2"
  using assms by (auto simp: pathFor_def bridged_def split: if_splits option.splits)

lemma pathFor_conversion:
  assumes "pathFor isISO a b qs = Inr p"
  shows "conversion qs a b (path_rate p) (path_edges p)"
proof (cases "a = b")
  case True
  then show ?thesis using assms by (auto simp: pathFor_def stay split: if_splits)
next
  case ab: False
  show ?thesis
  proof (cases "SliceStable newer_quote (direct_quotes a b qs)")
    case Nil
    then obtain q1 d1 q2 d2 where b1: "bridgeQuote a ''USD'' qs = Some (q1, d1)" and b2: "bridgeQuote ''USD'' b qs = Some (q2, d2)"
      and p: "p = bridged q1 d1 q2 d2"
      by (rule pathFor_bridged [OF assms ab])
    show ?thesis
      using bridge_conversion [OF b1 bridge_conversion [OF b2 stay]] by (simp add: p bridged_def)
  next
    case (Cons q rest)
    then have pos: "0 < fx_rate q"
      and p: "path_rate p = fx_rate q" "path_edges p = [\<lparr>fpe_QuoteRevisionID = fx_id q,
          fpe_Direction = (if fxr_base q = b then ''reverse'' else ''forward'')\<rparr>]"
      using assms ab by (auto simp: pathFor_def not_le split: if_splits)
    obtain x where x: "x \<in> set qs" "0 < fx_rate x" "fx_id q = fx_id x" "fxr_base q = fxr_base x"
      and "fxr_base x = a \<and> fxr_quote x = b \<and> fx_rate q = fx_rate x
        \<or> fxr_base x = b \<and> fxr_quote x = a \<and> fx_rate q = inverse (fx_rate x)"
      using newest_direct [OF Cons ab pos] by blast
    then show ?thesis
      using ab conversion.forward [OF x(1) _ _ x(2) stay] conversion.reverse [OF x(1) _ _ x(2) stay] by (auto simp: p)
  qed
qed

lemma path_edges_bound:
  assumes "pathFor isISO a b qs = Inr p"
  shows "length (path_edges p) \<le> 2"
  using assms by (auto simp: pathFor_def split: if_splits list.splits option.splits prod.splits)

text \<open>
  C30. A conversion path refines the specification \<open>conversion\<close>: it starts at the source,
  ends at the target, every edge is a loaded quote with a positive rate used in the direction the
  edge states, and the path's rate is the product of the rates, inverted where the direction is
  reverse. The rate is positive, at most two quotes are used, and none only between equal codes.
\<close>
theorem fx_path_refines_conversion:
  assumes "pathFor isISO source target quotes = Inr p"
  shows "conversion quotes source target (path_rate p) (path_edges p) \<and> 0 < path_rate p
    \<and> length (path_edges p) \<le> 2 \<and> (path_edges p = [] \<longleftrightarrow> source = target)"
proof -
  have c: "conversion quotes source target (path_rate p) (path_edges p)"
    using assms by (rule pathFor_conversion)
  moreover have "path_edges p = []" if "source = target"
    using that assms by (auto simp: pathFor_def split: if_splits)
  moreover have "source = target" if "path_edges p = []"
    using c unfolding that by (auto elim: conversion_NilE)
  ultimately show ?thesis
    using conversion_pos [OF c] path_edges_bound [OF assms] by blast
qed

definition sample_quotes :: "fxRevision list" where
  "sample_quotes =
     [\<lparr>fx_id = ''q1'', fxr_base = ''EUR'', fxr_quote = ''USD'', fx_rawID = [], fx_observation = 0, fx_rate = 5 / 4,
       fx_sourceKnown = None, fx_systemKnown = 0\<rparr>,
      \<lparr>fx_id = ''q2'', fxr_base = ''TRY'', fxr_quote = ''USD'', fx_rawID = [], fx_observation = 0, fx_rate = 1 / 40,
       fx_sourceKnown = None, fx_systemKnown = 0\<rparr>]"

lemma sample_path:
  "pathFor (\<lambda>_. True) ''EUR'' ''TRY'' sample_quotes = Inr \<lparr>path_rate = 50, path_edges =
     [\<lparr>fpe_QuoteRevisionID = ''q1'', fpe_Direction = ''forward''\<rparr>, \<lparr>fpe_QuoteRevisionID = ''q2'', fpe_Direction = ''reverse''\<rparr>]\<rparr>"
  by code_simp

theorem fx_path_refines_conversion_witness:
  "conversion sample_quotes ''EUR'' ''TRY'' 50
     [\<lparr>fpe_QuoteRevisionID = ''q1'', fpe_Direction = ''forward''\<rparr>, \<lparr>fpe_QuoteRevisionID = ''q2'', fpe_Direction = ''reverse''\<rparr>]"
  using fx_path_refines_conversion [OF sample_path] by simp

text \<open>With positive rates and fiat codes the search is complete for chains through at most one USD bridge.\<close>

definition linked :: "fxRevision list \<Rightarrow> string \<Rightarrow> string \<Rightarrow> bool" where
  "linked qs a b \<longleftrightarrow> (\<exists>q\<in>set qs. links q a b)"

lemma bridgeQuote_linked:
  "\<forall>q\<in>set qs. 0 < fx_rate q \<Longrightarrow> bridgeQuote a b qs \<noteq> None \<longleftrightarrow> linked qs a b"
  by (induction qs) (auto simp: linked_def links_def)

lemma direct_quotes_linked: "direct_quotes a b qs = [] \<longleftrightarrow> \<not> linked qs a b"
  by (auto simp: direct_quotes_eq linked_def filter_empty_conv)

text \<open>
  The search for a path misses nothing it is meant to find: with positive rates and two fiat
  codes it succeeds exactly when the codes are equal, some quote links them, or both differ from
  USD and are linked with it.
\<close>
theorem fx_path_complete:
  assumes "\<forall>q\<in>set quotes. 0 < fx_rate q" and "isFiatCode isISO source" and "isFiatCode isISO target"
  shows "(\<exists>p. pathFor isISO source target quotes = Inr p) \<longleftrightarrow>
    source = target \<or> linked quotes source target
    \<or> source \<noteq> ''USD'' \<and> target \<noteq> ''USD'' \<and> linked quotes source ''USD'' \<and> linked quotes ''USD'' target"
proof (cases "SliceStable newer_quote (direct_quotes source target quotes)")
  case Nil
  then have "\<not> linked quotes source target" by (simp add: direct_quotes_linked)
  then show ?thesis
    using assms(2,3) bridgeQuote_linked [OF assms(1), of source "''USD''"] bridgeQuote_linked [OF assms(1), of "''USD''" target] Nil
    by (auto simp: pathFor_def split: option.splits)
next
  case (Cons q rest)
  then have "q \<in> set (direct_quotes source target quotes)" by (rule SliceStable_head)
  with assms(1) have "0 < fx_rate q" by (auto simp: direct_quotes_eq)
  moreover have "linked quotes source target"
    using Cons direct_quotes_linked [of source target quotes] by fastforce
  ultimately show ?thesis using assms(2,3) Cons by (auto simp: pathFor_def)
qed

theorem fx_path_complete_witness:
  "\<exists>p. pathFor (\<lambda>_. True) ''EUR'' ''TRY'' sample_quotes = Inr p"
  using fx_path_complete [of sample_quotes "\<lambda>_. True" "''EUR''" "''TRY''"]
  by (simp add: sample_quotes_def isFiatCode_def go_simps linked_def links_def)

text \<open>
  Converting back is the inverse: whenever there is a path from one code to another there is
  one back, with the inverse rate, through the same quotes in the opposite order and directions.
\<close>
theorem fx_path_inverse:
  assumes "pathFor isISO source target quotes = Inr p"
  shows "\<exists>p'. pathFor isISO target source quotes = Inr p' \<and> path_rate p' = inverse (path_rate p)
    \<and> path_edges p' = rev (map (\<lambda>e. e\<lparr>fpe_Direction := flip_dir (fpe_Direction e)\<rparr>) (path_edges p))"
proof (cases "source = target")
  case True
  with assms show ?thesis by (auto simp: pathFor_def split: if_splits)
next
  case ne: False
  have sorted: "SliceStable newer_quote (direct_quotes target source quotes)
      = map flip_rate (SliceStable newer_quote (direct_quotes source target quotes))"
    unfolding direct_quotes_flip [OF ne] by (rule SliceStable_map) simp
  have fiat: "isFiatCode isISO source" "isFiatCode isISO target"
    using assms by (simp_all add: pathFor_def split: if_splits)
  show ?thesis
  proof (cases "SliceStable newer_quote (direct_quotes source target quotes)")
    case Nil
    then obtain q1 d1 q2 d2 where usd: "source \<noteq> ''USD''" "target \<noteq> ''USD''"
      and b1: "bridgeQuote source ''USD'' quotes = Some (q1, d1)" and b2: "bridgeQuote ''USD'' target quotes = Some (q2, d2)"
      and p: "p = bridged q1 d1 q2 d2"
      by (rule pathFor_bridged [OF assms ne])
    then have "pathFor isISO target source quotes = Inr (bridged (flip_rate q2) (flip_dir d2) (flip_rate q1) (flip_dir d1))"
      using ne fiat sorted Nil bridgeQuote_flip [of source "''USD''" quotes] bridgeQuote_flip [of "''USD''" target quotes]
      by (simp add: pathFor_def bridged_def)
    then show ?thesis
      using bridgeQuote_Some [OF b1] bridgeQuote_Some [OF b2] by (simp add: p bridged_def fx_rate_flip)
  next
    case (Cons q rest)
    then have pos: "0 < fx_rate q" and p: "p = \<lparr>path_rate = fx_rate q, path_edges = [\<lparr>fpe_QuoteRevisionID = fx_id q,
          fpe_Direction = (if fxr_base q = target then ''reverse'' else ''forward'')\<rparr>]\<rparr>"
      using assms ne by (simp_all add: pathFor_def split: if_splits)
    have "fxr_base q = source \<or> fxr_base q = target"
      using SliceStable_head [OF Cons] by (auto simp: direct_quotes_eq links_def)
    moreover have "pathFor isISO target source quotes = Inr \<lparr>path_rate = inverse (fx_rate q), path_edges =
        [\<lparr>fpe_QuoteRevisionID = fx_id q, fpe_Direction = (if fxr_base q = source then ''reverse'' else ''forward'')\<rparr>]\<rparr>"
      unfolding pathFor_def sorted Cons using ne fiat pos by (simp add: fx_rate_flip)
    ultimately show ?thesis using ne by (auto simp: p flip_dir_def)
  qed
qed

theorem fx_path_inverse_witness:
  "\<exists>p'. pathFor (\<lambda>_. True) ''TRY'' ''EUR'' sample_quotes = Inr p' \<and> path_rate p' = 1 / 50"
  using fx_path_inverse [OF sample_path] by (auto simp: inverse_eq_divide)

subsection \<open>Valued lines\<close>

lemma path_to_eq: "path_to isISO quote target fx = pathFor isISO quote target fx"
  by (auto simp: path_to_def pathFor_def split: sum.splits)

lemma path_to_conversion: "path_to isISO quote target fx = Inr p \<Longrightarrow> conversion fx quote target (path_rate p) (path_edges p)"
  by (simp add: path_to_eq pathFor_conversion)

text \<open>The amount of a line and the currency it is in: the quantity itself for cash, else at the selected price.\<close>

definition priced :: "snapshotLine \<Rightarrow> priceRevision list \<Rightarrow> rat \<Rightarrow> string \<Rightarrow> bool" where
  "priced line prices amount quote =
     (if is_cash line then amount = sl_quantity line \<and> quote = sl_nativeCurrency line
      else \<exists>p. selectPrice prices = Some p \<and> amount = sl_quantity line * pr_price p \<and> quote = pr_quote p)"

definition converted :: "fxRevision list \<Rightarrow> snapshotLine \<Rightarrow> priceRevision list \<Rightarrow> string \<Rightarrow> rat option \<Rightarrow> FXPathEntry list \<Rightarrow> bool" where
  "converted fx line prices target amount path = (case amount of
      None \<Rightarrow> path = []
    | Some x \<Rightarrow> \<exists>native quote rate. priced line prices native quote \<and> conversion fx quote target rate path \<and> x = native * rate)"

lemma convert_line_parts:
  assumes "convert_line isISO fx amount quote l = (l', tr, us)"
  shows "vl_State l' = (if vl_ReasonCodes l' = [] then StateValid else StateBlocked)"
    and "vl_ReasonCodes l' = [] \<longleftrightarrow> tr \<noteq> None \<and> us \<noteq> None"
    and "vl_TryAmount l' = map_option formatDecimal tr" and "vl_USDAmount l' = map_option formatDecimal us"
    and "vl_ID l' = vl_ID l"
    and "case tr of None \<Rightarrow> vl_TryFXPath l' = [] | Some x \<Rightarrow> \<exists>rate. conversion fx quote ''TRY'' rate (vl_TryFXPath l') \<and> x = amount * rate"
    and "case us of None \<Rightarrow> vl_USDFXPath l' = [] | Some x \<Rightarrow> \<exists>rate. conversion fx quote ''USD'' rate (vl_USDFXPath l') \<and> x = amount * rate"
  using assms by (auto simp: convert_line_def Let_def split: sum.splits) (blast dest: path_to_conversion)+

lemma value_line_parts:
  assumes "value_line isISO fx prices line = (l, tr, us)"
  shows "vl_State l = (if vl_ReasonCodes l = [] then StateValid else StateBlocked)"
    and "vl_ReasonCodes l = [] \<longleftrightarrow> tr \<noteq> None \<and> us \<noteq> None"
    and "vl_TryAmount l = map_option formatDecimal tr" and "vl_USDAmount l = map_option formatDecimal us"
    and "vl_ID l = []"
    and "converted fx line prices ''TRY'' tr (vl_TryFXPath l)" and "converted fx line prices ''USD'' us (vl_USDFXPath l)"
proof -
  have "vl_State l = (if vl_ReasonCodes l = [] then StateValid else StateBlocked)
    \<and> (vl_ReasonCodes l = [] \<longleftrightarrow> tr \<noteq> None \<and> us \<noteq> None)
    \<and> vl_TryAmount l = map_option formatDecimal tr \<and> vl_USDAmount l = map_option formatDecimal us \<and> vl_ID l = []
    \<and> converted fx line prices ''TRY'' tr (vl_TryFXPath l) \<and> converted fx line prices ''USD'' us (vl_USDFXPath l)"
  proof (cases "is_cash line \<or> selectPrice prices \<noteq> None")
    case True
    then obtain amount quote l0 where c: "convert_line isISO fx amount quote l0 = (l, tr, us)" and "vl_ID l0 = []"
      and p: "priced line prices amount quote"
      using assms by (auto simp: value_line_def priced_def base_line_def split: if_splits)
    then show ?thesis
      using convert_line_parts [OF c] by (auto simp: converted_def split: option.splits)
  next
    case False
    then show ?thesis using assms by (auto simp: value_line_def base_line_def converted_def)
  qed
  then show "vl_State l = (if vl_ReasonCodes l = [] then StateValid else StateBlocked)"
    and "vl_ReasonCodes l = [] \<longleftrightarrow> tr \<noteq> None \<and> us \<noteq> None"
    and "vl_TryAmount l = map_option formatDecimal tr" and "vl_USDAmount l = map_option formatDecimal us"
    and "vl_ID l = []"
    and "converted fx line prices ''TRY'' tr (vl_TryFXPath l)" and "converted fx line prices ''USD'' us (vl_USDFXPath l)"
    by blast+
qed

text \<open>
  C31. A valued line is justified: it is valid exactly when it carries no reason, which is exactly
  when both reporting amounts are there, and blocked otherwise; each amount is the quantity, times
  the selected price unless the line is cash, times the rate of a chain of loaded quotes into the
  reporting currency, which is the path the line reports; and it is stored with eighteen digits.
\<close>
theorem valued_line_justified:
  assumes "value_line isISO fx prices line = (l, tr, us)"
  shows "(vl_State l = StateValid \<longleftrightarrow> vl_ReasonCodes l = []) \<and> (vl_State l = StateBlocked \<longleftrightarrow> vl_ReasonCodes l \<noteq> [])
    \<and> (vl_ReasonCodes l = [] \<longleftrightarrow> tr \<noteq> None \<and> us \<noteq> None)
    \<and> converted fx line prices ''TRY'' tr (vl_TryFXPath l) \<and> vl_TryAmount l = map_option formatDecimal tr
    \<and> converted fx line prices ''USD'' us (vl_USDFXPath l) \<and> vl_USDAmount l = map_option formatDecimal us"
  using value_line_parts [OF assms] by auto

definition sample_cash :: snapshotLine where
  "sample_cash = \<lparr>sl_id = ''l1'', sl_instrumentID = ''i1'', sl_nativeCurrency = ''EUR'', sl_instrumentType = ''cash'', sl_quantity = 3\<rparr>"

lemma sample_path_usd:
  "pathFor (\<lambda>_. True) ''EUR'' ''USD'' sample_quotes = Inr \<lparr>path_rate = 5 / 4, path_edges =
     [\<lparr>fpe_QuoteRevisionID = ''q1'', fpe_Direction = ''forward''\<rparr>]\<rparr>"
  by code_simp

lemma sample_valued:
  "value_line (\<lambda>_. True) sample_quotes [] sample_cash = (fst (value_line (\<lambda>_. True) sample_quotes [] sample_cash), Some 150, Some (15 / 4))"
  by (simp add: value_line_def sample_cash_def is_cash_def convert_line_def path_to_eq sample_path sample_path_usd)

theorem valued_line_justified_witness:
  "vl_ReasonCodes (fst (value_line (\<lambda>_. True) sample_quotes [] sample_cash)) = []
   \<and> vl_TryAmount (fst (value_line (\<lambda>_. True) sample_quotes [] sample_cash)) = Some (formatDecimal 150)"
  using valued_line_justified [OF sample_valued] by simp

subsection \<open>The selected price\<close>

abbreviation price_eligible :: "vRequest \<Rightarrow> price_row \<Rightarrow> bool" where
  "price_eligible r row \<equiv> eligibleRevision (prw_observation row) (prw_source_known row) (prw_system_known row)
     (vr_KnowledgeMode r) (vr_Cutoff r) (vr_KnownAt r) (vr_PriceMaxAgeSeconds r)"

abbreviation price_key :: "vRequest \<Rightarrow> price_row \<Rightarrow> int \<times> int \<times> int \<times> string" where
  "price_key r row \<equiv> newest_first r (prw_observation row) (prw_source_known row) (prw_system_known row) (prw_id row)"

text \<open>The instants of a stored revision are those of its columns.\<close>

definition price_row_ok :: "price_row \<Rightarrow> bool" where
  "price_row_ok row \<longleftrightarrow> pg_time (prw_observation row) = prw_observation row
     \<and> pg_time (prw_system_known row) = prw_system_known row
     \<and> (\<forall>s. prw_source_known row = Some s \<longrightarrow> pg_time s = s)"

lemma price_eligible_in_window:
  assumes "0 \<le> vr_PriceMaxAgeSeconds r" and "vr_PriceMaxAgeSeconds r \<le> maxAgeSeconds" and "price_row_ok row" and "price_eligible r row"
  shows "in_window r (vr_PriceMaxAgeSeconds r) (prw_observation row) (prw_source_known row) (prw_system_known row)"
  using assms pg_time_le [of "vr_Cutoff r"]
  by (auto simp: eligible_iff in_window_def known_by_def price_row_ok_def pg_time_ge_iff split: if_splits option.splits)

lemma collect_prices_head:
  assumes "collect_prices r [] rows = Some ps"
  shows "(filter (price_eligible r) rows = [] \<longrightarrow> ps = [])
    \<and> (\<forall>row rest. filter (price_eligible r) rows = row # rest \<longrightarrow> (\<exists>p ps'. ps = p # ps' \<and> pr_id p = prw_id row
        \<and> pr_quote p = prw_quote row \<and> parseDecimal (prw_price row) = Some (pr_price p)))"
  using assms
proof (induction rows)
  case (Cons row rows)
  show ?case
  proof (cases "price_eligible r row")
    case False
    with Cons.prems have "collect_prices r [] rows = Some ps" by simp
    with Cons.IH False show ?thesis by simp
  next
    case True
    with Cons.prems show ?thesis by (simp split: option.splits) force
  qed
qed simp

lemma loadPrices_head:
  assumes "loadPrices fault i r db = Inr ps" and "0 \<le> vr_PriceMaxAgeSeconds r" and "vr_PriceMaxAgeSeconds r \<le> maxAgeSeconds"
    and "\<forall>row \<in> set (price_revisions db). price_row_ok row"
  defines "cand \<equiv> filter (\<lambda>row. prw_instrument row = i \<and> price_eligible r row) (price_revisions db)"
  shows "cand = [] \<and> ps = [] \<or> (\<exists>p ps'. cand \<noteq> [] \<and> ps = p # ps' \<and> pr_id p = prw_id (hd (sort_key (price_key r) cand))
     \<and> pr_quote p = prw_quote (hd (sort_key (price_key r) cand))
     \<and> parseDecimal (prw_price (hd (sort_key (price_key r) cand))) = Some (pr_price p))"
proof -
  let ?rows = "filter (\<lambda>row. prw_instrument row = i \<and> in_window r (vr_PriceMaxAgeSeconds r) (prw_observation row)
      (prw_source_known row) (prw_system_known row)) (price_revisions db)"
  have c: "collect_prices r [] (sort_key (price_key r) ?rows) = Some ps"
    using assms(1) by (auto simp: loadPrices_def Let_def split: if_splits option.splits)
  have "filter (price_eligible r) ?rows = cand"
    unfolding cand_def filter_filter
    by (rule filter_cong [OF refl]) (use assms(2-4) price_eligible_in_window in auto)
  then have f: "filter (price_eligible r) (sort_key (price_key r) ?rows) = sort_key (price_key r) cand"
    by (simp add: filter_sort)
  have e: "sort_key (price_key r) cand = [] \<longleftrightarrow> cand = []"
    by (metis mset_sort mset_zero_iff)
  show ?thesis
    using collect_prices_head [OF c] e unfolding f
    by (cases "sort_key (price_key r) cand") auto
qed

text \<open>
  The price of a line is the newest eligible one: over every stored revision of the
  instrument, the filter of the statement and the check in the program together select exactly
  the eligible revisions, no price is selected only when there is none, and otherwise the
  selected revision is first in the order by observation time, source clock where it counts,
  system clock and identifier.
\<close>
theorem price_is_newest_eligible:
  assumes "loadPrices fault i r db = Inr ps" and "0 \<le> vr_PriceMaxAgeSeconds r" and "vr_PriceMaxAgeSeconds r \<le> maxAgeSeconds"
    and "\<forall>row \<in> set (price_revisions db). price_row_ok row"
  shows "(selectPrice ps = None \<longleftrightarrow> (\<forall>row \<in> set (price_revisions db). \<not> (prw_instrument row = i \<and> price_eligible r row)))
    \<and> (\<forall>p. selectPrice ps = Some p \<longrightarrow> (\<exists>row \<in> set (price_revisions db). prw_instrument row = i \<and> price_eligible r row
        \<and> pr_id p = prw_id row \<and> pr_quote p = prw_quote row \<and> parseDecimal (prw_price row) = Some (pr_price p)
        \<and> (\<forall>row' \<in> set (price_revisions db). prw_instrument row' = i \<and> price_eligible r row' \<longrightarrow> price_key r row \<le> price_key r row')))"
proof -
  define cand where "cand = filter (\<lambda>row. prw_instrument row = i \<and> price_eligible r row) (price_revisions db)"
  let ?h = "hd (sort_key (price_key r) cand)"
  have cases: "cand = [] \<and> ps = [] \<or> (\<exists>p ps'. cand \<noteq> [] \<and> ps = p # ps' \<and> pr_id p = prw_id ?h \<and> pr_quote p = prw_quote ?h
      \<and> parseDecimal (prw_price ?h) = Some (pr_price p))"
    using loadPrices_head [OF assms] unfolding cand_def by blast
  have min: "?h \<in> set cand \<and> (\<forall>row'\<in>set cand. price_key r ?h \<le> price_key r row')" if "cand \<noteq> []"
    by (intro conjI ballI hd_sort_key_min [OF that])
  have cand: "row \<in> set cand \<longleftrightarrow> row \<in> set (price_revisions db) \<and> prw_instrument row = i \<and> price_eligible r row" for row
    by (simp add: cand_def)
  have none: "cand = [] \<longleftrightarrow> (\<forall>row \<in> set (price_revisions db). \<not> (prw_instrument row = i \<and> price_eligible r row))"
    by (simp add: cand_def filter_empty_conv)
  show ?thesis
  proof (cases "cand = []")
    case True
    with cases have "ps = []" by blast
    then show ?thesis using True none by (simp add: selectPrice_def)
  next
    case False
    with cases obtain p ps' where ps: "ps = p # ps'" and p: "pr_id p = prw_id ?h \<and> pr_quote p = prw_quote ?h
        \<and> parseDecimal (prw_price ?h) = Some (pr_price p)" by blast
    have sel: "selectPrice ps = Some p" using ps by (simp add: selectPrice_def)
    have h: "?h \<in> set (price_revisions db) \<and> prw_instrument ?h = i \<and> price_eligible r ?h"
      using min [OF False] unfolding cand by (rule conjunct1)
    have least: "\<forall>row' \<in> set (price_revisions db). prw_instrument row' = i \<and> price_eligible r row' \<longrightarrow> price_key r ?h \<le> price_key r row'"
      using min [OF False] cand by blast
    show ?thesis
    proof (intro conjI allI impI)
      show "selectPrice ps = None \<longleftrightarrow> (\<forall>row \<in> set (price_revisions db). \<not> (prw_instrument row = i \<and> price_eligible r row))"
        using sel False none by (simp only: option.distinct)
      fix q assume "selectPrice ps = Some q"
      with sel have "q = p" by simp
      with h p least show "\<exists>row \<in> set (price_revisions db). prw_instrument row = i \<and> price_eligible r row
        \<and> pr_id q = prw_id row \<and> pr_quote q = prw_quote row \<and> parseDecimal (prw_price row) = Some (pr_price q)
        \<and> (\<forall>row' \<in> set (price_revisions db). prw_instrument row' = i \<and> price_eligible r row' \<longrightarrow> price_key r row \<le> price_key r row')"
        by blast
    qed
  qed
qed

definition sample_price :: "string \<Rightarrow> time \<Rightarrow> price_row" where
  "sample_price i t = \<lparr>prw_id = i, prw_instrument = ''i1'', prw_quote = ''USD'', prw_observation = t, prw_price = ''12'',
     prw_source_known = None, prw_system_known = 0, prw_raw = []\<rparr>"

definition sample_request :: vRequest where
  "sample_request = \<lparr>vr_SnapshotID = ''s'', vr_Cutoff = 9000, vr_KnowledgeMode = KnowledgeSystem, vr_KnownAt = 9000,
     vr_PriceMaxAgeSeconds = 60, vr_FXMaxAgeSeconds = 60\<rparr>"

definition sample_val_db :: val_db where
  "sample_val_db = \<lparr>portfolio_snapshot_lines = [], price_revisions = [sample_price ''p1'' 1000, sample_price ''p2'' 3000],
     fx_quote_revisions = [], valuation_runs = [], valuation_lines = []\<rparr>"

lemma sample_prices:
  "loadPrices no_fault ''i1'' sample_request sample_val_db = Inr [\<lparr>pr_id = ''p2'', pr_quote = ''USD'', pr_rawID = [],
     pr_observation = 3000, pr_price = 12, pr_sourceKnown = None, pr_systemKnown = 0\<rparr>]"
  by code_simp

theorem price_is_newest_eligible_witness:
  "\<exists>row \<in> set (price_revisions sample_val_db). prw_id row = ''p2'' \<and> price_eligible sample_request row
     \<and> (\<forall>row' \<in> set (price_revisions sample_val_db). prw_instrument row' = ''i1'' \<and> price_eligible sample_request row'
          \<longrightarrow> price_key sample_request row \<le> price_key sample_request row')"
proof -
  have "\<forall>row \<in> set (price_revisions sample_val_db). price_row_ok row"
    by (simp add: sample_val_db_def sample_price_def price_row_ok_def pg_time_def)
  moreover have "0 \<le> vr_PriceMaxAgeSeconds sample_request" and "vr_PriceMaxAgeSeconds sample_request \<le> maxAgeSeconds"
    by (simp_all add: sample_request_def maxAgeSeconds_def)
  ultimately show ?thesis
    using price_is_newest_eligible [OF sample_prices] by (auto simp: selectPrice_def)
qed

subsection \<open>Stored runs\<close>

definition stored_amount :: "string option \<Rightarrow> rat" where
  "stored_amount a = (case a of None \<Rightarrow> 0 | Some s \<Rightarrow> (case parseDecimal s of None \<Rightarrow> 0 | Some v \<Rightarrow> v))"

lemma stored_total_sum: "stored_total f ls = sum_list (map (stored_amount \<circ> f) ls)"
proof -
  have "foldl (\<lambda>t l. case f l of None \<Rightarrow> t | Some s \<Rightarrow> (case parseDecimal s of None \<Rightarrow> t | Some v \<Rightarrow> t + v)) t ls
      = t + sum_list (map (stored_amount \<circ> f) ls)" for t
    by (induction ls arbitrary: t) (simp_all add: stored_amount_def add.assoc split: option.splits)
  then show ?thesis by (simp add: stored_total_def)
qed

lemma add_total_sum: "add_total xs = sum_list (map (stored_amount \<circ> map_option formatDecimal) xs)"
proof -
  have "foldl (\<lambda>t x. case x of None \<Rightarrow> t | Some v \<Rightarrow> t + roundedDecimal v) t xs
      = t + sum_list (map (stored_amount \<circ> map_option formatDecimal) xs)" for t
    by (induction xs arbitrary: t)
      (simp_all add: stored_amount_def valuation_decimal.parse_fmt valuation_decimal.scale_round18 add.assoc split: option.splits)
  then show ?thesis by (simp add: add_total_def)
qed

lemma sum_list_mset_cong:
  fixes xs ys :: "rat list"
  shows "mset xs = mset ys \<Longrightarrow> sum_list xs = sum_list ys"
  by (metis sum_mset_sum_list)

lemma value_lines_each:
  "value_lines isISO prices fx ls = Inr rs \<Longrightarrow> x \<in> set rs \<Longrightarrow> \<exists>ps l. x = value_line isISO fx ps l"
  by (induction ls arbitrary: rs) (auto simp: res_simps, blast)

lemma pathArrays_back:
  assumes "pathArrays scanUUID es = Some (ids, ds)" and "\<forall>e\<in>set es. scanUUID (fpe_QuoteRevisionID e) = Some (fpe_QuoteRevisionID e)"
  shows "fxPathFromArrays ids ds = es"
  using assms by (induction es arbitrary: ids ds) (auto split: option.splits)

definition restored :: "line_row \<Rightarrow> vLine" where
  "restored x = (lrw_line x)\<lparr>vl_TryFXPath := fxPathFromArrays (fst (lrw_try x)) (snd (lrw_try x)),
     vl_USDFXPath := fxPathFromArrays (fst (lrw_usd x)) (snd (lrw_usd x))\<rparr>"

abbreviation without_id :: "vLine \<Rightarrow> vLine" where
  "without_id l \<equiv> l\<lparr>vl_ID := []\<rparr>"

definition edges_canonical :: "(string \<Rightarrow> string option) \<Rightarrow> vLine \<Rightarrow> bool" where
  "edges_canonical scanUUID l \<longleftrightarrow>
     (\<forall>e\<in>set (vl_TryFXPath l) \<union> set (vl_USDFXPath l). scanUUID (fpe_QuoteRevisionID e) = Some (fpe_QuoteRevisionID e))"

lemma persist_lines_restored:
  assumes "persist_lines scanUUID fault runID newID n ls = Inr rows"
    and "\<forall>l\<in>set ls. vl_ID l = [] \<and> edges_canonical scanUUID l"
  shows "map (without_id \<circ> restored) rows = ls \<and> (\<forall>x\<in>set rows. lrw_run x = runID)"
  using assms
proof (induction ls arbitrary: n rows)
  case (Cons l ls)
  from Cons.prems(1) obtain t u rest where t: "pathArrays scanUUID (vl_TryFXPath l) = Some t"
    and u: "pathArrays scanUUID (vl_USDFXPath l) = Some u" and rest: "persist_lines scanUUID fault runID newID (n + 1) ls = Inr rest"
    and rows: "rows = \<lparr>lrw_run = runID, lrw_line = l\<lparr>vl_ID := newID n, vl_TryFXPath := [], vl_USDFXPath := []\<rparr>,
      lrw_try = t, lrw_usd = u\<rparr> # rest"
    by (auto simp: res_simps split: option.splits if_splits)
  have "fxPathFromArrays (fst t) (snd t) = vl_TryFXPath l" and "fxPathFromArrays (fst u) (snd u) = vl_USDFXPath l"
    using Cons.prems(2) t u by (auto simp: edges_canonical_def intro!: pathArrays_back)
  then show ?case
    using Cons.IH [OF rest] Cons.prems(2) by (simp add: rows restored_def)
qed simp

lemma conversion_edges:
  "conversion qs a b r es \<Longrightarrow> e \<in> set es \<Longrightarrow> fpe_QuoteRevisionID e \<in> fx_id ` set qs"
  by (induction rule: conversion.induct) auto

lemma converted_edges:
  "converted fx line prices target amount path \<Longrightarrow> e \<in> set path \<Longrightarrow> fpe_QuoteRevisionID e \<in> fx_id ` set fx"
  by (auto simp: converted_def dest: conversion_edges split: option.splits)

lemma collect_fx_ids: "collect_fx r seen rows = Some qs \<Longrightarrow> fx_id ` set qs \<subseteq> frw_id ` set rows"
  by (induction r seen rows arbitrary: qs rule: collect_fx.induct) (auto split: if_splits option.splits, blast)

lemma loadFX_ids: "loadFX fault r db = Inr qs \<Longrightarrow> fx_id ` set qs \<subseteq> frw_id ` set (fx_quote_revisions db)"
  by (auto simp: loadFX_def Let_def dest!: collect_fx_ids split: if_splits option.splits)

text \<open>A call that got as far as a stored run: the lines it computed and the tables after the commit.\<close>

definition stored_run :: "(string \<Rightarrow> string option) \<Rightarrow> time \<Rightarrow> string \<Rightarrow> vRequest \<Rightarrow> vRun \<Rightarrow> run_row" where
  "stored_run castUUID now runID request run = \<lparr>rrw_run = run\<lparr>run_ID := runID,
      run_SnapshotID := the (castUUID (vr_SnapshotID request)), run_Cutoff := pg_time (vr_Cutoff request),
      run_KnownAt := pg_time (vr_KnownAt request), run_CreatedAt := now\<rparr>, rrw_request = request\<rparr>"

lemma Create_cases:
  obtains (failed) e where "Create pool isISO castUUID scanUUID hash fault getFault now runID newID request db = (db, Inl e)"
  | (stored) fx ls results rows where "loadFX fault request db = Inr fx"
      and "value_lines isISO (\<lambda>i. loadPrices fault i request db) fx ls = Inr results"
      and "persist_lines scanUUID fault runID newID 0 (map fst results) = Inr rows"
      and "Create pool isISO castUUID scanUUID hash fault getFault now runID newID request db =
        (let db1 = db\<lparr>valuation_runs := valuation_runs db @ [stored_run castUUID now runID request (build_run hash request results)],
            valuation_lines := valuation_lines db @ rows\<rparr> in (db1, get_run castUUID getFault runID db1))"
proof (cases "\<exists>e. Create pool isISO castUUID scanUUID hash fault getFault now runID newID request db = (db, Inl e)")
  case True
  then show ?thesis using failed by blast
next
  case False
  then show ?thesis
    by (auto simp: Create_def persist_def stored_run_def build_run_def Let_def split: if_splits sum.splits prod.splits intro: stored)
qed

lemma results_lines:
  assumes "loadFX fault request db = Inr fx" and "value_lines isISO prices fx ls = Inr results"
    and "\<forall>row\<in>set (fx_quote_revisions db). scanUUID (frw_id row) = Some (frw_id row)" and "x \<in> set results"
  shows "vl_ID (fst x) = [] \<and> edges_canonical scanUUID (fst x) \<and> vl_TryAmount (fst x) = map_option formatDecimal (fst (snd x))
    \<and> vl_USDAmount (fst x) = map_option formatDecimal (snd (snd x))"
proof -
  obtain ps l where "x = value_line isISO fx ps l" using value_lines_each [OF assms(2,4)] by blast
  then have v: "value_line isISO fx ps l = (fst x, fst (snd x), snd (snd x))" by simp
  have "scanUUID (fpe_QuoteRevisionID e) = Some (fpe_QuoteRevisionID e)"
    if "e \<in> set (vl_TryFXPath (fst x)) \<union> set (vl_USDFXPath (fst x))" for e
  proof -
    have "fpe_QuoteRevisionID e \<in> fx_id ` set fx"
      using that converted_edges [OF value_line_parts(6) [OF v], of e] converted_edges [OF value_line_parts(7) [OF v], of e] by auto
    with loadFX_ids [OF assms(1)] have "fpe_QuoteRevisionID e \<in> frw_id ` set (fx_quote_revisions db)" by (rule subsetD)
    with assms(3) show ?thesis by auto
  qed
  then show ?thesis using value_line_parts(3,4,5) [OF v] by (simp add: edges_canonical_def)
qed

lemma get_appended:
  assumes "get_run castUUID getFault runID (db\<lparr>valuation_runs := valuation_runs db @ [row], valuation_lines := valuation_lines db @ rows\<rparr>) = Inr run"
    and "castUUID runID = Some runID" and "run_ID (rrw_run row) = runID" and "\<forall>x\<in>set rows. lrw_run x = runID"
    and "\<forall>x\<in>set (valuation_runs db). run_ID (rrw_run x) \<noteq> runID" and "\<forall>x\<in>set (valuation_lines db). lrw_run x \<noteq> runID"
  shows "run = (rrw_run row)\<lparr>run_Lines := map restored (sort_key (vl_ID \<circ> lrw_line) rows),
      run_Totals := \<lparr>vt_TRY = formatDecimal (stored_total vl_TryAmount (map restored (sort_key (vl_ID \<circ> lrw_line) rows))),
                     vt_USD = formatDecimal (stored_total vl_USDAmount (map restored (sort_key (vl_ID \<circ> lrw_line) rows)))\<rparr>\<rparr>"
proof -
  have "filter (\<lambda>x. lrw_run x = runID) (valuation_lines db @ rows) = rows"
    using assms(4,6) by (simp add: filter_empty_conv)
  moreover have "find (\<lambda>row. Some (run_ID (rrw_run row)) = castUUID runID) (valuation_runs db @ [row]) = Some row"
    using assms(2,3,5) by (intro find_appended) auto
  moreover have "restored = (\<lambda>x. (lrw_line x)\<lparr>vl_TryFXPath := fxPathFromArrays (fst (lrw_try x)) (snd (lrw_try x)),
     vl_USDFXPath := fxPathFromArrays (fst (lrw_usd x)) (snd (lrw_usd x))\<rparr>)"
    by (simp add: fun_eq_iff restored_def)
  ultimately show ?thesis
    using assms(1-3) by (simp add: get_run_def Let_def split: if_splits)
qed

text \<open>
  C32. What a successful \<open>Create\<close> returns is what it computed and stored: the lines read back,
  apart from their generated identifiers, are the computed lines in some order; the totals are
  the sums of the stored line amounts; and the result hash was taken over exactly these lines and
  these totals, although they were formed from the unrounded amounts before the rows were written.
\<close>
theorem valuation_create_round_trip:
  assumes "Create pool isISO castUUID scanUUID hash fault getFault now runID newID request db = (db', Inr run)"
    and "castUUID runID = Some runID"
    and "\<forall>row\<in>set (fx_quote_revisions db). scanUUID (frw_id row) = Some (frw_id row)"
    and "\<forall>x\<in>set (valuation_runs db). run_ID (rrw_run x) \<noteq> runID" and "\<forall>x\<in>set (valuation_lines db). lrw_run x \<noteq> runID"
  shows "run_Totals run = \<lparr>vt_TRY = formatDecimal (\<Sum>l\<leftarrow>run_Lines run. stored_amount (vl_TryAmount l)),
                           vt_USD = formatDecimal (\<Sum>l\<leftarrow>run_Lines run. stored_amount (vl_USDAmount l))\<rparr>
    \<and> (\<exists>ls. run_ResultHash run = hash request ls (run_Totals run) \<and> mset (map without_id (run_Lines run)) = mset ls
        \<and> (vrun_State run = StateValid \<longleftrightarrow> list_all (\<lambda>l. vl_ReasonCodes l = []) ls))"
proof (cases rule: Create_cases [of pool isISO castUUID scanUUID hash fault getFault now runID newID request db])
  case (failed e)
  with assms(1) show ?thesis by simp
next
  case (stored fx ls results rows)
  note parts = results_lines [OF stored(1,2) assms(3)]
  have res: "map (without_id \<circ> restored) rows = map fst results \<and> (\<forall>x\<in>set rows. lrw_run x = runID)"
    using parts by (intro persist_lines_restored [OF stored(3)]) auto
  define out where "out = map restored (sort_key (vl_ID \<circ> lrw_line) rows)"
  have "get_run castUUID getFault runID (db\<lparr>valuation_runs := valuation_runs db @ [stored_run castUUID now runID request (build_run hash request results)],
      valuation_lines := valuation_lines db @ rows\<rparr>) = Inr run"
    using assms(1) unfolding stored(4) Let_def by (elim Pair_inject)
  then have run: "run = (rrw_run (stored_run castUUID now runID request (build_run hash request results)))\<lparr>run_Lines := out,
      run_Totals := \<lparr>vt_TRY = formatDecimal (stored_total vl_TryAmount out), vt_USD = formatDecimal (stored_total vl_USDAmount out)\<rparr>\<rparr>"
    unfolding out_def by (rule get_appended) (use assms(2,4,5) res in \<open>simp_all add: stored_run_def\<close>)
  have "mset (map without_id out) = mset (map (without_id \<circ> restored) rows)"
    by (simp add: out_def image_mset.compositionality)
  then have perm: "mset (map without_id out) = mset (map fst results)" using res by simp
  have total: "stored_total f out = add_total (map g results)"
    if f: "\<And>l. f (without_id l) = f l" and g: "\<And>x. x \<in> set results \<Longrightarrow> f (fst x) = map_option formatDecimal (g x)" for f g
  proof -
    have "map (stored_amount \<circ> f) out = map (stored_amount \<circ> f) (map without_id out)" using f by simp
    moreover have "mset (map (stored_amount \<circ> f) (map without_id out)) = mset (map (stored_amount \<circ> f) (map fst results))"
      using perm by (metis mset_map)
    moreover have "map (stored_amount \<circ> f) (map fst results) = map (stored_amount \<circ> map_option formatDecimal) (map g results)"
      using g by simp
    ultimately show ?thesis unfolding stored_total_sum add_total_sum by (metis sum_list_mset_cong)
  qed
  have t: "run_Totals run = run_Totals (build_run hash request results)"
    using total [of vl_TryAmount "fst \<circ> snd"] total [of vl_USDAmount "snd \<circ> snd"] parts by (simp add: run build_run_def Let_def)
  have "run_ResultHash run = hash request (map fst results) (run_Totals run)"
    unfolding t by (simp add: run stored_run_def build_run_def Let_def)
  moreover have "vrun_State run = StateValid \<longleftrightarrow> list_all (\<lambda>l. vl_ReasonCodes l = []) (map fst results)"
    by (simp add: run stored_run_def build_run_def Let_def list_ex_iff list_all_iff)
  moreover have "run_Lines run = out" by (simp add: run)
  ultimately show ?thesis using perm by (auto simp: run stored_total_sum comp_def)
qed

definition sample_holding_db :: val_db where
  "sample_holding_db = \<lparr>portfolio_snapshot_lines = [\<lparr>slr_snapshot = ''s'', slr_id = ''l1'', slr_account = ''a1'', slr_portfolio = ''p1'', slr_instrument = ''i1'',
       slr_quantity = ''0.000000000000000007'', slr_native_currency = ''USD'', slr_instrument_type = ''cash'', slr_reporting_currency = ''TRY''\<rparr>],
     price_revisions = [], fx_quote_revisions = [\<lparr>frw_id = ''q2'', frw_base = ''TRY'', frw_quote = ''USD'', frw_observation = 3000,
       frw_rate = ''0.5'', frw_source_known = None, frw_system_known = 0, frw_raw = []\<rparr>],
     valuation_runs = [], valuation_lines = []\<rparr>"

abbreviation sample_create :: "db_fault \<Rightarrow> val_db \<times> (val_error + vRun)" where
  "sample_create fault \<equiv> Create True (\<lambda>_. True) Some Some (\<lambda>_ _ _. ''h'') fault no_fault 7 ''r'' (\<lambda>n. ''v'') sample_request sample_holding_db"

lemma sample_created: "\<not> isl (snd (sample_create no_fault))"
  by code_simp

theorem valuation_create_round_trip_witness:
  "\<exists>run. snd (sample_create no_fault) = Inr run
     \<and> vt_TRY (run_Totals run) = formatDecimal (\<Sum>l\<leftarrow>run_Lines run. stored_amount (vl_TryAmount l))"
proof -
  obtain run where "snd (sample_create no_fault) = Inr run" using sample_created by (metis sum.collapse(2))
  then have "sample_create no_fault = (fst (sample_create no_fault), Inr run)" by (metis prod.collapse)
  from valuation_create_round_trip [OF this] have "vt_TRY (run_Totals run) = formatDecimal (\<Sum>l\<leftarrow>run_Lines run. stored_amount (vl_TryAmount l))"
    by (simp add: sample_holding_db_def)
  then show ?thesis using \<open>snd (sample_create no_fault) = Inr run\<close> by blast
qed

text \<open>
  A failing \<open>Create\<close> is atomic: the tables are as before, except when everything was
  committed and only the final read of the stored run failed; then exactly one run was added. With
  a working final read an error always means that nothing was stored.
\<close>
theorem valuation_error_rolls_back:
  assumes "Create pool isISO castUUID scanUUID hash fault getFault now runID newID request db = (db', Inl e)"
    and "castUUID runID = Some runID"
  shows "(db' = db \<or> (\<exists>row rows. db' = db\<lparr>valuation_runs := valuation_runs db @ [row], valuation_lines := valuation_lines db @ rows\<rparr>
      \<and> get_run castUUID getFault runID db' = Inl e))
    \<and> (getFault = no_fault \<longrightarrow> db' = db)"
proof (cases rule: Create_cases [of pool isISO castUUID scanUUID hash fault getFault now runID newID request db])
  case (failed e)
  with assms(1) show ?thesis by simp
next
  case (stored fx ls results rows)
  let ?row = "stored_run castUUID now runID request (build_run hash request results)"
  let ?db1 = "db\<lparr>valuation_runs := valuation_runs db @ [?row], valuation_lines := valuation_lines db @ rows\<rparr>"
  have db': "db' = ?db1" and e: "get_run castUUID getFault runID ?db1 = Inl e"
    using assms(1) unfolding stored(4) Let_def by (elim Pair_inject, simp)+
  have "find (\<lambda>row. Some (run_ID (rrw_run row)) = castUUID runID) (valuation_runs ?db1) \<noteq> None"
    using assms(2) by (auto simp: find_None_iff stored_run_def intro!: exI [of _ ?row])
  then have "getFault \<noteq> no_fault" using e assms(2) by (auto simp: get_run_def Let_def split: option.splits)
  then show ?thesis using db' e by blast
qed

theorem valuation_error_rolls_back_witness:
  "fst (sample_create (\<lambda>s. s = DbCommit)) = sample_holding_db \<and> snd (sample_create (\<lambda>s. s = DbCommit)) = Inl (VErr ''commit valuation'')"
proof -
  have e: "snd (sample_create (\<lambda>s. s = DbCommit)) = Inl (VErr ''commit valuation'')" by code_simp
  then have "sample_create (\<lambda>s. s = DbCommit) = (fst (sample_create (\<lambda>s. s = DbCommit)), Inl (VErr ''commit valuation''))"
    by (metis prod.collapse)
  from valuation_error_rolls_back [OF this] e show ?thesis by simp
qed

end
