(* ===== verification/Reconciliation_Properties.thy ===== *)
theory Reconciliation_Properties
  imports Reconciliation Valuation_Properties
begin

text \<open>
  What the reconciliation service promises: the published figures of a checkpoint justify its
  published state, complete line checks cover the account and add up, a new tolerance applies to
  the next checkpoint, a failing operation stores nothing and a stored checkpoint reads back. The
  comparison of identifiers as text is shown to refuse an account whose identifier is not written
  canonically. The decimal codec is the second interpretation of \<open>decimal_codec\<close>.
\<close>

interpretation reconciliation_decimal: decimal_codec rec_formatDecimal rec_parseDecimal scaleDecimal
  by unfold_locales
    (simp_all add: rec_formatDecimal_def rec_parseDecimal_def rec_validDecimal_def scaleDecimal_def
      decimalPattern_print18 SetString_scaled_quotient)

subsection \<open>Successful calls\<close>

lemma rec_normalize_simps [simp]:
  "rr_AccountID (rec_normalize r) = TrimSpace (rr_AccountID r)" "rr_SourceLabel (rec_normalize r) = TrimSpace (rr_SourceLabel r)"
  "rr_Currency (rec_normalize r) = ToUpper (TrimSpace (rr_Currency r))" "rr_Cutoff (rec_normalize r) = rr_Cutoff r"
  "rr_ExternalNAV (rec_normalize r) = TrimSpace (rr_ExternalNAV r)" "rr_LineChecks (rec_normalize r) = rr_LineChecks r"
  "rr_LineChecksComplete (rec_normalize r) = rr_LineChecksComplete r"
  by (simp_all add: rec_normalize_def)

lemma Create_checkpoint_cases:
  obtains (failed) e where "Create_checkpoint pool castUUID scanUUID mapOrder fault now newID valuationID request db = (db, Inl e)"
  | (stored) nav cp where "rec_parseDecimal (TrimSpace (rr_ExternalNAV request)) = Some nav"
      and "check_inputs scanUUID [] (rr_LineChecks request) = Inr ()"
      and "reconcile castUUID mapOrder fault valuationID (rec_normalize request) (scaleDecimal nav) db = Inr cp"
      and "Create_checkpoint pool castUUID scanUUID mapOrder fault now newID valuationID request db =
        (db\<lparr>checkpoints := checkpoints db @ [cp\<lparr>cp_ID := newID, cp_ValuationID := the (castUUID valuationID),
               cp_AccountID := the (castUUID (TrimSpace (rr_AccountID request))), cp_Cutoff := pg_time (rr_Cutoff request),
               cp_LineChecks := [], cp_CreatedAt := now\<rparr>],
             line_checks := line_checks db @ map (Pair newID) (cp_LineChecks cp)\<rparr>,
         Inr (cp\<lparr>cp_ID := newID, cp_CreatedAt := now\<rparr>))"
proof (cases "\<exists>e. Create_checkpoint pool castUUID scanUUID mapOrder fault now newID valuationID request db = (db, Inl e)")
  case True
  then show ?thesis using failed by blast
next
  case False
  then show ?thesis
    by (auto simp: Create_checkpoint_def Let_def split: if_splits option.splits sum.splits intro: stored)
qed

abbreviation scan_of :: "recRequest \<Rightarrow> valuationInfo \<Rightarrow> rec_db \<Rightarrow> scanned" where
  "scan_of r v db \<equiv> scan_rows (rr_AccountID r) (joined_lines (vi_id v) (vi_snapshotID v) (rr_Currency r) (rec_val db))"

lemma reconcile_cases:
  assumes "reconcile castUUID mapOrder fault valuationID r nav db = Inr cp"
  obtains portfolio v tol checks where "castUUID (rr_AccountID r) \<noteq> None" and "load_valuation castUUID fault valuationID db = Inr v"
    and "account_lines_ok mapOrder portfolio v (scan_of r v db) = Inr ()"
    and "load_tolerance castUUID fault (rr_AccountID r) nav db = Inr tol"
    and "check_lines castUUID fault r nav v db (scan_of r v db) = Inr checks"
    and "cp = build_checkpoint valuationID r nav (valuation_nav (scan_of r v db)) tol checks"
proof -
  show ?thesis
    using assms unfolding reconcile_def Let_def
    by (simp add: res_simps split: if_splits option.splits) (elim exE conjE, rule that, simp, assumption+, simp)
qed

subsection \<open>What the scan collects\<close>

lemma AList_update_filter:
  "P k \<Longrightarrow> filter (P \<circ> fst) (AList.update k v xs) = AList.update k v (filter (P \<circ> fst) xs)"
  by (induction xs) auto

lemma AList_update_filter_other:
  "\<not> P k \<Longrightarrow> filter (P \<circ> fst) (AList.update k v xs) = filter (P \<circ> fst) xs"
  by (induction xs) auto

lemma AList_update_subset: "set (AList.update k v xs) \<subseteq> insert (k, v) (set xs)"
  by (induction xs) auto

text \<open>
  The rows name the account of a line consistently (a line has one account), so the maps of the
  program agree: the account's lines are those of all lines that belong to it.
\<close>

definition scan_inv :: "string \<Rightarrow> (string \<Rightarrow> string) \<Rightarrow> joined list \<Rightarrow> scanned \<Rightarrow> bool" where
  "scan_inv account acct rows st \<longleftrightarrow>
     sc_accountLines st = filter ((\<lambda>i. acct i = account) \<circ> fst) (sc_allLines st)
     \<and> distinct (map fst (sc_allLines st)) \<and> distinct (sc_expected st)
     \<and> set (sc_expected st) = {i \<in> fst ` set rows. acct i = account}
     \<and> (\<forall>(i, l) \<in> set (sc_allLines st). vln_id l = i \<and> vln_accountID l = acct i
          \<and> (\<exists>s. (i, acct i, Some (Some s, ''valid'')) \<in> set rows \<and> rec_parseDecimal s = Some (vln_amount l)))"

lemma scan_inv_empty: "scan_inv account acct [] empty_scan"
  by (simp add: scan_inv_def empty_scan_def)

lemma scan_inv_weaken:
  assumes "scan_inv account acct rows st"
  shows "scan_inv account acct (rows @ [(i, acct i, v)])
     (if acct i = account then st\<lparr>sc_expected := List.insert i (sc_expected st)\<rparr> else st)"
  using assms by (auto simp: scan_inv_def; blast)

lemma scan_inv_bookkeeping:
  "scan_inv account acct rows (st\<lparr>sc_counted := c\<rparr>) = scan_inv account acct rows st"
  "scan_inv account acct rows (st\<lparr>sc_invalid := c\<rparr>) = scan_inv account acct rows st"
  by (simp_all add: scan_inv_def)

lemma scan_inv_line:
  assumes "scan_inv account acct rows st" and "(i, acct i, Some (Some s, ''valid'')) \<in> set rows" and "rec_parseDecimal s = Some r"
  defines "line \<equiv> \<lparr>vln_id = i, vln_accountID = acct i, vln_amount = r\<rparr>"
  shows "scan_inv account acct rows (if acct i = account
     then st\<lparr>sc_allLines := AList.update i line (sc_allLines st), sc_accountLines := AList.update i line (sc_accountLines st)\<rparr>
     else st\<lparr>sc_allLines := AList.update i line (sc_allLines st)\<rparr>)"
proof -
  have "\<forall>(j, l) \<in> set (AList.update i line (sc_allLines st)). vln_id l = j \<and> vln_accountID l = acct j
      \<and> (\<exists>s. (j, acct j, Some (Some s, ''valid'')) \<in> set rows \<and> rec_parseDecimal s = Some (vln_amount l))"
    using assms subsetD [OF AList_update_subset] by (fastforce simp: scan_inv_def line_def)
  then show ?thesis
    using assms(1) unfolding scan_inv_def
    by (simp add: AList_update_filter [of "\<lambda>i. acct i = account"] AList_update_filter_other [of "\<lambda>i. acct i = account"] distinct_update)
qed

lemma scan_row_inv:
  assumes "scan_inv account acct rows st" and "row = (i, acct i, v)"
  shows "scan_inv account acct (rows @ [row]) (scan_row account st row)"
proof -
  let ?st = "if acct i = account then st\<lparr>sc_expected := List.insert i (sc_expected st)\<rparr> else st"
  have inv: "scan_inv account acct (rows @ [row]) ?st"
    using scan_inv_weaken [OF assms(1)] assms(2) by simp
  show ?thesis
  proof (cases "\<exists>s r. v = Some (Some s, ''valid'') \<and> rec_parseDecimal s = Some r")
    case True
    then obtain s r where v: "v = Some (Some s, ''valid'')" "rec_parseDecimal s = Some r" by blast
    have "scan_inv account acct (rows @ [row]) (?st\<lparr>sc_counted := i # sc_counted ?st\<rparr>)"
      using inv by (simp only: scan_inv_bookkeeping)
    from scan_inv_line [OF this, of i s r] show ?thesis
      using v assms(2) by (simp add: scan_row_def Let_def split: if_splits)
  next
    case False
    then show ?thesis
      using inv assms(2) by (auto simp: scan_row_def Let_def scan_inv_bookkeeping split: option.splits if_splits)
  qed
qed

lemma scan_rows_inv:
  assumes "\<forall>(i, a, v) \<in> set rows. a = acct i"
  shows "scan_inv account acct rows (scan_rows account rows)"
  using assms
proof (induction rows rule: rev_induct)
  case Nil
  show ?case by (simp add: scan_rows_def scan_inv_empty)
next
  case (snoc row rows)
  then obtain i v where "row = (i, acct i, v)" by (cases row) auto
  with snoc show ?case by (simp add: scan_rows_def scan_row_inv)
qed

text \<open>The tables as their constraints keep them: a line has one row, and NUMERIC columns hold eighteen digits.\<close>

definition rec_db_ok :: "rec_db \<Rightarrow> bool" where
  "rec_db_ok db \<longleftrightarrow> distinct (map slr_id (portfolio_snapshot_lines (rec_val db)))
     \<and> (\<forall>row \<in> set (valuation_lines (rec_val db)). \<forall>s v. vl_TryAmount (lrw_line row) = Some s \<or> vl_USDAmount (lrw_line row) = Some s
          \<longrightarrow> rec_parseDecimal s = Some v \<longrightarrow> on_grid v)
     \<and> (\<forall>t \<in> set (tolerance_versions db). \<forall>v. rec_parseDecimal (tv_ToleranceAmount t) = Some v \<longrightarrow> on_grid v)"

definition line_account :: "rec_db \<Rightarrow> string \<Rightarrow> string" where
  "line_account db i = the (map_of (map (\<lambda>sl. (slr_id sl, slr_account sl)) (portfolio_snapshot_lines (rec_val db))) i)"

lemma line_account_eq:
  "rec_db_ok db \<Longrightarrow> sl \<in> set (portfolio_snapshot_lines (rec_val db)) \<Longrightarrow> line_account db (slr_id sl) = slr_account sl"
  unfolding line_account_def rec_db_ok_def by (subst map_of_is_SomeI) (auto simp: comp_def)

lemma joined_rows:
  assumes "row \<in> set (joined_lines runID snapshotID cur db)"
  obtains sl v where "sl \<in> set (portfolio_snapshot_lines db)" and "slr_snapshot sl = snapshotID" and "row = (slr_id sl, slr_account sl, v)"
    and "\<And>s state. v = Some (Some s, state) \<Longrightarrow> \<exists>vl \<in> set (valuation_lines db). vl_TryAmount (lrw_line vl) = Some s \<or> vl_USDAmount (lrw_line vl) = Some s"
proof -
  define match where "match sl = filter (\<lambda>vl. vl_SnapshotLineID (lrw_line vl) = slr_id sl \<and> lrw_run vl = runID) (valuation_lines db)" for sl :: snapshot_line_row
  obtain sl where sl: "sl \<in> set (portfolio_snapshot_lines db)" "slr_snapshot sl = snapshotID"
    and row: "row \<in> set (case match sl of [] \<Rightarrow> [(slr_id sl, slr_account sl, None)]
         | vls \<Rightarrow> map (\<lambda>vl. (slr_id sl, slr_account sl,
               Some (if cur = CurrencyTRY then vl_TryAmount (lrw_line vl) else vl_USDAmount (lrw_line vl), vl_State (lrw_line vl)))) vls)"
    using assms by (auto simp: joined_lines_def match_def)
  show ?thesis
  proof (cases "match sl")
    case Nil
    with row show ?thesis by (intro that [OF sl, of None]) auto
  next
    case (Cons y ys)
    then obtain vl where vl: "vl \<in> set (match sl)" and "row = (slr_id sl, slr_account sl,
        Some (if cur = CurrencyTRY then vl_TryAmount (lrw_line vl) else vl_USDAmount (lrw_line vl), vl_State (lrw_line vl)))"
      using row by (auto simp del: set_filter)
    then show ?thesis by (intro that [OF sl]) (auto simp: match_def split: if_splits)
  qed
qed

lemma joined_ids:
  "fst ` set (joined_lines runID snapshotID cur db) = slr_id ` {sl \<in> set (portfolio_snapshot_lines db). slr_snapshot sl = snapshotID}"
proof -
  have one: "fst ` set (case ys of [] \<Rightarrow> [(i, a, None)] | vls \<Rightarrow> map (\<lambda>vl. (i, a, Some (f vl))) vls) = {i}"
    for ys :: "line_row list" and i a :: string and f
    by (cases ys) auto
  show ?thesis
    unfolding joined_lines_def set_concat set_map image_UN image_image one by auto
qed

lemma scan_of_inv:
  assumes "rec_db_ok db"
  shows "scan_inv account (line_account db) (joined_lines runID snapshotID cur (rec_val db))
    (scan_rows account (joined_lines runID snapshotID cur (rec_val db)))"
proof (rule scan_rows_inv)
  show "\<forall>(i, a, v) \<in> set (joined_lines runID snapshotID cur (rec_val db)). a = line_account db i"
    using line_account_eq [OF assms] by (fastforce elim: joined_rows)
qed

lemma account_amounts_on_grid:
  assumes "rec_db_ok db" and "(i, l) \<in> set (sc_accountLines (scan_of r v db))"
  shows "on_grid (vln_amount l)"
proof -
  from assms scan_of_inv [OF assms(1), of "rr_AccountID r" "vi_id v" "vi_snapshotID v" "rr_Currency r"] obtain s
    where s: "(i, line_account db i, Some (Some s, ''valid'')) \<in> set (joined_lines (vi_id v) (vi_snapshotID v) (rr_Currency r) (rec_val db))"
      and p: "rec_parseDecimal s = Some (vln_amount l)"
    by (auto simp: scan_inv_def)
  from s obtain vl where "vl \<in> set (valuation_lines (rec_val db))" "vl_TryAmount (lrw_line vl) = Some s \<or> vl_USDAmount (lrw_line vl) = Some s"
    by (rule joined_rows) auto
  with p assms(1) show ?thesis unfolding rec_db_ok_def by blast
qed

lemma valuation_nav_sum: "valuation_nav st = (\<Sum>l\<leftarrow>sc_accountLines st. vln_amount (snd l))"
proof -
  have "foldl (\<lambda>nav l. nav + vln_amount (snd l)) t xs = t + (\<Sum>l\<leftarrow>xs. vln_amount (snd l))" for t and xs :: "(string \<times> valueLine) list"
    by (induction xs arbitrary: t) (simp_all add: add.assoc)
  then show ?thesis by (simp add: valuation_nav_def)
qed

lemma nav_on_grid: "rec_db_ok db \<Longrightarrow> on_grid (valuation_nav (scan_of r v db))"
  unfolding valuation_nav_sum by (rule on_grid_sum_list) (auto intro: account_amounts_on_grid)

lemma tolerance_on_grid:
  assumes "rec_db_ok db" and "load_tolerance castUUID fault accountID nav db = Inr tol"
  shows "on_grid (snd tol)"
proof (cases "rev (sort_key tv_Version (filter (\<lambda>v. Some (tv_AccountID v) = castUUID accountID) (tolerance_versions db)))")
  case Nil
  with assms(2) show ?thesis
    by (auto simp: load_tolerance_def reconciliation_decimal.parse_fmt split: if_splits)
next
  case (Cons t ts)
  then have "t \<in> set (rev (sort_key tv_Version (filter (\<lambda>v. Some (tv_AccountID v) = castUUID accountID) (tolerance_versions db))))"
    by simp
  then have "t \<in> set (tolerance_versions db)" by simp
  with assms Cons show ?thesis
    by (auto simp: load_tolerance_def rec_db_ok_def split: if_splits option.splits)
qed

text \<open>
  C33. The published figures justify the published state. The five decimals a checkpoint carries
  parse back to the exact values they were computed from: the external value is the request's,
  rounded to eighteen digits, the absolute difference is that of the two published values, and the
  checkpoint is reconciled exactly when it does not exceed the published tolerance. The relative
  difference is absent exactly for an external value of zero, and otherwise the rounded quotient.
\<close>
theorem checkpoint_figures_justify_state:
  assumes "Create_checkpoint pool castUUID scanUUID mapOrder fault now newID valuationID request db = (db', Inr cp)"
    and "rec_db_ok db"
  shows "\<exists>given ext val tol. rec_parseDecimal (TrimSpace (rr_ExternalNAV request)) = Some given \<and> ext = round18 given
    \<and> rec_parseDecimal (cp_ExternalNAV cp) = Some ext \<and> rec_parseDecimal (cp_ValuationNAV cp) = Some val
    \<and> rec_parseDecimal (cp_EffectiveTolerance cp) = Some tol \<and> rec_parseDecimal (cp_AbsoluteDifference cp) = Some \<bar>ext - val\<bar>
    \<and> cp_State cp = (if \<bar>ext - val\<bar> \<le> tol then StateReconciled else StateUnreconciled)
    \<and> map_option rec_parseDecimal (cp_RelativeDifference cp) = (if ext = 0 then None else Some (Some (round18 (\<bar>ext - val\<bar> / \<bar>ext\<bar>))))"
proof (cases rule: Create_checkpoint_cases [of pool castUUID scanUUID mapOrder fault now newID valuationID request db])
  case (failed e)
  with assms(1) show ?thesis by simp
next
  case (stored nav cp0)
  obtain portfolio v tol checks where t: "load_tolerance castUUID fault (rr_AccountID (rec_normalize request)) (scaleDecimal nav) db = Inr tol"
    and cp0: "cp0 = build_checkpoint valuationID (rec_normalize request) (scaleDecimal nav) (valuation_nav (scan_of (rec_normalize request) v db)) tol checks"
    using reconcile_cases [OF stored(3)] by metis
  let ?ext = "scaleDecimal nav" and ?val = "valuation_nav (scan_of (rec_normalize request) v db)"
  have grid: "on_grid ?ext" "on_grid ?val" "on_grid (snd tol)" "on_grid \<bar>?ext - ?val\<bar>"
    by (rule reconciliation_decimal.scale_on_grid nav_on_grid [OF assms(2)] tolerance_on_grid [OF assms(2) t] on_grid_abs on_grid_diff)+
  have cp: "cp = cp0\<lparr>cp_ID := newID, cp_CreatedAt := now\<rparr>" using assms(1) stored(4) by simp
  show ?thesis
    unfolding cp cp0 build_checkpoint_def Let_def
    by (rule exI [of _ nav], rule exI [of _ ?ext], rule exI [of _ ?val], rule exI [of _ "snd tol"], intro conjI)
      (simp_all add: stored(1) grid [unfolded on_grid_def] reconciliation_decimal.parse_fmt del: rec_normalize_simps,
       rule reconciliation_decimal.scale_round18)
qed

subsection \<open>Complete line checks\<close>

lemma check_inputs_distinct:
  "check_inputs scanUUID seen cs = Inr () \<Longrightarrow> distinct (map lci_SnapshotLineID cs) \<and> set (map lci_SnapshotLineID cs) \<inter> set seen = {}"
  by (induction scanUUID seen cs rule: check_inputs.induct) (auto split: if_splits)

text \<open>A line check that succeeded, and its exact values.\<close>

definition checked_ok :: "scanned \<Rightarrow> string \<Rightarrow> LineCheckInput \<Rightarrow> rat \<times> LineCheck \<Rightarrow> bool" where
  "checked_ok st account input x \<longleftrightarrow> (\<exists>line. map_of (sc_allLines st) (lci_SnapshotLineID input) = Some line \<and> vln_accountID line = account
     \<and> on_grid (fst x) \<and> snd x = \<lparr>lc_SnapshotLineID = vln_id line, lc_ExternalAmount = rec_formatDecimal (fst x),
          lc_ValuationAmount = rec_formatDecimal (vln_amount line), lc_Difference = rec_formatDecimal (fst x - vln_amount line),
          lc_AbsoluteDifference = rec_formatDecimal \<bar>fst x - vln_amount line\<bar>\<rparr>)"

lemma check_line_ok: "check_line castUUID fault account v db st input = Inr x \<Longrightarrow> checked_ok st account input x"
  by (auto simp: check_line_def checked_ok_def Let_def reconciliation_decimal.scale_on_grid split: option.splits if_splits)

lemma check_lines_complete:
  assumes "check_lines castUUID fault r nav v db st = Inr (LineCheckComplete, lcs)"
  obtains checked where "list_all2 (checked_ok st (rr_AccountID r)) (rr_LineChecks r) checked" and "lcs = map snd checked"
    and "length (rr_LineChecks r) = length (sc_accountLines st)" and "(\<Sum>x\<leftarrow>checked. fst x) = nav"
proof -
  have sum: "foldl (\<lambda>t x. t + fst x) t xs = t + (\<Sum>x\<leftarrow>xs. fst x)" for t :: rat and xs :: "(rat \<times> LineCheck) list"
    by (induction xs arbitrary: t) (simp_all add: add.assoc)
  obtain checked where c: "res_map (check_line castUUID fault (rr_AccountID r) v db st) (rr_LineChecks r) = Inr checked"
    and rest: "lcs = map snd checked" "length (rr_LineChecks r) = length (sc_accountLines st)" "(\<Sum>x\<leftarrow>checked. fst x) = nav"
    using assms by (auto simp: check_lines_def res_simps Let_def sum split: if_splits)
  have "list_all2 (checked_ok st (rr_AccountID r)) (rr_LineChecks r) checked"
    unfolding list_all2_conv_all_nth using res_map_Inr_length [OF c] check_line_ok [OF res_map_Inr_nth [OF c]] by simp
  with rest show ?thesis by (intro that)
qed

text \<open>Distinct inputs that are all lines of the account, as many as the account has, are its lines.\<close>

lemma complete_covers:
  assumes inv: "scan_inv account acct rows st" and ok: "list_all2 (checked_ok st account) inputs checked"
    and d: "distinct (map lci_SnapshotLineID inputs)" and len: "length inputs = length (sc_accountLines st)"
  shows "map (lc_SnapshotLineID \<circ> snd) checked = map lci_SnapshotLineID inputs"
    and "set (map lci_SnapshotLineID inputs) = fst ` set (sc_accountLines st)"
    and "(\<Sum>i\<leftarrow>map lci_SnapshotLineID inputs. vln_amount (the (map_of (sc_allLines st) i))) = valuation_nav st"
proof -
  have acc: "sc_accountLines st = filter ((\<lambda>i. acct i = account) \<circ> fst) (sc_allLines st)" and da: "distinct (map fst (sc_allLines st))"
    and ent: "\<And>i l. (i, l) \<in> set (sc_allLines st) \<Longrightarrow> vln_id l = i \<and> vln_accountID l = acct i"
    using inv by (auto simp: scan_inv_def)
  have line: "vln_id l = i \<and> acct i = account" if "map_of (sc_allLines st) i = Some l" "vln_accountID l = account" for i l
    using ent [OF map_of_SomeD [OF that(1)]] that(2) by simp
  show "map (lc_SnapshotLineID \<circ> snd) checked = map lci_SnapshotLineID inputs"
    using ok by (induction rule: list_all2_induct) (auto simp: checked_ok_def dest: line)
  have sub: "set (map lci_SnapshotLineID inputs) \<subseteq> fst ` set (sc_accountLines st)"
    using ok
  proof (induction rule: list_all2_induct)
    case (Cons input inputs x checked)
    then obtain l where l: "map_of (sc_allLines st) (lci_SnapshotLineID input) = Some l" "vln_accountID l = account"
      by (auto simp: checked_ok_def)
    then have "(lci_SnapshotLineID input, l) \<in> set (sc_accountLines st)"
      using line [OF l] by (simp add: acc map_of_SomeD)
    with Cons show ?case by (auto simp: rev_image_eqI)
  qed simp
  have dk: "distinct (map fst (sc_accountLines st))"
    using da by (simp add: acc distinct_map_filter)
  show eq: "set (map lci_SnapshotLineID inputs) = fst ` set (sc_accountLines st)"
  proof (rule card_subset_eq [OF _ sub])
    show "card (set (map lci_SnapshotLineID inputs)) = card (fst ` set (sc_accountLines st))"
      using distinct_card [OF d] distinct_card [OF dk] len by simp
  qed simp
  have m: "map_of (sc_allLines st) i = Some l" if "(i, l) \<in> set (sc_accountLines st)" for i l
    using that da by (simp add: acc map_of_is_SomeI)
  have "mset (map lci_SnapshotLineID inputs) = mset (map fst (sc_accountLines st))"
    using set_eq_iff_mset_eq_distinct [OF d dk] eq by simp
  then have "(\<Sum>i\<leftarrow>map lci_SnapshotLineID inputs. vln_amount (the (map_of (sc_allLines st) i)))
      = (\<Sum>i\<leftarrow>map fst (sc_accountLines st). vln_amount (the (map_of (sc_allLines st) i)))"
    by (intro sum_list_mset_cong) (metis mset_map)
  also have "\<dots> = valuation_nav st"
    unfolding valuation_nav_sum map_map by (rule arg_cong [of _ _ sum_list], rule map_cong) (auto simp: m)
  finally show "(\<Sum>i\<leftarrow>map lci_SnapshotLineID inputs. vln_amount (the (map_of (sc_allLines st) i))) = valuation_nav st" .
qed

lemma first_problem_ok: "first_problem st is = Inr () \<Longrightarrow> i \<in> set is \<Longrightarrow> line_problem st i = None"
  by (induction st "is" rule: first_problem.induct) (auto split: option.splits)

lemma account_lines_cover:
  assumes inv: "scan_inv account acct rows st" and ok: "account_lines_ok mapOrder portfolio v st = Inr ()"
    and perm: "\<And>is. set (mapOrder is) = set is"
  shows "fst ` set (sc_accountLines st) = {i \<in> fst ` set rows. acct i = account}"
proof
  show "fst ` set (sc_accountLines st) \<subseteq> {i \<in> fst ` set rows. acct i = account}"
    using inv by (fastforce simp: scan_inv_def image_iff)
  have "i \<in> fst ` set (sc_accountLines st)" if "i \<in> set (sc_expected st)" for i
  proof -
    have "first_problem st (mapOrder (sc_expected st)) = Inr ()"
      using ok by (simp add: account_lines_ok_def split: if_splits)
    from first_problem_ok [OF this] have "line_problem st i = None" using that by (simp add: perm)
    then show ?thesis
      by (auto simp: line_problem_def map_of_eq_None_iff split: if_splits)
  qed
  then show "{i \<in> fst ` set rows. acct i = account} \<subseteq> fst ` set (sc_accountLines st)"
    using inv by (auto simp: scan_inv_def)
qed

abbreviation amount_of :: "string \<Rightarrow> rat" where
  "amount_of s \<equiv> the (rec_parseDecimal s)"

lemma complete_amounts:
  assumes "list_all2 (checked_ok st account) inputs checked"
    and "\<And>i l. map_of (sc_allLines st) i = Some l \<Longrightarrow> vln_accountID l = account \<Longrightarrow> on_grid (vln_amount l)"
  shows "(\<Sum>x\<leftarrow>checked. amount_of (lc_ExternalAmount (snd x))) = (\<Sum>x\<leftarrow>checked. fst x)
    \<and> (\<Sum>x\<leftarrow>checked. amount_of (lc_Difference (snd x)))
      = (\<Sum>x\<leftarrow>checked. fst x) - (\<Sum>i\<leftarrow>map lci_SnapshotLineID inputs. vln_amount (the (map_of (sc_allLines st) i)))"
  using assms(1)
proof (induction rule: list_all2_induct)
  case (Cons input inputs x checked)
  then obtain l where l: "map_of (sc_allLines st) (lci_SnapshotLineID input) = Some l" "vln_accountID l = account" "on_grid (fst x)"
    and x: "lc_ExternalAmount (snd x) = rec_formatDecimal (fst x)" "lc_Difference (snd x) = rec_formatDecimal (fst x - vln_amount l)"
    by (auto simp: checked_ok_def)
  have "amount_of (lc_ExternalAmount (snd x)) = fst x" and "amount_of (lc_Difference (snd x)) = fst x - vln_amount l"
    using l(3) assms(2) [OF l(1,2)] by (simp_all add: x reconciliation_decimal.parse_fmt_on_grid on_grid_diff)
  with Cons.IH l(1) show ?case by simp
qed simp

text \<open>
  Complete line checks cover the account and add up: they name every line of the account in
  the snapshot of the valuation exactly once, whatever the iteration order of the maps, their
  external amounts sum to the external value of the checkpoint, and their differences sum to the
  difference between the external and the valuation's value.
\<close>
theorem complete_line_checks_add_up:
  assumes "Create_checkpoint pool castUUID scanUUID mapOrder fault now newID valuationID request db = (db', Inr cp)"
    and "cp_LineCheckState cp = LineCheckComplete" and "rec_db_ok db" and "\<And>is. set (mapOrder is) = set is"
  shows "\<exists>v. load_valuation castUUID fault valuationID db = Inr v
    \<and> distinct (map lc_SnapshotLineID (cp_LineChecks cp))
    \<and> set (map lc_SnapshotLineID (cp_LineChecks cp)) =
        {slr_id sl | sl. sl \<in> set (portfolio_snapshot_lines (rec_val db)) \<and> slr_snapshot sl = vi_snapshotID v
           \<and> slr_account sl = TrimSpace (rr_AccountID request)}
    \<and> (\<Sum>l\<leftarrow>cp_LineChecks cp. amount_of (lc_ExternalAmount l)) = amount_of (cp_ExternalNAV cp)
    \<and> (\<Sum>l\<leftarrow>cp_LineChecks cp. amount_of (lc_Difference l)) = amount_of (cp_ExternalNAV cp) - amount_of (cp_ValuationNAV cp)"
proof (cases rule: Create_checkpoint_cases [of pool castUUID scanUUID mapOrder fault now newID valuationID request db])
  case (failed e)
  with assms(1) show ?thesis by simp
next
  case (stored nav cp0)
  define r where "r = rec_normalize request"
  obtain portfolio v tol checks where v: "load_valuation castUUID fault valuationID db = Inr v"
    and ok: "account_lines_ok mapOrder portfolio v (scan_of r v db) = Inr ()"
    and lines: "check_lines castUUID fault r (scaleDecimal nav) v db (scan_of r v db) = Inr checks"
    and cp0: "cp0 = build_checkpoint valuationID r (scaleDecimal nav) (valuation_nav (scan_of r v db)) tol checks"
    using reconcile_cases [OF stored(3)] unfolding r_def by metis
  define st where "st = scan_of r v db"
  have cp: "cp = cp0\<lparr>cp_ID := newID, cp_CreatedAt := now\<rparr>" using assms(1) stored(4) by simp
  then have "fst checks = LineCheckComplete" using assms(2) by (simp add: cp0 build_checkpoint_def Let_def)
  then obtain checked where ch: "list_all2 (checked_ok st (rr_AccountID r)) (rr_LineChecks r) checked" and lcs: "snd checks = map snd checked"
    and len: "length (rr_LineChecks r) = length (sc_accountLines st)" and total: "(\<Sum>x\<leftarrow>checked. fst x) = scaleDecimal nav"
    using lines check_lines_complete [of castUUID fault r "scaleDecimal nav" v db st "snd checks"] unfolding st_def by (metis prod.collapse)
  have inv: "scan_inv (rr_AccountID r) (line_account db) (joined_lines (vi_id v) (vi_snapshotID v) (rr_Currency r) (rec_val db)) st"
    unfolding st_def by (rule scan_of_inv [OF assms(3)])
  have d: "distinct (map lci_SnapshotLineID (rr_LineChecks r))"
    using check_inputs_distinct [OF stored(2)] by (simp add: r_def)
  note cover = complete_covers [OF inv ch d len]
  have ids: "map lc_SnapshotLineID (cp_LineChecks cp) = map lci_SnapshotLineID (rr_LineChecks r)"
    using cover(1) by (simp add: cp cp0 build_checkpoint_def Let_def lcs)
  have keys: "fst ` set (sc_accountLines st) = {slr_id sl | sl. sl \<in> set (portfolio_snapshot_lines (rec_val db))
      \<and> slr_snapshot sl = vi_snapshotID v \<and> slr_account sl = rr_AccountID r}"
    using account_lines_cover [OF inv ok [folded st_def] assms(4)] line_account_eq [OF assms(3)] by (auto simp: joined_ids)
  have line_grid: "on_grid (vln_amount l)" if "map_of (sc_allLines st) i = Some l" "vln_accountID l = rr_AccountID r" for i l
    using that inv account_amounts_on_grid [OF assms(3), of i l r v]
    by (fastforce simp: scan_inv_def st_def [symmetric] dest: map_of_SomeD)
  have amounts: "(\<Sum>x\<leftarrow>checked. amount_of (lc_ExternalAmount (snd x))) = (\<Sum>x\<leftarrow>checked. fst x)
      \<and> (\<Sum>x\<leftarrow>checked. amount_of (lc_Difference (snd x))) = (\<Sum>x\<leftarrow>checked. fst x) - valuation_nav st"
    unfolding cover(3) [symmetric] by (rule complete_amounts [OF ch]) (rule line_grid)
  have grid: "rec_parseDecimal (cp_ExternalNAV cp) = Some (scaleDecimal nav)" "rec_parseDecimal (cp_ValuationNAV cp) = Some (valuation_nav st)"
    using reconciliation_decimal.parse_fmt_on_grid [OF reconciliation_decimal.scale_on_grid]
      reconciliation_decimal.parse_fmt_on_grid [OF nav_on_grid [OF assms(3), of r v]]
    by (simp_all add: cp cp0 build_checkpoint_def Let_def st_def)
  show ?thesis
    using v ids d cover(2) keys amounts total grid
    by (intro exI [of _ v]) (simp add: cp cp0 build_checkpoint_def Let_def lcs comp_def r_def)
qed

subsection \<open>A sample account\<close>

definition tiny :: string where "tiny = ''0.000000000000000007''"

definition sample_line_row :: line_row where
  "sample_line_row = \<lparr>lrw_run = ''r'', lrw_line = (base_line sample_cash)\<lparr>vl_ID := ''v1'', vl_State := StateValid, vl_USDAmount := Some tiny\<rparr>,
     lrw_try = ([], []), lrw_usd = ([], [])\<rparr>"

definition sample_run_row :: run_row where
  "sample_run_row = \<lparr>rrw_run = \<lparr>run_ID = ''r'', run_SnapshotID = ''s'', run_Cutoff = 9000, run_KnowledgeMode = KnowledgeSystem,
     run_KnownAt = 9000, run_PriceMaxAgeSeconds = 60, run_FXMaxAgeSeconds = 60, vrun_State = StateValid, run_ResultHash = ''h'',
     run_Lines = [], run_Totals = \<lparr>vt_TRY = [], vt_USD = []\<rparr>, run_CreatedAt = 0\<rparr>, rrw_request = sample_request\<rparr>"

definition sample_rec_db :: rec_db where
  "sample_rec_db = \<lparr>rec_val = \<lparr>portfolio_snapshot_lines = [\<lparr>slr_snapshot = ''s'', slr_id = ''l1'', slr_account = ''a1'', slr_portfolio = ''p1'',
       slr_instrument = ''i1'', slr_quantity = tiny, slr_native_currency = ''USD'', slr_instrument_type = ''cash'', slr_reporting_currency = ''USD''\<rparr>],
       price_revisions = [], fx_quote_revisions = [], valuation_runs = [sample_run_row], valuation_lines = [sample_line_row]\<rparr>,
     rec_accounts = [\<lparr>acc_id = ''a1'', acc_portfolio = ''p1''\<rparr>],
     tolerance_versions = [\<lparr>tv_ID = ''t1'', tv_AccountID = ''a1'', tv_Version = 1, tv_ToleranceAmount = ''0.000000000000000001'', tv_CreatedAt = 0\<rparr>],
     checkpoints = [], line_checks = []\<rparr>"

definition sample_rec_request :: "string \<Rightarrow> recRequest" where
  "sample_rec_request account = \<lparr>rr_AccountID = account, rr_SourceLabel = ''broker'', rr_Currency = ''usd'', rr_Cutoff = 9000,
     rr_ExternalNAV = tiny, rr_LineChecks = [\<lparr>lci_SnapshotLineID = ''l1'', lci_ExternalAmount = tiny\<rparr>], rr_LineChecksComplete = True\<rparr>"

abbreviation sample_reconcile :: "string \<Rightarrow> rec_db \<times> (rec_error + Checkpoint)" where
  "sample_reconcile account \<equiv> Create_checkpoint True (Some \<circ> ToLower) Some id no_fault 7 ''c1'' ''r'' (sample_rec_request account) sample_rec_db"

lemma sample_amounts:
  "rec_parseDecimal tiny = Some (7 / of_int scale18)" "rec_parseDecimal ''0.000000000000000001'' = Some (1 / of_int scale18)"
  "TrimSpace tiny = tiny"
  by code_simp+

lemma sample_grid [simp]: "on_grid (7 / of_int scale18)" "on_grid (1 / of_int scale18)"
  unfolding on_grid_iff by (rule exI [of _ 7], simp) (rule exI [of _ 1], simp)

lemma sample_rec_db_ok: "rec_db_ok sample_rec_db"
  by (auto simp: rec_db_ok_def sample_rec_db_def sample_line_row_def base_line_def sample_amounts)

lemma sample_valuation:
  "load_valuation (Some \<circ> ToLower) no_fault ''r'' sample_rec_db = Inr \<lparr>vi_id = ''r'', vi_snapshotID = ''s'', vi_portfolioID = ''p1'',
     vi_state = StateValid, vi_reportingCurrency = ''USD'', vi_cutoff = 9000\<rparr>"
  by code_simp

lemma sample_joined: "joined_lines ''r'' ''s'' ''USD'' (rec_val sample_rec_db) = [(''l1'', ''a1'', Some (Some tiny, ''valid''))]"
  by code_simp

lemma sample_valid:
  "rec_validRequest Some (sample_rec_request ''a1'')" "check_inputs Some [] (rr_LineChecks (sample_rec_request ''a1'')) = Inr ()"
  "validUUID Some ''r''" "ToUpper (TrimSpace ''usd'') = ''USD''" "TrimSpace ''a1'' = ''a1''" "ToLower ''a1'' = ''a1''"
  "validUUID Some ''l1''" "rec_validDecimal tiny" "rec_validRequest Some (sample_rec_request ''A1'')" "TrimSpace ''A1'' = ''A1''"
  "ToLower ''A1'' = ''a1''"
  by code_simp+

lemma sample_request_fields:
  "rr_ExternalNAV (sample_rec_request a) = tiny" "rr_AccountID (sample_rec_request a) = a"
  "rr_Currency (sample_rec_request a) = ''usd''" "rr_Cutoff (sample_rec_request a) = 9000"
  "rr_LineChecks (sample_rec_request a) = [\<lparr>lci_SnapshotLineID = ''l1'', lci_ExternalAmount = tiny\<rparr>]"
  by (simp_all add: sample_rec_request_def)

lemma sample_tolerance: "load_tolerance (Some \<circ> ToLower) no_fault ''a1'' nav sample_rec_db = Inr (1, 1 / of_int scale18)"
  by (simp add: load_tolerance_def sample_rec_db_def sample_valid sample_amounts)

lemma sample_scan:
  "scan_rows ''a1'' [(''l1'', ''a1'', Some (Some tiny, ''valid''))] =
     (let line = \<lparr>vln_id = ''l1'', vln_accountID = ''a1'', vln_amount = 7 / of_int scale18\<rparr>
      in \<lparr>sc_allLines = [(''l1'', line)], sc_accountLines = [(''l1'', line)], sc_expected = [''l1''], sc_invalid = [], sc_counted = [''l1'']\<rparr>)"
  by (simp add: scan_rows_def scan_row_def empty_scan_def sample_amounts)

lemma sample_reconciled:
  obtains db' cp where "sample_reconcile ''a1'' = (db', Inr cp)" and "cp_ID cp = ''c1''" and "cp_State cp = StateReconciled"
    and "cp_LineCheckState cp = LineCheckComplete"
proof -
  have scale: "scaleDecimal (7 / of_int scale18) = 7 / of_int scale18"
    by (metis reconciliation_decimal.scale_round18 on_grid_def sample_grid(1))
  have pos: "0 \<le> scale18" by (simp add: scale18_def)
  have "\<exists>cp. reconcile (Some \<circ> ToLower) id no_fault ''r'' (rec_normalize (sample_rec_request ''a1'')) (7 / of_int scale18) sample_rec_db = Inr cp
      \<and> cp_State cp = StateReconciled \<and> cp_LineCheckState cp = LineCheckComplete"
    unfolding reconcile_def Let_def
    by (simp add: sample_request_fields sample_valid sample_valuation sample_joined sample_scan sample_tolerance sample_rec_db_def [THEN arg_cong, of rec_accounts]
        account_lines_ok_def line_problem_def check_lines_def check_line_def sample_amounts scale build_checkpoint_def valuation_nav_def Let_def pos)
  then obtain cp where cp: "reconcile (Some \<circ> ToLower) id no_fault ''r'' (rec_normalize (sample_rec_request ''a1'')) (7 / of_int scale18) sample_rec_db = Inr cp"
    "cp_State cp = StateReconciled" "cp_LineCheckState cp = LineCheckComplete" by blast
  then have "snd (sample_reconcile ''a1'') = Inr (cp\<lparr>cp_ID := ''c1'', cp_CreatedAt := 7\<rparr>)"
    by (simp add: Create_checkpoint_def Let_def sample_request_fields sample_valid sample_amounts scale)
  then show ?thesis
    using cp(2,3) by (intro that [of "fst (sample_reconcile ''a1'')" "cp\<lparr>cp_ID := ''c1'', cp_CreatedAt := 7\<rparr>"]) (simp_all add: prod_eq_iff)
qed

theorem checkpoint_figures_justify_state_witness:
  "\<exists>db' cp ext val. sample_reconcile ''a1'' = (db', Inr cp) \<and> rec_parseDecimal (cp_ExternalNAV cp) = Some ext
     \<and> rec_parseDecimal (cp_AbsoluteDifference cp) = Some \<bar>ext - val\<bar>"
  using sample_reconciled checkpoint_figures_justify_state [OF _ sample_rec_db_ok] by metis

theorem complete_line_checks_add_up_witness:
  "\<exists>db' cp. sample_reconcile ''a1'' = (db', Inr cp)
     \<and> (\<Sum>l\<leftarrow>cp_LineChecks cp. amount_of (lc_ExternalAmount l)) = amount_of (cp_ExternalNAV cp)"
proof -
  obtain db' cp where c: "sample_reconcile ''a1'' = (db', Inr cp)" "cp_LineCheckState cp = LineCheckComplete"
    by (rule sample_reconciled)
  from complete_line_checks_add_up [OF c sample_rec_db_ok] c(1) show ?thesis by (intro exI [of _ db'] exI [of _ cp]) auto
qed

subsection \<open>Tolerance versions\<close>

text \<open>
  A new tolerance takes effect: its version is higher than every earlier version of the
  account, its amount is the non-negative one of the request rounded to eighteen digits, and the
  next reconciliation of the account, by whatever text of its identifier, works with exactly this
  version and amount.
\<close>
theorem new_tolerance_applies:
  assumes "CreateTolerance pool castUUID scanUUID fault now newID accountID toleranceAmount db = (db', Inr tv)"
  shows "\<exists>t. rec_parseDecimal toleranceAmount = Some t \<and> 0 \<le> t
    \<and> (\<forall>v \<in> set (tolerance_versions db). castUUID accountID = Some (tv_AccountID v) \<longrightarrow> tv_Version v < tv_Version tv)
    \<and> (\<forall>account nav. castUUID account = castUUID accountID \<longrightarrow> load_tolerance castUUID no_fault account nav db' = Inr (tv_Version tv, round18 t))"
proof -
  from assms obtain t a where t: "rec_parseDecimal toleranceAmount = Some t" "0 \<le> t"
    and a: "find (\<lambda>a. Some (acc_id a) = castUUID accountID) (rec_accounts db) = Some a"
    by (auto simp: CreateTolerance_def Let_def split: if_splits option.splits)
  have acc: "castUUID accountID = Some (acc_id a)" using a by (auto simp: find_Some_iff)
  define versions where "versions = map tv_Version (filter (\<lambda>v. tv_AccountID v = acc_id a) (tolerance_versions db))"
  define row where "row = \<lparr>tv_ID = newID, tv_AccountID = acc_id a, tv_Version = (if versions = [] then 0 else Max (set versions)) + 1,
      tv_ToleranceAmount = rec_formatDecimal (scaleDecimal t), tv_CreatedAt = now\<rparr>"
  have db': "db' = db\<lparr>tolerance_versions := tolerance_versions db @ [row]\<rparr>" and tv: "tv = row\<lparr>tv_AccountID := accountID\<rparr>"
    using assms t a by (auto simp: CreateTolerance_def Let_def row_def versions_def not_less split: if_splits)
  have less: "tv_Version v < tv_Version row" if "v \<in> set (tolerance_versions db)" "tv_AccountID v = acc_id a" for v
  proof -
    have "tv_Version v \<in> set versions" using that by (simp add: versions_def)
    then have "tv_Version v \<le> Max (set versions)" and "versions \<noteq> []" by auto
    then show ?thesis by (simp add: row_def)
  qed
  have "load_tolerance castUUID no_fault account nav db' = Inr (tv_Version tv, round18 t)" if "castUUID account = castUUID accountID" for account nav
  proof -
    have "sort_key tv_Version (filter (\<lambda>v. tv_AccountID v = acc_id a) (tolerance_versions db) @ [row])
        = sort_key tv_Version (filter (\<lambda>v. tv_AccountID v = acc_id a) (tolerance_versions db)) @ [row]"
      by (rule sort_key_snoc) (use less in \<open>simp add: less_imp_le\<close>)
    moreover have "tv_AccountID row = acc_id a" by (simp add: row_def)
    ultimately show ?thesis
      using that acc
      by (simp add: load_tolerance_def db' tv) (simp add: row_def reconciliation_decimal.parse_fmt reconciliation_decimal.scale_round18)
  qed
  then show ?thesis using t less acc by (intro exI [of _ t]) (auto simp: tv)
qed

theorem new_tolerance_applies_witness:
  "\<exists>db' tv. CreateTolerance True (Some \<circ> ToLower) Some no_fault 7 ''t2'' ''a1'' tiny sample_rec_db = (db', Inr tv)
     \<and> load_tolerance (Some \<circ> ToLower) no_fault ''A1'' 5 db' = Inr (tv_Version tv, round18 (7 / of_int scale18))"
proof -
  have "\<exists>db' tv. CreateTolerance True (Some \<circ> ToLower) Some no_fault 7 ''t2'' ''a1'' tiny sample_rec_db = (db', Inr tv)"
    by (simp add: CreateTolerance_def Let_def sample_amounts sample_valid rec_validDecimal_def validUUID_def scale18_def
        sample_rec_db_def tiny_def [symmetric]) (simp add: tiny_def; code_simp)
  then obtain db' tv where c: "CreateTolerance True (Some \<circ> ToLower) Some no_fault 7 ''t2'' ''a1'' tiny sample_rec_db = (db', Inr tv)" by blast
  have "(Some \<circ> ToLower) ''A1'' = (Some \<circ> ToLower) ''a1''" by code_simp
  with new_tolerance_applies [OF c] c show ?thesis by (auto simp: sample_amounts)
qed

subsection \<open>Identifiers compared as text\<close>

text \<open>
  An account identifier that the server accepts but that is not its canonical text (written
  in upper case, or without hyphens) is never reconciled: the lines of the account are found by
  comparing texts, so the account seems to have none and the call fails without effect.
\<close>
theorem noncanonical_account_refused:
  assumes "castUUID (TrimSpace (rr_AccountID request)) \<noteq> Some (TrimSpace (rr_AccountID request))"
    and "\<forall>sl \<in> set (portfolio_snapshot_lines (rec_val db)). castUUID (slr_account sl) = Some (slr_account sl)"
  shows "\<exists>e. Create_checkpoint pool castUUID scanUUID mapOrder fault now newID valuationID request db = (db, Inl e)"
proof (cases rule: Create_checkpoint_cases [of pool castUUID scanUUID mapOrder fault now newID valuationID request db])
  case (stored nav cp)
  define r where "r = rec_normalize request"
  obtain portfolio v where ok: "account_lines_ok mapOrder portfolio v (scan_of r v db) = Inr ()"
    using reconcile_cases [OF stored(3)] unfolding r_def by metis
  have expected: "sc_expected (foldl (scan_row account) st rows) = sc_expected st" if "\<forall>(i, a, x) \<in> set rows. a \<noteq> account" for account rows st
    using that by (induction rows arbitrary: st) (auto simp: scan_row_def Let_def split: option.splits)
  have "\<forall>(i, a, x) \<in> set (joined_lines (vi_id v) (vi_snapshotID v) (rr_Currency r) (rec_val db)). a \<noteq> rr_AccountID r"
    using assms by (fastforce simp: r_def elim: joined_rows)
  then have "sc_expected (scan_of r v db) = []" by (simp add: scan_rows_def expected empty_scan_def)
  with ok show ?thesis by (simp add: account_lines_ok_def)
qed blast

theorem noncanonical_account_refused_witness:
  "snd (sample_reconcile ''A1'') = Inl (ConflictError ''ACCOUNT_HAS_NO_LINES'' ''account has no lines in the valuation snapshot'')
   \<and> fst (sample_reconcile ''A1'') = sample_rec_db"
proof -
  have "reconcile (Some \<circ> ToLower) id no_fault ''r'' (rec_normalize (sample_rec_request ''A1'')) nav sample_rec_db
      = Inl (ConflictError ''ACCOUNT_HAS_NO_LINES'' ''account has no lines in the valuation snapshot'')" for nav
    unfolding reconcile_def Let_def
    by (simp add: sample_request_fields sample_valid sample_valuation sample_joined sample_rec_db_def [THEN arg_cong, of rec_accounts]
        account_lines_ok_def scan_rows_def scan_row_def empty_scan_def sample_amounts)
  then have e: "snd (sample_reconcile ''A1'') = Inl (ConflictError ''ACCOUNT_HAS_NO_LINES'' ''account has no lines in the valuation snapshot'')"
    by (simp add: Create_checkpoint_def Let_def sample_request_fields sample_valid sample_amounts)
  have "(Some \<circ> ToLower) (TrimSpace (rr_AccountID (sample_rec_request ''A1''))) \<noteq> Some (TrimSpace (rr_AccountID (sample_rec_request ''A1'')))"
    and "\<forall>sl \<in> set (portfolio_snapshot_lines (rec_val sample_rec_db)). (Some \<circ> ToLower) (slr_account sl) = Some (slr_account sl)"
    by code_simp+
  from noncanonical_account_refused [OF this] e show ?thesis by (metis fst_conv)
qed

subsection \<open>Storing and reading back\<close>

text \<open>
  Creating a checkpoint is all or nothing: a call that fails, at whatever step, leaves the
  tables as they were; after one that succeeds, reading the returned identifier gives the returned
  checkpoint, with the identifiers in canonical form, the cutoff in microseconds and the line
  checks in the order of their lines.
\<close>
theorem checkpoint_round_trip:
  assumes "castUUID newID = Some newID" and "validUUID scanUUID newID"
    and "\<forall>c \<in> set (checkpoints db). cp_ID c \<noteq> newID" and "\<forall>x \<in> set (line_checks db). fst x \<noteq> newID"
  shows "case Create_checkpoint pool castUUID scanUUID mapOrder fault now newID valuationID request db of
      (db', Inl e) \<Rightarrow> db' = db
    | (db', Inr cp) \<Rightarrow> cp_ID cp = newID \<and> Get_checkpoint True castUUID scanUUID no_fault newID db' =
        Inr (cp\<lparr>cp_ValuationID := the (castUUID valuationID), cp_AccountID := the (castUUID (TrimSpace (rr_AccountID request))),
                cp_Cutoff := pg_time (rr_Cutoff request), cp_LineChecks := sort_key lc_SnapshotLineID (cp_LineChecks cp)\<rparr>)"
proof (cases rule: Create_checkpoint_cases [of pool castUUID scanUUID mapOrder fault now newID valuationID request db])
  case (failed e)
  then show ?thesis by simp
next
  case (stored nav cp)
  let ?row = "cp\<lparr>cp_ID := newID, cp_ValuationID := the (castUUID valuationID),
               cp_AccountID := the (castUUID (TrimSpace (rr_AccountID request))), cp_Cutoff := pg_time (rr_Cutoff request),
               cp_LineChecks := [], cp_CreatedAt := now\<rparr>"
  have "find (\<lambda>c. Some (cp_ID c) = castUUID newID) (checkpoints db @ [?row]) = Some ?row"
    using assms(1,3) by (intro find_appended) auto
  moreover have "filter (\<lambda>x. fst x = newID) (line_checks db @ map (Pair newID) (cp_LineChecks cp)) = map (Pair newID) (cp_LineChecks cp)"
    using assms(4) by (simp add: filter_empty_conv)
  ultimately show ?thesis
    using assms(1,2) by (simp add: stored(4) Get_checkpoint_def comp_def)
qed

theorem checkpoint_round_trip_witness:
  "\<exists>db' cp c. sample_reconcile ''a1'' = (db', Inr cp)
     \<and> Get_checkpoint True (Some \<circ> ToLower) Some no_fault ''c1'' db' = Inr c \<and> cp_State c = StateReconciled"
proof -
  obtain db' cp where c: "sample_reconcile ''a1'' = (db', Inr cp)" "cp_State cp = StateReconciled" by (rule sample_reconciled)
  have "(Some \<circ> ToLower) ''c1'' = Some ''c1''" and "validUUID Some ''c1''" by code_simp+
  with checkpoint_round_trip [where castUUID = "Some \<circ> ToLower" and newID = "''c1''" and scanUUID = Some and db = sample_rec_db
      and pool = True and mapOrder = id and fault = no_fault and now = 7 and valuationID = "''r''" and request = "sample_rec_request ''a1''"] c
  show ?thesis by (auto simp: sample_rec_db_def [THEN arg_cong, of checkpoints] sample_rec_db_def [THEN arg_cong, of line_checks])
qed

end
