(* ===== verification/Csv.thy ===== *)
theory Csv
  imports Json
begin

text \<open>
  Reading CSV records, \<open>csv.Reader\<close> of \<open>encoding/csv\<close> as the import parser sets it up:
  comma, no comments, strict quotes and any number of fields. The state of the reader is the
  input it has not read yet. A line keeps its newline; a carriage return before it, or at the end
  of the input, is dropped. A malformed record loses the rest of its line, and reading goes on
  with the next one.
\<close>

abbreviation newline :: char where "newline \<equiv> CHR 0x0A"
abbreviation cr :: char where "cr \<equiv> CHR 0x0D"

definition lengthNL :: "string \<Rightarrow> nat" where
  "lengthNL b = (if b \<noteq> [] \<and> last b = newline then 1 else 0)"

definition dropCR :: "string \<Rightarrow> string" where
  "dropCR b = (if b \<noteq> [] \<and> last b = cr then butlast b else b)"

lemma length_dropCR: "length (dropCR b) \<le> length b"
  by (simp add: dropCR_def)

text \<open>A line and the rest of the input; at the end of the input there is none.\<close>

definition readLine :: "string \<Rightarrow> (string \<times> string) option" where
  "readLine s =
     (if s = [] then None
      else let body = takeWhile ((\<noteq>) newline) s; rest = dropWhile ((\<noteq>) newline) s
           in Some (if rest = [] then (dropCR body, []) else (dropCR body @ [newline], tl rest)))"

lemma readLine_shrinks:
  assumes "readLine s = Some (l, r)"
  shows "length l + length r \<le> length s" and "length r < length s"
proof -
  define b d where "b = takeWhile ((\<noteq>) newline) s" and "d = dropWhile ((\<noteq>) newline) s"
  have len: "length b + length d = length s"
    unfolding b_def d_def by (metis length_append takeWhile_dropWhile_id)
  have ne: "s \<noteq> []" and lr: "(l, r) = (if d = [] then (dropCR b, []) else (dropCR b @ [newline], tl d))"
    using assms unfolding readLine_def Let_def b_def [symmetric] d_def [symmetric] by (auto split: if_splits)
  show "length l + length r \<le> length s"
    using lr len length_dropCR [of b] by (cases d) auto
  show "length r < length s"
    using lr len ne by (cases d) auto
qed

lemma tl_dropWhile_shrinks: "dropWhile P xs \<noteq> [] \<Longrightarrow> length (tl (dropWhile P xs)) < length xs"
  using length_dropWhile_le [of P xs] by (cases "dropWhile P xs") simp_all

lemma tl_tl_dropWhile_shrinks: "tl (dropWhile P xs) \<noteq> [] \<Longrightarrow> length (tl (tl (dropWhile P xs))) < length xs"
  using length_dropWhile_le [of P xs] by (cases "dropWhile P xs") auto

subsection \<open>Fields\<close>

text \<open>
  The fields of a record from a line: \<open>None\<close> for a bare or unfinished quote. The second
  component is the input after the last line that was read. In a quoted field, \<open>buf\<close> holds
  what was read of it.
\<close>

function csv_fields :: "string \<Rightarrow> string \<Rightarrow> string list option \<times> string"
  and csv_quoted :: "string \<Rightarrow> string \<Rightarrow> string \<Rightarrow> string list option \<times> string"
  where
  "csv_fields line rest =
     (if line = [] \<or> hd line \<noteq> dquote
      then let i = takeWhile ((\<noteq>) CHR '','') line; after = dropWhile ((\<noteq>) CHR '','') line;
               field = (if after = [] then take (length line - lengthNL line) line else i)
           in if dquote \<in> set field then (None, rest)
              else if after = [] then (Some [field], rest)
              else apfst (map_option ((#) field)) (csv_fields (tl after) rest)
      else csv_quoted [] (tl line) rest)"
| "csv_quoted buf line rest =
     (let i = takeWhile ((\<noteq>) dquote) line; after = dropWhile ((\<noteq>) dquote) line in
      if after \<noteq> [] then
        (let l = tl after in
         if l \<noteq> [] \<and> hd l = dquote then csv_quoted (buf @ i @ [dquote]) (tl l) rest
         else if l \<noteq> [] \<and> hd l = CHR '','' then apfst (map_option ((#) (buf @ i))) (csv_fields (tl l) rest)
         else if lengthNL l = length l then (Some [buf @ i], rest)
         else (None, rest))
      else if line \<noteq> [] then
        (case readLine rest of
           None \<Rightarrow> (None, rest)
         | Some (l, r) \<Rightarrow> csv_quoted (buf @ line) l r)
      else (None, rest))"
  by pat_completeness auto
termination
proof (relation "measure (\<lambda>x. case x of Inl (line, rest) \<Rightarrow> length line + length rest | Inr (buf, line, rest) \<Rightarrow> length line + length rest)")
qed (auto simp: tl_dropWhile_shrinks tl_tl_dropWhile_shrinks neq_Nil_conv simp del: length_tl dest: readLine_shrinks(1))

declare csv_fields.simps [simp del] csv_quoted.simps [simp del]

text \<open>The outcome of a call of \<open>Read\<close>: the end of the input, a malformed record, or a record.\<close>

datatype csv_record = CsvEOF | CsvBad | CsvRecord "string list"

function csv_read :: "string \<Rightarrow> csv_record \<times> string" where
  "csv_read s = (case readLine s of
      None \<Rightarrow> (CsvEOF, [])
    | Some (line, rest) \<Rightarrow>
        if length line = lengthNL line then csv_read rest
        else (case csv_fields line rest of
            (None, rest) \<Rightarrow> (CsvBad, rest)
          | (Some fields, rest) \<Rightarrow> (CsvRecord fields, rest)))"
  by pat_completeness auto
termination by (relation "measure length") (auto dest: readLine_shrinks)

declare csv_read.simps [simp del]

text \<open>Reading always makes progress.\<close>

lemma csv_rest_le:
  "length (snd (csv_fields line rest)) \<le> length rest" "length (snd (csv_quoted buf line rest)) \<le> length rest"
proof (induction line rest and buf line rest rule: csv_fields_csv_quoted.induct)
  case (1 line rest)
  then show ?case by (subst csv_fields.simps) (auto simp: Let_def simp del: dropWhile_eq_Nil_conv)
next
  case (2 buf line rest)
  define after where "after = dropWhile ((\<noteq>) dquote) line"
  define i where "i = takeWhile ((\<noteq>) dquote) line"
  note IH = 2 [OF i_def after_def]
  show ?case
  proof (cases "after = []")
    case False
    with IH(1,2) show ?thesis
      unfolding csv_quoted.simps [of buf line rest] Let_def i_def [symmetric] after_def [symmetric] by simp
  next
    case True
    have "length (snd (csv_quoted (buf @ line) l r)) \<le> length rest" if "line \<noteq> []" "readLine rest = Some (l, r)" for l r
      using IH(3) [of "(l, r)" l r] True that readLine_shrinks(2) [OF that(2)] by simp
    then show ?thesis
      using True unfolding csv_quoted.simps [of buf line rest] Let_def i_def [symmetric] after_def [symmetric]
      by (simp split: option.splits)
  qed
qed

lemma csv_read_shrinks: "csv_read s = (r, rest) \<Longrightarrow> r \<noteq> CsvEOF \<Longrightarrow> length rest < length s"
proof (induction s rule: csv_read.induct)
  case (1 s)
  show ?case
  proof (cases "readLine s")
    case None
    with "1.prems" show ?thesis by (simp add: csv_read.simps [of s])
  next
    case (Some lr)
    obtain line rest' where lr: "lr = (line, rest')" by (cases lr)
    with Some have less: "length rest' < length s" by (simp add: readLine_shrinks)
    show ?thesis
    proof (cases "length line = lengthNL line")
      case True
      with "1.prems" Some lr have "csv_read rest' = (r, rest)" by (simp add: csv_read.simps [of s])
      with "1.IH" Some lr True "1.prems"(2) less show ?thesis by fastforce
    next
      case False
      with "1.prems" Some lr have "rest = snd (csv_fields line rest')"
        by (auto simp: csv_read.simps [of s] split: prod.splits option.splits)
      with csv_rest_le(1) [of line rest'] less show ?thesis by simp
    qed
  qed
qed

end
