(* ===== verification/Imports.thy ===== *)
theory Imports
  imports Csv GoTime
begin

text \<open>
  The import parser, \<open>internal/imports/parser.go\<close>: a CSV body is checked as a whole, then
  record by record, and every problem becomes a diagnostic, of which at most a hundred are kept.
  The digest of the body is the argument \<open>digest\<close>. Slicing a string out of its bounds
  panics in Go; the result \<open>None\<close> is that panic. The functions that append to the
  diagnostics are state transformers of the result.
\<close>

definition MaxBytes :: int where "MaxBytes = 10485760"
definition MaxRows :: int where "MaxRows = 25000"
definition MaxDiagnostics :: nat where "MaxDiagnostics = 100"
abbreviation KindPositions :: string where "KindPositions \<equiv> ''positions''"
abbreviation KindManualPrices :: string where "KindManualPrices \<equiv> ''manual-prices''"

definition positionHeaders :: "string list" where
  "positionHeaders = [''account_id'', ''instrument_id'', ''quantity'', ''total_cost_basis'', ''modified_duration_years'', ''convexity_years_squared'']"

definition priceHeaders :: "string list" where
  "priceHeaders = [''instrument_id'', ''quote_currency'', ''observation_time'', ''price'', ''source_known_at'']"

record Diagnostic =
  dg_Row :: int
  dg_Column :: string
  dg_Code :: string
  dg_Message :: string

record PositionRow =
  po_AccountID :: string
  po_InstrumentID :: string
  po_Quantity :: string
  po_TotalCostBasis :: string
  po_ModifiedDurationYears :: string
  po_ConvexityYearsSquared :: string

record PriceRow =
  pc_InstrumentID :: string
  pc_QuoteCurrency :: string
  pc_ObservationTime :: time
  pc_Price :: string
  pc_SourceKnownAt :: string
  pc_SourceKnownAtTime :: "time option"

record ImportResult =
  ir_Kind :: string
  ir_ContentSHA256 :: string
  ir_RowCount :: int
  ir_Valid :: bool
  ir_Diagnostics :: "Diagnostic list"
  ir_DiagnosticsTruncated :: bool
  ir_Positions :: "PositionRow list"
  ir_Prices :: "PriceRow list"

subsection \<open>Cells\<close>

definition import_decimalPattern :: "string \<Rightarrow> bool" where
  "import_decimalPattern s = unsigned_decimal (if s \<noteq> [] \<and> (hd s = CHR ''+'' \<or> hd s = CHR ''-'') then tl s else s)"

definition unitPattern :: "string \<Rightarrow> bool" where
  "unitPattern s \<longleftrightarrow> s \<noteq> [] \<and> list_all (\<lambda>c. is_upper c \<or> is_digit c) s"

definition hasForbiddenControl :: "string \<Rightarrow> bool" where
  "hasForbiddenControl body = list_ex (\<lambda>b. (of_char b :: nat) < 32 \<and> b \<noteq> cr \<and> b \<noteq> newline \<or> (of_char b :: nat) = 127) body"

definition rejectText :: "string \<Rightarrow> bool" where
  "rejectText value =
     (if value = [] then False
      else if hd value \<in> set ''=+@'' then True
      else list_ex (\<lambda>r. (of_char r :: nat) < 32 \<or> (of_char r :: nat) = 127) value)"

definition import_validDecimal :: "string \<Rightarrow> bool \<Rightarrow> bool" where
  "import_validDecimal value optional =
     (if value = [] then optional
      else if \<not> import_decimalPattern value then False
      else let (ip, fp) = split_point (trim_prefix (trim_prefix value ''+'') ''-'');
               frac = (case fp of None \<Rightarrow> [] | Some f \<Rightarrow> f);
               integer = trim_left_char CHR ''0'' ip;
               integer = (if integer = [] then ''0'' else integer)
           in length integer \<le> 20 \<and> length frac \<le> 18)"

definition import_validUUID :: "string \<Rightarrow> bool" where
  "import_validUUID value = uuid_shape value"

definition isNonPositive :: "string \<Rightarrow> bool" where
  "isNonPositive value =
     (if has_prefix value ''-'' then True
      else let value = trim_left_char CHR ''0'' (trim_prefix (trim_prefix value ''+'') ''-'')
           in value = [] \<or> has_prefix value ''.'' \<and> trim_char CHR ''0'' (trim_prefix value ''.'') = [])"

text \<open>\<open>None\<close>: the slice of the last six bytes is out of bounds.\<close>

definition parseRFC3339 :: "string \<Rightarrow> time option option" where
  "parseRFC3339 value =
     (if length value < 2 then Some None
      else if has_suffix value ''Z'' then Some (parse_RFC3339 value)
      else if length value < 6 then None
      else if list_ex (\<lambda>c. c \<in> set ''+-'') (drop (length value - 6) value) then Some (parse_RFC3339 value)
      else Some None)"

subsection \<open>Diagnostics\<close>

definition add_diag :: "int \<Rightarrow> string \<Rightarrow> string \<Rightarrow> string \<Rightarrow> ImportResult \<Rightarrow> ImportResult" where
  "add_diag row col code msg r =
     (if length (ir_Diagnostics r) < MaxDiagnostics
      then r\<lparr>ir_Diagnostics := ir_Diagnostics r @ [\<lparr>dg_Row = row, dg_Column = col, dg_Code = code, dg_Message = msg\<rparr>]\<rparr>
      else r\<lparr>ir_DiagnosticsTruncated := True\<rparr>)"

definition add_if :: "bool \<Rightarrow> int \<Rightarrow> string \<Rightarrow> string \<Rightarrow> string \<Rightarrow> ImportResult \<Rightarrow> ImportResult" where
  "add_if b row col code msg r = (if b then add_diag row col code msg r else r)"

definition cell_ok :: "string \<Rightarrow> bool \<Rightarrow> bool" where
  "cell_ok value required \<longleftrightarrow> \<not> (required \<and> value = []) \<and> \<not> rejectText value"

definition addCell :: "int \<Rightarrow> string \<Rightarrow> string \<Rightarrow> bool \<Rightarrow> ImportResult \<Rightarrow> ImportResult" where
  "addCell row col value required r =
     (if required \<and> value = [] then add_diag row col ''required'' ''cell is required'' r
      else if rejectText value then add_diag row col ''unsafe_text'' ''cell contains an unsafe formula or control prefix'' r
      else r)"

subsection \<open>Records\<close>

definition parsePosition :: "string list \<Rightarrow> int \<Rightarrow> string list \<times> ImportResult \<Rightarrow> string list \<times> ImportResult" where
  "parsePosition record row s = (case s of (seen, r) \<Rightarrow>
     (let r = addCell row (positionHeaders ! 0) (record ! 0) True r;
          r = addCell row (positionHeaders ! 1) (record ! 1) True r;
          r = add_if (\<not> import_validUUID (record ! 0)) row ''account_id'' ''invalid_uuid'' ''cell must be a UUID'' r;
          r = add_if (\<not> import_validUUID (record ! 1)) row ''instrument_id'' ''invalid_uuid'' ''cell must be a UUID'' r;
          r = foldl (\<lambda>r i. add_if (\<not> import_validDecimal (record ! i) (i \<noteq> 2)) row (positionHeaders ! i) ''invalid_decimal''
                ''cell must be an exact decimal with at most 20 integer and 18 fractional digits'' r) r [2, 3, 4, 5];
          key = record ! 0 @ [CHR 0x00] @ record ! 1;
          r = add_if (key \<in> set seen) row [] ''duplicate_row'' ''position key is duplicated'' r;
          seen = (if key \<in> set seen then seen else key # seen)
      in (seen, if length (ir_Diagnostics r) < MaxDiagnostics
           then r\<lparr>ir_Positions := ir_Positions r @ [\<lparr>po_AccountID = record ! 0, po_InstrumentID = record ! 1, po_Quantity = record ! 2,
                po_TotalCostBasis = record ! 3, po_ModifiedDurationYears = record ! 4, po_ConvexityYearsSquared = record ! 5\<rparr>]\<rparr>
           else r)))"

definition parsePrice :: "string list \<Rightarrow> int \<Rightarrow> string list \<times> ImportResult \<Rightarrow> (string list \<times> ImportResult) option" where
  "parsePrice record row s = (case s of (seen, r) \<Rightarrow>
     (let record = record[1 := ToUpper (record ! 1)];
          r = addCell row ''instrument_id'' (record ! 0) True r;
          r = addCell row ''quote_currency'' (record ! 1) True r;
          r = addCell row ''observation_time'' (record ! 2) True r;
          r = addCell row ''price'' (record ! 3) True r;
          r = add_if (\<not> import_validUUID (record ! 0)) row ''instrument_id'' ''invalid_uuid'' ''cell must be a UUID'' r;
          r = add_if (\<not> unitPattern (record ! 1)) row ''quote_currency'' ''invalid_unit'' ''unit code must be uppercase ASCII letters or digits'' r;
          r = add_if (\<not> import_validDecimal (record ! 3) False \<or> isNonPositive (record ! 3)) row ''price'' ''invalid_price''
                ''price must be a positive exact decimal'' r
      in case parseRFC3339 (record ! 2) of
           None \<Rightarrow> None
         | Some obs \<Rightarrow>
             let r = add_if (obs = None) row ''observation_time'' ''invalid_timestamp'' ''timestamp must be RFC 3339 with an explicit offset'' r
             in (case (if record ! 4 \<noteq> [] \<and> cell_ok (record ! 4) False then parseRFC3339 (record ! 4) else Some None) of
                   None \<Rightarrow> None
                 | Some known \<Rightarrow>
                     let r = (if record ! 4 \<noteq> [] then addCell row ''source_known_at'' (record ! 4) False r else r);
                         r = add_if (record ! 4 \<noteq> [] \<and> cell_ok (record ! 4) False \<and> known = None) row ''source_known_at'' ''invalid_timestamp''
                               ''timestamp must be RFC 3339 with an explicit offset'' r;
                         key = record ! 0 @ [CHR 0x00] @ record ! 1 @ [CHR 0x00] @ record ! 2 @ [CHR 0x00] @ record ! 4;
                         r = add_if (key \<in> set seen) row [] ''duplicate_row'' ''price revision key is duplicated'' r;
                         seen = (if key \<in> set seen then seen else key # seen)
                     in Some (seen, if length (ir_Diagnostics r) < MaxDiagnostics
                          then r\<lparr>ir_Prices := ir_Prices r @ [\<lparr>pc_InstrumentID = record ! 0, pc_QuoteCurrency = record ! 1,
                               pc_ObservationTime = (case obs of None \<Rightarrow> zero_time | Some t \<Rightarrow> t), pc_Price = record ! 3,
                               pc_SourceKnownAt = record ! 4, pc_SourceKnownAtTime = known\<rparr>]\<rparr>
                          else r))))"

subsection \<open>Files\<close>

definition headers_for :: "string \<Rightarrow> string list" where
  "headers_for kind = (if kind = KindManualPrices then priceHeaders else positionHeaders)"

text \<open>One record that was read, in its row.\<close>

definition parse_record :: "string \<Rightarrow> csv_record \<Rightarrow> int \<Rightarrow> string list \<times> ImportResult \<Rightarrow> (string list \<times> ImportResult) option" where
  "parse_record kind rec row s = (case rec of
      CsvRecord record \<Rightarrow>
        if length record \<noteq> length (headers_for kind)
        then Some (fst s, add_diag row [] ''wrong_cell_count'' ''CSV record has the wrong number of cells'' (snd s))
        else if kind = KindPositions then Some (parsePosition record row s) else parsePrice record row s
    | _ \<Rightarrow> Some (fst s, add_diag row [] ''invalid_csv'' ''CSV record is not a valid RFC 4180 record'' (snd s)))"

function parse_rows :: "string \<Rightarrow> string \<Rightarrow> int \<Rightarrow> string list \<times> ImportResult \<Rightarrow> (int \<times> ImportResult) option" where
  "parse_rows kind input rows s = (case csv_read input of
      (rec, rest) \<Rightarrow>
        if rec = CsvEOF then Some (rows, snd s)
        else if rows + 1 > MaxRows then Some (rows + 1, add_diag (rows + 2) [] ''too_many_rows'' ''CSV exceeds 25,000 data rows'' (snd s))
        else (case parse_record kind rec (rows + 2) s of
            None \<Rightarrow> None
          | Some s \<Rightarrow> parse_rows kind rest (rows + 1) s))"
  by pat_completeness auto
termination by (relation "measure (\<lambda>(kind, input, rows, s). length input)") (auto dest: csv_read_shrinks [OF sym])

declare parse_rows.simps [simp del]

definition body_error :: "string \<Rightarrow> string \<Rightarrow> (string \<times> string) option" where
  "body_error kind body =
     (if kind \<noteq> KindPositions \<and> kind \<noteq> KindManualPrices then Some (''unknown_import_kind'', ''import kind is unsupported'')
      else if int (length body) > MaxBytes then Some (''file_too_large'', ''CSV file exceeds 10 MiB'')
      else if \<not> utf8_valid body then Some (''invalid_utf8'', ''CSV must be valid UTF-8'')
      else if CHR 0x00 \<in> set body \<or> hasForbiddenControl body then Some (''control_byte'', ''CSV contains a forbidden control byte'')
      else None)"

definition Parse :: "(string \<Rightarrow> string) \<Rightarrow> string \<Rightarrow> string \<Rightarrow> ImportResult option" where
  "Parse digest body kind =
     (let r = \<lparr>ir_Kind = kind, ir_ContentSHA256 = digest body, ir_RowCount = 0, ir_Valid = False, ir_Diagnostics = [],
               ir_DiagnosticsTruncated = False, ir_Positions = [], ir_Prices = []\<rparr>
      in case body_error kind body of
           Some (code, msg) \<Rightarrow> Some (add_diag 0 [] code msg r)
         | None \<Rightarrow>
             (case csv_read (trim_prefix body [CHR 0xEF, CHR 0xBB, CHR 0xBF]) of
                (CsvEOF, _) \<Rightarrow> Some (add_diag 1 [] ''missing_header'' ''CSV header is required'' r)
              | (CsvBad, _) \<Rightarrow> Some (add_diag 1 [] ''invalid_csv'' ''CSV header is not a valid RFC 4180 record'' r)
              | (CsvRecord headers, rest) \<Rightarrow>
                  if headers \<noteq> headers_for kind
                  then Some (add_diag 1 [] ''invalid_header'' ''CSV headers must match the ordered template exactly'' r)
                  else map_option (\<lambda>(rows, r). r\<lparr>ir_RowCount := rows,
                         ir_Valid := ir_Diagnostics r = [] \<and> \<not> ir_DiagnosticsTruncated r \<and> rows > 0\<rparr>)
                       (parse_rows kind rest 0 ([], r))))"

end
