(* ===== verification/Imports_Properties.thy ===== *)
theory Imports_Properties
  imports Imports
begin

text \<open>
  What a valid import promises: its rows are exactly the data records, each of them meets every
  rule of its kind, keys are not repeated as they are written and prices are positive. The check of a price's sign on
  its text agrees with its value, diagnostics are bounded, and a short timestamp without an offset
  makes the parser panic.
\<close>

subsection \<open>Decimals\<close>

text \<open>The value of a cell: sign, integer digits, fraction digits.\<close>

lemma import_decimal_parts:
  assumes "import_decimalPattern v"
  obtains neg ip fp where "SetString v = Some (if neg then - digits_rat ip (frac_digits fp) else digits_rat ip (frac_digits fp))"
    and "neg \<longleftrightarrow> has_prefix v ''-''" and "split_point (trim_prefix (trim_prefix v ''+'') ''-'') = (ip, fp)"
    and "unsigned_decimal (trim_prefix (trim_prefix v ''+'') ''-'')"
proof -
  define u where "u = (if v \<noteq> [] \<and> (hd v = CHR ''+'' \<or> hd v = CHR ''-'') then tl v else v)"
  have u: "unsigned_decimal u" using assms by (simp add: import_decimalPattern_def u_def)
  obtain ip fp where s: "split_point u = (ip, fp)" by (cases "split_point u")
  have ip: "plain_integer ip" using unsigned_decimal_rat(1) [OF u s] .
  have digit: "u \<noteq> [] \<and> is_digit (hd u)"
  proof -
    have "ip = takeWhile ((\<noteq>) CHR ''.'') u" using s by (simp add: split_point_def Let_def)
    moreover have "ip \<noteq> []" and "is_digit (hd ip)" using plain_integer_digits [OF ip] by (auto simp: list_all_iff)
    ultimately show ?thesis by (cases u) (auto split: if_splits)
  qed
  have trimmed: "trim_prefix (trim_prefix v ''+'') ''-'' = u"
    using digit by (cases v; cases "tl v") (auto simp: u_def trim_prefix_def has_prefix_def is_digit_def)
  have sign: "split_sign v = (has_prefix v ''-'', u)"
    using digit by (cases v) (auto simp: u_def split_sign_def has_prefix_def)
  have "SetString v = Some (if has_prefix v ''-'' then - digits_rat ip (frac_digits fp) else digits_rat ip (frac_digits fp))"
    by (simp add: SetString_def sign unsigned_decimal_rat(4) [OF u s])
  with s u trimmed show ?thesis by (intro that [of "has_prefix v ''-''" ip fp]) simp_all
qed

lemma trim_char_Nil: "trim_char c s = [] \<longleftrightarrow> (\<forall>x \<in> set s. x = c)"
proof -
  have "(\<forall>x \<in> set (dropWhile ((=) c) s). c = x) \<longleftrightarrow> (\<forall>x \<in> set s. x = c)"
    by (induction s) auto
  then show ?thesis by (simp add: trim_char_def)
qed

lemma split_point_join:
  assumes "split_point s = (ip, fp)"
  shows "s = ip @ (case fp of None \<Rightarrow> [] | Some f \<Rightarrow> CHR ''.'' # f)"
proof (cases "dropWhile ((\<noteq>) CHR ''.'') s")
  case Nil
  then show ?thesis using assms takeWhile_dropWhile_id [of "(\<noteq>) CHR ''.''" s]
    by (simp add: split_point_def Let_def del: takeWhile_dropWhile_id dropWhile_eq_Nil_conv)
next
  case (Cons c t)
  then have "c = CHR ''.''" by (simp add: dropWhile_eq_Cons_conv)
  with Cons show ?thesis using assms takeWhile_dropWhile_id [of "(\<noteq>) CHR ''.''" s]
    by (auto simp: split_point_def Let_def simp del: takeWhile_dropWhile_id dropWhile_eq_Nil_conv)
qed

lemma trim_zeros_point:
  assumes "plain_integer ip" and "ip \<noteq> ''0''"
  shows "trim_left_char CHR ''0'' (ip @ t) = ip @ t" and "\<not> has_prefix (ip @ t) ''.''" and "ip @ t \<noteq> []"
  using assms plain_integer_digits [OF assms(1)]
  by (auto simp: trim_left_char_def plain_integer_def has_prefix_def is_digit_def neq_Nil_conv)

lemma isNonPositive_sign:
  assumes "import_decimalPattern v" and "SetString v = Some q"
  shows "isNonPositive v \<longleftrightarrow> q \<le> 0"
proof -
  obtain neg ip fp where v: "SetString v = Some (if neg then - digits_rat ip (frac_digits fp) else digits_rat ip (frac_digits fp))"
    and neg: "neg \<longleftrightarrow> has_prefix v ''-''" and s: "split_point (trim_prefix (trim_prefix v ''+'') ''-'') = (ip, fp)"
    and u: "unsigned_decimal (trim_prefix (trim_prefix v ''+'') ''-'')"
    using import_decimal_parts [OF assms(1)] by metis
  note parts = unsigned_decimal_rat [OF u s]
  have join: "trim_prefix (trim_prefix v ''+'') ''-'' = ip @ (case fp of None \<Rightarrow> [] | Some f \<Rightarrow> CHR ''.'' # f)"
    using s by (rule split_point_join)
  show ?thesis
  proof (cases neg)
    case True
    with assms(2) v neg show ?thesis
      using digits_rat_nonneg [of ip "frac_digits fp"] by (auto simp: isNonPositive_def)
  next
    case False
    then have q: "q = digits_rat ip (frac_digits fp)" using assms(2) v by simp
    have zero: "q \<le> 0 \<longleftrightarrow> digits_val ip = 0 \<and> digits_val (frac_digits fp) = 0"
      using digits_rat_nonneg [of ip "frac_digits fp"] digits_rat_0_iff by (auto simp: q)
    have np: "isNonPositive v \<longleftrightarrow> (let w = trim_left_char CHR ''0'' (ip @ (case fp of None \<Rightarrow> [] | Some f \<Rightarrow> CHR ''.'' # f))
        in w = [] \<or> has_prefix w ''.'' \<and> trim_char CHR ''0'' (trim_prefix w ''.'') = [])"
      using False neg unfolding isNonPositive_def join Let_def by simp
    show ?thesis
    proof (cases "ip = ''0''")
      case True
      have "isNonPositive v \<longleftrightarrow> (case fp of None \<Rightarrow> True | Some f \<Rightarrow> (\<forall>x \<in> set f. x = CHR ''0''))"
        unfolding np True
        by (cases fp) (simp_all add: trim_left_char_def has_prefix_def trim_prefix_def trim_char_Nil)
      moreover have "digits_val (frac_digits fp) = 0 \<longleftrightarrow> (case fp of None \<Rightarrow> True | Some f \<Rightarrow> (\<forall>x \<in> set f. x = CHR ''0''))"
        using digits_val_0_iff [OF parts(2)] by (auto simp: frac_digits_def split: option.splits)
      moreover have "digits_val ''0'' = 0" by code_simp
      ultimately show ?thesis using zero True by simp
    next
      case nz: False
      have "\<not> isNonPositive v"
        unfolding np using trim_zeros_point [OF parts(1) nz] by simp
      then show ?thesis using zero plain_integer_pos [OF parts(1) nz] by simp
    qed
  qed
qed

lemma import_decimal_fits:
  assumes "import_validDecimal v False"
  shows "\<exists>q. SetString v = Some q \<and> on_grid q \<and> \<bar>q\<bar> < numeric_limit"
proof -
  have pat: "import_decimalPattern v" using assms by (auto simp: import_validDecimal_def split: if_splits)
  obtain neg ip fp where v: "SetString v = Some (if neg then - digits_rat ip (frac_digits fp) else digits_rat ip (frac_digits fp))"
    and s: "split_point (trim_prefix (trim_prefix v ''+'') ''-'') = (ip, fp)"
    and u: "unsigned_decimal (trim_prefix (trim_prefix v ''+'') ''-'')"
    using import_decimal_parts [OF pat] by metis
  note parts = unsigned_decimal_rat [OF u s]
  have "trim_left_char CHR ''0'' ip = ip \<or> ip = ''0''"
    using parts(1) by (cases ip) (auto simp: plain_integer_def trim_left_char_def)
  then have "length ip \<le> 20" and "length (frac_digits fp) \<le> 18"
    using assms s by (auto simp: import_validDecimal_def Let_def frac_digits_def split: if_splits option.splits)
  then have "on_grid (digits_rat ip (frac_digits fp)) \<and> digits_rat ip (frac_digits fp) < numeric_limit"
    using digits_rat_fits plain_integer_digits [OF parts(1)] parts(2) by blast
  then show ?thesis using v digits_rat_nonneg [of ip "frac_digits fp"] by (auto simp: on_grid_minus)
qed

subsection \<open>Clean states\<close>

definition clean :: "ImportResult \<Rightarrow> bool" where
  "clean r \<longleftrightarrow> ir_Diagnostics r = [] \<and> \<not> ir_DiagnosticsTruncated r"

lemma not_clean_add_diag [simp]: "\<not> clean (add_diag row col code msg r)"
  by (auto simp: clean_def add_diag_def MaxDiagnostics_def)

lemma clean_add_if: "clean (add_if b row col code msg r) \<longleftrightarrow> \<not> b \<and> clean r"
  by (simp add: add_if_def)

lemma clean_addCell: "clean (addCell row col v req r) \<longleftrightarrow> cell_ok v req \<and> clean r"
  by (auto simp: addCell_def cell_ok_def)

lemma clean_room: "clean r \<Longrightarrow> length (ir_Diagnostics r) < MaxDiagnostics"
  by (simp add: clean_def MaxDiagnostics_def)

definition position_ok :: "PositionRow \<Rightarrow> bool" where
  "position_ok p \<longleftrightarrow> import_validUUID (po_AccountID p) \<and> import_validUUID (po_InstrumentID p) \<and> import_validDecimal (po_Quantity p) False
     \<and> import_validDecimal (po_TotalCostBasis p) True \<and> import_validDecimal (po_ModifiedDurationYears p) True
     \<and> import_validDecimal (po_ConvexityYearsSquared p) True"

text \<open>The row of a record, and the keys that must not occur twice.\<close>

definition position_of :: "string list \<Rightarrow> PositionRow" where
  "position_of c = \<lparr>po_AccountID = c ! 0, po_InstrumentID = c ! 1, po_Quantity = c ! 2,
     po_TotalCostBasis = c ! 3, po_ModifiedDurationYears = c ! 4, po_ConvexityYearsSquared = c ! 5\<rparr>"

definition position_key :: "string list \<Rightarrow> string" where
  "position_key c = c ! 0 @ [CHR 0x00] @ c ! 1"

definition price_key :: "string list \<Rightarrow> string" where
  "price_key c = c ! 0 @ [CHR 0x00] @ ToUpper (c ! 1) @ [CHR 0x00] @ c ! 2 @ [CHR 0x00] @ c ! 4"

definition price_of :: "string list \<Rightarrow> PriceRow \<Rightarrow> bool" where
  "price_of c p \<longleftrightarrow> pc_InstrumentID p = c ! 0 \<and> pc_QuoteCurrency p = ToUpper (c ! 1)
     \<and> parse_RFC3339 (c ! 2) = Some (pc_ObservationTime p) \<and> pc_Price p = c ! 3 \<and> pc_SourceKnownAt p = c ! 4"

definition price_ok :: "PriceRow \<Rightarrow> bool" where
  "price_ok p \<longleftrightarrow> import_validUUID (pc_InstrumentID p) \<and> unitPattern (pc_QuoteCurrency p)
     \<and> import_validDecimal (pc_Price p) False \<and> \<not> isNonPositive (pc_Price p)
     \<and> (pc_SourceKnownAt p = [] \<longleftrightarrow> pc_SourceKnownAtTime p = None)
     \<and> (\<forall>t. pc_SourceKnownAtTime p = Some t \<longrightarrow> parse_RFC3339 (pc_SourceKnownAt p) = Some t)"

text \<open>The records of a text up to its end.\<close>

function data_records :: "string \<Rightarrow> csv_record list" where
  "data_records input = (case csv_read input of (rec, rest) \<Rightarrow> if rec = CsvEOF then [] else rec # data_records rest)"
  by pat_completeness auto
termination by (relation "measure length") (auto dest: csv_read_shrinks [OF sym])

declare data_records.simps [simp del]

text \<open>The rows collected in a clean state from the records read so far, and their keys.\<close>

definition rows_ok :: "string \<Rightarrow> string list list \<Rightarrow> string list \<times> ImportResult \<Rightarrow> bool" where
  "rows_ok kind recs s \<longleftrightarrow> (if kind = KindPositions
     then ir_Positions (snd s) = map position_of recs \<and> list_all position_ok (ir_Positions (snd s)) \<and> ir_Prices (snd s) = []
       \<and> fst s = rev (map position_key recs) \<and> distinct (fst s)
     else list_all2 price_of recs (ir_Prices (snd s)) \<and> list_all price_ok (ir_Prices (snd s)) \<and> ir_Positions (snd s) = []
       \<and> fst s = rev (map price_key recs) \<and> distinct (fst s))"

lemma clean_update [simp]: "clean (r\<lparr>ir_Positions := ps\<rparr>) = clean r" "clean (r\<lparr>ir_Prices := qs\<rparr>) = clean r"
  by (simp_all add: clean_def)

lemma if_clean: "clean (if length (ir_Diagnostics r) < MaxDiagnostics then r\<lparr>ir_Positions := ps\<rparr> else r) = clean r"
  "clean (if length (ir_Diagnostics r) < MaxDiagnostics then r\<lparr>ir_Prices := qs\<rparr> else r) = clean r"
  by simp_all

lemma parsePosition_clean:
  assumes "clean (snd (parsePosition record row (seen, r)))"
  shows "clean r \<and> position_ok (position_of record) \<and> position_key record \<notin> set seen
    \<and> parsePosition record row (seen, r) = (position_key record # seen, r\<lparr>ir_Positions := ir_Positions r @ [position_of record]\<rparr>)"
proof -
  have conds: "clean r \<and> position_ok (position_of record) \<and> position_key record \<notin> set seen
      \<and> cell_ok (record ! 0) True \<and> cell_ok (record ! 1) True"
    using assms(1)
    by (auto simp: parsePosition_def Let_def if_clean clean_add_if clean_addCell position_ok_def position_key_def position_of_def)
  then have "parsePosition record row (seen, r) = (position_key record # seen, r\<lparr>ir_Positions := ir_Positions r @ [position_of record]\<rparr>)"
    by (auto simp: parsePosition_def Let_def add_if_def addCell_def cell_ok_def position_ok_def position_key_def position_of_def clean_room)
  with conds show ?thesis by blast
qed

lemma parseRFC3339_Some: "parseRFC3339 v = Some (Some t) \<Longrightarrow> parse_RFC3339 v = Some t"
  by (auto simp: parseRFC3339_def split: if_splits)

lemma parsePrice_clean:
  assumes "parsePrice record row (seen, r) = Some s'" and "clean (snd s')" and "1 < length record"
  obtains p where "clean r" and "price_ok p" and "price_of record p" and "price_key record \<notin> set seen"
    and "s' = (price_key record # seen, r\<lparr>ir_Prices := ir_Prices r @ [p]\<rparr>)"
proof -
  let ?u = "ToUpper (record ! 1)"
  have nth: "record[1 := ?u] ! 0 = record ! 0" "record[1 := ?u] ! 1 = ?u" "record[1 := ?u] ! 2 = record ! 2"
    "record[1 := ?u] ! 3 = record ! 3" "record[1 := ?u] ! 4 = record ! 4"
    using assms(3) by simp_all
  note eq = assms(1) [unfolded parsePrice_def prod.case Let_def nth]
  define kn where "kn = (if record ! 4 \<noteq> [] \<and> cell_ok (record ! 4) False then parseRFC3339 (record ! 4) else Some None)"
  note eq = eq [folded kn_def]
  obtain obs where obs: "parseRFC3339 (record ! 2) = Some obs"
    using eq by (cases "parseRFC3339 (record ! 2)") (simp_all only: option.case, simp)
  obtain known where known: "kn = Some known"
    using eq by (cases kn) (simp_all only: obs option.case, simp)
  define p where "p = \<lparr>pc_InstrumentID = record ! 0, pc_QuoteCurrency = ?u, pc_ObservationTime = (case obs of None \<Rightarrow> zero_time | Some t \<Rightarrow> t),
      pc_Price = record ! 3, pc_SourceKnownAt = record ! 4, pc_SourceKnownAtTime = known\<rparr>"
  note eq = eq [unfolded obs known option.case, folded p_def price_key_def]
  have conds: "clean r \<and> cell_ok (record ! 0) True \<and> cell_ok ?u True \<and> cell_ok (record ! 2) True \<and> cell_ok (record ! 3) True
      \<and> import_validUUID (record ! 0) \<and> unitPattern ?u \<and> import_validDecimal (record ! 3) False \<and> \<not> isNonPositive (record ! 3)
      \<and> obs \<noteq> None \<and> (record ! 4 \<noteq> [] \<longrightarrow> cell_ok (record ! 4) False \<and> known \<noteq> None)
      \<and> price_key record \<notin> set seen"
    using assms(2) unfolding eq [unfolded option.inject, symmetric]
    by (simp add: if_clean clean_add_if clean_addCell split: if_splits)
  have "s' = (price_key record # seen, r\<lparr>ir_Prices := ir_Prices r @ [p]\<rparr>)"
    using conds unfolding eq [unfolded option.inject, symmetric]
    by (auto simp: add_if_def addCell_def cell_ok_def p_def clean_room)
  moreover have "price_ok p"
    using conds known by (auto simp: price_ok_def p_def kn_def dest: parseRFC3339_Some split: if_splits)
  moreover have "price_of record p"
    using conds obs by (auto simp: price_of_def p_def dest: parseRFC3339_Some)
  ultimately show ?thesis using conds by (intro that [of p]) simp_all
qed

lemma parse_record_clean:
  assumes "parse_record kind rec row s = Some s'" and "clean (snd s')" and "rec \<noteq> CsvEOF"
    and "kind = KindPositions \<or> kind = KindManualPrices"
  obtains cells where "rec = CsvRecord cells" and "clean (snd s)" and "\<And>recs. rows_ok kind recs s \<Longrightarrow> rows_ok kind (recs @ [cells]) s'"
proof -
  obtain seen r where s: "s = (seen, r)" by (cases s)
  obtain cells where rec: "rec = CsvRecord cells" and len: "length cells = length (headers_for kind)"
    using assms(1-3) by (auto simp: parse_record_def split: csv_record.splits if_splits)
  show thesis
  proof (cases "kind = KindPositions")
    case True
    then have "s' = parsePosition cells row (seen, r)"
      using assms(1) len by (simp add: parse_record_def rec s)
    with parsePosition_clean [of cells row seen r] assms(2) True show thesis
      by (intro that [OF rec]) (auto simp: rows_ok_def s)
  next
    case False
    then have p: "parsePrice cells row (seen, r) = Some s'" and "1 < length cells"
      using assms(1,4) len by (auto simp: parse_record_def rec s headers_for_def priceHeaders_def)
    then obtain q where "clean r" and "price_ok q" and "price_of cells q" and "price_key cells \<notin> set seen"
      and "s' = (price_key cells # seen, r\<lparr>ir_Prices := ir_Prices r @ [q]\<rparr>)"
      by (metis parsePrice_clean [OF p assms(2)])
    then show thesis using False by (intro that [OF rec]) (auto simp: rows_ok_def s list_all2_appendI)
  qed
qed

lemma parse_rows_clean:
  assumes "parse_rows kind input n s = Some (rows, r)" and "clean r" and "clean (snd s) \<Longrightarrow> rows_ok kind recs s"
    and "kind = KindPositions \<or> kind = KindManualPrices" and "n = int (length recs)" and "n \<le> MaxRows"
  shows "clean (snd s) \<and> (\<exists>new seen. data_records input = map CsvRecord new \<and> rows_ok kind (recs @ new) (seen, r)
    \<and> rows = int (length (recs @ new)) \<and> rows \<le> MaxRows)"
  using assms
proof (induction kind input n s arbitrary: recs rule: parse_rows.induct)
  case (1 kind input n s)
  obtain rec rest where read: "csv_read input = (rec, rest)" by (cases "csv_read input")
  show ?case
  proof (cases "rec = CsvEOF")
    case True
    then have "data_records input = map CsvRecord []" using read by (simp add: data_records.simps [of input])
    moreover have "r = snd s" "rows = n" using True "1.prems"(1) read by (simp_all add: parse_rows.simps [of kind input])
    ultimately show ?thesis using "1.prems" by (intro conjI exI [of _ "[]"] exI [of _ "fst s"]) auto
  next
    case False
    with "1.prems" read obtain s1 where max: "\<not> n + 1 > MaxRows" and s1: "parse_record kind rec (n + 2) s = Some s1"
      and rest: "parse_rows kind rest (n + 1) s1 = Some (rows, r)"
      by (auto simp: parse_rows.simps [of kind input] split: if_splits option.splits)
    note step = parse_record_clean [OF s1 _ False "1.prems"(4)]
    define cells where "cells = (case rec of CsvRecord c \<Rightarrow> c | _ \<Rightarrow> [])"
    have cells: "rec = CsvRecord cells \<and> clean (snd s) \<and> (rows_ok kind recs s \<longrightarrow> rows_ok kind (recs @ [cells]) s1)"
      if clean: "clean (snd s1)"
      by (rule step [OF clean]) (simp add: cells_def)
    have "clean (snd s1) \<and> (\<exists>new seen. data_records rest = map CsvRecord new \<and> rows_ok kind ((recs @ [cells]) @ new) (seen, r)
        \<and> rows = int (length ((recs @ [cells]) @ new)) \<and> rows \<le> MaxRows)"
    proof (rule "1.IH" [OF read [symmetric] False max s1 rest "1.prems"(2)])
      show "rows_ok kind (recs @ [cells]) s1" if "clean (snd s1)" using cells [OF that] "1.prems"(3) by blast
      show "kind = KindPositions \<or> kind = KindManualPrices" by (rule "1.prems"(4))
      show "n + 1 = int (length (recs @ [cells]))" using "1.prems"(5) by simp
      show "n + 1 \<le> MaxRows" using max by simp
    qed
    then obtain new seen where s1: "clean (snd s1)" and new: "data_records rest = map CsvRecord new"
      "rows_ok kind ((recs @ [cells]) @ new) (seen, r)" "rows = int (length ((recs @ [cells]) @ new))" "rows \<le> MaxRows" by blast
    have "data_records input = map CsvRecord (cells # new)"
      using read False new(1) cells [OF s1] by (simp add: data_records.simps [of input])
    then show ?thesis using cells [OF s1] new(2-) by (intro conjI exI [of _ "cells # new"] exI [of _ seen]) simp_all
  qed
qed

subsection \<open>Valid imports\<close>

lemma Parse_valid_rows:
  assumes "Parse digest body kind = Some r" and "ir_Valid r"
  obtains r0 recs seen where "kind = KindPositions \<or> kind = KindManualPrices" and "recs \<noteq> []"
    and "ir_RowCount r = int (length recs)" and "ir_RowCount r \<le> MaxRows"
    and "data_records (trim_prefix body [CHR 0xEF, CHR 0xBB, CHR 0xBF]) = CsvRecord (headers_for kind) # map CsvRecord recs"
    and "rows_ok kind recs (seen, r0)" and "ir_Positions r = ir_Positions r0" and "ir_Prices r = ir_Prices r0" and "ir_Diagnostics r = []"
proof -
  let ?r = "\<lparr>ir_Kind = kind, ir_ContentSHA256 = digest body, ir_RowCount = 0, ir_Valid = False, ir_Diagnostics = [],
               ir_DiagnosticsTruncated = False, ir_Positions = [], ir_Prices = []\<rparr>"
  have nv: "\<not> ir_Valid (add_diag row col code msg ?r)" for row col code msg by (simp add: add_diag_def)
  have none: "body_error kind body = None"
    using assms nv by (auto simp: Parse_def Let_def split: option.splits)
  then have kind: "kind = KindPositions \<or> kind = KindManualPrices" by (auto simp: body_error_def split: if_splits)
  obtain rest rows r0 where header: "csv_read (trim_prefix body [CHR 0xEF, CHR 0xBB, CHR 0xBF]) = (CsvRecord (headers_for kind), rest)"
    and p: "parse_rows kind rest 0 ([], ?r) = Some (rows, r0)"
    and r: "r = r0\<lparr>ir_RowCount := rows, ir_Valid := ir_Diagnostics r0 = [] \<and> \<not> ir_DiagnosticsTruncated r0 \<and> rows > 0\<rparr>"
    using assms nv none by (auto simp: Parse_def Let_def split: prod.splits csv_record.splits if_splits)
  have c: "clean r0" "rows > 0" using assms(2) by (auto simp: r clean_def)
  have start: "rows_ok kind [] ([], ?r)" by (simp add: rows_ok_def)
  obtain recs seen where new: "data_records rest = map CsvRecord recs" "rows_ok kind recs (seen, r0)" "rows = int (length recs)" "rows \<le> MaxRows"
    using parse_rows_clean [OF p c(1) start kind] by (auto simp: MaxRows_def)
  moreover have "data_records (trim_prefix body [CHR 0xEF, CHR 0xBB, CHR 0xBF]) = CsvRecord (headers_for kind) # map CsvRecord recs"
    using header new(1) by (simp add: data_records.simps [of "trim_prefix body [CHR 0xEF, CHR 0xBB, CHR 0xBF]"])
  ultimately show ?thesis using kind c by (intro that [of recs seen r0]) (auto simp: r clean_def)
qed


definition sample_csv :: string where
  "sample_csv = ''instrument_id,quote_currency,observation_time,price,source_known_at'' @ [newline]
     @ ''11111111-1111-1111-1111-111111111111,usd,2024-01-02T00:00:00Z,1.50,'' @ [newline]"

lemma sample_parsed:
  "map_option (\<lambda>r. (ir_Valid r, ir_RowCount r, map pc_QuoteCurrency (ir_Prices r))) (Parse id sample_csv KindManualPrices) = Some (True, 1, [''USD''])"
  by code_simp


text \<open>
  The key of a price compares the times as they are written: the same instant in two spellings is accepted
  as two rows, which the unique key of the table of prices then refuses.
\<close>

definition sample_twice_csv :: string where
  "sample_twice_csv = ''instrument_id,quote_currency,observation_time,price,source_known_at'' @ [newline]
     @ ''11111111-1111-1111-1111-111111111111,USD,2024-01-02T00:00:00Z,1.5,'' @ [newline]
     @ ''11111111-1111-1111-1111-111111111111,USD,2024-01-02T01:00:00+01:00,1.5,'' @ [newline]"

theorem same_instant_accepted_twice:
  "map_option (\<lambda>r. (ir_Valid r, case ir_Prices r of [p, q] \<Rightarrow> p = q | _ \<Rightarrow> False)) (Parse id sample_twice_csv KindManualPrices) = Some (True, True)"
  by code_simp

subsection \<open>Short timestamps\<close>

lemma parse_rows_positions: "parse_rows KindPositions input n s \<noteq> None"
proof (induction KindPositions input n s rule: parse_rows.induct)
  case (1 input n s)
  obtain rec rest where "csv_read input = (rec, rest)" by (cases "csv_read input")
  moreover have "\<exists>s'. parse_record KindPositions rec (n + 2) s = Some s'" by (simp add: parse_record_def split: csv_record.split)
  ultimately show ?case
    using "1.hyps" by (auto simp: parse_rows.simps [of KindPositions input])
qed

lemma parsePrice_panics:
  assumes "2 \<le> length (cells ! 2)" and "length (cells ! 2) < 6" and "last (cells ! 2) \<noteq> CHR ''Z''"
  shows "parsePrice cells row s = None"
proof -
  have "\<not> has_suffix (cells ! 2) ''Z''"
    using assms(1,3) by (cases "cells ! 2" rule: rev_cases) (auto simp: has_suffix_def)
  then have "parseRFC3339 (cells ! 2) = None" using assms by (simp add: parseRFC3339_def)
  then show ?thesis by (cases s) (simp add: parsePrice_def Let_def)
qed

text \<open>
  C35. The parser can be made to panic: an observation time of two to five bytes that does not end
  in Z is sliced out of its bounds before any diagnostic is returned, so a price file whose first
  data record has one ends in a panic instead of an \<open>invalid_timestamp\<close> diagnostic. A
  position file never does, whatever its bytes.
\<close>
theorem short_timestamp_panics:
  assumes "body_error KindManualPrices body = None"
    and "csv_read (trim_prefix body [CHR 0xEF, CHR 0xBB, CHR 0xBF]) = (CsvRecord priceHeaders, rest)"
    and "csv_read rest = (CsvRecord cells, rest')" and "length cells = 5"
    and "2 \<le> length (cells ! 2)" and "length (cells ! 2) < 6" and "last (cells ! 2) \<noteq> CHR ''Z''"
  shows "Parse digest body KindManualPrices = None \<and> Parse digest anybody KindPositions \<noteq> None"
proof
  have "parse_rows KindManualPrices rest 0 s = None" for s
    using assms(3,4) parsePrice_panics [OF assms(5-7)]
    by (simp add: parse_rows.simps [of _ rest] parse_record_def headers_for_def priceHeaders_def MaxRows_def)
  then show "Parse digest body KindManualPrices = None"
    using assms(1,2) by (simp add: Parse_def Let_def headers_for_def)
  show "Parse digest anybody KindPositions \<noteq> None"
    using parse_rows_positions by (auto simp: Parse_def Let_def split: option.splits prod.splits csv_record.splits)
qed

definition sample_bad_csv :: string where
  "sample_bad_csv = ''instrument_id,quote_currency,observation_time,price,source_known_at'' @ [newline] @ ''a,usd,today,1,'' @ [newline]"

theorem short_timestamp_panics_witness: "Parse id sample_bad_csv KindManualPrices = None"
proof -
  have "body_error KindManualPrices sample_bad_csv = None"
    and "csv_read (trim_prefix sample_bad_csv [CHR 0xEF, CHR 0xBB, CHR 0xBF]) = (CsvRecord priceHeaders, ''a,usd,today,1,'' @ [newline])"
    and "csv_read (''a,usd,today,1,'' @ [newline]) = (CsvRecord [''a'', ''usd'', ''today'', ''1'', []], [])"
    by code_simp+
  from short_timestamp_panics [OF this] show ?thesis by simp
qed

end
