(* ===== verification/Journal.thy ===== *)
theory Journal
  imports Json Postgres
begin

text \<open>
  The decision journal, \<open>internal/application/journal/service.go\<close> and
  \<open>internal/domain/journal/model.go\<close>. The tables are lists of rows, each with the number it
  drew from the sequence \<^verbatim>\<open>decision_timeline_sequence\<close>, which a rolled back statement does
  not give back. A JSON column holds the value that was written to it; the payload of a timeline
  event is the value it was built from. Sealing the evidence of a decision and reconstructing it
  belong to the evidence service: they are the arguments \<open>seal\<close>, which changes the evidence
  tables of type \<open>'e\<close> or fails, and \<open>reconstruct\<close>. \<open>scanUUID\<close>, \<open>castUUID\<close>
  and \<open>fault\<close> are as in \<open>Postgres\<close>.
\<close>

abbreviation StatusDraft :: string where "StatusDraft \<equiv> ''draft''"
abbreviation StatusFinalized :: string where "StatusFinalized \<equiv> ''finalized''"

record EvidenceRef =
  er_Kind :: string
  er_Reference :: string
  er_Description :: string

record Invalidation =
  iv_Condition :: string
  iv_Metric :: string
  iv_Threshold :: string

record Horizon =
  hz_Start :: time
  hz_End :: time

record RiskBudget =
  rb_Amount :: string
  rb_Currency :: string
  rb_Measure :: string
  rb_Horizon :: string

record Decision =
  dc_ID :: string
  dc_AccountID :: string
  dc_Thesis :: string
  dc_Alternatives :: "string list"
  dc_EvidenceReferences :: "EvidenceRef list"
  dc_InvalidationConditions :: "Invalidation list"
  dc_Horizon :: Horizon
  dc_RiskBudget :: RiskBudget
  dc_IntendedAction :: string
  dc_Tags :: "string list"
  dc_Status :: string
  dc_Author :: string
  dc_SourceMetadata :: metadata
  dc_CreatedAt :: time
  dc_FinalizedAt :: "time option"

record CreateRequest =
  cr_AccountID :: string
  cr_Thesis :: string
  cr_Alternatives :: "string list"
  cr_EvidenceReferences :: "EvidenceRef list"
  cr_InvalidationConditions :: "Invalidation list"
  cr_Horizon :: Horizon
  cr_RiskBudget :: RiskBudget
  cr_IntendedAction :: string
  cr_Tags :: "string list"
  cr_Author :: string
  cr_SourceMetadata :: "metadata option"

record Review =
  rv_ID :: string
  rv_DecisionID :: string
  rv_Review :: string
  rv_Outcome :: string
  rv_Author :: string
  rv_SourceMetadata :: metadata
  rv_CreatedAt :: time

record ReviewRequest =
  rvr_Review :: string
  rvr_Outcome :: string
  rvr_Author :: string
  rvr_SourceMetadata :: "metadata option"

record Amendment =
  am_ID :: string
  am_DecisionID :: string
  am_Summary :: string
  am_Changes :: metadata
  am_Author :: string
  am_SourceMetadata :: metadata
  am_CreatedAt :: time

record AmendmentRequest =
  amr_Summary :: string
  amr_Changes :: "metadata option"
  amr_Author :: string
  amr_SourceMetadata :: "metadata option"

datatype payload = CreationSnapshot CreateRequest | ReviewPayload string string | AmendmentPayload string metadata

record TimelineEvent =
  te_ID :: string
  te_DecisionID :: string
  te_Kind :: string
  te_Payload :: payload
  te_Author :: string
  te_SourceMetadata :: metadata
  te_CreatedAt :: time

record Timeline =
  tl_Decision :: Decision
  tl_Events :: "TimelineEvent list"

datatype journal_error = JErrInvalidRequest | JErrNotFound | JConflictError string string | JErr string

datatype seal_error = SealIncomplete | SealIntegrity | SealOther

record decision_row =
  dr_decision :: Decision
  dr_creation_snapshot :: CreateRequest
  dr_sequence :: int

record 'e journal_db =
  jn_accounts :: "string list"
  decisions :: "decision_row list"
  decision_reviews :: "(Review \<times> int) list"
  decision_amendments :: "(Amendment \<times> int) list"
  timeline_sequence :: int
  jn_evidence :: 'e

subsection \<open>Decimals and identifiers\<close>

definition jn_parseDecimal :: "string \<Rightarrow> rat option" where
  "jn_parseDecimal value = (if \<not> decimalPattern value then None else SetString value)"

definition jn_formatDecimal :: "rat \<Rightarrow> string" where
  "jn_formatDecimal value = print18 (scaled_quotient value)"

definition jn_scaleDecimal :: "rat \<Rightarrow> rat" where
  "jn_scaleDecimal value = (case jn_parseDecimal (jn_formatDecimal value) of None \<Rightarrow> 0 | Some r \<Rightarrow> r)"

definition validPersistedDecimal :: "string \<Rightarrow> bool" where
  "validPersistedDecimal value =
     (if \<not> decimalPattern value then False
      else case split_point (trim_prefix value ''-'') of
        (ip, fp) \<Rightarrow> if length ip > 20 then False else (case fp of None \<Rightarrow> True | Some f \<Rightarrow> length f \<le> 18))"

definition parseUUID :: "(string \<Rightarrow> string option) \<Rightarrow> string \<Rightarrow> string option" where
  "parseUUID scanUUID value = scanUUID (TrimSpace value)"

subsection \<open>Normalisation and validation\<close>

definition normalizeCreate :: "CreateRequest \<Rightarrow> CreateRequest" where
  "normalizeCreate r = r\<lparr>cr_AccountID := TrimSpace (cr_AccountID r), cr_Thesis := TrimSpace (cr_Thesis r),
     cr_IntendedAction := TrimSpace (cr_IntendedAction r), cr_Author := TrimSpace (cr_Author r),
     cr_RiskBudget := \<lparr>rb_Amount = TrimSpace (rb_Amount (cr_RiskBudget r)), rb_Currency = ToUpper (TrimSpace (rb_Currency (cr_RiskBudget r))),
        rb_Measure = TrimSpace (rb_Measure (cr_RiskBudget r)), rb_Horizon = TrimSpace (rb_Horizon (cr_RiskBudget r))\<rparr>,
     cr_Alternatives := map TrimSpace (cr_Alternatives r), cr_Tags := map TrimSpace (cr_Tags r),
     cr_EvidenceReferences := map (\<lambda>e. \<lparr>er_Kind = TrimSpace (er_Kind e), er_Reference = TrimSpace (er_Reference e),
        er_Description = TrimSpace (er_Description e)\<rparr>) (cr_EvidenceReferences r)\<rparr>"

definition normalizeReview :: "ReviewRequest \<Rightarrow> ReviewRequest" where
  "normalizeReview r = r\<lparr>rvr_Review := TrimSpace (rvr_Review r), rvr_Outcome := TrimSpace (rvr_Outcome r), rvr_Author := TrimSpace (rvr_Author r)\<rparr>"

definition normalizeAmendment :: "AmendmentRequest \<Rightarrow> AmendmentRequest" where
  "normalizeAmendment r = r\<lparr>amr_Summary := TrimSpace (amr_Summary r), amr_Author := TrimSpace (amr_Author r)\<rparr>"

definition validCreate :: "CreateRequest \<Rightarrow> bool" where
  "validCreate r =
     (if cr_AccountID r = [] \<or> cr_Thesis r = [] \<or> cr_IntendedAction r = [] \<or> cr_Author r = [] \<or> rb_Currency (cr_RiskBudget r) = []
         \<or> rb_Measure (cr_RiskBudget r) = [] \<or> rb_Horizon (cr_RiskBudget r) = [] \<or> \<not> validPersistedDecimal (rb_Amount (cr_RiskBudget r))
         \<or> cr_InvalidationConditions r = [] then False
      else if list_ex (\<lambda>e. TrimSpace (er_Kind e) = [] \<or> TrimSpace (er_Reference e) = []) (cr_EvidenceReferences r) then False
      else \<not> list_ex (\<lambda>c. TrimSpace (iv_Condition c) = []) (cr_InvalidationConditions r))"

subsection \<open>Decisions\<close>

definition nextval :: "'e journal_db \<Rightarrow> 'e journal_db" where
  "nextval db = db\<lparr>timeline_sequence := timeline_sequence db + 1\<rparr>"

definition new_decision :: "time \<Rightarrow> string \<Rightarrow> string \<Rightarrow> rat \<Rightarrow> CreateRequest \<Rightarrow> Decision" where
  "new_decision now newID account amount r = \<lparr>dc_ID = newID, dc_AccountID = account, dc_Thesis = cr_Thesis r,
     dc_Alternatives = cr_Alternatives r, dc_EvidenceReferences = cr_EvidenceReferences r,
     dc_InvalidationConditions = cr_InvalidationConditions r,
     dc_Horizon = \<lparr>hz_Start = pg_time (hz_Start (cr_Horizon r)), hz_End = pg_time (hz_End (cr_Horizon r))\<rparr>,
     dc_RiskBudget = (cr_RiskBudget r)\<lparr>rb_Amount := jn_formatDecimal amount\<rparr>, dc_IntendedAction = cr_IntendedAction r,
     dc_Tags = cr_Tags r, dc_Status = StatusDraft, dc_Author = cr_Author r,
     dc_SourceMetadata = (case cr_SourceMetadata r of None \<Rightarrow> [] | Some m \<Rightarrow> m), dc_CreatedAt = now, dc_FinalizedAt = None\<rparr>"

text \<open>
  The insert: a failing statement may have drawn a number (\<open>drew\<close>). The horizon, cut to
  microseconds, has to satisfy the table's constraint.
\<close>

definition Create_decision :: "bool \<Rightarrow> (string \<Rightarrow> string option) \<Rightarrow> (string \<Rightarrow> string option) \<Rightarrow> db_fault \<Rightarrow> bool \<Rightarrow> time \<Rightarrow> string
    \<Rightarrow> CreateRequest \<Rightarrow> 'e journal_db \<Rightarrow> 'e journal_db \<times> (journal_error + Decision)" where
  "Create_decision pool castUUID scanUUID fault drew now newID request db =
     (let r = normalizeCreate request; failed = (if drew then nextval db else db) in
      if \<not> pool \<or> \<not> validCreate r then (db, Inl JErrInvalidRequest)
      else case jn_parseDecimal (rb_Amount (cr_RiskBudget r)) of
        None \<Rightarrow> (db, Inl JErrInvalidRequest)
      | Some a \<Rightarrow>
          if a < 0 then (db, Inl JErrInvalidRequest)
          else if parseUUID scanUUID (cr_AccountID r) = None then (db, Inl JErrInvalidRequest)
          else if \<not> hz_Start (cr_Horizon r) < hz_End (cr_Horizon r) then (db, Inl JErrInvalidRequest)
          else (case castUUID (cr_AccountID r) of
              None \<Rightarrow> (failed, Inl (JErr ''create decision''))
            | Some account \<Rightarrow>
                let r = r\<lparr>cr_SourceMetadata := Some (case cr_SourceMetadata r of None \<Rightarrow> [] | Some m \<Rightarrow> m)\<rparr>;
                    d = new_decision now newID account (jn_scaleDecimal a) r
                in if fault (DbStmt 0) \<or> \<not> hz_Start (dc_Horizon d) < hz_End (dc_Horizon d) then (failed, Inl (JErr ''create decision''))
                   else if account \<notin> set (jn_accounts db) then (failed, Inl JErrNotFound)
                   else ((nextval db)\<lparr>decisions := decisions db @ [\<lparr>dr_decision = d, dr_creation_snapshot = r, dr_sequence = timeline_sequence db\<rparr>]\<rparr>,
                         Inr d)))"

definition getDecision :: "(string \<Rightarrow> string option) \<Rightarrow> db_fault \<Rightarrow> nat \<Rightarrow> string \<Rightarrow> 'e journal_db \<Rightarrow> journal_error + Decision" where
  "getDecision castUUID fault stmt i db =
     (if fault (DbStmt stmt) \<or> castUUID i = None then Inl (JErr ''get decision'')
      else case find (\<lambda>row. Some (dc_ID (dr_decision row)) = castUUID i) (decisions db) of
        None \<Rightarrow> Inl JErrNotFound
      | Some row \<Rightarrow> Inr (dr_decision row))"

definition Get_decision :: "bool \<Rightarrow> (string \<Rightarrow> string option) \<Rightarrow> (string \<Rightarrow> string option) \<Rightarrow> db_fault \<Rightarrow> string \<Rightarrow> 'e journal_db
    \<Rightarrow> journal_error + Decision" where
  "Get_decision pool castUUID scanUUID fault rawID db = (case parseUUID scanUUID rawID of
      None \<Rightarrow> Inl JErrInvalidRequest
    | Some i \<Rightarrow> if \<not> pool then Inl JErrInvalidRequest else getDecision castUUID fault 0 i db)"

definition finalized :: "time \<Rightarrow> decision_row \<Rightarrow> decision_row" where
  "finalized now row = row\<lparr>dr_decision := (dr_decision row)\<lparr>dc_Status := StatusFinalized, dc_FinalizedAt := Some now\<rparr>\<rparr>"

definition Finalize :: "bool \<Rightarrow> (string \<Rightarrow> string option) \<Rightarrow> (string \<Rightarrow> string option) \<Rightarrow> ('e \<Rightarrow> string \<Rightarrow> string \<Rightarrow> EvidenceRef list \<Rightarrow> seal_error + 'e)
    \<Rightarrow> db_fault \<Rightarrow> time \<Rightarrow> string \<Rightarrow> 'e journal_db \<Rightarrow> 'e journal_db \<times> (journal_error + Decision)" where
  "Finalize pool castUUID scanUUID seal fault now rawID db = (case parseUUID scanUUID rawID of
      None \<Rightarrow> (db, Inl JErrInvalidRequest)
    | Some i \<Rightarrow>
        if \<not> pool then (db, Inl JErrInvalidRequest)
        else if fault DbBegin then (db, Inl (JErr ''begin decision finalization''))
        else if fault (DbStmt 0) \<or> castUUID i = None then (db, Inl (JErr ''lock decision''))
        else (case find (\<lambda>row. Some (dc_ID (dr_decision row)) = castUUID i) (decisions db) of
            None \<Rightarrow> (db, Inl JErrNotFound)
          | Some row \<Rightarrow>
              if dc_Status (dr_decision row) \<noteq> StatusDraft
              then (db, Inl (JConflictError ''DECISION_IMMUTABLE'' ''the decision is already finalized''))
              else (case getDecision castUUID fault 1 i db of
                  Inl e \<Rightarrow> (db, Inl e)
                | Inr decision \<Rightarrow> (case seal (jn_evidence db) (dc_ID decision) (dc_AccountID decision) (dc_EvidenceReferences decision) of
                    Inl SealOther \<Rightarrow> (db, Inl (JErr ''seal decision evidence''))
                  | Inl _ \<Rightarrow> (db, Inl (JConflictError ''EVIDENCE_INCOMPLETE'' ''required decision evidence is unavailable or incomplete''))
                  | Inr evidence \<Rightarrow>
                      if fault (DbStmt 2) then (db, Inl (JErr ''finalize decision''))
                      else let db1 = db\<lparr>jn_evidence := evidence, decisions :=
                                 sql_update (\<lambda>row. Some (dc_ID (dr_decision row)) = castUUID i) (finalized now) (decisions db)\<rparr>
                           in (case getDecision castUUID fault 3 i db1 of
                                 Inl e \<Rightarrow> (db, Inl e)
                               | Inr result \<Rightarrow> if fault DbCommit then (db, Inl (JErr ''commit decision finalization''))
                                              else (db1, Inr result))))))"

definition Evidence :: "bool \<Rightarrow> (string \<Rightarrow> string option) \<Rightarrow> ('e \<Rightarrow> string \<Rightarrow> string + 's option) \<Rightarrow> string \<Rightarrow> 'e journal_db
    \<Rightarrow> journal_error + 's" where
  "Evidence pool scanUUID reconstruct rawID db = (case parseUUID scanUUID rawID of
      None \<Rightarrow> Inl JErrInvalidRequest
    | Some i \<Rightarrow>
        if \<not> pool then Inl JErrInvalidRequest
        else (case reconstruct (jn_evidence db) i of
            Inl e \<Rightarrow> Inl (JErr e)
          | Inr None \<Rightarrow> Inl JErrNotFound
          | Inr (Some sealed) \<Rightarrow> Inr sealed))"

subsection \<open>Reviews, amendments and the timeline\<close>

definition AddReview :: "bool \<Rightarrow> (string \<Rightarrow> string option) \<Rightarrow> (string \<Rightarrow> string option) \<Rightarrow> db_fault \<Rightarrow> bool \<Rightarrow> time \<Rightarrow> string \<Rightarrow> string
    \<Rightarrow> ReviewRequest \<Rightarrow> 'e journal_db \<Rightarrow> 'e journal_db \<times> (journal_error + Review)" where
  "AddReview pool castUUID scanUUID fault drew now newID rawID request db =
     (let r = normalizeReview request; failed = (if drew then nextval db else db) in
      if \<not> pool \<or> scanUUID (TrimSpace rawID) = None \<or> TrimSpace (rvr_Review r) = [] \<or> TrimSpace (rvr_Outcome r) = [] \<or> TrimSpace (rvr_Author r) = []
      then (db, Inl JErrInvalidRequest)
      else (case castUUID rawID of
          None \<Rightarrow> (failed, Inl (JErr ''create decision review''))
        | Some i \<Rightarrow>
            if fault (DbStmt 0) then (failed, Inl (JErr ''create decision review''))
            else if \<not> list_ex (\<lambda>row. dc_ID (dr_decision row) = i) (decisions db) then (db, Inl JErrNotFound)
            else let v = \<lparr>rv_ID = newID, rv_DecisionID = i, rv_Review = rvr_Review r, rv_Outcome = rvr_Outcome r, rv_Author = rvr_Author r,
                          rv_SourceMetadata = (case rvr_SourceMetadata r of None \<Rightarrow> [] | Some m \<Rightarrow> m), rv_CreatedAt = now\<rparr>
                 in ((nextval db)\<lparr>decision_reviews := decision_reviews db @ [(v, timeline_sequence db)]\<rparr>, Inr v)))"

definition AddAmendment :: "bool \<Rightarrow> (string \<Rightarrow> string option) \<Rightarrow> (string \<Rightarrow> string option) \<Rightarrow> db_fault \<Rightarrow> bool \<Rightarrow> time \<Rightarrow> string \<Rightarrow> string
    \<Rightarrow> AmendmentRequest \<Rightarrow> 'e journal_db \<Rightarrow> 'e journal_db \<times> (journal_error + Amendment)" where
  "AddAmendment pool castUUID scanUUID fault drew now newID rawID request db =
     (let r = normalizeAmendment request; failed = (if drew then nextval db else db) in
      if \<not> pool \<or> scanUUID (TrimSpace rawID) = None \<or> TrimSpace (amr_Summary r) = [] \<or> amr_Changes r = None \<or> TrimSpace (amr_Author r) = []
      then (db, Inl JErrInvalidRequest)
      else (case castUUID rawID of
          None \<Rightarrow> (failed, Inl (JErr ''create decision amendment''))
        | Some i \<Rightarrow>
            if fault (DbStmt 0) then (failed, Inl (JErr ''create decision amendment''))
            else if \<not> list_ex (\<lambda>row. dc_ID (dr_decision row) = i) (decisions db) then (db, Inl JErrNotFound)
            else let v = \<lparr>am_ID = newID, am_DecisionID = i, am_Summary = amr_Summary r, am_Changes = the (amr_Changes r), am_Author = amr_Author r,
                          am_SourceMetadata = (case amr_SourceMetadata r of None \<Rightarrow> [] | Some m \<Rightarrow> m), am_CreatedAt = now\<rparr>
                 in ((nextval db)\<lparr>decision_amendments := decision_amendments db @ [(v, timeline_sequence db)]\<rparr>, Inr v)))"

definition decision_event :: "decision_row \<Rightarrow> TimelineEvent" where
  "decision_event row = (let d = dr_decision row in \<lparr>te_ID = dc_ID d, te_DecisionID = dc_ID d, te_Kind = ''decision'',
     te_Payload = CreationSnapshot (dr_creation_snapshot row), te_Author = dc_Author d, te_SourceMetadata = dc_SourceMetadata d,
     te_CreatedAt = dc_CreatedAt d\<rparr>)"

definition review_event :: "Review \<Rightarrow> TimelineEvent" where
  "review_event v = \<lparr>te_ID = rv_ID v, te_DecisionID = rv_DecisionID v, te_Kind = ''review'',
     te_Payload = ReviewPayload (rv_Review v) (rv_Outcome v), te_Author = rv_Author v, te_SourceMetadata = rv_SourceMetadata v,
     te_CreatedAt = rv_CreatedAt v\<rparr>"

definition amendment_event :: "Amendment \<Rightarrow> TimelineEvent" where
  "amendment_event v = \<lparr>te_ID = am_ID v, te_DecisionID = am_DecisionID v, te_Kind = ''amendment'',
     te_Payload = AmendmentPayload (am_Summary v) (am_Changes v), te_Author = am_Author v, te_SourceMetadata = am_SourceMetadata v,
     te_CreatedAt = am_CreatedAt v\<rparr>"

definition numbered_events :: "string \<Rightarrow> 'e journal_db \<Rightarrow> (TimelineEvent \<times> int) list" where
  "numbered_events i db =
     map (\<lambda>row. (decision_event row, dr_sequence row)) (filter (\<lambda>row. dc_ID (dr_decision row) = i) (decisions db))
     @ map (apfst review_event) (filter (\<lambda>v. rv_DecisionID (fst v) = i) (decision_reviews db))
     @ map (apfst amendment_event) (filter (\<lambda>v. am_DecisionID (fst v) = i) (decision_amendments db))"

definition timeline_events :: "string \<Rightarrow> 'e journal_db \<Rightarrow> TimelineEvent list" where
  "timeline_events i db = map fst (sort_key snd (numbered_events i db))"

definition Timeline_of :: "bool \<Rightarrow> (string \<Rightarrow> string option) \<Rightarrow> (string \<Rightarrow> string option) \<Rightarrow> db_fault \<Rightarrow> string \<Rightarrow> 'e journal_db
    \<Rightarrow> journal_error + Timeline" where
  "Timeline_of pool castUUID scanUUID fault rawID db = (case parseUUID scanUUID rawID of
      None \<Rightarrow> Inl JErrInvalidRequest
    | Some i \<Rightarrow>
        if \<not> pool then Inl JErrInvalidRequest
        else if fault DbBegin then Inl (JErr ''begin decision timeline snapshot'')
        else res_bind (getDecision castUUID fault 0 i db) (\<lambda>decision.
          if fault (DbStmt 1) then Inl (JErr ''list decision timeline'')
          else if fault DbCommit then Inl (JErr ''commit decision timeline snapshot'')
          else Inr \<lparr>tl_Decision = decision, tl_Events = timeline_events (dc_ID decision) db\<rparr>))"

end
