(* ===== verification/History.thy ===== *)
theory History
  imports Main
begin

text \<open>
  Histories of a store: calls take one state to the next, every call keeps an invariant and
  relates the state before to the state after, and the relation composes. What a later state keeps
  of an earlier one follows for every sequence of calls. The decision journal, the portfolio store
  and the import service provide this interface.
\<close>

locale history =
  fixes step :: "'s \<Rightarrow> 's \<Rightarrow> bool" and inv :: "'s \<Rightarrow> bool" and keeps :: "'s \<Rightarrow> 's \<Rightarrow> bool"
  assumes step_keeps: "step a b \<Longrightarrow> inv a \<Longrightarrow> inv b \<and> keeps a b"
    and keeps_refl: "keeps a a"
    and keeps_trans: "keeps a b \<Longrightarrow> keeps b c \<Longrightarrow> keeps a c"
begin

lemma steps_keep:
  assumes "step\<^sup>*\<^sup>* a b" and "inv a"
  shows "inv b" and "keeps a b"
proof -
  have "inv b \<and> keeps a b"
    using assms
  proof (induction rule: rtranclp_induct)
    case base
    then show ?case by (simp add: keeps_refl)
  next
    case (step b c)
    then show ?case using step_keeps keeps_trans by blast
  qed
  then show "inv b" and "keeps a b" by simp_all
qed

end

end
