(* ===== verification/Journal_Properties.thy ===== *)
theory Journal_Properties
  imports Journal History
begin

text \<open>
  What the journal promises: amounts are stored exactly as they were given, the timeline of a
  decision only grows at its end, the content of a decision never changes, its status changes at
  most once, and a finalized decision cannot be finalized again. The last two are properties of
  every sequence of calls, as the closure of the relation \<open>journal_step\<close>. The decimal
  codec of the journal is the third interpretation of \<open>decimal_codec\<close>.
\<close>

interpretation journal_decimal: decimal_codec jn_formatDecimal jn_parseDecimal jn_scaleDecimal
  by unfold_locales
    (simp_all add: jn_formatDecimal_def jn_parseDecimal_def jn_scaleDecimal_def decimalPattern_print18 SetString_scaled_quotient)

subsection \<open>Amounts\<close>

lemma persisted_decimal_fits:
  assumes "validPersistedDecimal v"
  shows "\<exists>a. jn_parseDecimal v = Some a \<and> on_grid a \<and> \<bar>a\<bar> < numeric_limit"
proof -
  have pat: "decimalPattern v" using assms by (auto simp: validPersistedDecimal_def split: if_splits)
  obtain ip fp where s: "split_point (trim_prefix v ''-'') = (ip, fp)" by (cases "split_point (trim_prefix v ''-'')")
  note parts = decimalPattern_parts [OF pat s]
  have "length ip \<le> 20" and "length (frac_digits fp) \<le> 18"
    using assms s by (auto simp: validPersistedDecimal_def frac_digits_def split: if_splits option.splits)
  then have "on_grid (digits_rat ip (frac_digits fp)) \<and> digits_rat ip (frac_digits fp) < numeric_limit"
    using digits_rat_fits plain_integer_digits [OF parts(2)] parts(3) by blast
  then show ?thesis
    using pat parts(1) digits_rat_nonneg [of ip "frac_digits fp"] by (auto simp: jn_parseDecimal_def on_grid_minus)
qed

subsection \<open>What a call does to the tables\<close>

lemma Create_decision_cases:
  obtains (failed) e db' where "Create_decision pool castUUID scanUUID fault drew now newID request db = (db', Inl e)" and "db' = db \<or> db' = nextval db"
  | (stored) a account r where "validCreate (normalizeCreate request)" and "jn_parseDecimal (rb_Amount (cr_RiskBudget (normalizeCreate request))) = Some a" and "0 \<le> a"
      and "account \<in> set (jn_accounts db)" and "castUUID (TrimSpace (cr_AccountID request)) = Some account"
      and "cr_RiskBudget r = cr_RiskBudget (normalizeCreate request)"
      and "Create_decision pool castUUID scanUUID fault drew now newID request db =
        ((nextval db)\<lparr>decisions := decisions db @ [\<lparr>dr_decision = new_decision now newID account (jn_scaleDecimal a) r,
            dr_creation_snapshot = r, dr_sequence = timeline_sequence db\<rparr>]\<rparr>, Inr (new_decision now newID account (jn_scaleDecimal a) r))"
proof (cases "\<exists>e db'. Create_decision pool castUUID scanUUID fault drew now newID request db = (db', Inl e) \<and> (db' = db \<or> db' = nextval db)")
  case True
  then show ?thesis using failed by blast
next
  case False
  define N where "N = normalizeCreate request"
  define r where "r = N\<lparr>cr_SourceMetadata := Some (case cr_SourceMetadata N of None \<Rightarrow> [] | Some m \<Rightarrow> m)\<rparr>"
  have acc: "cr_AccountID N = TrimSpace (cr_AccountID request)" by (simp add: N_def normalizeCreate_def)
  have rb: "cr_RiskBudget r = cr_RiskBudget N" by (simp add: r_def)
  note eq = Create_decision_def [of _ castUUID scanUUID fault drew now newID request db, unfolded Let_def, folded N_def, folded r_def]
  obtain a account where "pool" "validCreate N" "jn_parseDecimal (rb_Amount (cr_RiskBudget N)) = Some a" "\<not> a < 0"
    "parseUUID scanUUID (cr_AccountID N) \<noteq> None" "hz_Start (cr_Horizon N) < hz_End (cr_Horizon N)" "castUUID (cr_AccountID N) = Some account"
    "\<not> fault (DbStmt 0)" "hz_Start (dc_Horizon (new_decision now newID account (jn_scaleDecimal a) r))
       < hz_End (dc_Horizon (new_decision now newID account (jn_scaleDecimal a) r))" "account \<in> set (jn_accounts db)"
    using False unfolding eq by (simp split: if_splits option.splits)
  then show ?thesis
    using rb by (intro stored [of a account r]) (simp_all add: eq acc [symmetric] N_def [symmetric])
qed

definition same_id :: "(string \<Rightarrow> string option) \<Rightarrow> string \<Rightarrow> decision_row \<Rightarrow> bool" where
  "same_id castUUID i row \<longleftrightarrow> Some (dc_ID (dr_decision row)) = castUUID i"

lemma find_sql_update: "(\<And>x. p (f x) = p x) \<Longrightarrow> find p (sql_update p f xs) = map_option f (find p xs)"
  by (induction xs) (simp_all add: sql_update_def)

lemma Finalize_cases:
  obtains (failed) e where "Finalize pool castUUID scanUUID seal fault now rawID db = (db, Inl e)"
  | (success) i row evidence d where "parseUUID scanUUID rawID = Some i" and "find (same_id castUUID i) (decisions db) = Some row"
      and "dc_Status (dr_decision row) = StatusDraft" and "d = dr_decision (finalized now row)" and "castUUID i \<noteq> None"
      and "Finalize pool castUUID scanUUID seal fault now rawID db =
        (db\<lparr>jn_evidence := evidence, decisions := sql_update (same_id castUUID i) (finalized now) (decisions db)\<rparr>, Inr d)"
      and "seal (jn_evidence db) (dc_ID (dr_decision row)) (dc_AccountID (dr_decision row)) (dc_EvidenceReferences (dr_decision row)) = Inr evidence"
proof (cases "\<exists>e. Finalize pool castUUID scanUUID seal fault now rawID db = (db, Inl e)")
  case True
  then show ?thesis using failed by blast
next
  case False
  have id: "(\<lambda>row. Some (dc_ID (dr_decision row)) = castUUID i) = same_id castUUID i" for i
    by (simp add: same_id_def fun_eq_iff)
  note eq = Finalize_def [of _ castUUID scanUUID seal fault now rawID db, unfolded Let_def id]
  obtain i row evidence d d0 where f: "parseUUID scanUUID rawID = Some i" "find (same_id castUUID i) (decisions db) = Some row"
    "dc_Status (dr_decision row) = StatusDraft" "castUUID i \<noteq> None"
    "getDecision castUUID fault 3 i (db\<lparr>jn_evidence := evidence, decisions := sql_update (same_id castUUID i) (finalized now) (decisions db)\<rparr>) = Inr d"
    "Finalize pool castUUID scanUUID seal fault now rawID db =
        (db\<lparr>jn_evidence := evidence, decisions := sql_update (same_id castUUID i) (finalized now) (decisions db)\<rparr>, Inr d)"
    "getDecision castUUID fault 1 i db = Inr d0" "seal (jn_evidence db) (dc_ID d0) (dc_AccountID d0) (dc_EvidenceReferences d0) = Inr evidence"
    using False unfolding eq by (auto split: if_splits option.splits sum.splits seal_error.splits)
  have "find (same_id castUUID i) (sql_update (same_id castUUID i) (finalized now) (decisions db)) = Some (finalized now row)"
    using f(2) by (subst find_sql_update) (simp_all add: same_id_def finalized_def)
  then have "d = dr_decision (finalized now row)"
    using f(5) by (simp add: getDecision_def id split: if_splits)
  moreover have "d0 = dr_decision row" using f(2,7) by (simp add: getDecision_def id split: if_splits)
  ultimately show ?thesis using f by (intro success [of i row d evidence]) simp_all
qed

lemma AddReview_effect:
  "fst (AddReview pool castUUID scanUUID fault drew now newID rawID request db) \<in> {db, nextval db}
   \<or> (\<exists>v. fst (AddReview pool castUUID scanUUID fault drew now newID rawID request db) =
         (nextval db)\<lparr>decision_reviews := decision_reviews db @ [(v, timeline_sequence db)]\<rparr>)"
  by (simp add: AddReview_def Let_def split: option.split) blast

lemma AddAmendment_effect:
  "fst (AddAmendment pool castUUID scanUUID fault drew now newID rawID request db) \<in> {db, nextval db}
   \<or> (\<exists>v. fst (AddAmendment pool castUUID scanUUID fault drew now newID rawID request db) =
         (nextval db)\<lparr>decision_amendments := decision_amendments db @ [(v, timeline_sequence db)]\<rparr>)"
  by (simp add: AddAmendment_def Let_def split: option.split) blast

subsection \<open>Sequences of calls\<close>

inductive journal_step :: "'e journal_db \<Rightarrow> 'e journal_db \<Rightarrow> bool" where
  create: "newID \<notin> (dc_ID \<circ> dr_decision) ` set (decisions db)
    \<Longrightarrow> journal_step db (fst (Create_decision pool castUUID scanUUID fault drew now newID request db))"
| finalize: "journal_step db (fst (Finalize pool castUUID scanUUID seal fault now rawID db))"
| review: "journal_step db (fst (AddReview pool castUUID scanUUID fault drew now newID rawID request db))"
| amend: "journal_step db (fst (AddAmendment pool castUUID scanUUID fault drew now newID rawID amendment db))"
| other: "journal_step db (db\<lparr>jn_accounts := accounts, jn_evidence := evidence\<rparr>)"

definition numbers :: "'e journal_db \<Rightarrow> int list" where
  "numbers db = map dr_sequence (decisions db) @ map snd (decision_reviews db) @ map snd (decision_amendments db)"

definition jn_inv :: "'e journal_db \<Rightarrow> bool" where
  "jn_inv db \<longleftrightarrow> distinct (numbers db) \<and> (\<forall>n \<in> set (numbers db). n < timeline_sequence db)
     \<and> distinct (map (dc_ID \<circ> dr_decision) (decisions db))
     \<and> (\<forall>row \<in> set (decisions db). dc_Status (dr_decision row) = (if dc_FinalizedAt (dr_decision row) = None then StatusDraft else StatusFinalized))"

definition jn_empty :: "string list \<Rightarrow> 'e \<Rightarrow> 'e journal_db" where
  "jn_empty accounts evidence = \<lparr>jn_accounts = accounts, decisions = [], decision_reviews = [], decision_amendments = [],
     timeline_sequence = 1, jn_evidence = evidence\<rparr>"

lemma jn_inv_empty: "jn_inv (jn_empty accounts evidence)"
  by (simp add: jn_inv_def jn_empty_def numbers_def)

text \<open>What a later state keeps of an earlier one.\<close>

definition decision_kept :: "decision_row \<Rightarrow> decision_row \<Rightarrow> bool" where
  "decision_kept row row' \<longleftrightarrow> row' = row \<or> dc_Status (dr_decision row) = StatusDraft \<and> (\<exists>t. row' = finalized t row)"

definition extends :: "'e journal_db \<Rightarrow> 'e journal_db \<Rightarrow> bool" where
  "extends db db' \<longleftrightarrow> (\<forall>i. \<exists>es. timeline_events i db' = timeline_events i db @ es)
     \<and> (\<forall>row \<in> set (decisions db). \<exists>row' \<in> set (decisions db'). decision_kept row row')"

lemma extends_refl: "extends db db"
  by (auto simp: extends_def decision_kept_def)

lemma decision_kept_trans: "decision_kept a b \<Longrightarrow> decision_kept b c \<Longrightarrow> decision_kept a c"
  by (auto simp: decision_kept_def finalized_def)

lemma extends_trans: "extends a b \<Longrightarrow> extends b c \<Longrightarrow> extends a c"
  unfolding extends_def by (metis append_assoc decision_kept_trans)

lemma timeline_snoc:
  assumes "jn_inv db" and "mset (numbered_events i db') = mset (numbered_events i db) + {#(e, timeline_sequence db)#}"
  shows "timeline_events i db' = timeline_events i db @ [e]"
proof -
  have sub: "set (map snd (numbered_events i db)) \<subseteq> set (numbers db)"
    by (auto simp: numbered_events_def numbers_def)
  have lt: "\<forall>x \<in> set (numbered_events i db). snd x < timeline_sequence db"
    using assms(1) sub by (auto simp: jn_inv_def)
  have "distinct (map snd (numbered_events i db))"
    using assms(1) unfolding jn_inv_def numbers_def numbered_events_def
    by (simp add: comp_def distinct_map_filter) blast
  then have "distinct (map snd (numbered_events i db @ [(e, timeline_sequence db)]))"
    using lt by auto
  then have "sort_key snd (numbered_events i db') = sort_key snd (numbered_events i db @ [(e, timeline_sequence db)])"
    by (intro sort_key_perm [symmetric]) (simp_all add: assms(2))
  then show ?thesis
    using lt by (simp add: timeline_events_def sort_key_snoc less_imp_le)
qed

lemma numbered_events_nextval [simp]: "numbered_events i (nextval db) = numbered_events i db"
  by (simp add: numbered_events_def nextval_def)

lemma jn_inv_nextval:
  assumes "jn_inv db"
  shows "jn_inv (nextval db)"
proof -
  have "numbers (nextval db) = numbers db" "decisions (nextval db) = decisions db" "timeline_sequence (nextval db) = timeline_sequence db + 1"
    by (simp_all add: numbers_def nextval_def)
  then show ?thesis using assms by (simp add: jn_inv_def) force
qed

lemma extends_nextval: "extends db (nextval db)"
  using extends_refl [of db] by (simp add: extends_def timeline_events_def) (simp add: nextval_def)

text \<open>A call that adds one numbered row.\<close>

lemma grow_extends:
  assumes inv: "jn_inv db" and seq: "timeline_sequence db' = timeline_sequence db + 1"
    and numbers: "mset (numbers db') = mset (numbers db) + {#timeline_sequence db#}"
    and events: "\<And>i. numbered_events i db' = numbered_events i db
      \<or> (\<exists>e. mset (numbered_events i db') = mset (numbered_events i db) + {#(e, timeline_sequence db)#})"
    and rows: "decisions db' = decisions db @ new" "distinct (map (dc_ID \<circ> dr_decision) (decisions db'))"
    and draft: "\<forall>row \<in> set new. dc_Status (dr_decision row) = StatusDraft \<and> dc_FinalizedAt (dr_decision row) = None"
  shows "jn_inv db' \<and> extends db db'"
proof
  have "mset (numbers db') = mset (numbers db @ [timeline_sequence db])" using numbers by simp
  then have "distinct (numbers db') \<longleftrightarrow> distinct (numbers db @ [timeline_sequence db])" and s: "set (numbers db') = insert (timeline_sequence db) (set (numbers db))"
    by (rule mset_eq_imp_distinct_iff, metis set_mset_mset list.simps(15) rotate1.simps(2) set_rotate1)
  then have "distinct (numbers db')" using inv by (auto simp: jn_inv_def)
  moreover have "\<forall>n \<in> set (numbers db'). n < timeline_sequence db'" using inv by (auto simp: jn_inv_def s seq)
  ultimately show "jn_inv db'" using inv rows draft by (auto simp: jn_inv_def)
  have "\<exists>es. timeline_events i db' = timeline_events i db @ es" for i
  proof (cases "numbered_events i db' = numbered_events i db")
    case True
    then show ?thesis by (simp add: timeline_events_def)
  next
    case False
    with events [of i] obtain e where "mset (numbered_events i db') = mset (numbered_events i db) + {#(e, timeline_sequence db)#}" by blast
    from timeline_snoc [OF inv this] show ?thesis by blast
  qed
  moreover have "\<exists>row' \<in> set (decisions db'). decision_kept row row'" if "row \<in> set (decisions db)" for row
    using that rows(1) by (intro bexI [of _ row]) (simp_all add: decision_kept_def)
  ultimately show "extends db db'" by (simp add: extends_def)
qed

lemma create_extends:
  assumes "jn_inv db" and "dr_sequence row = timeline_sequence db" and "dc_ID (dr_decision row) \<notin> (dc_ID \<circ> dr_decision) ` set (decisions db)"
    and "dc_Status (dr_decision row) = StatusDraft" and "dc_FinalizedAt (dr_decision row) = None"
  shows "jn_inv ((nextval db)\<lparr>decisions := decisions db @ [row]\<rparr>) \<and> extends db ((nextval db)\<lparr>decisions := decisions db @ [row]\<rparr>)"
proof (rule grow_extends [OF assms(1), where new = "[row]"])
  show "distinct (map (dc_ID \<circ> dr_decision) (decisions ((nextval db)\<lparr>decisions := decisions db @ [row]\<rparr>)))"
    using assms(1,3) by (auto simp: jn_inv_def)
qed (use assms(2,4,5) in \<open>auto simp: numbers_def nextval_def numbered_events_def\<close>)

lemma review_extends:
  assumes "jn_inv db"
  shows "jn_inv ((nextval db)\<lparr>decision_reviews := decision_reviews db @ [(v, timeline_sequence db)]\<rparr>)
    \<and> extends db ((nextval db)\<lparr>decision_reviews := decision_reviews db @ [(v, timeline_sequence db)]\<rparr>)"
  using assms by (intro grow_extends [where new = "[]"]) (auto simp: numbers_def nextval_def numbered_events_def jn_inv_def)

lemma amendment_extends:
  assumes "jn_inv db"
  shows "jn_inv ((nextval db)\<lparr>decision_amendments := decision_amendments db @ [(v, timeline_sequence db)]\<rparr>)
    \<and> extends db ((nextval db)\<lparr>decision_amendments := decision_amendments db @ [(v, timeline_sequence db)]\<rparr>)"
  using assms by (intro grow_extends [where new = "[]"]) (auto simp: numbers_def nextval_def numbered_events_def jn_inv_def)

lemma same_id_row:
  assumes "jn_inv db" and "find (same_id castUUID i) (decisions db) = Some row" and "row' \<in> set (decisions db)" and "same_id castUUID i row'"
  shows "row' = row"
proof -
  have "row \<in> set (decisions db)" and "same_id castUUID i row" using assms(2) by (auto simp: find_Some_iff)
  moreover have "dc_ID (dr_decision row') = dc_ID (dr_decision row)"
    using calculation(2) assms(4) by (metis option.inject same_id_def)
  ultimately show ?thesis
    using assms by (intro distinct_key_eq [of "dc_ID \<circ> dr_decision" "decisions db"]) (auto simp: jn_inv_def)
qed

lemma finalize_extends:
  fixes now :: time and evidence :: 'e and db :: "'e journal_db"
  assumes "jn_inv db" and "find (same_id castUUID i) (decisions db) = Some row" and "dc_Status (dr_decision row) = StatusDraft"
  defines "db' \<equiv> db\<lparr>jn_evidence := evidence, decisions := sql_update (same_id castUUID i) (finalized now) (decisions db)\<rparr>"
  shows "jn_inv db' \<and> extends db db'"
proof
  have keep: "dr_sequence (finalized now x) = dr_sequence x" "dc_ID (dr_decision (finalized now x)) = dc_ID (dr_decision x)"
    "decision_event (finalized now x) = decision_event x" for x
    by (simp_all add: finalized_def decision_event_def Let_def)
  have seq: "map dr_sequence (sql_update (same_id castUUID i) (finalized now) (decisions db)) = map dr_sequence (decisions db)"
    "map (dc_ID \<circ> dr_decision) (sql_update (same_id castUUID i) (finalized now) (decisions db)) = map (dc_ID \<circ> dr_decision) (decisions db)"
    by (simp_all add: map_sql_update keep)
  have "numbered_events j db' = numbered_events j db" for j
    by (simp add: numbered_events_def db'_def sql_update_def filter_map comp_def keep if_distrib [of decision_event] if_distrib [of dr_sequence]
        if_distrib [of dr_decision] cong: if_cong)
  then have "\<exists>es. timeline_events j db' = timeline_events j db @ es" for j by (simp add: timeline_events_def)
  moreover have "\<exists>row' \<in> set (decisions db'). decision_kept x row'" if "x \<in> set (decisions db)" for x
    using that same_id_row [OF assms(1,2) that] assms(3) by (auto simp: db'_def set_sql_update decision_kept_def)
  ultimately show "extends db db'" by (simp add: extends_def)
  show "jn_inv db'"
    using assms(1) unfolding jn_inv_def numbers_def db'_def by (auto simp: seq set_sql_update finalized_def)
qed

lemma journal_step_extends:
  assumes "journal_step db db'" and "jn_inv db"
  shows "jn_inv db' \<and> extends db db'"
  using assms
proof cases
  case (create newID pool castUUID scanUUID fault drew now request)
  show ?thesis
  proof (cases rule: Create_decision_cases [of pool castUUID scanUUID fault drew now newID request db])
    case (failed e db1)
    then show ?thesis using create(1) assms(2) jn_inv_nextval extends_refl extends_nextval by fastforce
  next
    case (stored a account r)
    then show ?thesis
      using create create_extends [OF assms(2), of "\<lparr>dr_decision = new_decision now newID account (jn_scaleDecimal a) r,
            dr_creation_snapshot = r, dr_sequence = timeline_sequence db\<rparr>"]
      by (simp add: new_decision_def)
  qed
next
  case (finalize pool castUUID scanUUID seal fault now rawID)
  show ?thesis
  proof (cases rule: Finalize_cases [of pool castUUID scanUUID seal fault now rawID db])
    case (failed e)
    then show ?thesis using finalize(1) assms(2) by (simp add: extends_refl)
  next
    case (success i row evidence d)
    then show ?thesis using finalize(1) finalize_extends [OF assms(2) success(2,3)] by simp
  qed
next
  case (review pool castUUID scanUUID fault drew now newID rawID request)
  then show ?thesis
    using AddReview_effect [of pool castUUID scanUUID fault drew now newID rawID request db] assms(2)
      jn_inv_nextval extends_refl extends_nextval review_extends by fastforce
next
  case (amend pool castUUID scanUUID fault drew now newID rawID amendment)
  then show ?thesis
    using AddAmendment_effect [of pool castUUID scanUUID fault drew now newID rawID amendment db] assms(2)
      jn_inv_nextval extends_refl extends_nextval amendment_extends by fastforce
next
  case (other accounts evidence)
  then show ?thesis
    using assms(2) extends_refl [of db] by (simp add: jn_inv_def numbers_def extends_def timeline_events_def numbered_events_def)
qed

interpretation journal_history: history journal_step jn_inv extends
  by unfold_locales (use journal_step_extends extends_refl extends_trans in blast)+

text \<open>A decision that is created, finalized and reviewed, as the witnesses use it.\<close>

definition sample_decision_request :: CreateRequest where
  "sample_decision_request = \<lparr>cr_AccountID = ''a1'', cr_Thesis = ''t'', cr_Alternatives = [], cr_EvidenceReferences = [],
     cr_InvalidationConditions = [\<lparr>iv_Condition = ''c'', iv_Metric = [], iv_Threshold = []\<rparr>], cr_Horizon = \<lparr>hz_Start = 0, hz_End = 1000000\<rparr>,
     cr_RiskBudget = \<lparr>rb_Amount = '' 0.0 '', rb_Currency = ''try'', rb_Measure = ''m'', rb_Horizon = ''h''\<rparr>, cr_IntendedAction = ''hold'',
     cr_Tags = [], cr_Author = ''me'', cr_SourceMetadata = None\<rparr>"

definition sample_created :: "unit journal_db \<times> (journal_error + Decision)" where
  "sample_created = Create_decision True Some Some no_fault False 5 ''d1'' sample_decision_request (jn_empty [''a1''] ())"

definition sample_finalized :: "unit journal_db \<times> (journal_error + Decision)" where
  "sample_finalized = Finalize True Some Some (\<lambda>e _ _ _. Inr e) no_fault 7 ''d1'' (fst sample_created)"

definition sample_reviewed :: "unit journal_db \<times> (journal_error + Review)" where
  "sample_reviewed = AddReview True Some Some no_fault False 9 ''r1'' ''d1''
     \<lparr>rvr_Review = ''late'', rvr_Outcome = ''loss'', rvr_Author = ''me'', rvr_SourceMetadata = None\<rparr> (fst sample_finalized)"

lemma sample_created_reachable: "journal_step\<^sup>*\<^sup>* (jn_empty [''a1''] ()) (fst sample_created)"
  unfolding sample_created_def by (intro r_into_rtranclp journal_step.create) (simp add: jn_empty_def)

lemma sample_finalized_then_reviewed: "journal_step\<^sup>*\<^sup>* (fst sample_finalized) (fst sample_reviewed)"
  unfolding sample_reviewed_def by (intro r_into_rtranclp journal_step.review)

lemma sample_created_then_reviewed: "journal_step\<^sup>*\<^sup>* (fst sample_created) (fst sample_reviewed)"
  using sample_finalized_then_reviewed unfolding sample_finalized_def
  by (rule converse_rtranclp_into_rtranclp [where r = journal_step, rotated]) (rule journal_step.finalize)

lemma sample_created_ok: "sample_created = (fst sample_created, Inr (projr (snd sample_created)))"
proof -
  have "\<not> isl (snd sample_created)" by code_simp
  then show ?thesis by (simp add: prod_eq_iff)
qed

lemma sample_finalized_ok: "sample_finalized = (fst sample_finalized, Inr (projr (snd sample_finalized)))"
proof -
  have "\<not> isl (snd sample_finalized)" by code_simp
  then show ?thesis by (simp add: prod_eq_iff)
qed

text \<open>
  C36. The journal is append-only. From any reachable state, whatever calls follow one after
  another, in whatever order and with whatever failures: the timeline of every decision is the earlier timeline with
  events added at its end, and every decision is still there with its content unchanged; only a
  draft can differ, and then only by having been finalized.
\<close>
theorem timeline_append_only:
  assumes "journal_step\<^sup>*\<^sup>* (jn_empty accounts evidence) db" and "journal_step\<^sup>*\<^sup>* db db'"
  shows "(\<exists>es. timeline_events i db' = timeline_events i db @ es)
    \<and> (\<forall>row \<in> set (decisions db). \<exists>row' \<in> set (decisions db'). row' = row
        \<or> dc_Status (dr_decision row) = StatusDraft \<and> (\<exists>t. row' = finalized t row))"
proof -
  have "jn_inv db" using jn_inv_empty assms(1) by (rule journal_history.steps_keep(1) [rotated])
  from journal_history.steps_keep(2) [OF assms(2) this] show ?thesis by (auto simp: extends_def decision_kept_def)
qed

theorem timeline_append_only_witness:
  "map te_Kind (timeline_events ''d1'' (fst sample_reviewed)) = [''decision'', ''review'']
   \<and> (\<exists>es. timeline_events ''d1'' (fst sample_reviewed) = timeline_events ''d1'' (fst sample_created) @ es)"
proof
  show "map te_Kind (timeline_events ''d1'' (fst sample_reviewed)) = [''decision'', ''review'']" by code_simp
  show "\<exists>es. timeline_events ''d1'' (fst sample_reviewed) = timeline_events ''d1'' (fst sample_created) @ es"
    using timeline_append_only [OF sample_created_reachable sample_created_then_reviewed, of "''d1''"] by blast
qed

lemma find_same_id:
  assumes "jn_inv db" and "row \<in> set (decisions db)" and "same_id castUUID i row"
  shows "find (same_id castUUID i) (decisions db) = Some row"
proof (cases "find (same_id castUUID i) (decisions db)")
  case None
  with assms(2,3) show ?thesis by (auto simp: find_None_iff)
next
  case (Some r)
  with same_id_row [OF assms(1) Some assms(2,3)] show ?thesis by simp
qed

text \<open>
  C37. A decision is finalized once and for good: a successful call found a draft, returns it with
  the new status and the time of the call, and afterwards, whatever happens in between, reading the
  decision gives exactly what was returned and every further attempt to finalize it fails and
  changes nothing.
\<close>
theorem finalized_once:
  assumes "journal_step\<^sup>*\<^sup>* (jn_empty accounts evidence) db"
    and "Finalize pool castUUID scanUUID seal fault now rawID db = (db1, Inr d)" and "journal_step\<^sup>*\<^sup>* db1 db2"
  shows "dc_Status d = StatusFinalized \<and> dc_FinalizedAt d = Some now
    \<and> Get_decision True castUUID scanUUID no_fault rawID db2 = Inr d
    \<and> (\<exists>e. Finalize pool2 castUUID scanUUID seal2 fault2 now2 rawID db2 = (db2, Inl e))"
proof (cases rule: Finalize_cases [of pool castUUID scanUUID seal fault now rawID db])
  case (failed e)
  with assms(2) show ?thesis by simp
next
  case (success i row ev d')
  have d: "d = dr_decision (finalized now row)"
    and db1: "db1 = db\<lparr>jn_evidence := ev, decisions := sql_update (same_id castUUID i) (finalized now) (decisions db)\<rparr>"
    using assms(2) success by auto
  have inv: "jn_inv db" using jn_inv_empty assms(1) by (rule journal_history.steps_keep(1) [rotated])
  have inv1: "jn_inv db1" using finalize_extends [OF inv success(2,3)] by (simp add: db1)
  have row: "row \<in> set (decisions db)" "same_id castUUID i row" using success(2) by (auto simp: find_Some_iff)
  then have "finalized now row \<in> set (decisions db1)" by (auto simp: db1 set_sql_update)
  moreover have "\<not> decision_kept (finalized now row) x \<or> x = finalized now row" for x
    by (auto simp: decision_kept_def finalized_def)
  ultimately have in2: "finalized now row \<in> set (decisions db2)" and inv2: "jn_inv db2"
    using journal_history.steps_keep [OF assms(3) inv1] by (auto simp: extends_def)
  have "find (same_id castUUID i) (decisions db2) = Some (finalized now row)"
    using row(2) by (intro find_same_id [OF inv2 in2]) (simp add: same_id_def finalized_def)
  then have f: "find (\<lambda>row. Some (dc_ID (dr_decision row)) = castUUID i) (decisions db2) = Some (finalized now row)"
    by (simp add: same_id_def [abs_def])
  have "Get_decision True castUUID scanUUID no_fault rawID db2 = Inr d"
    using success(1,5) f by (simp add: Get_decision_def getDecision_def d)
  moreover have "\<exists>e. Finalize pool2 castUUID scanUUID seal2 fault2 now2 rawID db2 = (db2, Inl e)"
    using success(1) f by (simp add: Finalize_def finalized_def)
  ultimately show ?thesis by (simp add: d finalized_def)
qed

theorem finalized_once_witness:
  "dc_Status (projr (snd sample_finalized)) = StatusFinalized
   \<and> Get_decision True Some Some no_fault ''d1'' (fst sample_reviewed) = Inr (projr (snd sample_finalized))"
  using finalized_once [OF sample_created_reachable sample_finalized_ok [unfolded sample_finalized_def] sample_finalized_then_reviewed [unfolded sample_finalized_def]]
  unfolding sample_finalized_def by blast

text \<open>
  C38. The risk budget of a decision is stored exactly: the amount of a decision that was created
  has the value of the request's text, which is not negative, fits \<^verbatim>\<open>NUMERIC(38,18)\<close> and lies
  on its grid, so nothing was rounded on the way.
\<close>
theorem risk_budget_exact:
  assumes "Create_decision pool castUUID scanUUID fault drew now newID request db = (db', Inr d)"
  shows "\<exists>a. jn_parseDecimal (TrimSpace (rb_Amount (cr_RiskBudget request))) = Some a \<and> 0 \<le> a \<and> a < numeric_limit
    \<and> on_grid a \<and> jn_parseDecimal (rb_Amount (dc_RiskBudget d)) = Some a"
proof (cases rule: Create_decision_cases [of pool castUUID scanUUID fault drew now newID request db])
  case (failed e db1)
  with assms show ?thesis by simp
next
  case (stored a account r)
  have amount_text: "rb_Amount (cr_RiskBudget (normalizeCreate request)) = TrimSpace (rb_Amount (cr_RiskBudget request))"
    by (simp add: normalizeCreate_def)
  have "validPersistedDecimal (rb_Amount (cr_RiskBudget (normalizeCreate request)))"
    using stored(1) by (simp add: validCreate_def split: if_splits)
  then have "on_grid a" and "\<bar>a\<bar> < numeric_limit" using persisted_decimal_fits stored(2) by force+
  moreover from \<open>on_grid a\<close> have "jn_scaleDecimal a = a"
    by (simp add: journal_decimal.scale_round18 on_grid_def)
  moreover have "d = new_decision now newID account (jn_scaleDecimal a) r" using assms stored(7) by simp
  ultimately show ?thesis
    using stored(2,3) journal_decimal.parse_fmt_on_grid by (intro exI [of _ a]) (simp add: amount_text new_decision_def)
qed

theorem risk_budget_exact_witness:
  "jn_parseDecimal (rb_Amount (dc_RiskBudget (projr (snd sample_created)))) = Some 0"
proof -
  have "TrimSpace (rb_Amount (cr_RiskBudget sample_decision_request)) = ''0.0''" and "jn_parseDecimal ''0.0'' = Some 0" by code_simp+
  then show ?thesis
    using risk_budget_exact [OF sample_created_ok [unfolded sample_created_def]] unfolding sample_created_def by auto
qed

end
