(* ===== verification/Archive.thy ===== *)
theory Archive
  imports Json
begin

text \<open>
  The object archive, \<open>internal/archive/store.go\<close>: payloads are stored under a key made from
  their digest. A bucket is the map from keys to objects that the S3 service holds. The digest is the
  argument \<open>sha\<close>; \<open>conditional\<close> tells whether the service honours
  \<^verbatim>\<open>If-None-Match\<close>, \<open>race\<close> is the object another writer stores under the same key
  between the HEAD and the PUT, and \<open>fails\<close> the calls of the service that fail. Redacting the
  query of a URL is the argument \<open>redact\<close>; a metadata map is listed in the order Go walks it,
  and its names are ASCII.
\<close>

datatype archive_error = AErrInvalidDigest | AErrContentMismatch | AErr string

record s3_object =
  so_body :: string
  so_type :: string
  so_metadata :: "(string \<times> string) list"

type_synonym bucket = "string \<Rightarrow> s3_object option"

record archive_object =
  ob_Key :: string
  ob_ContentSHA256 :: string
  ob_MediaType :: string
  ob_Body :: string
  ob_Metadata :: "(string \<times> string) list"

record Reference =
  ref_Key :: string
  ref_ContentSHA256 :: string
  ref_ByteLength :: int
  ref_MediaType :: string

datatype s3_call = HeadCall | PutCall | HeadAgain | GetCall

subsection \<open>Keys and metadata\<close>

definition is_lower_hex :: "char \<Rightarrow> bool" where
  "is_lower_hex c \<longleftrightarrow> is_digit c \<or> 97 \<le> (of_char c :: nat) \<and> (of_char c :: nat) \<le> 102"

definition validDigest :: "string \<Rightarrow> bool" where
  "validDigest value \<longleftrightarrow> length value = 64 \<and> list_all (\<lambda>c. hex_val c \<noteq> None) value \<and> value = ToLower value"

definition ObjectKey :: "string \<Rightarrow> string" where
  "ObjectKey digest = (let digest = ToLower (TrimSpace digest)
     in if \<not> validDigest digest then [] else ''sha256/'' @ take 2 digest @ ''/'' @ digest)"

definition validObjectKey :: "string \<Rightarrow> bool" where
  "validObjectKey value \<longleftrightarrow> length value = 74 \<and> take 7 value = ''sha256/'' \<and> list_all is_lower_hex (take 2 (drop 7 value))
     \<and> value ! 9 = CHR ''/'' \<and> list_all is_lower_hex (drop 10 value)"

fun contains :: "string \<Rightarrow> string \<Rightarrow> bool" where
  "contains [] w \<longleftrightarrow> w = []"
| "contains (c # s) w \<longleftrightarrow> has_prefix (c # s) w \<or> contains s w"

definition secretName :: "string \<Rightarrow> bool" where
  "secretName name \<longleftrightarrow> list_ex (contains (ToLower name))
     [''authorization'', ''apikey'', ''api-key'', ''api_key'', ''accesskey'', ''access-key'', ''access_key'',
      ''secret'', ''token'', ''password'', ''credential'', ''cookie'', ''session'']"

text \<open>The runes \<open>unicode.IsControl\<close> accepts, in their UTF-8 form.\<close>

definition is_control :: "string \<Rightarrow> bool" where
  "is_control r \<longleftrightarrow> (case r of
      [c] \<Rightarrow> (of_char c :: nat) < 32 \<or> (of_char c :: nat) = 127
    | [a, b] \<Rightarrow> a = CHR 0xC2 \<and> 128 \<le> (of_char b :: nat) \<and> (of_char b :: nat) \<le> 159
    | _ \<Rightarrow> False)"

function clean_runes :: "string \<Rightarrow> string" where
  "clean_runes s =
     (if s = [] then []
      else if rune_len s = 0 then replacement @ clean_runes (tl s)
      else (if is_control (take (rune_len s) s) then [] else take (rune_len s) s) @ clean_runes (drop (rune_len s) s))"
  by pat_completeness auto
termination by (relation "measure length") auto

declare clean_runes.simps [simp del]

definition put_entry :: "'k \<Rightarrow> 'v \<Rightarrow> ('k \<times> 'v) list \<Rightarrow> ('k \<times> 'v) list" where
  "put_entry k v m = filter (\<lambda>e. fst e \<noteq> k) m @ [(k, v)]"

definition sanitize_step :: "(string \<Rightarrow> string) \<Rightarrow> (string \<times> string) list \<Rightarrow> string \<times> string \<Rightarrow> (string \<times> string) list" where
  "sanitize_step redact output kv = (case kv of (key, value) \<Rightarrow>
     let key = ToLower (TrimSpace key)
     in if key = [] \<or> secretName key then output
        else let value = clean_runes value;
                 value = (if contains key ''uri'' \<or> key = ''url'' then redact value else value)
             in put_entry key value output)"

definition SanitizedMetadata :: "(string \<Rightarrow> string) \<Rightarrow> (string \<times> string) list \<Rightarrow> (string \<times> string) list" where
  "SanitizedMetadata redact input = foldl (sanitize_step redact) [] input"

subsection \<open>Objects\<close>

definition validateObject :: "(string \<Rightarrow> string) \<Rightarrow> archive_object \<Rightarrow> archive_error + unit" where
  "validateObject sha ob =
     (if \<not> validDigest (ob_ContentSHA256 ob) \<or> ObjectKey (ob_ContentSHA256 ob) \<noteq> ob_Key ob then Inl AErrInvalidDigest
      else if sha (ob_Body ob) \<noteq> ob_ContentSHA256 ob then Inl AErrContentMismatch
      else if TrimSpace (ob_MediaType ob) = [] then Inl (AErr ''archive media type is required'')
      else Inr ())"

definition verifyExisting :: "(s3_call \<Rightarrow> bool) \<Rightarrow> archive_object \<Rightarrow> s3_object \<Rightarrow> archive_error + unit" where
  "verifyExisting fails ob x =
     (if length (so_body x) \<noteq> length (ob_Body ob) \<or> so_type x \<noteq> ob_MediaType ob then Inl AErrContentMismatch
      else if fails GetCall then Inl (AErr ''get existing archive object'')
      else if so_body x \<noteq> ob_Body ob then Inl AErrContentMismatch
      else Inr ())"

definition Put :: "(string \<Rightarrow> string) \<Rightarrow> (string \<Rightarrow> string) \<Rightarrow> bool \<Rightarrow> (s3_call \<Rightarrow> bool) \<Rightarrow> s3_object option \<Rightarrow> archive_object \<Rightarrow> bucket
    \<Rightarrow> bucket \<times> (archive_error + unit)" where
  "Put sha redact conditional fails race ob b = (case validateObject sha ob of
      Inl e \<Rightarrow> (b, Inl e)
    | Inr _ \<Rightarrow>
        let meta = put_entry ''sha256'' (ob_ContentSHA256 ob) (SanitizedMetadata redact (ob_Metadata ob)) in
        if fails HeadCall then (b, Inl (AErr ''head archive object''))
        else (case b (ob_Key ob) of
            Some x \<Rightarrow> (b, verifyExisting fails ob x)
          | None \<Rightarrow>
              let b = (case race of None \<Rightarrow> b | Some x \<Rightarrow> b(ob_Key ob \<mapsto> x)) in
              if fails PutCall then (b, Inl (AErr ''put archive object''))
              else (case b (ob_Key ob) of
                  None \<Rightarrow> (b(ob_Key ob \<mapsto> \<lparr>so_body = ob_Body ob, so_type = ob_MediaType ob, so_metadata = meta\<rparr>), Inr ())
                | Some x \<Rightarrow>
                    if \<not> conditional
                    then (b(ob_Key ob \<mapsto> \<lparr>so_body = ob_Body ob, so_type = ob_MediaType ob, so_metadata = meta\<rparr>), Inr ())
                    else if fails HeadAgain then (b, Inl (AErr ''put archive object''))
                    else (b, verifyExisting fails ob x))))"

definition Get_object :: "(s3_call \<Rightarrow> bool) \<Rightarrow> string \<Rightarrow> bucket \<Rightarrow> archive_error + string" where
  "Get_object fails key b =
     (if \<not> validObjectKey key then Inl (AErr ''invalid archive object key'')
      else if fails GetCall then Inl (AErr ''get archive object'')
      else case b key of None \<Rightarrow> Inl (AErr ''get archive object'') | Some x \<Rightarrow> Inr (so_body x))"

definition ArchivePayload :: "(string \<Rightarrow> string) \<Rightarrow> (string \<Rightarrow> string) \<Rightarrow> bool \<Rightarrow> (s3_call \<Rightarrow> bool) \<Rightarrow> s3_object option \<Rightarrow> string \<Rightarrow> string
    \<Rightarrow> (string \<times> string) list \<Rightarrow> bucket \<Rightarrow> bucket \<times> (archive_error + Reference)" where
  "ArchivePayload sha redact conditional fails race body mediaType metadata b =
     (let digest = sha body;
          ref = \<lparr>ref_Key = ObjectKey digest, ref_ContentSHA256 = digest, ref_ByteLength = int (length body), ref_MediaType = mediaType\<rparr>
      in case Put sha redact conditional fails race
             \<lparr>ob_Key = ref_Key ref, ob_ContentSHA256 = digest, ob_MediaType = mediaType, ob_Body = body,
              ob_Metadata = SanitizedMetadata redact metadata\<rparr> b of
           (b, Inl e) \<Rightarrow> (b, Inl e)
         | (b, Inr _) \<Rightarrow> (b, Inr ref))"

subsection \<open>What the archive keeps\<close>

text \<open>
  The interface the services rely on: a call never changes an object that is there, a payload that
  was stored can be read back, and its address depends on its content alone.
\<close>

locale content_store =
  fixes store :: "'c \<Rightarrow> 'b \<Rightarrow> 'b \<times> ('e + 'r)" and content :: "'c \<Rightarrow> string" and fetch :: "'b \<Rightarrow> string \<Rightarrow> string option"
    and address :: "'r \<Rightarrow> string" and addr :: "string \<Rightarrow> string"
  assumes store_keeps: "fetch b k = Some x \<Longrightarrow> fetch (fst (store c b)) k = Some x"
    and store_fetch: "store c b = (b', Inr r) \<Longrightarrow> address r = addr (content c) \<and> fetch b' (addr (content c)) = Some (content c)"
begin

lemma kept_for_good: "fetch b k = Some x \<Longrightarrow> fetch (fold (\<lambda>c b. fst (store c b)) calls b) k = Some x"
  by (induction calls arbitrary: b) (simp_all add: store_keeps)

lemma stored_for_good:
  assumes "store c b = (b', Inr r)"
  shows "fetch (fold (\<lambda>c b. fst (store c b)) calls b') (address r) = Some (content c)"
  using store_fetch [OF assms] by (simp add: kept_for_good)

lemma same_content_same_address:
  assumes "store c b = (b', Inr r)" and "store d e = (e', Inr s)" and "content c = content d"
  shows "address r = address s"
  using store_fetch [OF assms(1)] store_fetch [OF assms(2)] assms(3) by simp

end

text \<open>A call of the archive with what the service does meanwhile.\<close>

record archive_call =
  ac_body :: string
  ac_type :: string
  ac_metadata :: "(string \<times> string) list"
  ac_conditional :: bool
  ac_fails :: "s3_call \<Rightarrow> bool"
  ac_race :: "s3_object option"

definition archive_step :: "(string \<Rightarrow> string) \<Rightarrow> (string \<Rightarrow> string) \<Rightarrow> archive_call \<Rightarrow> bucket \<Rightarrow> bucket \<times> (archive_error + Reference)" where
  "archive_step sha redact c = ArchivePayload sha redact (ac_conditional c) (ac_fails c) (ac_race c) (ac_body c) (ac_type c) (ac_metadata c)"

definition object_body :: "bucket \<Rightarrow> string \<Rightarrow> string option" where
  "object_body b k = map_option so_body (b k)"

lemma verifyExisting_body: "verifyExisting fails ob x = Inr u \<Longrightarrow> so_body x = ob_Body ob"
  by (simp add: verifyExisting_def split: if_splits)

lemma Put_keeps: "b k = Some x \<Longrightarrow> fst (Put sha redact conditional fails race ob b) k = Some x"
  by (auto simp: Put_def Let_def split: sum.splits option.splits)

lemma Put_stores: "Put sha redact conditional fails race ob b = (b', Inr u) \<Longrightarrow> object_body b' (ob_Key ob) = Some (ob_Body ob)"
  by (auto simp: Put_def Let_def object_body_def split: sum.splits option.splits if_splits dest: verifyExisting_body)

lemma ArchivePayload_ok:
  assumes "ArchivePayload sha redact conditional fails race body mt md b = (b', Inr r)"
  shows "r = \<lparr>ref_Key = ObjectKey (sha body), ref_ContentSHA256 = sha body, ref_ByteLength = int (length body), ref_MediaType = mt\<rparr>"
    and "validDigest (sha body)"
    and "object_body b' (ObjectKey (sha body)) = Some body"
proof -
  let ?ob = "\<lparr>ob_Key = ObjectKey (sha body), ob_ContentSHA256 = sha body, ob_MediaType = mt, ob_Body = body,
              ob_Metadata = SanitizedMetadata redact md\<rparr>"
  from assms obtain u where put: "Put sha redact conditional fails race ?ob b = (b', Inr u)"
    and r: "r = \<lparr>ref_Key = ObjectKey (sha body), ref_ContentSHA256 = sha body, ref_ByteLength = int (length body), ref_MediaType = mt\<rparr>"
    by (auto simp: ArchivePayload_def Let_def split: prod.splits sum.splits)
  show "object_body b' (ObjectKey (sha body)) = Some body"
    using Put_stores [OF put] by simp
  show "validDigest (sha body)"
    using put by (auto simp: Put_def validateObject_def split: if_splits)
  show "r = \<lparr>ref_Key = ObjectKey (sha body), ref_ContentSHA256 = sha body, ref_ByteLength = int (length body), ref_MediaType = mt\<rparr>"
    by (rule r)
qed

lemma ArchivePayload_keeps:
  assumes "b k = Some x"
  shows "fst (ArchivePayload sha redact conditional fails race body mt md b) k = Some x"
  by (auto simp: ArchivePayload_def Let_def split: prod.splits sum.splits)
    (metis Put_keeps assms fst_conv)+

interpretation archive_store: content_store "archive_step sha redact" ac_body object_body ref_Key "\<lambda>body. ObjectKey (sha body)"
  for sha redact
proof
  show "object_body (fst (archive_step sha redact c b)) k = Some x" if "object_body b k = Some x" for b k x c
    using that ArchivePayload_keeps by (fastforce simp: archive_step_def object_body_def)
  show "ref_Key r = ObjectKey (sha (ac_body c)) \<and> object_body b' (ObjectKey (sha (ac_body c))) = Some (ac_body c)"
    if "archive_step sha redact c b = (b', Inr r)" for c b b' r
    using ArchivePayload_ok [OF that [unfolded archive_step_def]] by simp
qed

end
