(* ===== verification/Portfolio_Store.thy ===== *)
theory Portfolio_Store
  imports Json Postgres
begin

text \<open>
  The tables of accounts, instruments and snapshots and the statements on them: the queries of
  \<open>internal/platform/database/portfolio.sql.go\<close>, with the constraints and triggers of migrations
  00001 to 00004 that they meet. Every query is one definition; \<open>fault\<close> tells whether the
  statement with a given number fails. A statement that violates a constraint ends in its SQLSTATE
  and changes nothing. The order of text in the database depends on its collation: \<open>collate\<close>
  gives the sort key of a text. Rows of other tables that refer to a row are the argument
  \<open>referenced\<close>. Columns of type \<^verbatim>\<open>NUMERIC(38,18)\<close> are the rational they hold.
\<close>

record instrument_row =
  ins_id :: string
  ins_symbol :: string
  ins_type :: string
  ins_native :: string
  ins_external_ids :: json
  ins_status :: string
  ins_created :: time

record portfolio_row =
  pfr_id :: string
  pfr_name :: string
  pfr_currency :: string
  pfr_metadata :: metadata
  pfr_created :: time
  pfr_updated :: time

record pf_account_row =
  acr_id :: string
  acr_portfolio :: string
  acr_name :: string
  acr_metadata :: metadata
  acr_created :: time
  acr_updated :: time

record snapshot_row =
  snr_id :: string
  snr_portfolio :: string
  snr_captured :: time
  snr_supersedes :: "string option"
  snr_created :: time

record position_row =
  psr_id :: string
  psr_portfolio :: string
  psr_snapshot :: string
  psr_account :: string
  psr_instrument :: string
  psr_quantity :: rat
  psr_cost :: "rat option"
  psr_duration :: "rat option"
  psr_convexity :: "rat option"
  psr_created :: time

record portfolio_db =
  pf_instruments :: "instrument_row list"
  pf_identifiers :: "(string \<times> string \<times> string) list"
  pf_portfolios :: "portfolio_row list"
  pf_accounts :: "pf_account_row list"
  pf_snapshots :: "snapshot_row list"
  pf_lines :: "position_row list"

subsection \<open>Constraints\<close>

text \<open>\<^verbatim>\<open>length(btrim(s)) > 0\<close>.\<close>

definition sql_blank :: "string \<Rightarrow> bool" where
  "sql_blank s \<longleftrightarrow> list_all (\<lambda>c. c = CHR '' '') s"

definition code_shape :: "string \<Rightarrow> bool" where
  "code_shape s \<longleftrightarrow> s \<noteq> [] \<and> list_all (\<lambda>c. is_upper c \<or> is_digit c) s"

text \<open>A value written to a column of type \<^verbatim>\<open>NUMERIC(38,18)\<close> is rounded; it may overflow.\<close>

definition to_numeric :: "rat \<Rightarrow> sql_error + rat" where
  "to_numeric v = (if \<bar>round18 v\<bar> < numeric_limit then Inr (round18 v) else Inl (SqlState ''22003''))"

definition to_nullable :: "rat option \<Rightarrow> sql_error + rat option" where
  "to_nullable v = (case v of None \<Rightarrow> Inr None | Some r \<Rightarrow> res_bind (to_numeric r) (\<lambda>r. Inr (Some r)))"

text \<open>The identifier table, and the trigger \<^verbatim>\<open>ensure_binance_external_identifier\<close>.\<close>

definition insert_identifier :: "string \<Rightarrow> string \<Rightarrow> string \<Rightarrow> portfolio_db \<Rightarrow> sql_error + portfolio_db" where
  "insert_identifier i namespace external db =
     (if sql_blank namespace \<or> sql_blank external then Inl (SqlState ''23514'')
      else if list_ex (\<lambda>(j, n, e). j = i \<and> n = namespace) (pf_identifiers db) then Inr db
      else if list_ex (\<lambda>(j, n, e). n = namespace \<and> e = external) (pf_identifiers db) then Inl (SqlState ''23505'')
      else if \<not> list_ex (\<lambda>r. ins_id r = i) (pf_instruments db) then Inl (SqlState ''23503'')
      else Inr (db\<lparr>pf_identifiers := pf_identifiers db @ [(i, namespace, external)]\<rparr>))"

definition json_member :: "json \<Rightarrow> string \<Rightarrow> json option" where
  "json_member v k = (case v of JObj ms \<Rightarrow> map_get ms k | _ \<Rightarrow> None)"

definition binance_trigger :: "instrument_row \<Rightarrow> portfolio_db \<Rightarrow> sql_error + portfolio_db" where
  "binance_trigger r db =
     (if json_member (ins_external_ids r) ''provider'' \<noteq> Some (JStr ''binance'') then Inr db
      else if list_ex (\<lambda>(j, n, e). j = ins_id r \<and> n = ''binance.symbol'' \<and> e \<noteq> ins_symbol r) (pf_identifiers db)
      then Inl (SqlState ''23514'')
      else insert_identifier (ins_id r) ''binance.symbol'' (ins_symbol r) db)"

text \<open>The trigger \<^verbatim>\<open>validate_portfolio_snapshot_line\<close>, then the constraints of the table.\<close>

definition line_violation :: "portfolio_db \<Rightarrow> position_row \<Rightarrow> string option" where
  "line_violation db l = (case find (\<lambda>i. ins_id i = psr_instrument l) (pf_instruments db) of
      None \<Rightarrow> Some ''23503''
    | Some i \<Rightarrow>
        if ins_type i = ''fixed_rate_bond''
           \<and> (case psr_duration l of None \<Rightarrow> True | Some d \<Rightarrow> d \<le> 0) then Some ''23514''
        else if ins_type i \<noteq> ''fixed_rate_bond'' \<and> (psr_duration l \<noteq> None \<or> psr_convexity l \<noteq> None) then Some ''23514''
        else if (case psr_convexity l of None \<Rightarrow> False | Some c \<Rightarrow> c < 0) then Some ''23514''
        else if list_ex (\<lambda>x. psr_snapshot x = psr_snapshot l \<and> psr_account x = psr_account l \<and> psr_instrument x = psr_instrument l) (pf_lines db)
        then Some ''23505''
        else if \<not> list_ex (\<lambda>s. snr_portfolio s = psr_portfolio l \<and> snr_id s = psr_snapshot l) (pf_snapshots db) then Some ''23503''
        else if \<not> list_ex (\<lambda>a. acr_portfolio a = psr_portfolio l \<and> acr_id a = psr_account l) (pf_accounts db) then Some ''23503''
        else None)"

subsection \<open>Instruments\<close>

definition instrument_row_ok :: "instrument_row \<Rightarrow> bool" where
  "instrument_row_ok r \<longleftrightarrow> \<not> sql_blank (ins_symbol r) \<and> \<not> sql_blank (ins_type r) \<and> code_shape (ins_native r)
     \<and> ins_status r \<in> {''active'', ''inactive'', ''delisted''}"

definition q_CreatePortfolioInstrument :: "bool \<Rightarrow> instrument_row \<Rightarrow> portfolio_db \<Rightarrow> sql_error + portfolio_db \<times> instrument_row" where
  "q_CreatePortfolioInstrument fails r db =
     (if fails then Inl SqlFailed
      else if \<not> instrument_row_ok r then Inl (SqlState ''23514'')
      else if list_ex (\<lambda>x. ins_symbol x = ins_symbol r) (pf_instruments db) then Inl (SqlState ''23505'')
      else res_bind (binance_trigger r (db\<lparr>pf_instruments := pf_instruments db @ [r]\<rparr>)) (\<lambda>db. Inr (db, r)))"

definition q_ListPortfolioInstruments :: "(string \<Rightarrow> string) \<Rightarrow> bool \<Rightarrow> portfolio_db \<Rightarrow> sql_error + instrument_row list" where
  "q_ListPortfolioInstruments collate fails db =
     (if fails then Inl SqlFailed else Inr (sort_key (\<lambda>r. (collate (ins_symbol r), ins_id r)) (pf_instruments db)))"

definition q_GetPortfolioInstrument :: "bool \<Rightarrow> string \<Rightarrow> portfolio_db \<Rightarrow> sql_error + instrument_row" where
  "q_GetPortfolioInstrument fails i db =
     (if fails then Inl SqlFailed
      else case find (\<lambda>r. ins_id r = i) (pf_instruments db) of None \<Rightarrow> Inl SqlNoRows | Some r \<Rightarrow> Inr r)"

definition q_UpdatePortfolioInstrumentStatus :: "bool \<Rightarrow> string \<Rightarrow> string \<Rightarrow> portfolio_db \<Rightarrow> sql_error + portfolio_db \<times> instrument_row" where
  "q_UpdatePortfolioInstrumentStatus fails i status db =
     (if fails then Inl SqlFailed
      else case find (\<lambda>r. ins_id r = i) (pf_instruments db) of
        None \<Rightarrow> Inl SqlNoRows
      | Some r \<Rightarrow>
          if status \<notin> {''active'', ''inactive'', ''delisted''} then Inl (SqlState ''23514'')
          else res_bind (binance_trigger (r\<lparr>ins_status := status\<rparr>)
                 (db\<lparr>pf_instruments := sql_update (\<lambda>r. ins_id r = i) (\<lambda>r. r\<lparr>ins_status := status\<rparr>) (pf_instruments db)\<rparr>))
               (\<lambda>db. Inr (db, r\<lparr>ins_status := status\<rparr>)))"

definition q_InsertInstrumentExternalIdentifier :: "bool \<Rightarrow> string \<Rightarrow> string \<Rightarrow> string \<Rightarrow> portfolio_db \<Rightarrow> sql_error + portfolio_db" where
  "q_InsertInstrumentExternalIdentifier fails i namespace external db =
     (if fails then Inl SqlFailed else insert_identifier i namespace external db)"

definition q_ListInstrumentExternalIdentifiers :: "(string \<Rightarrow> string) \<Rightarrow> bool \<Rightarrow> string \<Rightarrow> portfolio_db \<Rightarrow> sql_error + (string \<times> string) list" where
  "q_ListInstrumentExternalIdentifiers collate fails i db =
     (if fails then Inl SqlFailed
      else Inr (sort_key (\<lambda>(n, e). (collate n, collate e)) (map snd (filter (\<lambda>x. fst x = i) (pf_identifiers db)))))"

subsection \<open>Portfolios and accounts\<close>

definition portfolio_row_ok :: "portfolio_row \<Rightarrow> bool" where
  "portfolio_row_ok r \<longleftrightarrow> \<not> sql_blank (pfr_name r) \<and> pfr_currency r \<in> {''TRY'', ''USD''}"

definition q_CreatePortfolio :: "bool \<Rightarrow> portfolio_row \<Rightarrow> portfolio_db \<Rightarrow> sql_error + portfolio_db \<times> portfolio_row" where
  "q_CreatePortfolio fails r db =
     (if fails then Inl SqlFailed
      else if \<not> portfolio_row_ok r then Inl (SqlState ''23514'')
      else Inr (db\<lparr>pf_portfolios := pf_portfolios db @ [r]\<rparr>, r))"

definition q_ListPortfolios :: "(string \<Rightarrow> string) \<Rightarrow> bool \<Rightarrow> portfolio_db \<Rightarrow> sql_error + portfolio_row list" where
  "q_ListPortfolios collate fails db =
     (if fails then Inl SqlFailed else Inr (sort_key (\<lambda>r. (collate (pfr_name r), pfr_id r)) (pf_portfolios db)))"

definition q_GetPortfolio :: "bool \<Rightarrow> string \<Rightarrow> portfolio_db \<Rightarrow> sql_error + portfolio_row" where
  "q_GetPortfolio fails i db =
     (if fails then Inl SqlFailed
      else case find (\<lambda>r. pfr_id r = i) (pf_portfolios db) of None \<Rightarrow> Inl SqlNoRows | Some r \<Rightarrow> Inr r)"

definition q_UpdatePortfolio :: "bool \<Rightarrow> time \<Rightarrow> string \<Rightarrow> string \<Rightarrow> string \<Rightarrow> metadata \<Rightarrow> portfolio_db \<Rightarrow> sql_error + portfolio_db \<times> portfolio_row" where
  "q_UpdatePortfolio fails now i name currency meta db =
     (if fails then Inl SqlFailed
      else case find (\<lambda>r. pfr_id r = i) (pf_portfolios db) of
        None \<Rightarrow> Inl SqlNoRows
      | Some r \<Rightarrow>
          let changed = (\<lambda>r. r\<lparr>pfr_name := name, pfr_currency := currency, pfr_metadata := meta, pfr_updated := now\<rparr>)
          in if \<not> portfolio_row_ok (changed r) then Inl (SqlState ''23514'')
             else Inr (db\<lparr>pf_portfolios := sql_update (\<lambda>r. pfr_id r = i) changed (pf_portfolios db)\<rparr>, changed r))"

definition q_DeletePortfolio :: "(string \<Rightarrow> bool) \<Rightarrow> bool \<Rightarrow> string \<Rightarrow> portfolio_db \<Rightarrow> sql_error + portfolio_db \<times> nat" where
  "q_DeletePortfolio referenced fails i db =
     (if fails then Inl SqlFailed
      else if \<not> list_ex (\<lambda>r. pfr_id r = i) (pf_portfolios db) then Inr (db, 0)
      else if referenced i \<or> list_ex (\<lambda>a. acr_portfolio a = i) (pf_accounts db) \<or> list_ex (\<lambda>s. snr_portfolio s = i) (pf_snapshots db)
      then Inl (SqlState ''23503'')
      else Inr (db\<lparr>pf_portfolios := filter (\<lambda>r. pfr_id r \<noteq> i) (pf_portfolios db)\<rparr>, sql_count (\<lambda>r. pfr_id r = i) (pf_portfolios db)))"

definition q_CreateAccount :: "bool \<Rightarrow> pf_account_row \<Rightarrow> portfolio_db \<Rightarrow> sql_error + portfolio_db \<times> pf_account_row" where
  "q_CreateAccount fails r db =
     (if fails then Inl SqlFailed
      else if sql_blank (acr_name r) then Inl (SqlState ''23514'')
      else if list_ex (\<lambda>a. acr_portfolio a = acr_portfolio r \<and> acr_name a = acr_name r) (pf_accounts db) then Inl (SqlState ''23505'')
      else if \<not> list_ex (\<lambda>p. pfr_id p = acr_portfolio r) (pf_portfolios db) then Inl (SqlState ''23503'')
      else Inr (db\<lparr>pf_accounts := pf_accounts db @ [r]\<rparr>, r))"

definition q_ListAccounts :: "(string \<Rightarrow> string) \<Rightarrow> bool \<Rightarrow> string \<Rightarrow> portfolio_db \<Rightarrow> sql_error + pf_account_row list" where
  "q_ListAccounts collate fails p db =
     (if fails then Inl SqlFailed
      else Inr (sort_key (\<lambda>r. (collate (acr_name r), acr_id r)) (filter (\<lambda>r. acr_portfolio r = p) (pf_accounts db))))"

definition q_GetAccount :: "bool \<Rightarrow> string \<Rightarrow> portfolio_db \<Rightarrow> sql_error + pf_account_row" where
  "q_GetAccount fails i db =
     (if fails then Inl SqlFailed
      else case find (\<lambda>r. acr_id r = i) (pf_accounts db) of None \<Rightarrow> Inl SqlNoRows | Some r \<Rightarrow> Inr r)"

definition q_UpdateAccount :: "bool \<Rightarrow> time \<Rightarrow> string \<Rightarrow> string \<Rightarrow> metadata \<Rightarrow> portfolio_db \<Rightarrow> sql_error + portfolio_db \<times> pf_account_row" where
  "q_UpdateAccount fails now i name meta db =
     (if fails then Inl SqlFailed
      else case find (\<lambda>r. acr_id r = i) (pf_accounts db) of
        None \<Rightarrow> Inl SqlNoRows
      | Some r \<Rightarrow>
          let changed = (\<lambda>r. r\<lparr>acr_name := name, acr_metadata := meta, acr_updated := now\<rparr>)
          in if sql_blank name then Inl (SqlState ''23514'')
             else if list_ex (\<lambda>a. acr_id a \<noteq> i \<and> acr_portfolio a = acr_portfolio r \<and> acr_name a = name) (pf_accounts db)
             then Inl (SqlState ''23505'')
             else Inr (db\<lparr>pf_accounts := sql_update (\<lambda>r. acr_id r = i) changed (pf_accounts db)\<rparr>, changed r))"

definition q_DeleteAccount :: "(string \<Rightarrow> bool) \<Rightarrow> bool \<Rightarrow> string \<Rightarrow> portfolio_db \<Rightarrow> sql_error + portfolio_db \<times> nat" where
  "q_DeleteAccount referenced fails i db =
     (if fails then Inl SqlFailed
      else if \<not> list_ex (\<lambda>r. acr_id r = i) (pf_accounts db) then Inr (db, 0)
      else if referenced i \<or> list_ex (\<lambda>l. psr_account l = i) (pf_lines db) then Inl (SqlState ''23503'')
      else Inr (db\<lparr>pf_accounts := filter (\<lambda>r. acr_id r \<noteq> i) (pf_accounts db)\<rparr>, sql_count (\<lambda>r. acr_id r = i) (pf_accounts db)))"

subsection \<open>Snapshots\<close>

definition q_CreatePortfolioSnapshot :: "bool \<Rightarrow> snapshot_row \<Rightarrow> portfolio_db \<Rightarrow> sql_error + portfolio_db \<times> snapshot_row" where
  "q_CreatePortfolioSnapshot fails s db =
     (if fails then Inl SqlFailed
      else if snr_supersedes s = Some (snr_id s) then Inl (SqlState ''23514'')
      else if \<not> list_ex (\<lambda>p. pfr_id p = snr_portfolio s) (pf_portfolios db) then Inl (SqlState ''23503'')
      else if (case snr_supersedes s of None \<Rightarrow> False
               | Some j \<Rightarrow> \<not> list_ex (\<lambda>x. snr_portfolio x = snr_portfolio s \<and> snr_id x = j) (pf_snapshots db)) then Inl (SqlState ''23503'')
      else Inr (db\<lparr>pf_snapshots := pf_snapshots db @ [s]\<rparr>, s))"

definition newest_snapshots :: "snapshot_row list \<Rightarrow> snapshot_row list" where
  "newest_snapshots rows = rev (sort_key (\<lambda>s. (snr_captured s, snr_id s)) rows)"

definition q_ListPortfolioSnapshots :: "bool \<Rightarrow> string \<Rightarrow> portfolio_db \<Rightarrow> sql_error + snapshot_row list" where
  "q_ListPortfolioSnapshots fails p db =
     (if fails then Inl SqlFailed else Inr (newest_snapshots (filter (\<lambda>s. snr_portfolio s = p) (pf_snapshots db))))"

definition q_GetPortfolioSnapshot :: "bool \<Rightarrow> string \<Rightarrow> portfolio_db \<Rightarrow> sql_error + snapshot_row" where
  "q_GetPortfolioSnapshot fails i db =
     (if fails then Inl SqlFailed
      else case find (\<lambda>s. snr_id s = i) (pf_snapshots db) of None \<Rightarrow> Inl SqlNoRows | Some s \<Rightarrow> Inr s)"

definition q_InsertPortfolioSnapshotLine :: "bool \<Rightarrow> position_row \<Rightarrow> portfolio_db \<Rightarrow> sql_error + portfolio_db" where
  "q_InsertPortfolioSnapshotLine fails l db =
     (if fails then Inl SqlFailed
      else res_bind (to_numeric (psr_quantity l)) (\<lambda>quantity.
           res_bind (to_nullable (psr_cost l)) (\<lambda>cost.
           res_bind (to_nullable (psr_duration l)) (\<lambda>duration.
           res_bind (to_nullable (psr_convexity l)) (\<lambda>convexity.
             let l = l\<lparr>psr_quantity := quantity, psr_cost := cost, psr_duration := duration, psr_convexity := convexity\<rparr>
             in (case line_violation db l of
                   Some state \<Rightarrow> Inl (SqlState state)
                 | None \<Rightarrow> Inr (db\<lparr>pf_lines := pf_lines db @ [l]\<rparr>)))))))"

text \<open>The joined row: the line, the name of its account and its instrument.\<close>

definition joined_line :: "portfolio_db \<Rightarrow> position_row \<Rightarrow> (position_row \<times> string \<times> instrument_row) list" where
  "joined_line db l = [(l, acr_name a, i). a \<leftarrow> filter (\<lambda>a. acr_id a = psr_account l) (pf_accounts db),
                                          i \<leftarrow> filter (\<lambda>i. ins_id i = psr_instrument l) (pf_instruments db)]"

definition q_ListPortfolioSnapshotLines :: "(string \<Rightarrow> string) \<Rightarrow> bool \<Rightarrow> string \<Rightarrow> portfolio_db
    \<Rightarrow> sql_error + (position_row \<times> string \<times> instrument_row) list" where
  "q_ListPortfolioSnapshotLines collate fails s db =
     (if fails then Inl SqlFailed
      else Inr (sort_key (\<lambda>(l, name, i). (collate name, collate (ins_symbol i), psr_id l))
                  (concat (map (joined_line db) (filter (\<lambda>l. psr_snapshot l = s) (pf_lines db))))))"

definition q_GetPortfolioSnapshotLineCount :: "bool \<Rightarrow> string \<Rightarrow> portfolio_db \<Rightarrow> sql_error + nat" where
  "q_GetPortfolioSnapshotLineCount fails s db =
     (if fails then Inl SqlFailed else Inr (sql_count (\<lambda>l. psr_snapshot l = s) (pf_lines db)))"

end
