(* ===== verification/Portfolio.thy ===== *)
theory Portfolio
  imports Portfolio_Store
begin

text \<open>
  The portfolio service, \<open>internal/application/portfolio/service.go\<close> and
  \<open>internal/domain/portfolio/model.go\<close>, over the statements of \<open>Portfolio_Store\<close>.
  \<open>scanUUID\<close> is \<open>pgtype.UUID.Scan\<close>, an identifier being its canonical text. A valid
  \<open>pgtype.Numeric\<close> is the record \<open>pgNumeric\<close>; reading it from text is the argument
  \<open>scanNumeric\<close>, and the form in which the driver hands back a stored value is the argument
  \<open>readNumeric\<close>. The statements of a call are numbered in the order they are executed. The
  order in which Go walks a map is the argument \<open>mapOrder\<close>.
\<close>

abbreviation InstrumentFixedBond :: string where "InstrumentFixedBond \<equiv> ''fixed_rate_bond''"

definition SupportedInstrumentTypes :: "string list" where
  "SupportedInstrumentTypes = [''cash'', ''currency'', ''spot_crypto'', ''manual_spot'', InstrumentFixedBond]"

definition SupportedStatuses :: "string list" where
  "SupportedStatuses = [''active'', ''inactive'', ''delisted'']"

record ExternalIdentifier =
  xi_Namespace :: string
  xi_ExternalID :: string

record Instrument =
  in_ID :: string
  in_CanonicalSymbol :: string
  in_InstrumentType :: string
  in_NativeUnit :: string
  in_ExternalIDs :: "ExternalIdentifier list"
  in_Status :: string
  in_CreatedAt :: time

record Portfolio =
  pf_ID :: string
  pf_Name :: string
  pf_ReportingCurrency :: string
  pf_Metadata :: metadata
  pf_CreatedAt :: time
  pf_UpdatedAt :: time

record Account =
  ac_ID :: string
  ac_PortfolioID :: string
  ac_Name :: string
  ac_Metadata :: metadata
  ac_CreatedAt :: time
  ac_UpdatedAt :: time

record SnapshotLine =
  sn_ID :: string
  sn_AccountID :: string
  sn_InstrumentID :: string
  sn_Quantity :: string
  sn_TotalCostBasis :: "string option"
  sn_ModifiedDurationYears :: string
  sn_ConvexityYearsSquared :: string
  sn_AccountName :: string
  sn_CanonicalSymbol :: string
  sn_InstrumentType :: string
  sn_NativeUnit :: string
  sn_Status :: string

record Snapshot =
  ss_ID :: string
  ss_PortfolioID :: string
  ss_CapturedAt :: time
  ss_SupersedesSnapshotID :: string
  ss_CreatedAt :: time
  ss_Lines :: "SnapshotLine list"

record CreateInstrumentRequest =
  cir_CanonicalSymbol :: string
  cir_InstrumentType :: string
  cir_NativeUnit :: string
  cir_ExternalIDs :: "ExternalIdentifier list"
  cir_Status :: string

record PortfolioRequest =
  pfq_Name :: string
  pfq_ReportingCurrency :: string
  pfq_Metadata :: "metadata option"

record AccountRequest =
  acq_Name :: string
  acq_Metadata :: "metadata option"

record SnapshotLineInput =
  sli_AccountID :: string
  sli_InstrumentID :: string
  sli_Quantity :: string
  sli_TotalCostBasis :: "string option"
  sli_ModifiedDurationYears :: string
  sli_ConvexityYearsSquared :: string

record CreateSnapshotRequest =
  csr_CapturedAt :: time
  csr_SupersedesSnapshotID :: string
  csr_Lines :: "SnapshotLineInput list"

datatype pf_error = PErrInvalidRequest | PErrNotFound | PErrConflict | PErrDatabase | PErr string

subsection \<open>Numbers\<close>

record pgNumeric =
  pn_Int :: int
  pn_Exp :: int

definition numeric_value :: "pgNumeric \<Rightarrow> rat" where
  "numeric_value n = (if 0 \<le> pn_Exp n then of_int (pn_Int n) * 10 ^ nat (pn_Exp n) else of_int (pn_Int n) / 10 ^ nat (- pn_Exp n))"

definition numericString :: "pgNumeric option \<Rightarrow> string" where
  "numericString value = (case value of
      None \<Rightarrow> []
    | Some n \<Rightarrow>
        let digits = int_str (pn_Int n);
            (sign, digits) = (if has_prefix digits ''-'' \<or> has_prefix digits ''+'' then (take 1 digits, drop 1 digits) else ([], digits))
        in if 0 \<le> pn_Exp n then sign @ digits @ replicate (nat (pn_Exp n)) CHR ''0''
           else let scale = nat (- pn_Exp n);
                    digits = (if length digits \<le> scale then replicate (scale - length digits + 1) CHR ''0'' @ digits else digits);
                    point = length digits - scale
                in sign @ take point digits @ ''.'' @ drop point digits)"

definition numericOptionalString :: "pgNumeric option \<Rightarrow> string" where
  "numericOptionalString value = (if value = None then [] else numericString value)"

definition numericPointer :: "pgNumeric option \<Rightarrow> string option" where
  "numericPointer value = (if value = None then None else Some (numericString value))"

text \<open>\<open>None\<close> is the invalid request, \<open>Some None\<close> the absent value.\<close>

definition pf_parseDecimal :: "(string \<Rightarrow> pgNumeric option) \<Rightarrow> string \<Rightarrow> bool \<Rightarrow> pgNumeric option option" where
  "pf_parseDecimal scanNumeric value optional =
     (if TrimSpace value = [] then (if optional then Some None else None)
      else let value = TrimSpace value
           in if \<not> decimalPattern value then None
              else let (ip, fp) = split_point (trim_prefix value ''-'');
                       fractionalDigits = (case fp of None \<Rightarrow> [] | Some f \<Rightarrow> f);
                       integerDigits = trim_left_char CHR ''0'' ip
                   in if length fractionalDigits > 18 then None
                      else if length integerDigits > 20 \<or> length integerDigits + length fractionalDigits > 38 then None
                      else (case scanNumeric value of None \<Rightarrow> None | Some n \<Rightarrow> Some (Some n)))"

subsection \<open>Helpers\<close>

definition pf_parseUUID :: "(string \<Rightarrow> string option) \<Rightarrow> string \<Rightarrow> string option" where
  "pf_parseUUID scanUUID value = scanUUID (TrimSpace value)"

definition mapDatabaseError :: "sql_error \<Rightarrow> pf_error" where
  "mapDatabaseError e = (case e of
      SqlState state \<Rightarrow> if state \<in> {''23505'', ''23503'', ''23514'', ''55000''} then PErrConflict else PErr state
    | SqlFailed \<Rightarrow> PErr ''database''
    | SqlNoRows \<Rightarrow> PErr ''no rows'')"

definition sql_result :: "(sql_error \<Rightarrow> pf_error) \<Rightarrow> (sql_error + 'a) \<Rightarrow> pf_error + 'a" where
  "sql_result f r = (case r of Inl e \<Rightarrow> Inl (f e) | Inr x \<Rightarrow> Inr x)"

definition not_found_or :: "(sql_error \<Rightarrow> pf_error) \<Rightarrow> sql_error \<Rightarrow> pf_error" where
  "not_found_or f e = (if e = SqlNoRows then PErrNotFound else f e)"

definition validatePortfolio :: "string \<Rightarrow> string \<Rightarrow> bool" where
  "validatePortfolio name currency \<longleftrightarrow> \<not> (TrimSpace name = [] \<or> currency \<noteq> ''TRY'' \<and> currency \<noteq> ''USD'')"

fun valid_ids :: "string list \<Rightarrow> ExternalIdentifier list \<Rightarrow> bool" where
  "valid_ids seen [] = True"
| "valid_ids seen (x # xs) =
     (if xi_Namespace x \<noteq> TrimSpace (xi_Namespace x) \<or> xi_ExternalID x \<noteq> TrimSpace (xi_ExternalID x)
         \<or> xi_Namespace x = [] \<or> xi_ExternalID x = [] then False
      else if TrimSpace (xi_Namespace x) \<in> set seen then False
      else valid_ids (TrimSpace (xi_Namespace x) # seen) xs)"

definition validExternalIDs :: "ExternalIdentifier list \<Rightarrow> bool" where
  "validExternalIDs xs = valid_ids [] xs"

definition externalIDsMap :: "ExternalIdentifier list \<Rightarrow> json" where
  "externalIDsMap xs = JObj (map (\<lambda>x. (xi_Namespace x, JStr (xi_ExternalID x))) xs)"

definition encodeMetadata :: "metadata option \<Rightarrow> metadata" where
  "encodeMetadata value = (case value of None \<Rightarrow> [] | Some m \<Rightarrow> m)"

definition portfolioFromRow :: "portfolio_row \<Rightarrow> Portfolio" where
  "portfolioFromRow r = \<lparr>pf_ID = pfr_id r, pf_Name = pfr_name r, pf_ReportingCurrency = pfr_currency r, pf_Metadata = pfr_metadata r,
     pf_CreatedAt = pfr_created r, pf_UpdatedAt = pfr_updated r\<rparr>"

definition accountFromRow :: "pf_account_row \<Rightarrow> Account" where
  "accountFromRow r = \<lparr>ac_ID = acr_id r, ac_PortfolioID = acr_portfolio r, ac_Name = acr_name r, ac_Metadata = acr_metadata r,
     ac_CreatedAt = acr_created r, ac_UpdatedAt = acr_updated r\<rparr>"

subsection \<open>Instruments\<close>

text \<open>Decoding the JSON column into a \<open>map[string]string\<close>; a null is the empty string.\<close>

definition string_member :: "json \<Rightarrow> string option" where
  "string_member v = (case v of JStr s \<Rightarrow> Some s | JNull \<Rightarrow> Some [] | _ \<Rightarrow> None)"

definition legacy_ids :: "json \<Rightarrow> (string \<times> string) list option" where
  "legacy_ids v = (case v of
      JObj ms \<Rightarrow> if list_all (\<lambda>m. string_member (snd m) \<noteq> None) ms then Some (map (\<lambda>m. (fst m, the (string_member (snd m)))) ms) else None
    | JNull \<Rightarrow> Some []
    | _ \<Rightarrow> None)"

definition instrument :: "(string \<Rightarrow> string) \<Rightarrow> (string list \<Rightarrow> string list) \<Rightarrow> bool \<Rightarrow> instrument_row \<Rightarrow> portfolio_db \<Rightarrow> pf_error + Instrument" where
  "instrument collate mapOrder fails row db =
     res_bind (sql_result (\<lambda>_. PErr ''list instrument identifiers'') (q_ListInstrumentExternalIdentifiers collate fails (ins_id row) db)) (\<lambda>ids.
       let seen = map fst ids;
           legacy = (case legacy_ids (ins_external_ids row) of None \<Rightarrow> [] | Some ms \<Rightarrow> ms);
           kept = filter (\<lambda>n. \<not> (n \<in> set seen \<or> TrimSpace n = [] \<or> TrimSpace (the (map_of (rev legacy) n)) = [])) (mapOrder (remdups (map fst legacy)))
       in Inr \<lparr>in_ID = ins_id row, in_CanonicalSymbol = ins_symbol row, in_InstrumentType = ins_type row, in_NativeUnit = ins_native row,
            in_ExternalIDs = map (\<lambda>(n, e). \<lparr>xi_Namespace = n, xi_ExternalID = e\<rparr>) ids
               @ map (\<lambda>n. \<lparr>xi_Namespace = n, xi_ExternalID = the (map_of (rev legacy) n)\<rparr>) kept,
            in_Status = ins_status row, in_CreatedAt = ins_created row\<rparr>)"

fun insert_ids :: "db_fault \<Rightarrow> nat \<Rightarrow> string \<Rightarrow> ExternalIdentifier list \<Rightarrow> portfolio_db \<Rightarrow> pf_error + portfolio_db" where
  "insert_ids fault k i [] db = Inr db"
| "insert_ids fault k i (x # xs) db =
     res_bind (sql_result mapDatabaseError (q_InsertInstrumentExternalIdentifier (fault (DbStmt k)) i (xi_Namespace x) (xi_ExternalID x) db))
       (insert_ids fault (k + 1) i xs)"

definition CreateInstrument :: "bool \<Rightarrow> (string \<Rightarrow> string) \<Rightarrow> (string list \<Rightarrow> string list) \<Rightarrow> db_fault \<Rightarrow> time \<Rightarrow> string \<Rightarrow> CreateInstrumentRequest
    \<Rightarrow> portfolio_db \<Rightarrow> portfolio_db \<times> (pf_error + Instrument)" where
  "CreateInstrument pool collate mapOrder fault now newID request db =
     (if \<not> pool then (db, Inl PErrDatabase)
      else let symbol = TrimSpace (cir_CanonicalSymbol request); type = TrimSpace (cir_InstrumentType request);
               unit_code = ToUpper (TrimSpace (cir_NativeUnit request));
               status = (if cir_Status request = [] then ''active'' else cir_Status request)
      in if symbol = [] \<or> type \<notin> set SupportedInstrumentTypes \<or> \<not> code_shape unit_code then (db, Inl PErrInvalidRequest)
         else if status \<notin> set SupportedStatuses \<or> \<not> validExternalIDs (cir_ExternalIDs request) then (db, Inl PErrInvalidRequest)
         else if fault DbBegin then (db, Inl (PErr ''begin instrument transaction''))
         else case res_bind (sql_result mapDatabaseError (q_CreatePortfolioInstrument (fault (DbStmt 0))
                    \<lparr>ins_id = newID, ins_symbol = symbol, ins_type = type, ins_native = unit_code, ins_external_ids = externalIDsMap (cir_ExternalIDs request),
                     ins_status = status, ins_created = now\<rparr> db))
                  (\<lambda>(db1, row). res_bind (insert_ids fault 1 (ins_id row) (cir_ExternalIDs request) db1) (\<lambda>db2. Inr (db2, row))) of
             Inl e \<Rightarrow> (db, Inl e)
           | Inr (db2, row) \<Rightarrow>
               if fault DbCommit then (db, Inl (PErr ''commit instrument transaction''))
               else (db2, instrument collate mapOrder (fault (DbStmt (1 + length (cir_ExternalIDs request)))) row db2))"

fun instruments_of :: "(string \<Rightarrow> string) \<Rightarrow> (string list \<Rightarrow> string list) \<Rightarrow> db_fault \<Rightarrow> nat \<Rightarrow> portfolio_db \<Rightarrow> instrument_row list \<Rightarrow> pf_error + Instrument list" where
  "instruments_of collate mapOrder fault k db [] = Inr []"
| "instruments_of collate mapOrder fault k db (r # rs) =
     res_bind (instrument collate mapOrder (fault (DbStmt k)) r db) (\<lambda>x.
     res_bind (instruments_of collate mapOrder fault (k + 1) db rs) (\<lambda>xs. Inr (x # xs)))"

definition ListInstruments :: "bool \<Rightarrow> (string \<Rightarrow> string) \<Rightarrow> (string list \<Rightarrow> string list) \<Rightarrow> db_fault \<Rightarrow> portfolio_db \<Rightarrow> pf_error + Instrument list" where
  "ListInstruments pool collate mapOrder fault db =
     (if \<not> pool then Inl PErrDatabase
      else res_bind (sql_result (\<lambda>_. PErr ''list instruments'') (q_ListPortfolioInstruments collate (fault (DbStmt 0)) db))
             (instruments_of collate mapOrder fault 1 db))"

definition GetInstrument :: "bool \<Rightarrow> (string \<Rightarrow> string option) \<Rightarrow> (string \<Rightarrow> string) \<Rightarrow> (string list \<Rightarrow> string list) \<Rightarrow> db_fault \<Rightarrow> string
    \<Rightarrow> portfolio_db \<Rightarrow> pf_error + Instrument" where
  "GetInstrument pool scanUUID collate mapOrder fault i db =
     (if \<not> pool then Inl PErrDatabase
      else case pf_parseUUID scanUUID i of
        None \<Rightarrow> Inl PErrInvalidRequest
      | Some parsed \<Rightarrow>
          res_bind (sql_result (not_found_or (\<lambda>_. PErr ''get instrument'')) (q_GetPortfolioInstrument (fault (DbStmt 0)) parsed db))
            (\<lambda>row. instrument collate mapOrder (fault (DbStmt 1)) row db))"

definition UpdateInstrumentStatus :: "bool \<Rightarrow> (string \<Rightarrow> string option) \<Rightarrow> (string \<Rightarrow> string) \<Rightarrow> (string list \<Rightarrow> string list) \<Rightarrow> db_fault \<Rightarrow> string \<Rightarrow> string
    \<Rightarrow> portfolio_db \<Rightarrow> portfolio_db \<times> (pf_error + Instrument)" where
  "UpdateInstrumentStatus pool scanUUID collate mapOrder fault i status db =
     (if \<not> pool then (db, Inl PErrDatabase)
      else case pf_parseUUID scanUUID i of
        None \<Rightarrow> (db, Inl PErrInvalidRequest)
      | Some parsed \<Rightarrow>
          if status \<notin> set SupportedStatuses then (db, Inl PErrInvalidRequest)
          else (case sql_result (not_found_or mapDatabaseError) (q_UpdatePortfolioInstrumentStatus (fault (DbStmt 0)) parsed status db) of
              Inl e \<Rightarrow> (db, Inl e)
            | Inr (db', row) \<Rightarrow> (db', instrument collate mapOrder (fault (DbStmt 1)) row db')))"

subsection \<open>Portfolios\<close>

definition CreatePortfolio :: "bool \<Rightarrow> db_fault \<Rightarrow> time \<Rightarrow> string \<Rightarrow> PortfolioRequest \<Rightarrow> portfolio_db \<Rightarrow> portfolio_db \<times> (pf_error + Portfolio)" where
  "CreatePortfolio pool fault now newID request db =
     (if \<not> pool then (db, Inl PErrDatabase)
      else if \<not> validatePortfolio (pfq_Name request) (pfq_ReportingCurrency request) then (db, Inl PErrInvalidRequest)
      else case sql_result mapDatabaseError (q_CreatePortfolio (fault (DbStmt 0))
                  \<lparr>pfr_id = newID, pfr_name = TrimSpace (pfq_Name request), pfr_currency = pfq_ReportingCurrency request,
                   pfr_metadata = encodeMetadata (pfq_Metadata request), pfr_created = now, pfr_updated = now\<rparr> db) of
             Inl e \<Rightarrow> (db, Inl e)
           | Inr (db', row) \<Rightarrow> (db', Inr (portfolioFromRow row)))"

definition ListPortfolios :: "bool \<Rightarrow> (string \<Rightarrow> string) \<Rightarrow> db_fault \<Rightarrow> portfolio_db \<Rightarrow> pf_error + Portfolio list" where
  "ListPortfolios pool collate fault db =
     (if \<not> pool then Inl PErrDatabase
      else res_bind (sql_result (\<lambda>_. PErr ''list portfolios'') (q_ListPortfolios collate (fault (DbStmt 0)) db)) (\<lambda>rows. Inr (map portfolioFromRow rows)))"

definition GetPortfolio :: "bool \<Rightarrow> (string \<Rightarrow> string option) \<Rightarrow> db_fault \<Rightarrow> string \<Rightarrow> portfolio_db \<Rightarrow> pf_error + Portfolio" where
  "GetPortfolio pool scanUUID fault i db =
     (if \<not> pool then Inl PErrDatabase
      else case pf_parseUUID scanUUID i of
        None \<Rightarrow> Inl PErrInvalidRequest
      | Some parsed \<Rightarrow>
          res_bind (sql_result (not_found_or (\<lambda>_. PErr ''get portfolio'')) (q_GetPortfolio (fault (DbStmt 0)) parsed db)) (\<lambda>row. Inr (portfolioFromRow row)))"

definition UpdatePortfolio :: "bool \<Rightarrow> (string \<Rightarrow> string option) \<Rightarrow> db_fault \<Rightarrow> time \<Rightarrow> string \<Rightarrow> PortfolioRequest \<Rightarrow> portfolio_db
    \<Rightarrow> portfolio_db \<times> (pf_error + Portfolio)" where
  "UpdatePortfolio pool scanUUID fault now i request db =
     (if \<not> pool then (db, Inl PErrDatabase)
      else case pf_parseUUID scanUUID i of
        None \<Rightarrow> (db, Inl PErrInvalidRequest)
      | Some parsed \<Rightarrow>
          if \<not> validatePortfolio (pfq_Name request) (pfq_ReportingCurrency request) then (db, Inl PErrInvalidRequest)
          else (case sql_result (not_found_or mapDatabaseError) (q_UpdatePortfolio (fault (DbStmt 0)) now parsed (TrimSpace (pfq_Name request))
                       (pfq_ReportingCurrency request) (encodeMetadata (pfq_Metadata request)) db) of
              Inl e \<Rightarrow> (db, Inl e)
            | Inr (db', row) \<Rightarrow> (db', Inr (portfolioFromRow row))))"

definition DeletePortfolio :: "bool \<Rightarrow> (string \<Rightarrow> string option) \<Rightarrow> (string \<Rightarrow> bool) \<Rightarrow> db_fault \<Rightarrow> string \<Rightarrow> portfolio_db
    \<Rightarrow> portfolio_db \<times> (pf_error + unit)" where
  "DeletePortfolio pool scanUUID referenced fault i db =
     (if \<not> pool then (db, Inl PErrDatabase)
      else case pf_parseUUID scanUUID i of
        None \<Rightarrow> (db, Inl PErrInvalidRequest)
      | Some parsed \<Rightarrow>
          (case sql_result mapDatabaseError (q_DeletePortfolio referenced (fault (DbStmt 0)) parsed db) of
             Inl e \<Rightarrow> (db, Inl e)
           | Inr (db', rows) \<Rightarrow> if rows = 0 then (db', Inl PErrNotFound) else (db', Inr ())))"

subsection \<open>Accounts\<close>

definition CreateAccount :: "bool \<Rightarrow> (string \<Rightarrow> string option) \<Rightarrow> db_fault \<Rightarrow> time \<Rightarrow> string \<Rightarrow> string \<Rightarrow> AccountRequest \<Rightarrow> portfolio_db
    \<Rightarrow> portfolio_db \<times> (pf_error + Account)" where
  "CreateAccount pool scanUUID fault now newID portfolioID request db =
     (if \<not> pool then (db, Inl PErrDatabase)
      else case pf_parseUUID scanUUID portfolioID of
        None \<Rightarrow> (db, Inl PErrInvalidRequest)
      | Some pid \<Rightarrow>
          if TrimSpace (acq_Name request) = [] then (db, Inl PErrInvalidRequest)
          else (case sql_result (not_found_or (\<lambda>_. PErr ''get account portfolio'')) (q_GetPortfolio (fault (DbStmt 0)) pid db) of
              Inl e \<Rightarrow> (db, Inl e)
            | Inr _ \<Rightarrow>
                (case sql_result mapDatabaseError (q_CreateAccount (fault (DbStmt 1))
                        \<lparr>acr_id = newID, acr_portfolio = pid, acr_name = TrimSpace (acq_Name request),
                         acr_metadata = encodeMetadata (acq_Metadata request), acr_created = now, acr_updated = now\<rparr> db) of
                   Inl e \<Rightarrow> (db, Inl e)
                 | Inr (db', row) \<Rightarrow> (db', Inr (accountFromRow row)))))"

definition ListAccounts :: "bool \<Rightarrow> (string \<Rightarrow> string option) \<Rightarrow> (string \<Rightarrow> string) \<Rightarrow> db_fault \<Rightarrow> string \<Rightarrow> portfolio_db \<Rightarrow> pf_error + Account list" where
  "ListAccounts pool scanUUID collate fault portfolioID db =
     (if \<not> pool then Inl PErrDatabase
      else case pf_parseUUID scanUUID portfolioID of
        None \<Rightarrow> Inl PErrInvalidRequest
      | Some pid \<Rightarrow>
          res_bind (sql_result (not_found_or (\<lambda>_. PErr ''get accounts portfolio'')) (q_GetPortfolio (fault (DbStmt 0)) pid db)) (\<lambda>_.
          res_bind (sql_result (\<lambda>_. PErr ''list accounts'') (q_ListAccounts collate (fault (DbStmt 1)) pid db)) (\<lambda>rows.
            Inr (map accountFromRow rows))))"

definition GetAccount :: "bool \<Rightarrow> (string \<Rightarrow> string option) \<Rightarrow> db_fault \<Rightarrow> string \<Rightarrow> portfolio_db \<Rightarrow> pf_error + Account" where
  "GetAccount pool scanUUID fault i db =
     (if \<not> pool then Inl PErrDatabase
      else case pf_parseUUID scanUUID i of
        None \<Rightarrow> Inl PErrInvalidRequest
      | Some parsed \<Rightarrow>
          res_bind (sql_result (not_found_or (\<lambda>_. PErr ''get account'')) (q_GetAccount (fault (DbStmt 0)) parsed db)) (\<lambda>row. Inr (accountFromRow row)))"

definition UpdateAccount :: "bool \<Rightarrow> (string \<Rightarrow> string option) \<Rightarrow> db_fault \<Rightarrow> time \<Rightarrow> string \<Rightarrow> AccountRequest \<Rightarrow> portfolio_db
    \<Rightarrow> portfolio_db \<times> (pf_error + Account)" where
  "UpdateAccount pool scanUUID fault now i request db =
     (if \<not> pool then (db, Inl PErrDatabase)
      else case pf_parseUUID scanUUID i of
        None \<Rightarrow> (db, Inl PErrInvalidRequest)
      | Some parsed \<Rightarrow>
          if TrimSpace (acq_Name request) = [] then (db, Inl PErrInvalidRequest)
          else (case sql_result (not_found_or mapDatabaseError) (q_UpdateAccount (fault (DbStmt 0)) now parsed (TrimSpace (acq_Name request))
                       (encodeMetadata (acq_Metadata request)) db) of
              Inl e \<Rightarrow> (db, Inl e)
            | Inr (db', row) \<Rightarrow> (db', Inr (accountFromRow row))))"

definition DeleteAccount :: "bool \<Rightarrow> (string \<Rightarrow> string option) \<Rightarrow> (string \<Rightarrow> bool) \<Rightarrow> db_fault \<Rightarrow> string \<Rightarrow> portfolio_db
    \<Rightarrow> portfolio_db \<times> (pf_error + unit)" where
  "DeleteAccount pool scanUUID referenced fault i db =
     (if \<not> pool then (db, Inl PErrDatabase)
      else case pf_parseUUID scanUUID i of
        None \<Rightarrow> (db, Inl PErrInvalidRequest)
      | Some parsed \<Rightarrow>
          (case sql_result mapDatabaseError (q_DeleteAccount referenced (fault (DbStmt 0)) parsed db) of
             Inl e \<Rightarrow> (db, Inl e)
           | Inr (db', rows) \<Rightarrow> if rows = 0 then (db', Inl PErrNotFound) else (db', Inr ())))"

subsection \<open>Snapshots\<close>

record preparedLine =
  pl_accountID :: string
  pl_instrumentID :: string
  pl_quantity :: pgNumeric
  pl_costBasis :: "pgNumeric option"
  pl_duration :: "pgNumeric option"
  pl_convexity :: "pgNumeric option"

text \<open>
  One line of \<open>prepareLines\<close>. A failing lookup of the account leaves the zero row, whose
  portfolio differs from every valid identifier, so it is answered like a missing account.
\<close>

definition prepare_line :: "(string \<Rightarrow> string option) \<Rightarrow> (string \<Rightarrow> pgNumeric option) \<Rightarrow> bool \<Rightarrow> bool \<Rightarrow> string \<Rightarrow> portfolio_db \<Rightarrow> (string \<times> string) list
    \<Rightarrow> SnapshotLineInput \<Rightarrow> pf_error + preparedLine" where
  "prepare_line scanUUID scanNumeric failsA failsI portfolioID db seen input =
     (case (pf_parseUUID scanUUID (sli_AccountID input), pf_parseUUID scanUUID (sli_InstrumentID input)) of
        (Some accountID, Some instrumentID) \<Rightarrow>
          if (accountID, instrumentID) \<in> set seen then Inl PErrInvalidRequest
          else if (case q_GetAccount failsA accountID db of Inl _ \<Rightarrow> True | Inr account \<Rightarrow> acr_portfolio account \<noteq> portfolioID) then Inl PErrInvalidRequest
          else (case q_GetPortfolioInstrument failsI instrumentID db of
              Inl SqlNoRows \<Rightarrow> Inl PErrInvalidRequest
            | Inl _ \<Rightarrow> Inl (PErr ''get snapshot instrument'')
            | Inr instr \<Rightarrow>
                (case (pf_parseDecimal scanNumeric (sli_Quantity input) False,
                       (case sli_TotalCostBasis input of None \<Rightarrow> Some None | Some c \<Rightarrow> pf_parseDecimal scanNumeric c False),
                       pf_parseDecimal scanNumeric (sli_ModifiedDurationYears input) True,
                       pf_parseDecimal scanNumeric (sli_ConvexityYearsSquared input) True) of
                   (Some (Some quantity), Some costBasis, Some duration, Some convexity) \<Rightarrow>
                     if (if ins_type instr = InstrumentFixedBond
                         then (case duration of None \<Rightarrow> True | Some d \<Rightarrow> pn_Int d \<le> 0)
                              \<or> (case convexity of None \<Rightarrow> False | Some c \<Rightarrow> pn_Int c < 0)
                         else duration \<noteq> None \<or> convexity \<noteq> None)
                     then Inl PErrInvalidRequest
                     else Inr \<lparr>pl_accountID = accountID, pl_instrumentID = instrumentID, pl_quantity = quantity, pl_costBasis = costBasis,
                               pl_duration = duration, pl_convexity = convexity\<rparr>
                 | _ \<Rightarrow> Inl PErrInvalidRequest))
      | _ \<Rightarrow> Inl PErrInvalidRequest)"

fun prepareLines :: "(string \<Rightarrow> string option) \<Rightarrow> (string \<Rightarrow> pgNumeric option) \<Rightarrow> db_fault \<Rightarrow> nat \<Rightarrow> string \<Rightarrow> portfolio_db \<Rightarrow> (string \<times> string) list
    \<Rightarrow> SnapshotLineInput list \<Rightarrow> pf_error + preparedLine list" where
  "prepareLines scanUUID scanNumeric fault k portfolioID db seen [] = Inr []"
| "prepareLines scanUUID scanNumeric fault k portfolioID db seen (input # inputs) =
     res_bind (prepare_line scanUUID scanNumeric (fault (DbStmt k)) (fault (DbStmt (k + 1))) portfolioID db seen input) (\<lambda>l.
     res_bind (prepareLines scanUUID scanNumeric fault (k + 2) portfolioID db ((pl_accountID l, pl_instrumentID l) # seen) inputs) (\<lambda>ls.
       Inr (l # ls)))"

definition position_of :: "string \<Rightarrow> string \<Rightarrow> string \<Rightarrow> time \<Rightarrow> preparedLine \<Rightarrow> position_row" where
  "position_of newLineID portfolioID snapshotID now l = \<lparr>psr_id = newLineID, psr_portfolio = portfolioID, psr_snapshot = snapshotID,
     psr_account = pl_accountID l, psr_instrument = pl_instrumentID l, psr_quantity = numeric_value (pl_quantity l),
     psr_cost = map_option numeric_value (pl_costBasis l), psr_duration = map_option numeric_value (pl_duration l),
     psr_convexity = map_option numeric_value (pl_convexity l), psr_created = now\<rparr>"

fun insert_lines :: "db_fault \<Rightarrow> nat \<Rightarrow> position_row list \<Rightarrow> portfolio_db \<Rightarrow> sql_error + portfolio_db" where
  "insert_lines fault k [] db = Inr db"
| "insert_lines fault k (l # ls) db = res_bind (q_InsertPortfolioSnapshotLine (fault (DbStmt k)) l db) (insert_lines fault (k + 1) ls)"

definition snapshot_line :: "(rat \<Rightarrow> pgNumeric) \<Rightarrow> position_row \<times> string \<times> instrument_row \<Rightarrow> SnapshotLine" where
  "snapshot_line readNumeric x = (case x of (l, name, i) \<Rightarrow>
     \<lparr>sn_ID = psr_id l, sn_AccountID = psr_account l, sn_InstrumentID = psr_instrument l, sn_Quantity = numericString (Some (readNumeric (psr_quantity l))),
      sn_TotalCostBasis = numericPointer (map_option readNumeric (psr_cost l)),
      sn_ModifiedDurationYears = numericOptionalString (map_option readNumeric (psr_duration l)),
      sn_ConvexityYearsSquared = numericOptionalString (map_option readNumeric (psr_convexity l)),
      sn_AccountName = name, sn_CanonicalSymbol = ins_symbol i, sn_InstrumentType = ins_type i, sn_NativeUnit = ins_native i, sn_Status = ins_status i\<rparr>)"

definition snapshot :: "(string \<Rightarrow> string) \<Rightarrow> (rat \<Rightarrow> pgNumeric) \<Rightarrow> bool \<Rightarrow> snapshot_row \<Rightarrow> portfolio_db \<Rightarrow> pf_error + Snapshot" where
  "snapshot collate readNumeric fails row db =
     res_bind (sql_result (\<lambda>_. PErr ''list snapshot lines'') (q_ListPortfolioSnapshotLines collate fails (snr_id row) db)) (\<lambda>lines.
       Inr \<lparr>ss_ID = snr_id row, ss_PortfolioID = snr_portfolio row, ss_CapturedAt = snr_captured row,
            ss_SupersedesSnapshotID = (case snr_supersedes row of None \<Rightarrow> [] | Some s \<Rightarrow> s), ss_CreatedAt = snr_created row,
            ss_Lines = map (snapshot_line readNumeric) lines\<rparr>)"

text \<open>The snapshot that the request says is superseded, if any.\<close>

definition superseded :: "(string \<Rightarrow> string option) \<Rightarrow> bool \<Rightarrow> string \<Rightarrow> string \<Rightarrow> portfolio_db \<Rightarrow> pf_error + string option" where
  "superseded scanUUID fails pid i db =
     (if i = [] then Inr None
      else case pf_parseUUID scanUUID i of
        None \<Rightarrow> Inl PErrInvalidRequest
      | Some s \<Rightarrow>
          (case q_GetPortfolioSnapshot fails s db of
             Inl SqlNoRows \<Rightarrow> Inl PErrNotFound
           | Inl _ \<Rightarrow> Inl PErrInvalidRequest
           | Inr row \<Rightarrow> if snr_portfolio row \<noteq> pid then Inl PErrInvalidRequest else Inr (Some s)))"

text \<open>Everything between the checks of the request and the final read.\<close>

definition store_snapshot :: "(string \<Rightarrow> string option) \<Rightarrow> (string \<Rightarrow> pgNumeric option) \<Rightarrow> db_fault \<Rightarrow> time \<Rightarrow> string \<Rightarrow> (nat \<Rightarrow> string) \<Rightarrow> string
    \<Rightarrow> CreateSnapshotRequest \<Rightarrow> portfolio_db \<Rightarrow> pf_error + portfolio_db \<times> snapshot_row" where
  "store_snapshot scanUUID scanNumeric fault now newID newLineID pid request db =
     (let n = 2 + 2 * length (csr_Lines request) in
      res_bind (sql_result (not_found_or (\<lambda>_. PErr ''get snapshot portfolio'')) (q_GetPortfolio (fault (DbStmt 0)) pid db)) (\<lambda>_.
      res_bind (superseded scanUUID (fault (DbStmt 1)) pid (csr_SupersedesSnapshotID request) db) (\<lambda>supersedes.
      res_bind (prepareLines scanUUID scanNumeric fault 2 pid db [] (csr_Lines request)) (\<lambda>inputs.
        if fault DbBegin then Inl (PErr ''begin snapshot transaction'')
        else res_bind (sql_result mapDatabaseError (q_CreatePortfolioSnapshot (fault (DbStmt n))
               \<lparr>snr_id = newID, snr_portfolio = pid, snr_captured = pg_time (csr_CapturedAt request), snr_supersedes = supersedes, snr_created = now\<rparr> db))
             (\<lambda>(db1, row). res_bind (sql_result mapDatabaseError (insert_lines fault (n + 1)
                  (map (\<lambda>(k, l). position_of (newLineID k) pid (snr_id row) now l) (enumerate 0 inputs)) db1)) (\<lambda>db2.
                if fault DbCommit then Inl (PErr ''commit snapshot transaction'') else Inr (db2, row)))))))"

definition CreateSnapshot :: "bool \<Rightarrow> (string \<Rightarrow> string option) \<Rightarrow> (string \<Rightarrow> pgNumeric option) \<Rightarrow> (rat \<Rightarrow> pgNumeric) \<Rightarrow> (string \<Rightarrow> string) \<Rightarrow> db_fault \<Rightarrow> time
    \<Rightarrow> string \<Rightarrow> (nat \<Rightarrow> string) \<Rightarrow> string \<Rightarrow> CreateSnapshotRequest \<Rightarrow> portfolio_db \<Rightarrow> portfolio_db \<times> (pf_error + Snapshot)" where
  "CreateSnapshot pool scanUUID scanNumeric readNumeric collate fault now newID newLineID portfolioID request db =
     (if \<not> pool then (db, Inl PErrDatabase)
      else case pf_parseUUID scanUUID portfolioID of
        None \<Rightarrow> (db, Inl PErrInvalidRequest)
      | Some pid \<Rightarrow>
          if csr_CapturedAt request = zero_time \<or> csr_Lines request = [] then (db, Inl PErrInvalidRequest)
          else (case store_snapshot scanUUID scanNumeric fault now newID newLineID pid request db of
              Inl e \<Rightarrow> (db, Inl e)
            | Inr (db2, row) \<Rightarrow> (db2, snapshot collate readNumeric (fault (DbStmt (3 + 3 * length (csr_Lines request)))) row db2)))"

fun snapshots_of :: "(string \<Rightarrow> string) \<Rightarrow> (rat \<Rightarrow> pgNumeric) \<Rightarrow> db_fault \<Rightarrow> nat \<Rightarrow> portfolio_db \<Rightarrow> snapshot_row list \<Rightarrow> pf_error + Snapshot list" where
  "snapshots_of collate readNumeric fault k db [] = Inr []"
| "snapshots_of collate readNumeric fault k db (r # rs) =
     res_bind (snapshot collate readNumeric (fault (DbStmt k)) r db) (\<lambda>x.
     res_bind (snapshots_of collate readNumeric fault (k + 1) db rs) (\<lambda>xs. Inr (x # xs)))"

definition ListSnapshots :: "bool \<Rightarrow> (string \<Rightarrow> string option) \<Rightarrow> (rat \<Rightarrow> pgNumeric) \<Rightarrow> (string \<Rightarrow> string) \<Rightarrow> db_fault \<Rightarrow> string \<Rightarrow> portfolio_db
    \<Rightarrow> pf_error + Snapshot list" where
  "ListSnapshots pool scanUUID readNumeric collate fault portfolioID db =
     (if \<not> pool then Inl PErrDatabase
      else case pf_parseUUID scanUUID portfolioID of
        None \<Rightarrow> Inl PErrInvalidRequest
      | Some pid \<Rightarrow>
          res_bind (sql_result (\<lambda>_. PErr ''list snapshots'') (q_ListPortfolioSnapshots (fault (DbStmt 0)) pid db))
            (snapshots_of collate readNumeric fault 1 db))"

definition GetSnapshot :: "bool \<Rightarrow> (string \<Rightarrow> string option) \<Rightarrow> (rat \<Rightarrow> pgNumeric) \<Rightarrow> (string \<Rightarrow> string) \<Rightarrow> db_fault \<Rightarrow> string \<Rightarrow> portfolio_db
    \<Rightarrow> pf_error + Snapshot" where
  "GetSnapshot pool scanUUID readNumeric collate fault i db =
     (if \<not> pool then Inl PErrDatabase
      else case pf_parseUUID scanUUID i of
        None \<Rightarrow> Inl PErrInvalidRequest
      | Some parsed \<Rightarrow>
          res_bind (sql_result (not_found_or (\<lambda>_. PErr ''get snapshot'')) (q_GetPortfolioSnapshot (fault (DbStmt 0)) parsed db))
            (\<lambda>row. snapshot collate readNumeric (fault (DbStmt 1)) row db))"

end
