(* ===== verification/Import_Service.thy ===== *)
theory Import_Service
  imports Imports Archive Portfolio Valuation "HOL-Library.Word"
begin

text \<open>
  The import service, \<open>internal/imports/service.go\<close>: a preview checks a file and hands out a
  token, and a commit with that token archives the file and stores its rows in one transaction. The
  tables are those of the portfolio and valuation services, with the tables of migration 00005 and
  the bucket of the archive. \<open>None\<close> is the panic of the parser. A target is a lower-case
  hyphenated identifier, which is its own canonical text. What a commit meets outside the service is
  the record \<open>commit_env\<close>: its clock, the random bytes, the identifiers and the clock of the
  database, the statements that fail, the archive, and the result that another transaction stores
  after this one has looked for an earlier result. The statements are numbered in the order in which
  they stand in the code.
\<close>

unbundle bit_operations_syntax

abbreviation ImportSchema :: string where "ImportSchema \<equiv> ''1.0''"

datatype im_error = IErrInvalidRequest | IErrConflict | IErrNotFound | IErrUnavailable | IErr string

record PreviewRequest =
  pvq_Kind :: string
  pvq_TargetID :: string
  pvq_SchemaVersion :: string
  pvq_CapturedAt :: string
  pvq_Body :: string

record PreviewResponse =
  pv_Token :: string
  pv_ImportKind :: string
  pv_TargetID :: string
  pv_SchemaVersion :: string
  pv_ContentSHA256 :: string
  pv_RowCount :: int
  pv_Valid :: bool
  pv_Diagnostics :: "Diagnostic list"
  pv_DiagnosticsTruncated :: bool
  pv_ExpiresAt :: time

record CommitRequest =
  cmq_Kind :: string
  cmq_TargetID :: string
  cmq_SchemaVersion :: string
  cmq_CapturedAt :: string
  cmq_Token :: string
  cmq_IdempotencyKey :: string
  cmq_Body :: string

subsection \<open>Tables\<close>

record token_row =
  tk_digest :: string
  tk_kind :: string
  tk_target :: string
  tk_captured :: "time option"
  tk_schema :: string
  tk_sha :: string
  tk_rows :: int
  tk_diagnostics :: "Diagnostic list"
  tk_truncated :: bool
  tk_expires :: time
  tk_consumed :: "time option"

record result_row =
  rs_id :: string
  rs_kind :: string
  rs_key :: string
  rs_target :: string
  rs_captured :: "time option"
  rs_schema :: string
  rs_sha :: string
  rs_rows :: int
  rs_raw :: string
  rs_response :: metadata

record raw_row =
  rw_id :: string
  rw_sha :: string
  rw_key :: string
  rw_type :: string
  rw_length :: int
  rw_retrieved :: time

record price_revision = price_row +
  pvr_basis :: string

record import_db =
  im_portfolio :: portfolio_db
  im_prices :: "price_revision list"
  im_raw :: "raw_row list"
  im_tokens :: "token_row list"
  im_results :: "result_row list"
  im_bucket :: bucket

record commit_env =
  ce_pool :: bool
  ce_archive :: bool
  ce_conditional :: bool
  ce_fails :: "s3_call \<Rightarrow> bool"
  ce_raceObject :: "s3_object option"
  ce_fault :: db_fault
  ce_clock :: "nat \<Rightarrow> time"
  ce_random :: "8 word list option"
  ce_rawID :: string
  ce_snapshotID :: string
  ce_rowID :: "nat \<Rightarrow> string"
  ce_dbTime :: time
  ce_raceResult :: "result_row option"

subsection \<open>Random identifiers\<close>

definition hex_char :: "nat \<Rightarrow> char" where
  "hex_char n = (if n < 10 then char_of (48 + n) else char_of (87 + n))"

definition hex_bytes :: "8 word list \<Rightarrow> string" where
  "hex_bytes bs = concat (map (\<lambda>b. [hex_char (unat b div 16), hex_char (unat b mod 16)]) bs)"

definition newUUID :: "8 word list option \<Rightarrow> im_error + string" where
  "newUUID random = (case random of
      None \<Rightarrow> Inl (IErr ''random'')
    | Some b \<Rightarrow>
        let b = b[6 := ((b ! 6) AND 0x0f) OR 0x40];
            b = b[8 := ((b ! 8) AND 0x3f) OR 0x80]
        in Inr (hex_bytes (take 4 b) @ ''-'' @ hex_bytes (take 2 (drop 4 b)) @ ''-'' @ hex_bytes (take 2 (drop 6 b)) @ ''-''
                @ hex_bytes (take 2 (drop 8 b)) @ ''-'' @ hex_bytes (take 6 (drop 10 b))))"

subsection \<open>Helpers\<close>

definition capturedAtForKind :: "string \<Rightarrow> time \<Rightarrow> time option" where
  "capturedAtForKind kind captured = (if kind \<noteq> KindPositions then None else Some captured)"

definition sameCapturedAt :: "time option \<Rightarrow> time option \<Rightarrow> bool" where
  "sameCapturedAt left right = (case (left, right) of (Some l, Some r) \<Rightarrow> l = r | _ \<Rightarrow> left = None \<and> right = None)"

text \<open>The instant of a request: what it gives for positions, the clock otherwise.\<close>

definition captured_of :: "string \<Rightarrow> time \<Rightarrow> string \<Rightarrow> time option option" where
  "captured_of kind now value = (if kind = KindPositions then parseRFC3339 value else Some (Some now))"

definition im_parseUUID :: "(string \<Rightarrow> string option) \<Rightarrow> string \<Rightarrow> string option" where
  "im_parseUUID scanUUID value = scanUUID (TrimSpace value)"

definition parseNumeric :: "(string \<Rightarrow> pgNumeric option) \<Rightarrow> string \<Rightarrow> bool \<Rightarrow> pgNumeric option option" where
  "parseNumeric scanNumeric value optional =
     (if value = [] \<and> optional then Some None
      else case scanNumeric value of None \<Rightarrow> None | Some n \<Rightarrow> Some (Some n))"

definition nullableNumeric :: "pgNumeric option \<Rightarrow> rat option" where
  "nullableNumeric value = map_option numeric_value value"

definition hex64 :: "string \<Rightarrow> bool" where
  "hex64 s \<longleftrightarrow> length s = 64 \<and> list_all is_lower_hex s"

subsection \<open>Previews\<close>

definition token_row_ok :: "token_row \<Rightarrow> bool" where
  "token_row_ok t \<longleftrightarrow> tk_kind t \<in> {KindPositions, KindManualPrices} \<and> tk_schema t = ImportSchema \<and> hex64 (tk_sha t)
     \<and> 0 \<le> tk_rows t \<and> tk_rows t \<le> 25000"

definition previewTTL :: Duration where "previewTTL = 30 * 60 * 1000000000"

definition Preview :: "(string \<Rightarrow> string) \<Rightarrow> bool \<Rightarrow> db_fault \<Rightarrow> time \<Rightarrow> 8 word list option \<Rightarrow> PreviewRequest \<Rightarrow> import_db
    \<Rightarrow> (import_db \<times> (im_error + PreviewResponse)) option" where
  "Preview sha pool fault now random req db =
     (let target = ToLower (TrimSpace (pvq_TargetID req)); kind = pvq_Kind req in
      if pvq_SchemaVersion req \<noteq> ImportSchema \<or> \<not> import_validUUID target \<or> kind \<noteq> KindPositions \<and> kind \<noteq> KindManualPrices
      then Some (db, Inl IErrInvalidRequest)
      else if \<not> pool then Some (db, Inl IErrUnavailable)
      else case captured_of kind now (pvq_CapturedAt req) of
        None \<Rightarrow> None
      | Some None \<Rightarrow> Some (db, Inl IErrInvalidRequest)
      | Some (Some captured) \<Rightarrow>
          (case Parse sha (pvq_Body req) kind of
             None \<Rightarrow> None
           | Some parsed \<Rightarrow>
               let response = \<lparr>pv_Token = [], pv_ImportKind = kind, pv_TargetID = target, pv_SchemaVersion = pvq_SchemaVersion req,
                     pv_ContentSHA256 = ir_ContentSHA256 parsed, pv_RowCount = ir_RowCount parsed, pv_Valid = ir_Valid parsed,
                     pv_Diagnostics = ir_Diagnostics parsed, pv_DiagnosticsTruncated = ir_DiagnosticsTruncated parsed, pv_ExpiresAt = zero_time\<rparr>
               in if \<not> ir_Valid parsed then Some (db, Inr response)
                  else if kind = KindPositions \<and> (fault (DbStmt 0) \<or> \<not> list_ex (\<lambda>p. pfr_id p = target) (pf_portfolios (im_portfolio db)))
                  then Some (db, Inl IErrInvalidRequest)
                  else (case random of
                      None \<Rightarrow> Some (db, Inl (IErr ''create preview token''))
                    | Some bytes \<Rightarrow>
                        let token = hex_bytes bytes; expires = now + previewTTL;
                            row = \<lparr>tk_digest = sha token, tk_kind = kind, tk_target = target,
                              tk_captured = map_option pg_time (capturedAtForKind kind captured), tk_schema = pvq_SchemaVersion req,
                              tk_sha = ir_ContentSHA256 parsed, tk_rows = ir_RowCount parsed, tk_diagnostics = ir_Diagnostics parsed,
                              tk_truncated = ir_DiagnosticsTruncated parsed, tk_expires = pg_time expires, tk_consumed = None\<rparr>
                        in if fault (DbStmt 1) \<or> \<not> token_row_ok row \<or> list_ex (\<lambda>t. tk_digest t = tk_digest row) (im_tokens db)
                           then Some (db, Inl (IErr ''persist preview token''))
                           else Some (db\<lparr>im_tokens := im_tokens db @ [row]\<rparr>, Inr (response\<lparr>pv_Token := token, pv_ExpiresAt := expires\<rparr>)))))"

subsection \<open>The rows of a file\<close>

definition domain_position :: "string \<Rightarrow> portfolio_db \<Rightarrow> string \<times> string \<Rightarrow> bool" where
  "domain_position target db x = (case x of (accountID, instrumentID) \<Rightarrow>
     list_ex (\<lambda>p. pfr_id p = target) (pf_portfolios db)
     \<and> list_ex (\<lambda>a. acr_id a = accountID \<and> acr_portfolio a = target) (pf_accounts db)
     \<and> list_ex (\<lambda>i. ins_id i = instrumentID) (pf_instruments db))"

fun parse_all :: "('a \<Rightarrow> 'b option) \<Rightarrow> 'a list \<Rightarrow> 'b list option" where
  "parse_all f [] = Some []"
| "parse_all f (x # xs) = (case f x of None \<Rightarrow> None | Some y \<Rightarrow> map_option ((#) y) (parse_all f xs))"

definition position_ids :: "(string \<Rightarrow> string option) \<Rightarrow> PositionRow \<Rightarrow> (string \<times> string) option" where
  "position_ids scanUUID row = (case im_parseUUID scanUUID (po_AccountID row) of
      None \<Rightarrow> None
    | Some account \<Rightarrow> map_option (Pair account) (im_parseUUID scanUUID (po_InstrumentID row)))"

definition validateDomainRows :: "(string \<Rightarrow> string option) \<Rightarrow> bool \<Rightarrow> string \<Rightarrow> string \<Rightarrow> ImportResult \<Rightarrow> portfolio_db \<Rightarrow> im_error + unit" where
  "validateDomainRows scanUUID fails kind target parsed db =
     (if kind = KindPositions
      then (case parse_all (position_ids scanUUID) (ir_Positions parsed) of
          None \<Rightarrow> Inl IErrInvalidRequest
        | Some ids \<Rightarrow> if fails \<or> \<not> list_all (domain_position target db) ids then Inl IErrInvalidRequest else Inr ())
      else (case parse_all (im_parseUUID scanUUID \<circ> pc_InstrumentID) (ir_Prices parsed) of
          None \<Rightarrow> Inl IErrInvalidRequest
        | Some ids \<Rightarrow> if fails \<or> \<not> list_all (\<lambda>j. list_ex (\<lambda>i. ins_id i = j) (pf_instruments db)) ids
            then Inl IErrInvalidRequest else Inr ()))"

text \<open>One row of the \<^verbatim>\<open>COPY\<close> into the lines of the new snapshot.\<close>

definition copy_row :: "(string \<Rightarrow> string option) \<Rightarrow> (string \<Rightarrow> pgNumeric option) \<Rightarrow> (nat \<Rightarrow> string) \<Rightarrow> time \<Rightarrow> string \<Rightarrow> string
    \<Rightarrow> nat \<times> PositionRow \<Rightarrow> position_row option" where
  "copy_row scanUUID scanNumeric rowID now portfolioID snapshotID x = (case x of (k, row) \<Rightarrow>
     (case (position_ids scanUUID row, parseNumeric scanNumeric (po_Quantity row) False, parseNumeric scanNumeric (po_TotalCostBasis row) True,
            parseNumeric scanNumeric (po_ModifiedDurationYears row) True, parseNumeric scanNumeric (po_ConvexityYearsSquared row) True) of
        (Some (accountID, instrumentID), Some (Some quantity), Some cost, Some duration, Some convexity) \<Rightarrow>
          Some \<lparr>psr_id = rowID k, psr_portfolio = portfolioID, psr_snapshot = snapshotID, psr_account = accountID, psr_instrument = instrumentID,
                psr_quantity = numeric_value quantity, psr_cost = nullableNumeric cost, psr_duration = nullableNumeric duration,
                psr_convexity = nullableNumeric convexity, psr_created = now\<rparr>
      | _ \<Rightarrow> None))"

definition commitPositions :: "(string \<Rightarrow> string option) \<Rightarrow> (string \<Rightarrow> pgNumeric option) \<Rightarrow> commit_env \<Rightarrow> string \<Rightarrow> time \<Rightarrow> ImportResult \<Rightarrow> string
    \<Rightarrow> portfolio_db \<Rightarrow> im_error + portfolio_db \<times> metadata" where
  "commitPositions scanUUID scanNumeric env target capturedAt parsed hash db =
     (case q_CreatePortfolioSnapshot (ce_fault env (DbStmt 5)) \<lparr>snr_id = ce_snapshotID env, snr_portfolio = target, snr_captured = pg_time capturedAt,
            snr_supersedes = None, snr_created = ce_dbTime env\<rparr> db of
        Inl _ \<Rightarrow> Inl IErrInvalidRequest
      | Inr (db, s) \<Rightarrow>
          (case (im_parseUUID scanUUID target, im_parseUUID scanUUID (snr_id s)) of
             (Some portfolioID, Some snapshotUUID) \<Rightarrow>
               (case parse_all (copy_row scanUUID scanNumeric (ce_rowID env) (ce_dbTime env) portfolioID snapshotUUID) (enumerate 0 (ir_Positions parsed)) of
                  None \<Rightarrow> Inl IErrInvalidRequest
                | Some copyRows \<Rightarrow>
                    if ce_fault env (DbStmt 6) then Inl IErrInvalidRequest
                    else (case insert_lines (\<lambda>_. False) 0 copyRows db of
                        Inl _ \<Rightarrow> Inl IErrInvalidRequest
                      | Inr db \<Rightarrow> Inr (db, [(''snapshot_id'', JStr (snr_id s)), (''raw_object_sha256'', JStr hash)])))
           | _ \<Rightarrow> Inl IErrInvalidRequest))"

definition price_revision_of :: "(string \<Rightarrow> string option) \<Rightarrow> (string \<Rightarrow> pgNumeric option) \<Rightarrow> (nat \<Rightarrow> string) \<Rightarrow> time \<Rightarrow> string \<Rightarrow> nat \<times> PriceRow
    \<Rightarrow> (price_revision \<times> rat) option" where
  "price_revision_of scanUUID scanNumeric rowID now rawObjectID x = (case x of (k, row) \<Rightarrow>
     (case (im_parseUUID scanUUID (pc_InstrumentID row), parseNumeric scanNumeric (pc_Price row) False) of
        (Some instrumentID, Some (Some price)) \<Rightarrow>
          Some (\<lparr>prw_id = rowID k, prw_instrument = instrumentID, prw_quote = pc_QuoteCurrency row, prw_observation = pg_time (pc_ObservationTime row),
                 prw_price = [], prw_source_known = map_option pg_time (pc_SourceKnownAtTime row), prw_system_known = now, prw_raw = rawObjectID,
                 pvr_basis = (if pc_SourceKnownAtTime row = None then ''first_observed_by_system'' else ''source_effective_at'')\<rparr>,
                numeric_value price)
      | _ \<Rightarrow> None))"

text \<open>The unique constraint, where nulls are not distinct, the checks and the references of the table.\<close>

definition same_revision :: "price_revision \<Rightarrow> price_revision \<Rightarrow> bool" where
  "same_revision p q \<longleftrightarrow> prw_instrument p = prw_instrument q \<and> prw_quote p = prw_quote q \<and> prw_observation p = prw_observation q
     \<and> prw_price p = prw_price q \<and> prw_source_known p = prw_source_known q \<and> prw_raw p = prw_raw q"

definition insert_price :: "price_revision \<times> rat \<Rightarrow> import_db \<Rightarrow> sql_error + import_db" where
  "insert_price x db = (case x of (p, price) \<Rightarrow>
     res_bind (to_numeric price) (\<lambda>price.
       let p = p\<lparr>prw_price := formatDecimal price\<rparr>
       in if \<not> code_shape (prw_quote p) then Inl (SqlState ''23514'')
          else if list_ex (same_revision p) (im_prices db) then Inl (SqlState ''23505'')
          else if \<not> list_ex (\<lambda>i. ins_id i = prw_instrument p) (pf_instruments (im_portfolio db))
               \<or> \<not> list_ex (\<lambda>r. rw_id r = prw_raw p) (im_raw db) then Inl (SqlState ''23503'')
          else Inr (db\<lparr>im_prices := im_prices db @ [p]\<rparr>)))"

fun insert_prices :: "(price_revision \<times> rat) list \<Rightarrow> import_db \<Rightarrow> sql_error + import_db" where
  "insert_prices [] db = Inr db"
| "insert_prices (x # xs) db = res_bind (insert_price x db) (insert_prices xs)"

definition commitPrices :: "(string \<Rightarrow> string option) \<Rightarrow> (string \<Rightarrow> pgNumeric option) \<Rightarrow> commit_env \<Rightarrow> ImportResult \<Rightarrow> string \<Rightarrow> string
    \<Rightarrow> import_db \<Rightarrow> im_error + import_db \<times> metadata" where
  "commitPrices scanUUID scanNumeric env parsed rawID hash db =
     (case im_parseUUID scanUUID rawID of
        None \<Rightarrow> Inl IErrInvalidRequest
      | Some rawObjectID \<Rightarrow>
          (case parse_all (price_revision_of scanUUID scanNumeric (ce_rowID env) (ce_dbTime env) rawObjectID) (enumerate 0 (ir_Prices parsed)) of
             None \<Rightarrow> Inl IErrInvalidRequest
           | Some rows \<Rightarrow>
               if ce_fault env (DbStmt 5) then Inl IErrInvalidRequest
               else (case insert_prices rows db of
                   Inl _ \<Rightarrow> Inl IErrInvalidRequest
                 | Inr db \<Rightarrow> Inr (db, [(''revision_count'', JNum (int_str (int (length rows)))), (''raw_object_sha256'', JStr hash)]))))"

subsection \<open>Commits\<close>

text \<open>An earlier result under the same key is answered again if the request is the same.\<close>

definition replay :: "string \<Rightarrow> CommitRequest \<Rightarrow> ImportResult \<Rightarrow> time \<Rightarrow> result_row \<Rightarrow> im_error + metadata" where
  "replay target req parsed capturedAt r =
     (if rs_target r \<noteq> target \<or> rs_schema r \<noteq> cmq_SchemaVersion req \<or> rs_sha r \<noteq> ir_ContentSHA256 parsed
         \<or> \<not> sameCapturedAt (rs_captured r) (capturedAtForKind (cmq_Kind req) capturedAt) \<or> rs_rows r \<noteq> ir_RowCount parsed
      then Inl IErrConflict else Inr (rs_response r))"

text \<open>
  The token of the request. Where the statement fails, the expiry is still the zero time, so the
  failure is answered as a conflict.
\<close>

definition check_token :: "bool \<Rightarrow> time \<Rightarrow> string \<Rightarrow> string \<Rightarrow> CommitRequest \<Rightarrow> ImportResult \<Rightarrow> time \<Rightarrow> import_db \<Rightarrow> im_error + unit" where
  "check_token fails now tokenDigest target req parsed capturedAt db =
     (if fails then (if \<not> zero_time > now then Inl IErrConflict else Inl (IErr ''lookup preview token''))
      else case find (\<lambda>t. tk_digest t = tokenDigest) (im_tokens db) of
        None \<Rightarrow> Inl IErrConflict
      | Some t \<Rightarrow>
          if tk_consumed t \<noteq> None \<or> \<not> tk_expires t > now then Inl IErrConflict
          else if tk_kind t \<noteq> cmq_Kind req \<or> tk_target t \<noteq> target \<or> tk_schema t \<noteq> cmq_SchemaVersion req \<or> tk_sha t \<noteq> ir_ContentSHA256 parsed
                  \<or> \<not> sameCapturedAt (tk_captured t) (capturedAtForKind (cmq_Kind req) capturedAt)
          then Inl IErrConflict else Inr ())"

definition register_raw :: "commit_env \<Rightarrow> Reference \<Rightarrow> import_db \<Rightarrow> im_error + import_db \<times> string" where
  "register_raw env ref db =
     (if ce_fault env (DbStmt 3) then Inl (IErr ''register import raw object'')
      else case find (\<lambda>r. rw_sha r = ref_ContentSHA256 ref) (im_raw db) of
        Some r \<Rightarrow> if ce_fault env (DbStmt 4) then Inl (IErr ''register import raw object'') else Inr (db, rw_id r)
      | None \<Rightarrow>
          if \<not> hex64 (ref_ContentSHA256 ref) \<or> sql_blank (ref_Key ref) \<or> list_ex (\<lambda>r. rw_key r = ref_Key ref) (im_raw db)
          then Inl (IErr ''register import raw object'')
          else Inr (db\<lparr>im_raw := im_raw db @ [\<lparr>rw_id = ce_rawID env, rw_sha = ref_ContentSHA256 ref, rw_key = ref_Key ref, rw_type = ref_MediaType ref,
                      rw_length = ref_ByteLength ref, rw_retrieved = pg_time (ce_clock env 2)\<rparr>]\<rparr>, ce_rawID env))"

definition import_rows :: "(string \<Rightarrow> string option) \<Rightarrow> (string \<Rightarrow> pgNumeric option) \<Rightarrow> commit_env \<Rightarrow> string \<Rightarrow> string \<Rightarrow> time \<Rightarrow> ImportResult \<Rightarrow> string
    \<Rightarrow> import_db \<Rightarrow> im_error + import_db \<times> metadata" where
  "import_rows scanUUID scanNumeric env kind target capturedAt parsed rawID db =
     (if kind = KindPositions
      then res_bind (commitPositions scanUUID scanNumeric env target capturedAt parsed (ir_ContentSHA256 parsed) (im_portfolio db))
             (\<lambda>(p, result). Inr (db\<lparr>im_portfolio := p\<rparr>, result))
      else commitPrices scanUUID scanNumeric env parsed rawID (ir_ContentSHA256 parsed) db)"

definition consume :: "string \<Rightarrow> time \<Rightarrow> token_row list \<Rightarrow> token_row list" where
  "consume tokenDigest now = sql_update (\<lambda>t. tk_digest t = tokenDigest) (\<lambda>t. t\<lparr>tk_consumed := Some (pg_time now)\<rparr>)"

text \<open>
  The statements from the registration of the file to the end of the transaction: \<open>Inl\<close> is a
  transaction that is rolled back, with its answer.
\<close>

definition finish :: "(string \<Rightarrow> string) \<Rightarrow> (string \<Rightarrow> string option) \<Rightarrow> (string \<Rightarrow> pgNumeric option) \<Rightarrow> commit_env \<Rightarrow> string \<Rightarrow> CommitRequest \<Rightarrow> time
    \<Rightarrow> ImportResult \<Rightarrow> Reference \<Rightarrow> import_db \<Rightarrow> (im_error + metadata) + import_db \<times> metadata" where
  "finish sha scanUUID scanNumeric env target req capturedAt parsed ref db =
     (case res_bind (register_raw env ref db) (\<lambda>(db, rawID).
           res_bind (import_rows scanUUID scanNumeric env (cmq_Kind req) target capturedAt parsed rawID db) (\<lambda>(db, result).
           res_bind (newUUID (ce_random env)) (\<lambda>resultID. Inr (db, rawID, resultID, result)))) of
        Inl e \<Rightarrow> Inl (Inl e)
      | Inr (db, rawID, resultID, result) \<Rightarrow>
          let result = result @ [(''import_kind'', JStr (cmq_Kind req)), (''target_id'', JStr target), (''schema_version'', JStr (cmq_SchemaVersion req)),
                 (''content_sha256'', JStr (ir_ContentSHA256 parsed)), (''row_count'', JNum (int_str (ir_RowCount parsed))),
                 (''import_result_id'', JStr resultID)];
              row = \<lparr>rs_id = resultID, rs_kind = cmq_Kind req, rs_key = cmq_IdempotencyKey req, rs_target = target,
                 rs_captured = map_option pg_time (capturedAtForKind (cmq_Kind req) capturedAt), rs_schema = cmq_SchemaVersion req,
                 rs_sha = ir_ContentSHA256 parsed, rs_rows = ir_RowCount parsed, rs_raw = rawID, rs_response = result\<rparr>
          in if ce_fault env (DbStmt 7) then Inl (Inl (IErr ''persist import result''))
             else (case find (\<lambda>r. rs_kind r = cmq_Kind req \<and> rs_key r = cmq_IdempotencyKey req) (im_results db) of
                 Some r \<Rightarrow> Inl (if ce_fault env (DbStmt 8) then Inl IErrConflict else replay (ToLower (cmq_TargetID req)) req parsed capturedAt r)
               | None \<Rightarrow>
                   if list_ex (\<lambda>r. rs_id r = resultID) (im_results db) then Inl (Inl (IErr ''persist import result''))
                   else if ce_fault env (DbStmt 9) then Inl (Inl (IErr ''consume preview token''))
                   else if ce_fault env DbCommit then Inl (Inl (IErr ''commit import transaction''))
                   else Inr (db\<lparr>im_results := im_results db @ [row], im_tokens := consume (sha (cmq_Token req)) (ce_clock env 3) (im_tokens db)\<rparr>, result)))"

text \<open>The archive call of a commit.\<close>

definition archive_import :: "(string \<Rightarrow> string) \<Rightarrow> (string \<Rightarrow> string) \<Rightarrow> commit_env \<Rightarrow> CommitRequest \<Rightarrow> bucket \<Rightarrow> bucket \<times> (archive_error + Reference)" where
  "archive_import sha redact env req = ArchivePayload sha redact (ce_conditional env) (ce_fails env) (ce_raceObject env) (cmq_Body req)
     ''text/csv; charset=utf-8'' [(''import-kind'', cmq_Kind req)]"

definition commit_tx :: "(string \<Rightarrow> string) \<Rightarrow> (string \<Rightarrow> string) \<Rightarrow> (string \<Rightarrow> string option) \<Rightarrow> (string \<Rightarrow> pgNumeric option) \<Rightarrow> commit_env \<Rightarrow> string
    \<Rightarrow> CommitRequest \<Rightarrow> time \<Rightarrow> ImportResult \<Rightarrow> import_db \<Rightarrow> import_db \<times> (im_error + metadata)" where
  "commit_tx sha redact scanUUID scanNumeric env target req capturedAt parsed db =
     (if ce_fault env (DbStmt 0) then (db, Inl (IErr ''lookup import result''))
      else case find (\<lambda>r. rs_kind r = cmq_Kind req \<and> rs_key r = cmq_IdempotencyKey req) (im_results db) of
        Some existing \<Rightarrow> (db, replay target req parsed capturedAt existing)
      | None \<Rightarrow>
          (case res_bind (check_token (ce_fault env (DbStmt 1)) (ce_clock env 1) (sha (cmq_Token req)) target req parsed capturedAt db) (\<lambda>_.
                 validateDomainRows scanUUID (ce_fault env (DbStmt 2)) (cmq_Kind req) target parsed (im_portfolio db)) of
             Inl e \<Rightarrow> (db, Inl e)
           | Inr _ \<Rightarrow>
               if \<not> ce_archive env then (db, Inl IErrUnavailable)
               else (case archive_import sha redact env req (im_bucket db) of
                   (b, Inl _) \<Rightarrow> (db\<lparr>im_bucket := b\<rparr>, Inl (IErr ''archive CSV''))
                 | (b, Inr ref) \<Rightarrow>
                     let db = db\<lparr>im_bucket := b, im_results := im_results db @ (case ce_raceResult env of None \<Rightarrow> [] | Some r \<Rightarrow> [r])\<rparr>
                     in (case finish sha scanUUID scanNumeric env target req capturedAt parsed ref db of
                           Inl answer \<Rightarrow> (db, answer)
                         | Inr (db', result) \<Rightarrow> (db', Inr result)))))"

definition Commit :: "(string \<Rightarrow> string) \<Rightarrow> (string \<Rightarrow> string) \<Rightarrow> (string \<Rightarrow> string option) \<Rightarrow> (string \<Rightarrow> pgNumeric option) \<Rightarrow> commit_env \<Rightarrow> CommitRequest
    \<Rightarrow> import_db \<Rightarrow> (import_db \<times> (im_error + metadata)) option" where
  "Commit sha redact scanUUID scanNumeric env req db =
     (let target = ToLower (TrimSpace (cmq_TargetID req)) in
      if cmq_SchemaVersion req \<noteq> ImportSchema \<or> \<not> import_validUUID target \<or> cmq_Token req = [] \<or> cmq_IdempotencyKey req = []
         \<or> length (cmq_IdempotencyKey req) > 255
      then Some (db, Inl IErrInvalidRequest)
      else if \<not> ce_pool env then Some (db, Inl IErrUnavailable)
      else case captured_of (cmq_Kind req) (ce_clock env 0) (cmq_CapturedAt req) of
        None \<Rightarrow> None
      | Some None \<Rightarrow> Some (db, Inl IErrInvalidRequest)
      | Some (Some capturedAt) \<Rightarrow>
          (case Parse sha (cmq_Body req) (cmq_Kind req) of
             None \<Rightarrow> None
           | Some parsed \<Rightarrow>
               if \<not> ir_Valid parsed then Some (db, Inl IErrInvalidRequest)
               else if ce_fault env DbBegin then Some (db, Inl (IErr ''begin import transaction''))
               else Some (commit_tx sha redact scanUUID scanNumeric env target req capturedAt parsed db)))"

end
