(* ===== verification/Portfolio_Properties.thy ===== *)
theory Portfolio_Properties
  imports Portfolio History
begin

text \<open>
  What the portfolio service promises: decimals are stored and shown without changing their value,
  the tables stay consistent under every sequence of calls, a snapshot and its lines never change
  once they are stored, and the checks the service makes before it writes leave no constraint of
  the tables to be violated.
\<close>

subsection \<open>Numbers\<close>

lemma int_str_sign:
  "int_str k = (if k < 0 then ''-'' else []) @ nat_str (nat \<bar>k\<bar>)"
  "has_prefix (int_str k) ''-'' \<longleftrightarrow> k < 0" "\<not> has_prefix (int_str k) ''+''"
proof -
  have d: "is_digit (hd (nat_str n))" for n
    using nat_str_digits [of "hd (nat_str n)" n] by simp
  show e: "int_str k = (if k < 0 then ''-'' else []) @ nat_str (nat \<bar>k\<bar>)" by (simp add: int_str_def)
  show "has_prefix (int_str k) ''-'' \<longleftrightarrow> k < 0" "\<not> has_prefix (int_str k) ''+''"
    using d [of "nat \<bar>k\<bar>"] nat_str_nonempty [of "nat \<bar>k\<bar>"]
    by (cases "nat_str (nat \<bar>k\<bar>)"; auto simp: e has_prefix_def is_digit_def)+
qed

lemma unsigned_rat_digits:
  assumes "\<forall>c \<in> set ds. is_digit c" and "ds \<noteq> []"
  shows "unsigned_rat ds = Some (of_nat (digits_val ds))"
proof -
  have "CHR ''.'' \<notin> set ds" using assms(1) by (auto simp: is_digit_def)
  then have "split_point ds = (ds, None)"
    by (auto simp: split_point_def Let_def takeWhile_eq_all_conv dropWhile_eq_Nil_conv)
  then show ?thesis using assms by (simp add: unsigned_rat_def all_digits_def list_all_iff)
qed

lemma unsigned_rat_point:
  assumes "\<forall>c \<in> set ds. is_digit c" and "k < length ds"
  shows "unsigned_rat (take (length ds - k) ds @ ''.'' @ drop (length ds - k) ds) = Some (of_nat (digits_val ds) / 10 ^ k)"
proof -
  have "split_point (take (length ds - k) ds @ ''.'' @ drop (length ds - k) ds) = (take (length ds - k) ds, Some (drop (length ds - k) ds))"
    using assms(1) by (intro takeWhile_point) (auto dest: in_set_takeD)
  then show ?thesis using assms by (auto simp: unsigned_rat_def list_all_iff dest: in_set_takeD in_set_dropD)
qed

lemma SetString_signed:
  assumes "u \<noteq> []" and "is_digit (hd u)"
  shows "SetString ((if neg then ''-'' else []) @ u) = map_option (\<lambda>v. if neg then - v else v) (unsigned_rat u)"
  using assms by (cases u) (auto simp: SetString_def split_sign_def is_digit_def)

text \<open>
  The decimal text the service shows has exactly the value of the number the driver handed it,
  whatever its sign, its exponent and the number of its digits.
\<close>

lemma numericString_value: "SetString (numericString (Some n)) = Some (numeric_value n)"
proof -
  let ?k = "pn_Int n" and ?ds = "nat_str (nat \<bar>pn_Int n\<bar>)"
  have dig: "\<forall>c \<in> set ?ds. is_digit c" by (auto dest: nat_str_digits)
  have sgn: "(if ?k < 0 then - (of_nat (nat \<bar>?k\<bar>)) else of_nat (nat \<bar>?k\<bar>) :: rat) = of_int ?k" by simp
  have ps: "(if has_prefix (int_str ?k) ''-'' \<or> has_prefix (int_str ?k) ''+'' then (take 1 (int_str ?k), drop 1 (int_str ?k)) else ([], int_str ?k))
      = (if ?k < 0 then ''-'' else [], ?ds)" using int_str_sign(2,3) [of ?k] int_str_sign(1) [of ?k] by (cases "?k < 0") simp_all
  note unf = numericString_def option.case Let_def ps prod.case
  show ?thesis
  proof (cases "0 \<le> pn_Exp n")
    case True
    let ?u = "?ds @ replicate (nat (pn_Exp n)) CHR ''0''"
    have "numericString (Some n) = (if ?k < 0 then ''-'' else []) @ ?u"
      using True unfolding unf by (simp only: if_True append_assoc)
    moreover have u: "\<forall>c \<in> set ?u. is_digit c" using dig by (auto simp: is_digit_def)
    moreover have "is_digit (hd ?u)" using u nat_str_nonempty by (metis append_is_Nil_conv list.set_sel(1))
    ultimately show ?thesis
      using True sgn by (simp add: SetString_signed unsigned_rat_digits digits_val_append numeric_value_def mult.commute)
  next
    case False
    define k where "k = nat (- pn_Exp n)"
    define es where "es = (if length ?ds \<le> k then replicate (k - length ?ds + 1) CHR ''0'' @ ?ds else ?ds)"
    have zeros: "digits_val (replicate m CHR ''0'' @ ?ds) = nat \<bar>?k\<bar>" for m by (simp add: digits_val_append)
    have es: "\<forall>c \<in> set es. is_digit c" "k < length es" using dig by (auto simp: es_def is_digit_def)
    have val: "digits_val es = nat \<bar>?k\<bar>" unfolding es_def using zeros by (simp only: digits_val_nat_str split: if_split) blast
    let ?u = "take (length es - k) es @ ''.'' @ drop (length es - k) es"
    have "numericString (Some n) = (if ?k < 0 then ''-'' else []) @ ?u"
      using False unfolding unf es_def k_def by (simp only: if_False append_assoc)
    moreover have "hd ?u = hd es" and "es \<noteq> []" using es(2) by (auto simp: hd_append hd_take)
    then have "is_digit (hd ?u)" and "?u \<noteq> []" using es(1) by simp_all
    ultimately have "SetString (numericString (Some n)) = map_option (\<lambda>v. if ?k < 0 then - v else v) (unsigned_rat ?u)"
      using SetString_signed [of ?u "?k < 0"] by metis
    moreover have "unsigned_rat ?u = Some (of_nat (nat \<bar>?k\<bar>) / 10 ^ k)"
      using unsigned_rat_point [OF es] by (simp only: val)
    moreover have "(if ?k < 0 then - (of_nat (nat \<bar>?k\<bar>) / 10 ^ k) else of_nat (nat \<bar>?k\<bar>) / 10 ^ k) = numeric_value n"
      using False by (simp add: numeric_value_def k_def)
    ultimately show ?thesis by (simp only: option.map)
  qed
qed

subsection \<open>Consistent tables\<close>

text \<open>What a stored line guarantees about itself and the rows it refers to.\<close>

definition fits_numeric :: "rat \<Rightarrow> bool" where
  "fits_numeric v \<longleftrightarrow> on_grid v \<and> \<bar>v\<bar> < numeric_limit"

definition bond_rule :: "string \<Rightarrow> position_row \<Rightarrow> bool" where
  "bond_rule type l \<longleftrightarrow>
     (if type = InstrumentFixedBond
      then (\<exists>d. psr_duration l = Some d \<and> 0 < d) \<and> (\<forall>c. psr_convexity l = Some c \<longrightarrow> 0 \<le> c)
      else psr_duration l = None \<and> psr_convexity l = None)"

definition line_ok :: "portfolio_db \<Rightarrow> position_row \<Rightarrow> bool" where
  "line_ok db l \<longleftrightarrow>
     (\<exists>s \<in> set (pf_snapshots db). snr_id s = psr_snapshot l \<and> snr_portfolio s = psr_portfolio l)
     \<and> (\<exists>a \<in> set (pf_accounts db). acr_id a = psr_account l \<and> acr_portfolio a = psr_portfolio l)
     \<and> (\<exists>i \<in> set (pf_instruments db). ins_id i = psr_instrument l \<and> bond_rule (ins_type i) l)
     \<and> fits_numeric (psr_quantity l) \<and> pred_option fits_numeric (psr_cost l)
     \<and> pred_option fits_numeric (psr_duration l) \<and> pred_option fits_numeric (psr_convexity l)"

abbreviation line_key :: "position_row \<Rightarrow> string \<times> string \<times> string" where
  "line_key l \<equiv> (psr_snapshot l, psr_account l, psr_instrument l)"

text \<open>A snapshot supersedes only an earlier one of its portfolio, so chains of them end.\<close>

fun snapshots_ok :: "snapshot_row list \<Rightarrow> snapshot_row list \<Rightarrow> bool" where
  "snapshots_ok earlier [] = True"
| "snapshots_ok earlier (s # ss) \<longleftrightarrow>
     (\<forall>j. snr_supersedes s = Some j \<longrightarrow> (\<exists>x \<in> set earlier. snr_id x = j \<and> snr_portfolio x = snr_portfolio s))
     \<and> snapshots_ok (earlier @ [s]) ss"

definition pf_inv :: "portfolio_db \<Rightarrow> bool" where
  "pf_inv db \<longleftrightarrow>
     distinct (map ins_id (pf_instruments db)) \<and> distinct (map ins_symbol (pf_instruments db))
     \<and> distinct (map pfr_id (pf_portfolios db)) \<and> list_all portfolio_row_ok (pf_portfolios db)
     \<and> distinct (map acr_id (pf_accounts db)) \<and> distinct (map (\<lambda>a. (acr_portfolio a, acr_name a)) (pf_accounts db))
     \<and> (\<forall>a \<in> set (pf_accounts db). acr_portfolio a \<in> pfr_id ` set (pf_portfolios db))
     \<and> distinct (map snr_id (pf_snapshots db)) \<and> snapshots_ok [] (pf_snapshots db)
     \<and> (\<forall>s \<in> set (pf_snapshots db). snr_portfolio s \<in> pfr_id ` set (pf_portfolios db))
     \<and> distinct (map line_key (pf_lines db)) \<and> list_all (line_ok db) (pf_lines db)"

definition pf_empty :: portfolio_db where
  "pf_empty = \<lparr>pf_instruments = [], pf_identifiers = [], pf_portfolios = [], pf_accounts = [], pf_snapshots = [], pf_lines = []\<rparr>"

lemma pf_inv_empty: "pf_inv pf_empty"
  by (simp add: pf_inv_def pf_empty_def)

lemma snapshots_ok_append: "snapshots_ok earlier (xs @ ys) \<longleftrightarrow> snapshots_ok earlier xs \<and> snapshots_ok (earlier @ xs) ys"
  by (induction xs arbitrary: earlier) auto

text \<open>What a later state keeps: snapshots and lines are only added, and no line joins an old snapshot.\<close>

definition same_identity :: "instrument_row \<Rightarrow> instrument_row \<Rightarrow> bool" where
  "same_identity i j \<longleftrightarrow> (\<exists>status. j = i\<lparr>ins_status := status\<rparr>)"

definition pf_extends :: "portfolio_db \<Rightarrow> portfolio_db \<Rightarrow> bool" where
  "pf_extends db db' \<longleftrightarrow>
     (\<exists>ss. pf_snapshots db' = pf_snapshots db @ ss)
     \<and> (\<exists>ls. pf_lines db' = pf_lines db @ ls \<and> (\<forall>l \<in> set ls. psr_snapshot l \<notin> snr_id ` set (pf_snapshots db)))
     \<and> (\<forall>i \<in> set (pf_instruments db). \<exists>j \<in> set (pf_instruments db'). same_identity i j)"

lemma same_identity_refl: "same_identity i i"
  unfolding same_identity_def by (rule exI [of _ "ins_status i"]) simp

lemma pf_extends_refl: "pf_extends db db"
  by (auto simp: pf_extends_def intro: same_identity_refl)

lemma pf_extends_trans: 
  assumes "pf_extends a b" and "pf_extends b c"
  shows "pf_extends a c"
proof -
  have "same_identity i k" if "same_identity i j" "same_identity j k" for i j k
    using that by (auto simp: same_identity_def)
  then show ?thesis using assms unfolding pf_extends_def by (fastforce intro: exI)
qed

subsection \<open>What the statements keep\<close>

lemma line_ok_transfer:
  assumes "line_ok db l" and "set (pf_snapshots db) \<subseteq> set (pf_snapshots db')"
    and "\<And>a. a \<in> set (pf_accounts db) \<Longrightarrow> acr_id a = psr_account l \<Longrightarrow> \<exists>b \<in> set (pf_accounts db'). acr_id b = acr_id a \<and> acr_portfolio b = acr_portfolio a"
    and "\<And>i. i \<in> set (pf_instruments db) \<Longrightarrow> \<exists>j \<in> set (pf_instruments db'). same_identity i j"
  shows "line_ok db' l"
proof -
  have same: "ins_id j = ins_id i \<and> ins_type j = ins_type i" if "same_identity i j" for i j using that by (auto simp: same_identity_def)
  obtain a i where a: "a \<in> set (pf_accounts db)" "acr_id a = psr_account l" "acr_portfolio a = psr_portfolio l"
    and i: "i \<in> set (pf_instruments db)" "ins_id i = psr_instrument l" "bond_rule (ins_type i) l"
    using assms(1) by (auto simp: line_ok_def)
  obtain b where "b \<in> set (pf_accounts db')" "acr_id b = psr_account l" "acr_portfolio b = psr_portfolio l"
    using assms(3) [OF a(1,2)] a(2,3) by auto
  moreover obtain j where "j \<in> set (pf_instruments db')" "ins_id j = psr_instrument l" "bond_rule (ins_type j) l"
    using assms(4) [OF i(1)] i(2,3) same by metis
  ultimately show ?thesis using assms(1,2) by (auto simp: line_ok_def)
qed

lemma list_ex_id: "list_ex (\<lambda>r. f r = i) xs \<longleftrightarrow> i \<in> f ` set xs"
  by (auto simp: list_ex_iff)

lemma insert_identifier_keeps:
  assumes "insert_identifier i n e db = Inr db'"
  shows "\<exists>ids. db' = db\<lparr>pf_identifiers := ids\<rparr>"
  using assms by (auto simp: insert_identifier_def split: if_splits intro: exI [of _ "pf_identifiers db"])

lemma binance_trigger_keeps:
  assumes "binance_trigger r db = Inr db'"
  shows "\<exists>ids. db' = db\<lparr>pf_identifiers := ids\<rparr>"
proof (cases "db' = db")
  case True
  then show ?thesis by (intro exI [of _ "pf_identifiers db"]) simp
next
  case False
  with assms show ?thesis by (auto simp: binance_trigger_def split: if_splits dest: insert_identifier_keeps)
qed

text \<open>The invariant does not depend on the identifier table.\<close>

lemma pf_inv_identifiers [simp]: "pf_inv (db\<lparr>pf_identifiers := ids\<rparr>) \<longleftrightarrow> pf_inv db"
  by (simp add: pf_inv_def line_ok_def list_all_iff)

lemma pf_extends_identifiers [simp]: "pf_extends db (db'\<lparr>pf_identifiers := ids\<rparr>) \<longleftrightarrow> pf_extends db db'"
  by (simp add: pf_extends_def)

lemma q_CreatePortfolioInstrument_keeps:
  assumes "q_CreatePortfolioInstrument fails r db = Inr (db', r')" and "pf_inv db" and "ins_id r \<notin> ins_id ` set (pf_instruments db)"
  shows "pf_inv db' \<and> pf_extends db db' \<and> r' = r"
proof -
  let ?db = "db\<lparr>pf_instruments := pf_instruments db @ [r]\<rparr>"
  have t: "binance_trigger r ?db = Inr db'" and r': "r' = r" and new: "\<not> list_ex (\<lambda>x. ins_symbol x = ins_symbol r) (pf_instruments db)"
    using assms(1) by (auto simp: q_CreatePortfolioInstrument_def res_bind_eq_Inr split: if_splits)
  from binance_trigger_keeps [OF t] obtain ids where db': "db' = ?db\<lparr>pf_identifiers := ids\<rparr>" by blast
  have "line_ok ?db l" if "line_ok db l" for l
    using that by (rule line_ok_transfer) (auto intro: same_identity_refl)
  then have "pf_inv ?db" using assms(2,3) new by (auto simp: pf_inv_def list_all_iff list_ex_id)
  moreover have "pf_extends db ?db" by (auto simp: pf_extends_def intro: same_identity_refl)
  ultimately show ?thesis by (simp add: db' r')
qed

lemma q_UpdatePortfolioInstrumentStatus_keeps:
  assumes "q_UpdatePortfolioInstrumentStatus fails i status db = Inr (db', r')" and "pf_inv db"
  shows "pf_inv db' \<and> pf_extends db db'"
proof -
  let ?f = "\<lambda>r. r\<lparr>ins_status := status\<rparr>"
  let ?db = "db\<lparr>pf_instruments := sql_update (\<lambda>r. ins_id r = i) ?f (pf_instruments db)\<rparr>"
  obtain r where t: "binance_trigger (?f r) ?db = Inr db'"
    using assms(1) by (auto simp: q_UpdatePortfolioInstrumentStatus_def res_bind_eq_Inr split: if_splits option.splits)
  from binance_trigger_keeps [OF t] obtain ids where db': "db' = ?db\<lparr>pf_identifiers := ids\<rparr>" by blast
  have same: "\<exists>j \<in> set (pf_instruments ?db). same_identity x j" if "x \<in> set (pf_instruments db)" for x
  proof -
    have "(if ins_id x = i then ?f x else x) \<in> set (pf_instruments ?db)" using that by (auto simp: set_sql_update)
    moreover have "same_identity x (if ins_id x = i then ?f x else x)" by (auto simp: same_identity_refl) (auto simp: same_identity_def)
    ultimately show ?thesis by blast
  qed
  have "line_ok ?db l" if "line_ok db l" for l
    using that by (rule line_ok_transfer) (use same in auto)
  then have "pf_inv ?db" using assms(2) by (auto simp: pf_inv_def list_all_iff map_sql_update)
  moreover have "pf_extends db ?db" using same by (simp add: pf_extends_def)
  ultimately show ?thesis by (simp add: db')
qed

lemma q_CreatePortfolio_keeps:
  assumes "q_CreatePortfolio fails r db = Inr (db', r')" and "pf_inv db" and "pfr_id r \<notin> pfr_id ` set (pf_portfolios db)"
  shows "pf_inv db' \<and> pf_extends db db'"
proof -
  have db': "db' = db\<lparr>pf_portfolios := pf_portfolios db @ [r]\<rparr>" and ok: "portfolio_row_ok r"
    using assms(1) by (auto simp: q_CreatePortfolio_def split: if_splits)
  have "line_ok db' l" if "line_ok db l" for l
    using that by (rule line_ok_transfer) (auto simp: db' intro: same_identity_refl)
  then have "pf_inv db'" using assms(2,3) ok by (auto simp: pf_inv_def list_all_iff db')
  then show ?thesis by (auto simp: pf_extends_def db' intro: same_identity_refl)
qed

lemma q_UpdatePortfolio_keeps:
  assumes "q_UpdatePortfolio fails now i name currency meta db = Inr (db', r')" and "pf_inv db"
  shows "pf_inv db' \<and> pf_extends db db'"
proof -
  let ?f = "\<lambda>r. r\<lparr>pfr_name := name, pfr_currency := currency, pfr_metadata := meta, pfr_updated := now\<rparr>"
  have db': "db' = db\<lparr>pf_portfolios := sql_update (\<lambda>r. pfr_id r = i) ?f (pf_portfolios db)\<rparr>"
    and ok: "\<not> sql_blank name" "currency \<in> {''TRY'', ''USD''}"
    using assms(1) by (auto simp: q_UpdatePortfolio_def Let_def portfolio_row_ok_def split: if_splits option.splits)
  have ids: "map pfr_id (pf_portfolios db') = map pfr_id (pf_portfolios db)" by (simp add: db' map_sql_update)
  then have img: "pfr_id ` set (pf_portfolios db') = pfr_id ` set (pf_portfolios db)" by (metis list.set_map)
  have rows: "list_all portfolio_row_ok (pf_portfolios db')"
    using assms(2) ok by (auto simp: db' pf_inv_def list_all_iff set_sql_update portfolio_row_ok_def)
  have "line_ok db' l" if "line_ok db l" for l
    using that by (rule line_ok_transfer) (auto simp: db' intro: same_identity_refl)
  then have "pf_inv db'" using assms(2) ids rows unfolding pf_inv_def img by (simp add: list_all_iff) (simp add: db')
  then show ?thesis by (auto simp: pf_extends_def db' intro: same_identity_refl)
qed

lemma q_DeletePortfolio_keeps:
  assumes "q_DeletePortfolio referenced fails i db = Inr (db', n)" and "pf_inv db"
  shows "pf_inv db' \<and> pf_extends db db'"
proof (cases "db' = db")
  case True
  then show ?thesis using assms(2) by (simp add: pf_extends_refl)
next
  case False
  then have db': "db' = db\<lparr>pf_portfolios := filter (\<lambda>r. pfr_id r \<noteq> i) (pf_portfolios db)\<rparr>"
    and free: "\<forall>a \<in> set (pf_accounts db). acr_portfolio a \<noteq> i" "\<forall>s \<in> set (pf_snapshots db). snr_portfolio s \<noteq> i"
    using assms(1) by (auto simp: q_DeletePortfolio_def list_ex_iff split: if_splits)
  have "line_ok db' l" if "line_ok db l" for l
    using that by (rule line_ok_transfer) (auto simp: db' intro: same_identity_refl)
  moreover have "p \<in> pfr_id ` set (pf_portfolios db')" if "p \<in> pfr_id ` set (pf_portfolios db)" "p \<noteq> i" for p
    using that by (auto simp: db')
  ultimately have "pf_inv db'" using assms(2) free unfolding pf_inv_def list_all_iff by (simp add: db' distinct_map_filter)
  then show ?thesis by (auto simp: pf_extends_def db' intro: same_identity_refl)
qed

lemma q_CreateAccount_keeps:
  assumes "q_CreateAccount fails r db = Inr (db', r')" and "pf_inv db" and "acr_id r \<notin> acr_id ` set (pf_accounts db)"
  shows "pf_inv db' \<and> pf_extends db db'"
proof -
  have db': "db' = db\<lparr>pf_accounts := pf_accounts db @ [r]\<rparr>" and p: "acr_portfolio r \<in> pfr_id ` set (pf_portfolios db)"
    and new: "(acr_portfolio r, acr_name r) \<notin> (\<lambda>a. (acr_portfolio a, acr_name a)) ` set (pf_accounts db)"
    using assms(1) by (force simp: q_CreateAccount_def list_ex_id list_ex_iff split: if_splits)+
  have "line_ok db' l" if "line_ok db l" for l
    using that by (rule line_ok_transfer) (auto simp: db' intro: same_identity_refl)
  then have "pf_inv db'" using assms(2,3) p new by (auto simp: pf_inv_def list_all_iff db')
  then show ?thesis by (auto simp: pf_extends_def db' intro: same_identity_refl)
qed

lemma distinct_sql_update:
  assumes "distinct (map key rows)" and "distinct (map ident rows)" and "\<And>r. ident (f r) = ident r"
    and "\<And>x. x \<in> set rows \<Longrightarrow> ident x \<noteq> i \<Longrightarrow> (\<forall>r \<in> set rows. ident r = i \<longrightarrow> key x \<noteq> key (f r))"
  shows "distinct (map key (sql_update (\<lambda>r. ident r = i) f rows))"
proof -
  let ?g = "\<lambda>r. if ident r = i then f r else r"
  have "inj_on (key \<circ> ?g) (set rows)"
  proof (rule inj_onI)
    fix x y assume xy: "x \<in> set rows" "y \<in> set rows" and eq: "(key \<circ> ?g) x = (key \<circ> ?g) y"
    have other: "key v \<noteq> key (f w)" if "v \<in> set rows" "w \<in> set rows" "ident v \<noteq> i" "ident w = i" for v w
      using assms(4) that by blast
    have "ident x = i \<longleftrightarrow> ident y = i"
      using eq other [OF xy] other [OF xy(2,1)] by (cases "ident x = i"; cases "ident y = i") auto
    then show "x = y"
      using eq distinct_key_eq [OF assms(1) xy] distinct_key_eq [OF assms(2) xy] by (cases "ident x = i") auto
  qed
  then show ?thesis using assms(1) by (simp add: sql_update_def distinct_map)
qed

lemma q_UpdateAccount_keeps:
  assumes "q_UpdateAccount fails now i name meta db = Inr (db', r')" and "pf_inv db"
  shows "pf_inv db' \<and> pf_extends db db'"
proof -
  let ?f = "\<lambda>r. r\<lparr>acr_name := name, acr_metadata := meta, acr_updated := now\<rparr>"
  obtain r where db': "db' = db\<lparr>pf_accounts := sql_update (\<lambda>r. acr_id r = i) ?f (pf_accounts db)\<rparr>"
    and r: "find (\<lambda>r. acr_id r = i) (pf_accounts db) = Some r"
    and new: "\<forall>a \<in> set (pf_accounts db). acr_id a \<noteq> i \<longrightarrow> \<not> (acr_portfolio a = acr_portfolio r \<and> acr_name a = name)"
    using assms(1) unfolding q_UpdateAccount_def Let_def list_ex_iff by (simp split: if_splits option.splits) blast
  have d: "distinct (map acr_id (pf_accounts db))" and dk: "distinct (map (\<lambda>a. (acr_portfolio a, acr_name a)) (pf_accounts db))"
    using assms(2) by (simp_all add: pf_inv_def)
  have only: "x = r" if "x \<in> set (pf_accounts db)" "acr_id x = i" for x
    using distinct_key_eq [OF d that(1)] find_SomeD [OF r] that(2) by blast
  have ids: "map acr_id (pf_accounts db') = map acr_id (pf_accounts db)" by (simp add: db' map_sql_update)
  have keys: "distinct (map (\<lambda>a. (acr_portfolio a, acr_name a)) (pf_accounts db'))"
  proof -
    have "\<forall>y \<in> set (pf_accounts db). acr_id y = i \<longrightarrow> (acr_portfolio x, acr_name x) \<noteq> (acr_portfolio (?f y), acr_name (?f y))"
      if "x \<in> set (pf_accounts db)" "acr_id x \<noteq> i" for x
      using new only that by auto
    with distinct_sql_update [OF dk d, of ?f i] show ?thesis by (simp add: db')
  qed
  have pf: "\<forall>a \<in> set (pf_accounts db'). acr_portfolio a \<in> pfr_id ` set (pf_portfolios db)"
    using assms(2) by (auto simp: pf_inv_def db' set_sql_update)
  have "\<exists>b \<in> set (pf_accounts db'). acr_id b = acr_id a \<and> acr_portfolio b = acr_portfolio a" if "a \<in> set (pf_accounts db)" for a
  proof (rule bexI)
    show "(if acr_id a = i then ?f a else a) \<in> set (pf_accounts db')" using that by (auto simp: db' set_sql_update)
  qed auto
  note accounts = this
  have "line_ok db' l" if "line_ok db l" for l
  proof (rule line_ok_transfer [OF that])
    fix a assume "a \<in> set (pf_accounts db)"
    then show "\<exists>b \<in> set (pf_accounts db'). acr_id b = acr_id a \<and> acr_portfolio b = acr_portfolio a" by (rule accounts)
  qed (auto simp: db' intro: same_identity_refl)
  then have "pf_inv db'" using assms(2) ids keys pf unfolding pf_inv_def by (simp add: list_all_iff) (simp add: db')
  then show ?thesis by (auto simp: pf_extends_def db' intro: same_identity_refl)
qed

lemma q_DeleteAccount_keeps:
  assumes "q_DeleteAccount referenced fails i db = Inr (db', n)" and "pf_inv db"
  shows "pf_inv db' \<and> pf_extends db db'"
proof (cases "db' = db")
  case True
  then show ?thesis using assms(2) by (simp add: pf_extends_refl)
next
  case False
  then have db': "db' = db\<lparr>pf_accounts := filter (\<lambda>r. acr_id r \<noteq> i) (pf_accounts db)\<rparr>"
    and free: "\<forall>l \<in> set (pf_lines db). psr_account l \<noteq> i"
    using assms(1) by (auto simp: q_DeleteAccount_def list_ex_iff split: if_splits)
  have "line_ok db' l" if "line_ok db l" "l \<in> set (pf_lines db)" for l
  proof (rule line_ok_transfer [OF that(1)])
    fix a assume "a \<in> set (pf_accounts db)" and "acr_id a = psr_account l"
    then show "\<exists>b \<in> set (pf_accounts db'). acr_id b = acr_id a \<and> acr_portfolio b = acr_portfolio a"
      using free that(2) by (intro bexI [of _ a]) (auto simp: db')
  qed (auto simp: db' intro: same_identity_refl)
  then have "pf_inv db'" using assms(2) by (auto simp: pf_inv_def list_all_iff db' distinct_map_filter)
  then show ?thesis by (auto simp: pf_extends_def db' intro: same_identity_refl)
qed

text \<open>The two statements that store a snapshot.\<close>

lemma q_CreatePortfolioSnapshot_keeps:
  assumes "q_CreatePortfolioSnapshot fails s db = Inr (db', s')" and "pf_inv db" and "snr_id s \<notin> snr_id ` set (pf_snapshots db)"
  shows "pf_inv db' \<and> pf_extends db db' \<and> db' = db\<lparr>pf_snapshots := pf_snapshots db @ [s]\<rparr> \<and> s' = s"
proof -
  have db': "db' = db\<lparr>pf_snapshots := pf_snapshots db @ [s]\<rparr>" and s': "s' = s" and p: "snr_portfolio s \<in> pfr_id ` set (pf_portfolios db)"
    using assms(1) by (auto simp: q_CreatePortfolioSnapshot_def list_ex_id split: if_splits)
  have sup: "\<exists>x \<in> set (pf_snapshots db). snr_id x = j \<and> snr_portfolio x = snr_portfolio s" if "snr_supersedes s = Some j" for j
    using assms(1) that by (auto simp: q_CreatePortfolioSnapshot_def list_ex_iff split: if_splits)
  have "line_ok db' l" if "line_ok db l" for l
    using that by (rule line_ok_transfer) (auto simp: db' intro: same_identity_refl)
  then have "pf_inv db'" using assms(2,3) p sup by (auto simp: pf_inv_def list_all_iff db' snapshots_ok_append)
  moreover have "pf_extends db db'" by (auto simp: pf_extends_def db' intro: same_identity_refl)
  ultimately show ?thesis using db' s' by simp
qed

lemma to_numeric_fits: "to_numeric v = Inr w \<Longrightarrow> fits_numeric w \<and> w = round18 v"
  by (auto simp: to_numeric_def fits_numeric_def split: if_splits)

lemma to_nullable_fits: "to_nullable v = Inr w \<Longrightarrow> pred_option fits_numeric w \<and> w = map_option round18 v"
  by (auto simp: to_nullable_def res_bind_eq_Inr split: option.splits dest: to_numeric_fits)

lemma line_violation_None:
  assumes "line_violation db l = None" and "fits_numeric (psr_quantity l)" and "pred_option fits_numeric (psr_cost l)"
    and "pred_option fits_numeric (psr_duration l)" and "pred_option fits_numeric (psr_convexity l)"
  shows "line_ok db l \<and> line_key l \<notin> line_key ` set (pf_lines db)"
proof -
  obtain i where i: "find (\<lambda>i. ins_id i = psr_instrument l) (pf_instruments db) = Some i"
    using assms(1) by (auto simp: line_violation_def split: option.splits)
  note v = assms(1) [unfolded line_violation_def i option.case]
  have "bond_rule (ins_type i) l" using v by (auto simp: bond_rule_def not_le not_less split: if_splits option.splits)
  moreover have "i \<in> set (pf_instruments db)" "ins_id i = psr_instrument l" using find_SomeD [OF i] by simp_all
  moreover have "list_ex (\<lambda>s. snr_portfolio s = psr_portfolio l \<and> snr_id s = psr_snapshot l) (pf_snapshots db)"
    "list_ex (\<lambda>a. acr_portfolio a = psr_portfolio l \<and> acr_id a = psr_account l) (pf_accounts db)"
    "\<not> list_ex (\<lambda>x. psr_snapshot x = psr_snapshot l \<and> psr_account x = psr_account l \<and> psr_instrument x = psr_instrument l) (pf_lines db)"
    using v by (simp_all split: if_splits)
  ultimately show ?thesis using assms(2-5) unfolding line_ok_def list_ex_iff by (auto simp: image_iff)
qed

definition stored_line :: "position_row \<Rightarrow> position_row" where
  "stored_line l = l\<lparr>psr_quantity := round18 (psr_quantity l), psr_cost := map_option round18 (psr_cost l),
     psr_duration := map_option round18 (psr_duration l), psr_convexity := map_option round18 (psr_convexity l)\<rparr>"

lemma q_InsertPortfolioSnapshotLine_keeps:
  assumes "q_InsertPortfolioSnapshotLine fails l db = Inr db'" and "pf_inv db"
  shows "pf_inv db' \<and> db' = db\<lparr>pf_lines := pf_lines db @ [stored_line l]\<rparr>"
proof -
  obtain q c d v where n: "to_numeric (psr_quantity l) = Inr q" "to_nullable (psr_cost l) = Inr c"
    "to_nullable (psr_duration l) = Inr d" "to_nullable (psr_convexity l) = Inr v"
    and none: "line_violation db (l\<lparr>psr_quantity := q, psr_cost := c, psr_duration := d, psr_convexity := v\<rparr>) = None"
    and db': "db' = db\<lparr>pf_lines := pf_lines db @ [l\<lparr>psr_quantity := q, psr_cost := c, psr_duration := d, psr_convexity := v\<rparr>]\<rparr>"
    using assms(1) by (auto simp: q_InsertPortfolioSnapshotLine_def res_bind_eq_Inr Let_def split: if_splits option.splits)
  have eq: "l\<lparr>psr_quantity := q, psr_cost := c, psr_duration := d, psr_convexity := v\<rparr> = stored_line l"
    using n to_numeric_fits to_nullable_fits by (metis stored_line_def)
  have "line_ok db (stored_line l) \<and> line_key (stored_line l) \<notin> line_key ` set (pf_lines db)"
    using none n to_numeric_fits to_nullable_fits unfolding eq [symmetric] by (intro line_violation_None) auto
  moreover have "line_ok db' x \<longleftrightarrow> line_ok db x" for x by (simp add: line_ok_def db')
  ultimately show ?thesis using assms(2) by (auto simp: pf_inv_def list_all_iff db' eq)
qed

lemma insert_lines_keeps:
  assumes "insert_lines fault k ls db = Inr db'" and "pf_inv db"
  shows "pf_inv db' \<and> db' = db\<lparr>pf_lines := pf_lines db @ map stored_line ls\<rparr>"
  using assms
proof (induction ls arbitrary: k db)
  case (Cons l ls)
  then obtain db1 where 1: "q_InsertPortfolioSnapshotLine (fault (DbStmt k)) l db = Inr db1" and 2: "insert_lines fault (k + 1) ls db1 = Inr db'"
    by (auto simp: res_bind_eq_Inr)
  note q_InsertPortfolioSnapshotLine_keeps [OF 1 Cons.prems(2)]
  with Cons.IH [OF 2] show ?case by auto
qed simp

subsection \<open>What a call does\<close>

lemma sql_result_Inr [simp]: "sql_result f r = Inr x \<longleftrightarrow> r = Inr x"
  by (cases r) (simp_all add: sql_result_def)

lemma sql_result_simps [simp]: "sql_result f (Inl e) = Inl (f e)" "sql_result f (Inr x) = Inr x"
  by (simp_all add: sql_result_def)

lemma insert_ids_keeps:
  assumes "insert_ids fault k i xs db = Inr db'"
  shows "\<exists>ids. db' = db\<lparr>pf_identifiers := ids\<rparr>"
  using assms
proof (induction xs arbitrary: k db)
  case Nil
  then show ?case by (intro exI [of _ "pf_identifiers db"]) simp
next
  case (Cons x xs)
  then obtain db1 where 1: "insert_identifier i (xi_Namespace x) (xi_ExternalID x) db = Inr db1" and 2: "insert_ids fault (k + 1) i xs db1 = Inr db'"
    by (auto simp: res_bind_eq_Inr q_InsertInstrumentExternalIdentifier_def split: if_splits)
  from Cons.IH [OF 2] insert_identifier_keeps [OF 1] show ?case by auto
qed

lemma CreateInstrument_keeps:
  assumes "pf_inv db" and "newID \<notin> ins_id ` set (pf_instruments db)"
    and db': "db' = fst (CreateInstrument pool collate mapOrder fault now newID request db)"
  shows "pf_inv db' \<and> pf_extends db db'"
proof (cases "db' = db")
  case True
  then show ?thesis using assms(1) by (simp add: pf_extends_refl)
next
  case False
  then obtain r r' db1 where 1: "q_CreatePortfolioInstrument (fault (DbStmt 0)) r db = Inr (db1, r')" and id: "ins_id r = newID"
    and 2: "insert_ids fault 1 (ins_id r') (cir_ExternalIDs request) db1 = Inr db'"
    unfolding db' CreateInstrument_def Let_def by (auto simp: res_bind_eq_Inr split: if_splits sum.splits prod.splits)
  from q_CreatePortfolioInstrument_keeps [OF 1 assms(1)] assms(2) insert_ids_keeps [OF 2] show ?thesis by (auto simp: id)
qed

lemma UpdateInstrumentStatus_keeps:
  assumes "pf_inv db"
    and db': "db' = fst (UpdateInstrumentStatus pool scanUUID collate mapOrder fault i status db)"
  shows "pf_inv db' \<and> pf_extends db db'"
proof (cases "db' = db")
  case False
  then obtain j r where "q_UpdatePortfolioInstrumentStatus (fault (DbStmt 0)) j status db = Inr (db', r)"
    unfolding db' UpdateInstrumentStatus_def by (auto split: if_splits option.splits sum.splits)
  from q_UpdatePortfolioInstrumentStatus_keeps [OF this assms(1)] show ?thesis .
qed (use assms(1) in \<open>simp add: pf_extends_refl\<close>)

lemma CreatePortfolio_keeps:
  assumes "pf_inv db" and "newID \<notin> pfr_id ` set (pf_portfolios db)"
    and db': "db' = fst (CreatePortfolio pool fault now newID request db)"
  shows "pf_inv db' \<and> pf_extends db db'"
proof (cases "db' = db")
  case False
  then obtain r r' where 1: "q_CreatePortfolio (fault (DbStmt 0)) r db = Inr (db', r')" and id: "pfr_id r = newID"
    unfolding db' CreatePortfolio_def by (auto split: if_splits sum.splits)
  from q_CreatePortfolio_keeps [OF 1 assms(1)] assms(2) show ?thesis by (simp add: id)
qed (use assms(1) in \<open>simp add: pf_extends_refl\<close>)

lemma UpdatePortfolio_keeps:
  assumes "pf_inv db"
    and db': "db' = fst (UpdatePortfolio pool scanUUID fault now i request db)"
  shows "pf_inv db' \<and> pf_extends db db'"
proof (cases "db' = db")
  case False
  then obtain j n c m r where "q_UpdatePortfolio (fault (DbStmt 0)) now j n c m db = Inr (db', r)"
    unfolding db' UpdatePortfolio_def by (auto split: if_splits option.splits sum.splits)
  from q_UpdatePortfolio_keeps [OF this assms(1)] show ?thesis .
qed (use assms(1) in \<open>simp add: pf_extends_refl\<close>)

lemma DeletePortfolio_keeps:
  assumes "pf_inv db"
    and db': "db' = fst (DeletePortfolio pool scanUUID referenced fault i db)"
  shows "pf_inv db' \<and> pf_extends db db'"
proof (cases "db' = db")
  case False
  then obtain j n where "q_DeletePortfolio referenced (fault (DbStmt 0)) j db = Inr (db', n)"
    unfolding db' DeletePortfolio_def by (auto split: if_splits option.splits sum.splits)
  from q_DeletePortfolio_keeps [OF this assms(1)] show ?thesis .
qed (use assms(1) in \<open>simp add: pf_extends_refl\<close>)

lemma CreateAccount_keeps:
  assumes "pf_inv db" and "newID \<notin> acr_id ` set (pf_accounts db)"
    and db': "db' = fst (CreateAccount pool scanUUID fault now newID portfolioID request db)"
  shows "pf_inv db' \<and> pf_extends db db'"
proof (cases "db' = db")
  case False
  then obtain r r' where 1: "q_CreateAccount (fault (DbStmt 1)) r db = Inr (db', r')" and id: "acr_id r = newID"
    unfolding db' CreateAccount_def by (auto split: if_splits option.splits sum.splits)
  from q_CreateAccount_keeps [OF 1 assms(1)] assms(2) show ?thesis by (simp add: id)
qed (use assms(1) in \<open>simp add: pf_extends_refl\<close>)

lemma UpdateAccount_keeps:
  assumes "pf_inv db"
    and db': "db' = fst (UpdateAccount pool scanUUID fault now i request db)"
  shows "pf_inv db' \<and> pf_extends db db'"
proof (cases "db' = db")
  case False
  then obtain j n m r where "q_UpdateAccount (fault (DbStmt 0)) now j n m db = Inr (db', r)"
    unfolding db' UpdateAccount_def by (auto split: if_splits option.splits sum.splits)
  from q_UpdateAccount_keeps [OF this assms(1)] show ?thesis .
qed (use assms(1) in \<open>simp add: pf_extends_refl\<close>)

lemma DeleteAccount_keeps:
  assumes "pf_inv db"
    and db': "db' = fst (DeleteAccount pool scanUUID referenced fault i db)"
  shows "pf_inv db' \<and> pf_extends db db'"
proof (cases "db' = db")
  case False
  then obtain j n where "q_DeleteAccount referenced (fault (DbStmt 0)) j db = Inr (db', n)"
    unfolding db' DeleteAccount_def by (auto split: if_splits option.splits sum.splits)
  from q_DeleteAccount_keeps [OF this assms(1)] show ?thesis .
qed (use assms(1) in \<open>simp add: pf_extends_refl\<close>)

lemma store_snapshot_Inr:
  assumes "store_snapshot scanUUID scanNumeric fault now newID newLineID pid request db = Inr (db2, row)"
  obtains supersedes inputs where "superseded scanUUID (fault (DbStmt 1)) pid (csr_SupersedesSnapshotID request) db = Inr supersedes"
    and "prepareLines scanUUID scanNumeric fault 2 pid db [] (csr_Lines request) = Inr inputs"
    and "row = \<lparr>snr_id = newID, snr_portfolio = pid, snr_captured = pg_time (csr_CapturedAt request), snr_supersedes = supersedes, snr_created = now\<rparr>"
    and "q_CreatePortfolioSnapshot False row db = Inr (db\<lparr>pf_snapshots := pf_snapshots db @ [row]\<rparr>, row)"
    and "insert_lines fault (3 + 2 * length (csr_Lines request)) (map (\<lambda>(k, l). position_of (newLineID k) pid newID now l) (enumerate 0 inputs))
        (db\<lparr>pf_snapshots := pf_snapshots db @ [row]\<rparr>) = Inr db2"
proof -
  obtain supersedes inputs db1 where c: "superseded scanUUID (fault (DbStmt 1)) pid (csr_SupersedesSnapshotID request) db = Inr supersedes"
    "prepareLines scanUUID scanNumeric fault 2 pid db [] (csr_Lines request) = Inr inputs"
    "q_CreatePortfolioSnapshot (fault (DbStmt (2 + 2 * length (csr_Lines request)))) \<lparr>snr_id = newID, snr_portfolio = pid, snr_captured = pg_time (csr_CapturedAt request),
        snr_supersedes = supersedes, snr_created = now\<rparr> db = Inr (db1, row)"
    "insert_lines fault (3 + 2 * length (csr_Lines request)) (map (\<lambda>(k, l). position_of (newLineID k) pid (snr_id row) now l) (enumerate 0 inputs)) db1 = Inr db2"
    using assms unfolding store_snapshot_def Let_def by (auto simp: res_bind_eq_Inr numeral_3_eq_3 split: if_splits)
  have "row = \<lparr>snr_id = newID, snr_portfolio = pid, snr_captured = pg_time (csr_CapturedAt request), snr_supersedes = supersedes, snr_created = now\<rparr>"
    and "db1 = db\<lparr>pf_snapshots := pf_snapshots db @ [row]\<rparr>" and "q_CreatePortfolioSnapshot False row db = Inr (db1, row)"
    using c(3) by (auto simp: q_CreatePortfolioSnapshot_def split: if_splits)
  with c show ?thesis by (intro that [of supersedes inputs]) simp_all
qed

lemma CreateSnapshot_cases:
  obtains (failed) e where "CreateSnapshot pool scanUUID scanNumeric readNumeric collate fault now newID newLineID portfolioID request db = (db, Inl e)"
  | (stored) pid db2 row where "pf_parseUUID scanUUID portfolioID = Some pid" and "csr_Lines request \<noteq> []"
      and "store_snapshot scanUUID scanNumeric fault now newID newLineID pid request db = Inr (db2, row)"
      and "CreateSnapshot pool scanUUID scanNumeric readNumeric collate fault now newID newLineID portfolioID request db
           = (db2, snapshot collate readNumeric (fault (DbStmt (3 + 3 * length (csr_Lines request)))) row db2)"
  by (cases "\<exists>e. CreateSnapshot pool scanUUID scanNumeric readNumeric collate fault now newID newLineID portfolioID request db = (db, Inl e)")
    (auto simp: CreateSnapshot_def split: if_splits option.splits sum.splits prod.splits)

lemma CreateSnapshot_keeps:
  assumes "pf_inv db" and "newID \<notin> snr_id ` set (pf_snapshots db)"
    and db': "db' = fst (CreateSnapshot pool scanUUID scanNumeric readNumeric collate fault now newID newLineID portfolioID request db)"
  shows "pf_inv db' \<and> pf_extends db db'"
proof (cases rule: CreateSnapshot_cases [of pool scanUUID scanNumeric readNumeric collate fault now newID newLineID portfolioID request db])
  case (failed e)
  then show ?thesis using assms(1) by (simp add: db' pf_extends_refl)
next
  case (stored pid db2 row)
  have db2: "db' = db2" by (simp add: db' stored(4))
  from stored(3) obtain supersedes inputs where
    row: "row = \<lparr>snr_id = newID, snr_portfolio = pid, snr_captured = pg_time (csr_CapturedAt request), snr_supersedes = supersedes, snr_created = now\<rparr>"
    and 1: "q_CreatePortfolioSnapshot False row db = Inr (db\<lparr>pf_snapshots := pf_snapshots db @ [row]\<rparr>, row)"
    and 2: "insert_lines fault (3 + 2 * length (csr_Lines request)) (map (\<lambda>(k, l). position_of (newLineID k) pid newID now l) (enumerate 0 inputs))
       (db\<lparr>pf_snapshots := pf_snapshots db @ [row]\<rparr>) = Inr db2"
    by (rule store_snapshot_Inr)
  have inv1: "pf_inv (db\<lparr>pf_snapshots := pf_snapshots db @ [row]\<rparr>)" using q_CreatePortfolioSnapshot_keeps [OF 1 assms(1)] assms(2) by (simp add: row)
  note 3 = insert_lines_keeps [OF 2 inv1]
  have "pf_extends db db2" unfolding conjunct2 [OF 3]
    using assms(2) by (auto simp: pf_extends_def stored_line_def position_of_def intro: same_identity_refl)
  with 3 show ?thesis unfolding db2 by blast
qed

subsection \<open>Sequences of calls\<close>

inductive portfolio_step :: "portfolio_db \<Rightarrow> portfolio_db \<Rightarrow> bool" where
  instrument_created: "newID \<notin> ins_id ` set (pf_instruments db)
    \<Longrightarrow> portfolio_step db (fst (CreateInstrument pool collate mapOrder fault now newID request db))"
| status_updated: "portfolio_step db (fst (UpdateInstrumentStatus pool scanUUID collate mapOrder fault i status db))"
| portfolio_created: "newID \<notin> pfr_id ` set (pf_portfolios db)
    \<Longrightarrow> portfolio_step db (fst (CreatePortfolio pool fault now newID prequest db))"
| portfolio_updated: "portfolio_step db (fst (UpdatePortfolio pool scanUUID fault now i prequest db))"
| portfolio_deleted: "portfolio_step db (fst (DeletePortfolio pool scanUUID referenced fault i db))"
| account_created: "newID \<notin> acr_id ` set (pf_accounts db)
    \<Longrightarrow> portfolio_step db (fst (CreateAccount pool scanUUID fault now newID portfolioID arequest db))"
| account_updated: "portfolio_step db (fst (UpdateAccount pool scanUUID fault now i arequest db))"
| account_deleted: "portfolio_step db (fst (DeleteAccount pool scanUUID referenced fault i db))"
| snapshot_created: "newID \<notin> snr_id ` set (pf_snapshots db)
    \<Longrightarrow> portfolio_step db (fst (CreateSnapshot pool scanUUID scanNumeric readNumeric collate fault now newID newLineID portfolioID srequest db))"

lemma portfolio_step_keeps:
  assumes "portfolio_step db db'" and "pf_inv db"
  shows "pf_inv db' \<and> pf_extends db db'"
  using assms
  by cases (auto dest: CreateInstrument_keeps UpdateInstrumentStatus_keeps CreatePortfolio_keeps UpdatePortfolio_keeps DeletePortfolio_keeps
      CreateAccount_keeps UpdateAccount_keeps DeleteAccount_keeps CreateSnapshot_keeps)

interpretation portfolio_history: history portfolio_step pf_inv pf_extends
  by unfold_locales (use portfolio_step_keeps pf_extends_refl pf_extends_trans in blast)+

lemmas reachable_pf_inv = portfolio_history.steps_keep(1) [OF _ pf_inv_empty]

lemma snapshots_ok_earlier:
  assumes "snapshots_ok earlier ss" and "ss = pre @ s # post" and "snr_supersedes s = Some j"
  shows "\<exists>x \<in> set (earlier @ pre). snr_id x = j \<and> snr_portfolio x = snr_portfolio s"
  using assms by (auto simp: snapshots_ok_append)

lemma supersession_wf:
  assumes "snapshots_ok [] ss" and "distinct (map snr_id ss)"
  shows "wf {(x, y). x \<in> set ss \<and> y \<in> set ss \<and> snr_supersedes y = Some (snr_id x)}"
proof (rule wf_subset [OF wf_measure [of "\<lambda>s. length (takeWhile (\<lambda>t. t \<noteq> s) ss)"]], clarsimp)
  fix x y assume x: "x \<in> set ss" and y: "y \<in> set ss" and sup: "snr_supersedes y = Some (snr_id x)"
  obtain pre post where ss: "ss = pre @ y # post" and "y \<notin> set pre" using y by (meson split_list_first)
  then have ty: "takeWhile (\<lambda>t. t \<noteq> y) ss = pre" by (auto simp: takeWhile_append takeWhile_tail)
  obtain z where z: "z \<in> set pre" "snr_id z = snr_id x" using snapshots_ok_earlier [OF assms(1) ss sup] by auto
  with distinct_key_eq [OF assms(2), of z x] x ss have "x \<in> set pre" by auto
  then obtain p q where pre: "pre = p @ x # q" and "x \<notin> set p" by (meson split_list_first)
  then have "takeWhile (\<lambda>t. t \<noteq> x) ss = p" by (auto simp: ss takeWhile_append takeWhile_tail)
  then show "length (takeWhile (\<lambda>t. t \<noteq> x) ss) < length (takeWhile (\<lambda>t. t \<noteq> y) ss)" by (simp add: ty pre)
qed

text \<open>
  C13. The tables stay consistent under every sequence of calls, whatever fails: identifiers,
  symbols and the names of a portfolio's accounts are unique, every account and snapshot belongs to
  an existing portfolio, every line to a snapshot and an account of the same portfolio and to an
  existing instrument, at most once per snapshot; a bond line has a positive duration and no
  negative convexity and other lines have neither; every stored number fits its column; and following
  \<open>supersedes\<close> from any snapshot comes to an end.
\<close>
theorem portfolio_integrity:
  assumes "portfolio_step\<^sup>*\<^sup>* pf_empty db"
  shows "pf_inv db \<and> wf {(x, y). x \<in> set (pf_snapshots db) \<and> y \<in> set (pf_snapshots db) \<and> snr_supersedes y = Some (snr_id x)}"
proof -
  have "pf_inv db" using assms by (rule reachable_pf_inv)
  then show ?thesis by (simp add: pf_inv_def supersession_wf)
qed

text \<open>
  C14. A stored snapshot is final: from any reachable state, whatever calls follow, it is still
  there unchanged and its lines are exactly the lines it had, in the same order.
\<close>
theorem snapshot_content_fixed:
  assumes "portfolio_step\<^sup>*\<^sup>* pf_empty db" and "portfolio_step\<^sup>*\<^sup>* db db'" and "s \<in> set (pf_snapshots db)"
  shows "s \<in> set (pf_snapshots db') \<and> q_GetPortfolioSnapshot False (snr_id s) db' = Inr s
    \<and> filter (\<lambda>l. psr_snapshot l = snr_id s) (pf_lines db') = filter (\<lambda>l. psr_snapshot l = snr_id s) (pf_lines db)"
proof -
  have inv: "pf_inv db" using assms(1) by (rule reachable_pf_inv)
  have inv': "pf_inv db'" and ext: "pf_extends db db'" using portfolio_history.steps_keep [OF assms(2) inv] by simp_all
  obtain ss ls where ss: "pf_snapshots db' = pf_snapshots db @ ss" and ls: "pf_lines db' = pf_lines db @ ls"
    and new: "\<forall>l \<in> set ls. psr_snapshot l \<notin> snr_id ` set (pf_snapshots db)"
    using ext by (auto simp: pf_extends_def)
  have s': "s \<in> set (pf_snapshots db')" using assms(3) by (simp add: ss)
  then have "find (\<lambda>x. snr_id x = snr_id s) (pf_snapshots db') = Some s"
    using inv' by (intro find_key) (simp add: pf_inv_def)
  moreover have "filter (\<lambda>l. psr_snapshot l = snr_id s) ls = []" using new assms(3) by (auto simp: filter_empty_conv)
  ultimately show ?thesis using s' by (simp add: q_GetPortfolioSnapshot_def ls)
qed

end
