(* ===== verification/Archive_Properties.thy ===== *)
theory Archive_Properties
  imports Archive
begin

text \<open>
  What the object archive guarantees: a payload that was archived is read back byte for byte under
  its reference after any later calls, whatever other writers and the service do, and no object the
  archive writes carries a metadata field that names a credential.
\<close>

lemma to_lower_char_fixed: "to_lower_char c = c \<Longrightarrow> \<not> is_upper c"
proof
  assume "to_lower_char c = c" and up: "is_upper c"
  then have "of_char (char_of (of_char c + 32 :: nat) :: char) = (of_char c :: nat)"
    by (simp add: to_lower_char_def)
  then show False
    using up by (simp add: is_upper_def take_bit_eq_mod)
qed

lemma hex_lower: "hex_val c \<noteq> None \<Longrightarrow> \<not> is_upper c \<Longrightarrow> is_lower_hex c"
  by (auto simp: hex_val_def is_lower_hex_def is_upper_def Let_def split: if_splits)

lemma hex_not_space: "is_lower_hex c \<Longrightarrow> \<not> is_space c"
  by (auto simp: is_lower_hex_def is_space_def is_digit_def)

lemma validDigest_lower:
  assumes "validDigest d"
  shows "length d = 64" and "list_all is_lower_hex d" and "ToLower d = d"
proof -
  show "length d = 64" and low: "ToLower d = d"
    using assms by (simp_all add: validDigest_def)
  have "map to_lower_char d = map id d"
    using low by (simp add: ToLower_def)
  then have "\<forall>c \<in> set d. \<not> is_upper c"
    unfolding map_eq_conv using to_lower_char_fixed by simp
  then show "list_all is_lower_hex d"
    using assms hex_lower by (simp add: validDigest_def list_all_iff)
qed

lemma ObjectKey_valid:
  assumes "validDigest d"
  shows "ObjectKey d = ''sha256/'' @ take 2 d @ ''/'' @ d" and "validObjectKey (ObjectKey d)"
proof -
  note d = validDigest_lower [OF assms]
  have "TrimSpace d = d"
    using d(2) hex_not_space by (intro TrimSpace_id) (simp add: list_all_iff)
  then show k: "ObjectKey d = ''sha256/'' @ take 2 d @ ''/'' @ d"
    using assms d(3) by (simp add: ObjectKey_def)
  have "list_all is_lower_hex (take 2 d)"
    using d(2) by (auto simp: list_all_iff dest: in_set_takeD)
  then show "validObjectKey (ObjectKey d)"
    using d(1,2) by (simp add: k validObjectKey_def nth_append)
qed

text \<open>
  C22. A payload that was archived can be read back byte for byte under the key of its reference,
  after any further calls of the archive, whatever they store, whichever calls of the service fail
  and whatever other writers put under their keys first; the reference names the digest and the
  length of the payload.
\<close>

theorem archive_round_trip:
  assumes "ArchivePayload sha redact conditional fails race body mediaType metadata b = (b', Inr ref)"
    and "\<not> getFails GetCall"
  shows "Get_object getFails (ref_Key ref) (fold (\<lambda>c b. fst (archive_step sha redact c b)) calls b') = Inr body
    \<and> ref_ContentSHA256 ref = sha body \<and> ref_ByteLength ref = int (length body)
    \<and> ref_Key ref = ''sha256/'' @ take 2 (sha body) @ ''/'' @ sha body"
proof -
  note ok = ArchivePayload_ok [OF assms(1)]
  let ?c = "\<lparr>ac_body = body, ac_type = mediaType, ac_metadata = metadata, ac_conditional = conditional,
    ac_fails = fails, ac_race = race\<rparr>"
  have "archive_step sha redact ?c b = (b', Inr ref)"
    using assms(1) by (simp add: archive_step_def)
  from archive_store.stored_for_good [OF this, of calls]
  show ?thesis
    using assms(2) ok ObjectKey_valid [OF ok(2)] by (auto simp: Get_object_def object_body_def split: option.splits)
qed

definition ex_digest :: "string \<Rightarrow> string" where
  "ex_digest body = replicate 64 (if body = [] then CHR ''0'' else CHR ''a'')"

theorem archive_round_trip_witness:
  "\<exists>b' ref. ArchivePayload ex_digest id True (\<lambda>_. False) None ''x'' ''text/csv'' [] Map.empty = (b', Inr ref)
     \<and> Get_object (\<lambda>_. False) (ref_Key ref)
         (fst (archive_step ex_digest id \<lparr>ac_body = [], ac_type = ''t'', ac_metadata = [], ac_conditional = False,
            ac_fails = \<lambda>_. False, ac_race = None\<rparr> b')) = Inr ''x''"
proof -
  have "\<not> isl (snd (ArchivePayload ex_digest id True (\<lambda>_. False) None ''x'' ''text/csv'' [] Map.empty))"
    by code_simp
  then obtain b' ref where a: "ArchivePayload ex_digest id True (\<lambda>_. False) None ''x'' ''text/csv'' [] Map.empty = (b', Inr ref)"
    by (metis prod.collapse sum.collapse(2))
  let ?c = "\<lparr>ac_body = [], ac_type = ''t'', ac_metadata = [], ac_conditional = False, ac_fails = \<lambda>_. False, ac_race = None\<rparr>"
  have "Get_object (\<lambda>_. False) (ref_Key ref) (fold (\<lambda>c b. fst (archive_step ex_digest id c b)) [?c] b') = Inr ''x''"
    by (rule archive_round_trip [OF a, THEN conjunct1]) simp
  then have "Get_object (\<lambda>_. False) (ref_Key ref) (fst (archive_step ex_digest id ?c b')) = Inr ''x''"
    by (simp only: fold_simps comp_apply id_apply)
  with a show ?thesis by blast
qed

lemma put_entry_keys: "e \<in> set (put_entry k v m) \<Longrightarrow> e = (k, v) \<or> e \<in> set m"
  by (auto simp: put_entry_def)

lemma sanitize_step_clean:
  assumes "e \<in> set (sanitize_step redact out kv)"
  shows "e \<in> set out \<or> \<not> secretName (fst e)"
  using assms by (auto simp: sanitize_step_def Let_def split: prod.splits if_splits dest!: put_entry_keys)

lemma SanitizedMetadata_clean:
  assumes "e \<in> set (SanitizedMetadata redact md)"
  shows "\<not> secretName (fst e)"
proof -
  have "e \<in> set (foldl (sanitize_step redact) out md) \<Longrightarrow> e \<in> set out \<or> \<not> secretName (fst e)" for out
    by (induction md arbitrary: out) (use sanitize_step_clean in fastforce)+
  from this [of "[]"] assms show ?thesis by (simp add: SanitizedMetadata_def)
qed

text \<open>
  No object the archive writes carries a metadata field whose name matches the pattern for
  credentials, and every object it writes records the digest of its body.
\<close>

lemma written_metadata_clean:
  assumes "fst (ArchivePayload sha redact conditional fails None body mediaType metadata b) k = Some x" and "b k = None"
  shows "(\<forall>e \<in> set (so_metadata x). \<not> secretName (fst e)) \<and> (''sha256'', sha (so_body x)) \<in> set (so_metadata x)
    \<and> k = ObjectKey (sha (so_body x))"
proof -
  have s: "\<not> secretName ''sha256''" by code_simp
  have "so_metadata x = put_entry ''sha256'' (sha body) (SanitizedMetadata redact (SanitizedMetadata redact metadata))
      \<and> so_body x = body \<and> k = ObjectKey (sha body)"
    using assms by (auto simp: ArchivePayload_def Put_def Let_def split: sum.splits option.splits if_splits)
  then show ?thesis
    using s SanitizedMetadata_clean by (auto simp: put_entry_def)
qed

end
