(* ===== verification/Import_Safety.thy ===== *)
theory Import_Safety
  imports Import_Service Portfolio_Properties Archive_Properties Imports_Properties
begin

text \<open>
  The state the import service leaves behind: results, files, prices and snapshots that agree with
  one another under every sequence of previews, commits and calls of the portfolio service. The
  theory interprets \<open>history\<close> on the steps of the service and of the portfolio service
  together, over the tables they share.
\<close>

subsection \<open>What the tables say\<close>

definition result_key :: "result_row \<Rightarrow> string \<times> string" where
  "result_key r = (rs_kind r, rs_key r)"

definition revision_key :: "price_revision \<Rightarrow> string \<times> string \<times> time \<times> string \<times> time option \<times> string" where
  "revision_key p = (prw_instrument p, prw_quote p, prw_observation p, prw_price p, prw_source_known p, prw_raw p)"

lemma same_revision_key: "same_revision p q \<longleftrightarrow> revision_key p = revision_key q"
  by (auto simp: same_revision_def revision_key_def)

text \<open>A registered file is in the archive, under the key of its digest.\<close>

definition raw_ok :: "(string \<Rightarrow> string) \<Rightarrow> bucket \<Rightarrow> raw_row \<Rightarrow> bool" where
  "raw_ok sha b w \<longleftrightarrow> rw_key w = ObjectKey (rw_sha w)
     \<and> (\<exists>body. object_body b (rw_key w) = Some body \<and> sha body = rw_sha w \<and> int (length body) = rw_length w)"

text \<open>
  A result has its file: the archived body has the recorded digest, and parsing it again gives the
  recorded number of rows. The result of a position file names a snapshot of its portfolio.
\<close>

definition has_source :: "(string \<Rightarrow> string) \<Rightarrow> import_db \<Rightarrow> result_row \<Rightarrow> bool" where
  "has_source sha db r \<longleftrightarrow> (\<exists>w \<in> set (im_raw db). \<exists>body parsed. rw_id w = rs_raw r \<and> rw_sha w = rs_sha r
     \<and> object_body (im_bucket db) (rw_key w) = Some body \<and> Parse sha body (rs_kind r) = Some parsed
     \<and> ir_Valid parsed \<and> ir_RowCount parsed = rs_rows r \<and> ir_ContentSHA256 parsed = rs_sha r)"

definition has_snapshot :: "import_db \<Rightarrow> result_row \<Rightarrow> bool" where
  "has_snapshot db r \<longleftrightarrow> (rs_kind r = KindPositions \<longrightarrow> (\<exists>s \<in> set (pf_snapshots (im_portfolio db)).
     map_of (rs_response r) ''snapshot_id'' = Some (JStr (snr_id s)) \<and> snr_portfolio s = rs_target r \<and> rs_captured r = Some (snr_captured s)
     \<and> pg_time (snr_captured s) = snr_captured s))"

definition revision_ok :: "import_db \<Rightarrow> price_revision \<Rightarrow> bool" where
  "revision_ok db p \<longleftrightarrow> prw_instrument p \<in> ins_id ` set (pf_instruments (im_portfolio db)) \<and> prw_raw p \<in> rw_id ` set (im_raw db)
     \<and> code_shape (prw_quote p) \<and> (\<exists>v. fits_numeric v \<and> prw_price p = formatDecimal v)
     \<and> pvr_basis p = (if prw_source_known p = None then ''first_observed_by_system'' else ''source_effective_at'')"

definition import_inv :: "(string \<Rightarrow> string) \<Rightarrow> import_db \<Rightarrow> bool" where
  "import_inv sha db \<longleftrightarrow> pf_inv (im_portfolio db)
     \<and> distinct (map tk_digest (im_tokens db)) \<and> (\<forall>t \<in> set (im_tokens db). map_option pg_time (tk_captured t) = tk_captured t)
     \<and> distinct (map result_key (im_results db)) \<and> (\<forall>r \<in> set (im_results db). has_source sha db r \<and> has_snapshot db r)
     \<and> distinct (map rw_sha (im_raw db)) \<and> (\<forall>w \<in> set (im_raw db). raw_ok sha (im_bucket db) w)
     \<and> distinct (map revision_key (im_prices db)) \<and> (\<forall>p \<in> set (im_prices db). revision_ok db p)"

definition same_token :: "token_row \<Rightarrow> token_row \<Rightarrow> bool" where
  "same_token t u \<longleftrightarrow> (\<exists>c. u = t\<lparr>tk_consumed := c\<rparr>) \<and> (tk_consumed t \<noteq> None \<longrightarrow> tk_consumed u \<noteq> None)"

definition import_keeps :: "import_db \<Rightarrow> import_db \<Rightarrow> bool" where
  "import_keeps a b \<longleftrightarrow> pf_extends (im_portfolio a) (im_portfolio b)
     \<and> set (im_results a) \<subseteq> set (im_results b) \<and> set (im_raw a) \<subseteq> set (im_raw b) \<and> set (im_prices a) \<subseteq> set (im_prices b)
     \<and> (\<forall>k x. im_bucket a k = Some x \<longrightarrow> im_bucket b k = Some x)
     \<and> (\<forall>t \<in> set (im_tokens a). \<exists>u \<in> set (im_tokens b). same_token t u)"

definition im_empty :: import_db where
  "im_empty = \<lparr>im_portfolio = pf_empty, im_prices = [], im_raw = [], im_tokens = [], im_results = [], im_bucket = Map.empty\<rparr>"

lemma import_inv_empty: "import_inv sha im_empty"
  by (simp add: import_inv_def im_empty_def pf_inv_empty)

lemma same_token_refl: "same_token t t"
  unfolding same_token_def by (auto intro: exI [of _ "tk_consumed t"])

lemma import_keeps_refl: "import_keeps a a"
  by (auto simp: import_keeps_def pf_extends_refl intro: same_token_refl)

lemma import_keeps_trans:
  assumes "import_keeps a b" and "import_keeps b c"
  shows "import_keeps a c"
proof -
  have "same_token t v" if "same_token t u" "same_token u v" for t u v
    using that by (auto simp: same_token_def)
  then have "\<exists>v \<in> set (im_tokens c). same_token t v" if "t \<in> set (im_tokens a)" for t
    using assms [unfolded import_keeps_def] that by metis
  moreover have "pf_extends (im_portfolio a) (im_portfolio c)"
    using assms by (auto simp: import_keeps_def intro: pf_extends_trans)
  ultimately show ?thesis using assms by (auto simp: import_keeps_def)
qed

lemma has_source_mono:
  assumes "has_source sha a r" and "import_keeps a b"
  shows "has_source sha b r"
  using assms by (fastforce simp: has_source_def import_keeps_def object_body_def)

lemma has_snapshot_mono: "has_snapshot a r \<Longrightarrow> import_keeps a b \<Longrightarrow> has_snapshot b r"
  by (fastforce simp: has_snapshot_def import_keeps_def pf_extends_def)

lemma raw_ok_mono: "raw_ok sha (im_bucket a) w \<Longrightarrow> import_keeps a b \<Longrightarrow> raw_ok sha (im_bucket b) w"
  by (fastforce simp: raw_ok_def import_keeps_def object_body_def)

lemma pf_extends_instruments:
  assumes "pf_extends p q"
  shows "ins_id ` set (pf_instruments p) \<subseteq> ins_id ` set (pf_instruments q)"
proof clarify
  fix i assume "i \<in> set (pf_instruments p)"
  then obtain j where "j \<in> set (pf_instruments q)" and "same_identity i j"
    using assms by (auto simp: pf_extends_def)
  then show "ins_id i \<in> ins_id ` set (pf_instruments q)"
    by (auto simp: same_identity_def image_iff) (metis instrument_row.select_convs(1) instrument_row.surjective instrument_row.update_convs(6))
qed

lemma revision_ok_mono:
  assumes "revision_ok a p" and "import_keeps a b"
  shows "revision_ok b p"
proof -
  have "ins_id ` set (pf_instruments (im_portfolio a)) \<subseteq> ins_id ` set (pf_instruments (im_portfolio b))"
    using assms(2) by (simp add: import_keeps_def pf_extends_instruments)
  moreover have "rw_id ` set (im_raw a) \<subseteq> rw_id ` set (im_raw b)"
    using assms(2) by (auto simp: import_keeps_def)
  ultimately show ?thesis using assms(1) by (simp add: revision_ok_def) blast
qed

lemmas import_mono = has_source_mono has_snapshot_mono raw_ok_mono revision_ok_mono

subsection \<open>What the operations do\<close>

lemma diag_sha [simp]:
  "ir_ContentSHA256 (add_diag row col code msg r) = ir_ContentSHA256 r"
  "ir_ContentSHA256 (add_if b row col code msg r) = ir_ContentSHA256 r"
  "ir_ContentSHA256 (addCell row col v req r) = ir_ContentSHA256 r"
  by (simp_all add: add_diag_def add_if_def addCell_def)

lemma parse_record_sha: "parse_record kind rec row s = Some s' \<Longrightarrow> ir_ContentSHA256 (snd s') = ir_ContentSHA256 (snd s)"
  by (cases s) (auto simp: parse_record_def parsePosition_def parsePrice_def Let_def split: csv_record.splits if_splits option.splits)

lemma parse_rows_sha: "parse_rows kind input rows s = Some (n, r) \<Longrightarrow> ir_ContentSHA256 r = ir_ContentSHA256 (snd s)"
proof (induction kind input rows s rule: parse_rows.induct)
  case (1 kind input rows s)
  note eq = 1(2) [unfolded parse_rows.simps [of kind input rows s]]
  show ?case
    using eq 1(1) parse_record_sha by (auto split: prod.splits if_splits option.splits)
qed

lemma Parse_sha: "Parse sha body kind = Some r \<Longrightarrow> ir_ContentSHA256 r = sha body"
  by (auto simp: Parse_def Let_def split: option.splits prod.splits csv_record.splits if_splits dest!: parse_rows_sha)

lemma Preview_db:
  assumes "Preview sha pool fault now random req db = Some (db', r)"
  shows "db' = db \<or> (\<exists>t. db' = db\<lparr>im_tokens := im_tokens db @ [t]\<rparr> \<and> tk_digest t \<notin> tk_digest ` set (im_tokens db)
    \<and> map_option pg_time (tk_captured t) = tk_captured t)"
  using assms
  by (auto simp: Preview_def Let_def list_ex_id option.map_comp comp_def split: if_splits option.splits)

lemma register_raw_Inr:
  assumes "register_raw env ref db = Inr (db', rawID)"
  obtains ws where "db' = db\<lparr>im_raw := im_raw db @ ws\<rparr>" and "\<exists>w \<in> set (im_raw db'). rw_id w = rawID \<and> rw_sha w = ref_ContentSHA256 ref"
    and "ws = [] \<or> (\<exists>w. ws = [w] \<and> rw_sha w = ref_ContentSHA256 ref \<and> rw_sha w \<notin> rw_sha ` set (im_raw db) \<and> rw_key w = ref_Key ref
           \<and> rw_length w = ref_ByteLength ref)"
proof (cases "find (\<lambda>r. rw_sha r = ref_ContentSHA256 ref) (im_raw db)")
  case None
  then have "ref_ContentSHA256 ref \<notin> rw_sha ` set (im_raw db)" by (auto simp: find_None_iff)
  with assms None that show ?thesis by (auto simp: register_raw_def split: if_splits)
next
  case (Some w)
  with assms find_SomeD [OF Some] show ?thesis by (intro that [of "[]"]) (auto simp: register_raw_def split: if_splits)
qed

lemma parse_all_Some:
  "parse_all f xs = Some ys \<longleftrightarrow> list_all2 (\<lambda>x y. f x = Some y) xs ys"
  by (induction xs arbitrary: ys) (auto simp: list_all2_Cons1 split: option.splits)

lemma parse_all_mem:
  assumes "parse_all f xs = Some ys" and "y \<in> set ys"
  shows "\<exists>x \<in> set xs. f x = Some y"
  using assms by (induction xs arbitrary: ys) (auto split: option.splits)

lemma parse_all_length: "parse_all f xs = Some ys \<Longrightarrow> length ys = length xs"
  by (auto simp: parse_all_Some dest: list_all2_lengthD)

definition stored_price :: "price_revision \<times> rat \<Rightarrow> price_revision" where
  "stored_price x = (fst x)\<lparr>prw_price := formatDecimal (round18 (snd x))\<rparr>"

abbreviation basis_ok :: "price_revision \<Rightarrow> bool" where
  "basis_ok p \<equiv> pvr_basis p = (if prw_source_known p = None then ''first_observed_by_system'' else ''source_effective_at'')"

lemma insert_price_Inr:
  assumes "insert_price x db = Inr db'" and "basis_ok (fst x)"
  shows "db' = db\<lparr>im_prices := im_prices db @ [stored_price x]\<rparr> \<and> revision_ok db (stored_price x)
    \<and> revision_key (stored_price x) \<notin> revision_key ` set (im_prices db)"
proof -
  have v: "to_numeric (snd x) = Inr (round18 (snd x))" and f: "fits_numeric (round18 (snd x))"
    using assms(1) to_numeric_fits by (auto simp: insert_price_def res_bind_eq_Inr split: prod.splits)
  show ?thesis
    using assms f v by (auto simp: insert_price_def stored_price_def Let_def list_ex_id revision_ok_def same_revision_key list_ex_iff image_iff
        split: if_splits prod.splits)
qed

lemma insert_prices_Inr:
  assumes "insert_prices xs db = Inr db'" and "distinct (map revision_key (im_prices db))" and "\<forall>x \<in> set xs. basis_ok (fst x)"
  shows "db' = db\<lparr>im_prices := im_prices db @ map stored_price xs\<rparr>
    \<and> distinct (map revision_key (im_prices db @ map stored_price xs)) \<and> (\<forall>p \<in> set (map stored_price xs). revision_ok db p)"
  using assms
proof (induction xs arbitrary: db)
  case (Cons x xs)
  from Cons.prems(1) obtain db1 where 1: "insert_price x db = Inr db1" and 2: "insert_prices xs db1 = Inr db'"
    by (auto simp: res_bind_eq_Inr)
  have q: "db1 = db\<lparr>im_prices := im_prices db @ [stored_price x]\<rparr>" "revision_ok db (stored_price x)"
    "revision_key (stored_price x) \<notin> revision_key ` set (im_prices db)"
    using insert_price_Inr [OF 1] Cons.prems(3) by simp_all
  have r: "revision_ok db1 p = revision_ok db p" for p by (simp add: q(1) revision_ok_def)
  have "distinct (map revision_key (im_prices db1))" using q Cons.prems(2) by simp
  note ih = Cons.IH [OF 2 this] Cons.prems(3)
  have "im_prices db1 @ map stored_price xs = im_prices db @ map stored_price (x # xs)" by (simp add: q(1))
  with ih q r show ?case by (simp only: list.set_map list.map set_simps) (simp add: q(1))
qed simp

lemma commitPrices_Inr:
  assumes "commitPrices scanUUID scanNumeric env parsed rawID hash db = Inr (db', result)" and "distinct (map revision_key (im_prices db))"
  obtains ps where "db' = db\<lparr>im_prices := im_prices db @ ps\<rparr>" and "distinct (map revision_key (im_prices db @ ps))"
    and "\<forall>p \<in> set ps. revision_ok db p" and "length ps = length (ir_Prices parsed)"
proof -
  obtain raw rows where rows: "parse_all (price_revision_of scanUUID scanNumeric (ce_rowID env) (ce_dbTime env) raw) (enumerate 0 (ir_Prices parsed)) = Some rows"
    and ins: "insert_prices rows db = Inr db'"
    using assms(1) by (auto simp: commitPrices_def split: option.splits if_splits sum.splits)
  have "basis_ok (fst y)" if "price_revision_of scanUUID scanNumeric rowID now raw x = Some y" for rowID now raw x y
    using that by (auto simp: price_revision_of_def split: prod.splits option.splits)
  then have "\<forall>x \<in> set rows. basis_ok (fst x)" and "length rows = length (ir_Prices parsed)"
    using parse_all_mem [OF rows] parse_all_length [OF rows] by (blast, simp)
  with insert_prices_Inr [OF ins assms(2)] show ?thesis by (intro that [of "map stored_price rows"]) simp_all
qed

lemma commitPositions_Inr:
  assumes "commitPositions scanUUID scanNumeric env target capturedAt parsed hash db = Inr (db', result)" and "pf_inv db"
    and "ce_snapshotID env \<notin> snr_id ` set (pf_snapshots db)" and "scanUUID (TrimSpace (ce_snapshotID env)) = Some (ce_snapshotID env)"
  obtains s ls where "s = \<lparr>snr_id = ce_snapshotID env, snr_portfolio = target, snr_captured = pg_time capturedAt, snr_supersedes = None, snr_created = ce_dbTime env\<rparr>"
    and "db' = db\<lparr>pf_snapshots := pf_snapshots db @ [s], pf_lines := pf_lines db @ map stored_line ls\<rparr>" and "pf_inv db'" and "pf_extends db db'"
    and "result = [(''snapshot_id'', JStr (snr_id s)), (''raw_object_sha256'', JStr hash)]"
    and "parse_all (copy_row scanUUID scanNumeric (ce_rowID env) (ce_dbTime env) (the (scanUUID (TrimSpace target))) (snr_id s)) (enumerate 0 (ir_Positions parsed)) = Some ls"
proof -
  let ?s = "\<lparr>snr_id = ce_snapshotID env, snr_portfolio = target, snr_captured = pg_time capturedAt, snr_supersedes = None, snr_created = ce_dbTime env\<rparr>"
  obtain db1 s1 where c: "q_CreatePortfolioSnapshot (ce_fault env (DbStmt 5)) ?s db = Inr (db1, s1)"
    using assms(1) by (auto simp: commitPositions_def split: sum.splits)
  have k: "pf_inv db1" "db1 = db\<lparr>pf_snapshots := pf_snapshots db @ [?s]\<rparr>" "s1 = ?s"
    using q_CreatePortfolioSnapshot_keeps [OF c assms(2)] assms(3) by auto
  obtain ls where ls: "parse_all (copy_row scanUUID scanNumeric (ce_rowID env) (ce_dbTime env) (the (scanUUID (TrimSpace target))) (ce_snapshotID env)) (enumerate 0 (ir_Positions parsed)) = Some ls"
    and ins: "insert_lines (\<lambda>_. False) 0 ls db1 = Inr db'" and res: "result = [(''snapshot_id'', JStr (snr_id ?s)), (''raw_object_sha256'', JStr hash)]"
    using assms(1,4) by (auto simp: commitPositions_def c k(3) im_parseUUID_def split: option.splits if_splits sum.splits)
  have "psr_snapshot l = ce_snapshotID env" if "copy_row scanUUID scanNumeric rowID now pid (ce_snapshotID env) x = Some l" for rowID now pid x l
    using that by (auto simp: copy_row_def split: prod.splits option.splits)
  then have new: "\<forall>l \<in> set ls. psr_snapshot l = ce_snapshotID env"
    using parse_all_mem [OF ls] by blast
  note kept = insert_lines_keeps [OF ins k(1)]
  have db': "db' = db\<lparr>pf_snapshots := pf_snapshots db @ [?s], pf_lines := pf_lines db @ map stored_line ls\<rparr>"
    using kept by (simp add: k(2))
  have "pf_extends db db'"
    using new assms(3) by (auto simp: pf_extends_def db' stored_line_def intro: same_identity_refl)
  with db' kept ls res show ?thesis by (intro that) auto
qed

lemma finish_Inr:
  assumes "finish sha scanUUID scanNumeric env target req capturedAt parsed ref db = Inr (db', result)"
  obtains db1 db2 rawID resultID head_entries where "register_raw env ref db = Inr (db1, rawID)"
    and "import_rows scanUUID scanNumeric env (cmq_Kind req) target capturedAt parsed rawID db1 = Inr (db2, head_entries)"
    and "result = head_entries @ [(''import_kind'', JStr (cmq_Kind req)), (''target_id'', JStr target), (''schema_version'', JStr (cmq_SchemaVersion req)),
                 (''content_sha256'', JStr (ir_ContentSHA256 parsed)), (''row_count'', JNum (int_str (ir_RowCount parsed))),
                 (''import_result_id'', JStr resultID)]"
    and "(cmq_Kind req, cmq_IdempotencyKey req) \<notin> result_key ` set (im_results db2)"
    and "db' = db2\<lparr>im_results := im_results db2 @ [\<lparr>rs_id = resultID, rs_kind = cmq_Kind req, rs_key = cmq_IdempotencyKey req, rs_target = target,
                 rs_captured = map_option pg_time (capturedAtForKind (cmq_Kind req) capturedAt), rs_schema = cmq_SchemaVersion req,
                 rs_sha = ir_ContentSHA256 parsed, rs_rows = ir_RowCount parsed, rs_raw = rawID, rs_response = result\<rparr>],
            im_tokens := consume (sha (cmq_Token req)) (ce_clock env 3) (im_tokens db2)\<rparr>"
proof -
  obtain db1 db2 rawID resultID head_entries where r: "register_raw env ref db = Inr (db1, rawID)"
    "import_rows scanUUID scanNumeric env (cmq_Kind req) target capturedAt parsed rawID db1 = Inr (db2, head_entries)"
    "newUUID (ce_random env) = Inr resultID"
    using assms by (auto simp: finish_def res_bind_eq_Inr split: sum.splits)
  note f = assms [unfolded finish_def, simplified r res_bind_Inr prod.case sum.case Let_def]
  have none: "find (\<lambda>r. rs_kind r = cmq_Kind req \<and> rs_key r = cmq_IdempotencyKey req) (im_results db2) = None"
    using f by (auto split: if_splits option.splits)
  then have "(cmq_Kind req, cmq_IdempotencyKey req) \<notin> result_key ` set (im_results db2)"
    by (auto simp: find_None_iff result_key_def)
  with r f none show ?thesis by (intro that) (auto split: if_splits)
qed

lemma commit_tx_cases:
  obtains (refused) e where "commit_tx sha redact scanUUID scanNumeric env target req capturedAt parsed db = (db, Inl e)"
  | (replayed) existing where "find (\<lambda>r. rs_kind r = cmq_Kind req \<and> rs_key r = cmq_IdempotencyKey req) (im_results db) = Some existing"
      and "commit_tx sha redact scanUUID scanNumeric env target req capturedAt parsed db = (db, replay target req parsed capturedAt existing)"
  | (archive_failed) b e where "archive_import sha redact env req (im_bucket db) = (b, Inl e)"
      and "commit_tx sha redact scanUUID scanNumeric env target req capturedAt parsed db = (db\<lparr>im_bucket := b\<rparr>, Inl (IErr ''archive CSV''))"
  | (archived) b ref dbA where "find (\<lambda>r. rs_kind r = cmq_Kind req \<and> rs_key r = cmq_IdempotencyKey req) (im_results db) = None"
      and "check_token (ce_fault env (DbStmt 1)) (ce_clock env 1) (sha (cmq_Token req)) target req parsed capturedAt db = Inr ()"
      and "validateDomainRows scanUUID (ce_fault env (DbStmt 2)) (cmq_Kind req) target parsed (im_portfolio db) = Inr ()"
      and "archive_import sha redact env req (im_bucket db) = (b, Inr ref)"
      and "dbA = db\<lparr>im_bucket := b, im_results := im_results db @ (case ce_raceResult env of None \<Rightarrow> [] | Some r \<Rightarrow> [r])\<rparr>"
      and "commit_tx sha redact scanUUID scanNumeric env target req capturedAt parsed db
           = (case finish sha scanUUID scanNumeric env target req capturedAt parsed ref dbA of Inl answer \<Rightarrow> (dbA, answer) | Inr (db', result) \<Rightarrow> (db', Inr result))"
proof (cases "find (\<lambda>r. rs_kind r = cmq_Kind req \<and> rs_key r = cmq_IdempotencyKey req) (im_results db)")
  case (Some existing)
  then show ?thesis by (cases "ce_fault env (DbStmt 0)") (auto simp: commit_tx_def intro: refused replayed)
next
  case None
  let ?check = "res_bind (check_token (ce_fault env (DbStmt 1)) (ce_clock env 1) (sha (cmq_Token req)) target req parsed capturedAt db) (\<lambda>_.
                 validateDomainRows scanUUID (ce_fault env (DbStmt 2)) (cmq_Kind req) target parsed (im_portfolio db))"
  show ?thesis
  proof (cases "ce_fault env (DbStmt 0) \<or> isl ?check \<or> \<not> ce_archive env")
    case True
    then have "\<exists>e. commit_tx sha redact scanUUID scanNumeric env target req capturedAt parsed db = (db, Inl e)"
      using None by (cases ?check) (auto simp: commit_tx_def)
    then show ?thesis using refused by blast
  next
    case False
    then have ok: "?check = Inr ()" by (cases ?check) auto
    obtain b x where a: "archive_import sha redact env req (im_bucket db) = (b, x)" by (cases "archive_import sha redact env req (im_bucket db)")
    show ?thesis
    proof (cases x)
      case (Inl e)
      show ?thesis by (rule archive_failed [of b e]) (use False None ok a Inl in \<open>auto simp: commit_tx_def\<close>)
    next
      case (Inr ref)
      have c: "commit_tx sha redact scanUUID scanNumeric env target req capturedAt parsed db
           = (let dbA = db\<lparr>im_bucket := b, im_results := im_results db @ (case ce_raceResult env of None \<Rightarrow> [] | Some r \<Rightarrow> [r])\<rparr>
              in case finish sha scanUUID scanNumeric env target req capturedAt parsed ref dbA of Inl answer \<Rightarrow> (dbA, answer) | Inr (db', result) \<Rightarrow> (db', Inr result))"
        using False None ok a Inr unfolding commit_tx_def by simp
      show ?thesis
        by (rule archived [OF None _ _ a [unfolded Inr] refl c [unfolded Let_def]]) (use ok in \<open>auto simp: res_bind_eq_Inr\<close>)
    qed
  qed
qed

lemma Commit_cases:
  assumes "Commit sha redact scanUUID scanNumeric env req db = Some (db', r)"
  obtains (refused) e where "db' = db" and "r = Inl e"
  | (transaction) capturedAt parsed where "captured_of (cmq_Kind req) (ce_clock env 0) (cmq_CapturedAt req) = Some (Some capturedAt)"
      and "Parse sha (cmq_Body req) (cmq_Kind req) = Some parsed" and "ir_Valid parsed"
      and "commit_tx sha redact scanUUID scanNumeric env (ToLower (TrimSpace (cmq_TargetID req))) req capturedAt parsed db = (db', r)"
  using assms by (auto simp: Commit_def Let_def split: if_splits option.splits)

subsection \<open>What the operations keep\<close>

lemma import_invI:
  assumes "import_inv sha a" and keeps: "import_keeps a b" and "pf_inv (im_portfolio b)"
    and "distinct (map tk_digest (im_tokens b))" and "\<forall>t \<in> set (im_tokens b). map_option pg_time (tk_captured t) = tk_captured t"
    and "distinct (map result_key (im_results b))" and "\<forall>r \<in> set (im_results b) - set (im_results a). has_source sha b r \<and> has_snapshot b r"
    and "distinct (map rw_sha (im_raw b))" and "\<forall>w \<in> set (im_raw b) - set (im_raw a). raw_ok sha (im_bucket b) w"
    and "distinct (map revision_key (im_prices b))" and "\<forall>p \<in> set (im_prices b) - set (im_prices a). revision_ok b p"
  shows "import_inv sha b"
proof -
  note mono = import_mono [OF _ keeps]
  have "has_source sha b r \<and> has_snapshot b r" if "r \<in> set (im_results b)" for r
    using assms(1,7) that mono(1,2) unfolding import_inv_def by (metis DiffI)
  moreover have "raw_ok sha (im_bucket b) w" if "w \<in> set (im_raw b)" for w
    using assms(1,9) that mono(3) unfolding import_inv_def by (metis DiffI)
  moreover have "revision_ok b p" if "p \<in> set (im_prices b)" for p
    using assms(1,11) that mono(4) unfolding import_inv_def by (metis DiffI)
  ultimately show ?thesis using assms(3-6,8,10) by (simp add: import_inv_def)
qed

text \<open>The result another transaction may store is one this state allows.\<close>

definition race_ok :: "(string \<Rightarrow> string) \<Rightarrow> commit_env \<Rightarrow> import_db \<Rightarrow> bool" where
  "race_ok sha env db \<longleftrightarrow> (case ce_raceResult env of None \<Rightarrow> True
     | Some r \<Rightarrow> result_key r \<notin> result_key ` set (im_results db) \<and> has_source sha db r \<and> has_snapshot db r
         \<and> import_validUUID (rs_target r))"

text \<open>An identifier the database makes is new, and the driver reads it as it is.\<close>

definition ids_ok :: "(string \<Rightarrow> string option) \<Rightarrow> commit_env \<Rightarrow> import_db \<Rightarrow> bool" where
  "ids_ok scanUUID env db \<longleftrightarrow> ce_snapshotID env \<notin> snr_id ` set (pf_snapshots (im_portfolio db))
     \<and> scanUUID (TrimSpace (ce_snapshotID env)) = Some (ce_snapshotID env)"

lemma archive_import_keeps:
  assumes "archive_import sha redact env req b = (b', x)" and "b k = Some ob"
  shows "b' k = Some ob"
  using ArchivePayload_keeps [of b k ob, OF assms(2)] assms(1) unfolding archive_import_def by (metis fst_conv)

lemma import_keepsI:
  assumes "im_portfolio b = im_portfolio a \<or> pf_extends (im_portfolio a) (im_portfolio b)"
    and "set (im_results a) \<subseteq> set (im_results b)" and "set (im_raw a) \<subseteq> set (im_raw b)" and "set (im_prices a) \<subseteq> set (im_prices b)"
    and "\<And>k x. im_bucket a k = Some x \<Longrightarrow> im_bucket b k = Some x"
    and "\<And>t. t \<in> set (im_tokens a) \<Longrightarrow> \<exists>u \<in> set (im_tokens b). same_token t u"
  shows "import_keeps a b"
  using assms pf_extends_refl by (auto simp: import_keeps_def)

lemma Preview_keeps:
  assumes "Preview sha pool fault now random req db = Some (db', r)" and "import_inv sha db"
  shows "import_inv sha db' \<and> import_keeps db db'"
proof (cases "db' = db")
  case False
  with Preview_db [OF assms(1)] obtain t where t: "db' = db\<lparr>im_tokens := im_tokens db @ [t]\<rparr>" "tk_digest t \<notin> tk_digest ` set (im_tokens db)"
    "map_option pg_time (tk_captured t) = tk_captured t" by blast
  have k: "import_keeps db db'" by (rule import_keepsI) (auto simp: t(1) intro: same_token_refl)
  have "import_inv sha db'" by (rule import_invI [OF assms(2) k]) (use assms(2) t in \<open>auto simp: import_inv_def\<close>)
  with k show ?thesis by blast
qed (use assms(2) import_keeps_refl in auto)

lemma archived_state:
  assumes inv: "import_inv sha db" and arch: "archive_import sha redact env req (im_bucket db) = (b, Inr ref)" and race: "race_ok sha env db"
    and dbA: "dbA = db\<lparr>im_bucket := b, im_results := im_results db @ (case ce_raceResult env of None \<Rightarrow> [] | Some r \<Rightarrow> [r])\<rparr>"
  shows "import_inv sha dbA \<and> import_keeps db dbA"
proof -
  have k: "import_keeps db dbA"
    by (rule import_keepsI) (auto simp: dbA intro: same_token_refl archive_import_keeps [OF arch])
  have "import_inv sha dbA"
    by (rule import_invI [OF inv k])
      (use inv race import_mono(1,2) [OF _ k] in \<open>auto simp: import_inv_def dbA race_ok_def split: option.splits\<close>)
  with k show ?thesis by blast
qed

lemma register_raw_keeps:
  assumes reg: "register_raw env ref db = Inr (db', rawID)" and inv: "import_inv sha db"
    and ref: "ref_Key ref = ObjectKey (sha body)" "ref_ContentSHA256 ref = sha body" "ref_ByteLength ref = int (length body)"
    and obj: "object_body (im_bucket db) (ObjectKey (sha body)) = Some body"
  shows "import_inv sha db' \<and> import_keeps db db' \<and> im_portfolio db' = im_portfolio db \<and> im_tokens db' = im_tokens db \<and> im_results db' = im_results db
    \<and> (\<exists>w \<in> set (im_raw db'). rw_id w = rawID \<and> rw_sha w = sha body \<and> object_body (im_bucket db') (rw_key w) = Some body)"
proof -
  obtain ws where db': "db' = db\<lparr>im_raw := im_raw db @ ws\<rparr>" and w: "\<exists>w \<in> set (im_raw db'). rw_id w = rawID \<and> rw_sha w = ref_ContentSHA256 ref"
    and ws: "ws = [] \<or> (\<exists>w. ws = [w] \<and> rw_sha w = ref_ContentSHA256 ref \<and> rw_sha w \<notin> rw_sha ` set (im_raw db) \<and> rw_key w = ref_Key ref
           \<and> rw_length w = ref_ByteLength ref)"
    by (rule register_raw_Inr [OF reg])
  have k: "import_keeps db db'" by (rule import_keepsI) (auto simp: db' intro: same_token_refl)
  have i: "import_inv sha db'"
    by (rule import_invI [OF inv k]) (use inv ws ref obj in \<open>auto simp: import_inv_def db' raw_ok_def image_iff\<close>)
  then have "rw_key w = ObjectKey (rw_sha w)" if "w \<in> set (im_raw db')" for w
    using that by (auto simp: import_inv_def raw_ok_def)
  with w ref(2) obj have "\<exists>w \<in> set (im_raw db'). rw_id w = rawID \<and> rw_sha w = sha body \<and> object_body (im_bucket db') (rw_key w) = Some body"
    by (auto simp: db')
  with k i show ?thesis by (simp add: db')
qed

lemma import_rows_keeps:
  assumes rows: "import_rows scanUUID scanNumeric env kind target capturedAt parsed rawID db = Inr (db', entries)" and inv: "import_inv sha db"
    and ids: "ids_ok scanUUID env db"
  shows "import_inv sha db' \<and> import_keeps db db' \<and> im_tokens db' = im_tokens db \<and> im_results db' = im_results db
    \<and> (kind = KindPositions \<longrightarrow> (\<exists>s \<in> set (pf_snapshots (im_portfolio db')). map_of entries ''snapshot_id'' = Some (JStr (snr_id s))
         \<and> snr_portfolio s = target \<and> snr_captured s = pg_time capturedAt))"
proof (cases "kind = KindPositions")
  case True
  then obtain q where q: "commitPositions scanUUID scanNumeric env target capturedAt parsed (ir_ContentSHA256 parsed) (im_portfolio db) = Inr (q, entries)"
    and db': "db' = db\<lparr>im_portfolio := q\<rparr>"
    using rows by (auto simp: import_rows_def res_bind_eq_Inr)
  have pf: "pf_inv (im_portfolio db)" using inv by (simp add: import_inv_def)
  obtain s ls where s: "s = \<lparr>snr_id = ce_snapshotID env, snr_portfolio = target, snr_captured = pg_time capturedAt, snr_supersedes = None, snr_created = ce_dbTime env\<rparr>"
    and q': "q = (im_portfolio db)\<lparr>pf_snapshots := pf_snapshots (im_portfolio db) @ [s], pf_lines := pf_lines (im_portfolio db) @ map stored_line ls\<rparr>"
    and ok: "pf_inv q" "pf_extends (im_portfolio db) q" and f: "entries = [(''snapshot_id'', JStr (snr_id s)), (''raw_object_sha256'', JStr (ir_ContentSHA256 parsed))]"
    by (rule commitPositions_Inr [OF q pf]) (use ids in \<open>auto simp: ids_ok_def\<close>)
  have k: "import_keeps db db'" by (rule import_keepsI) (auto simp: db' ok intro: same_token_refl)
  have "import_inv sha db'" by (rule import_invI [OF inv k]) (use inv ok in \<open>auto simp: import_inv_def db'\<close>)
  with k show ?thesis by (simp add: db' q' f s)
next
  case False
  then have q: "commitPrices scanUUID scanNumeric env parsed rawID (ir_ContentSHA256 parsed) db = Inr (db', entries)"
    using rows by (simp add: import_rows_def)
  have d: "distinct (map revision_key (im_prices db))" using inv by (simp add: import_inv_def)
  obtain ps where db': "db' = db\<lparr>im_prices := im_prices db @ ps\<rparr>" and dist: "distinct (map revision_key (im_prices db @ ps))"
    and ok: "\<forall>p \<in> set ps. revision_ok db p"
    by (rule commitPrices_Inr [OF q d])
  have k: "import_keeps db db'" by (rule import_keepsI) (auto simp: db' intro: same_token_refl)
  have "import_inv sha db'"
    by (rule import_invI [OF inv k]) (use inv dist revision_ok_mono [OF _ k] ok in \<open>auto simp add: import_inv_def db'\<close>)
  with k False show ?thesis by (simp add: db')
qed

lemma consume_keeps:
  "map tk_digest (consume d now ts) = map tk_digest ts"
  "t \<in> set (consume d now ts) \<Longrightarrow> \<exists>u \<in> set ts. tk_captured t = tk_captured u"
  "t \<in> set ts \<Longrightarrow> \<exists>u \<in> set (consume d now ts). same_token t u"
proof -
  show "map tk_digest (consume d now ts) = map tk_digest ts" by (simp add: consume_def map_sql_update)
  show "\<exists>u \<in> set ts. tk_captured t = tk_captured u" if "t \<in> set (consume d now ts)"
    using that by (auto simp: consume_def set_sql_update split: if_splits)
  have "same_token t (if tk_digest t = d then t\<lparr>tk_consumed := Some (pg_time now)\<rparr> else t)"
    by (auto simp: same_token_refl) (auto simp: same_token_def)
  then show "\<exists>u \<in> set (consume d now ts). same_token t u" if "t \<in> set ts"
    using that unfolding consume_def set_sql_update by blast
qed

lemma finish_keeps:
  assumes fin: "finish sha scanUUID scanNumeric env target req capturedAt parsed ref db = Inr (db', result)" and inv: "import_inv sha db"
    and ids: "ids_ok scanUUID env db" and ref: "ref_Key ref = ObjectKey (sha (cmq_Body req))" "ref_ContentSHA256 ref = sha (cmq_Body req)"
      "ref_ByteLength ref = int (length (cmq_Body req))"
    and obj: "object_body (im_bucket db) (ObjectKey (sha (cmq_Body req))) = Some (cmq_Body req)"
    and parsed: "Parse sha (cmq_Body req) (cmq_Kind req) = Some parsed" "ir_Valid parsed"
  shows "import_inv sha db' \<and> import_keeps db db'"
proof -
  from fin obtain db1 db2 rawID resultID entries where reg: "register_raw env ref db = Inr (db1, rawID)"
    and rows: "import_rows scanUUID scanNumeric env (cmq_Kind req) target capturedAt parsed rawID db1 = Inr (db2, entries)"
    and result: "result = entries @ [(''import_kind'', JStr (cmq_Kind req)), (''target_id'', JStr target), (''schema_version'', JStr (cmq_SchemaVersion req)),
                 (''content_sha256'', JStr (ir_ContentSHA256 parsed)), (''row_count'', JNum (int_str (ir_RowCount parsed))),
                 (''import_result_id'', JStr resultID)]"
    and new: "(cmq_Kind req, cmq_IdempotencyKey req) \<notin> result_key ` set (im_results db2)"
    and db': "db' = db2\<lparr>im_results := im_results db2 @ [\<lparr>rs_id = resultID, rs_kind = cmq_Kind req, rs_key = cmq_IdempotencyKey req, rs_target = target,
                 rs_captured = map_option pg_time (capturedAtForKind (cmq_Kind req) capturedAt), rs_schema = cmq_SchemaVersion req,
                 rs_sha = ir_ContentSHA256 parsed, rs_rows = ir_RowCount parsed, rs_raw = rawID, rs_response = result\<rparr>],
            im_tokens := consume (sha (cmq_Token req)) (ce_clock env 3) (im_tokens db2)\<rparr>" (is "_ = db2\<lparr>im_results := _ @ [?row], im_tokens := _\<rparr>")
    by (rule finish_Inr)
  note 1 = register_raw_keeps [OF reg inv ref obj]
  then have "ids_ok scanUUID env db1" using ids by (simp add: ids_ok_def)
  with import_rows_keeps [OF rows] 1 have 2: "import_inv sha db2" "import_keeps db1 db2"
    and snap: "cmq_Kind req = KindPositions \<longrightarrow> (\<exists>s \<in> set (pf_snapshots (im_portfolio db2)). map_of entries ''snapshot_id'' = Some (JStr (snr_id s))
         \<and> snr_portfolio s = target \<and> snr_captured s = pg_time capturedAt)" by blast+
  have k: "import_keeps db2 db'" by (rule import_keepsI) (auto simp: db' intro: consume_keeps(3))
  have "has_source sha db1 ?row"
    using 1 parsed Parse_sha [OF parsed(1)] by (auto simp: has_source_def)
  then have "has_source sha db' ?row" by (rule has_source_mono) (rule import_keeps_trans [OF 2(2) k])
  moreover have "has_snapshot db' ?row"
    using snap by (auto simp: has_snapshot_def db' result capturedAtForKind_def map_add_Some_iff)
  moreover have "set (im_results db') = insert ?row (set (im_results db2))" by (simp add: db')
  ultimately have new_ok: "\<forall>r \<in> set (im_results db') - set (im_results db2). has_source sha db' r \<and> has_snapshot db' r"
    by (metis Diff_iff insert_iff)
  have tokens: "\<forall>t \<in> set (im_tokens db'). map_option pg_time (tk_captured t) = tk_captured t"
    using 2(1) consume_keeps(2) unfolding import_inv_def db' by simp metis
  have "import_inv sha db'"
    by (rule import_invI [OF 2(1) k _ _ tokens _ new_ok]) (use 2(1) new in \<open>simp_all add: import_inv_def db' result_key_def consume_keeps(1)\<close>)
  then show ?thesis using k 1 2(2) import_keeps_trans by blast
qed

lemma Commit_keeps:
  assumes commit: "Commit sha redact scanUUID scanNumeric env req db = Some (db', r)" and inv: "import_inv sha db"
    and ids: "ids_ok scanUUID env db" and race: "race_ok sha env db"
  shows "import_inv sha db' \<and> import_keeps db db'"
  using commit
proof (cases rule: Commit_cases)
  case (refused e)
  then show ?thesis using inv import_keeps_refl by simp
next
  case (transaction capturedAt parsed)
  show ?thesis
  proof (cases rule: commit_tx_cases [of sha redact scanUUID scanNumeric env "ToLower (TrimSpace (cmq_TargetID req))" req capturedAt parsed db])
    case (refused e)
    then show ?thesis using transaction(4) inv import_keeps_refl by simp
  next
    case (replayed existing)
    then show ?thesis using transaction(4) inv import_keeps_refl by simp
  next
    case (archive_failed b e)
    then have db': "db' = db\<lparr>im_bucket := b\<rparr>" using transaction(4) by simp
    have k: "import_keeps db db'"
      by (rule import_keepsI) (auto simp: db' intro: same_token_refl archive_import_keeps [OF archive_failed(1)])
    have "import_inv sha db'" by (rule import_invI [OF inv k]) (use inv in \<open>simp_all add: import_inv_def db'\<close>)
    with k show ?thesis by blast
  next
    case (archived b ref dbA)
    note A = archived_state [OF inv archived(4) race archived(5)]
    show ?thesis
    proof (cases "finish sha scanUUID scanNumeric env (ToLower (TrimSpace (cmq_TargetID req))) req capturedAt parsed ref dbA")
      case (Inl answer)
      then show ?thesis using archived(6) transaction(4) A by simp
    next
      case (Inr x)
      then obtain result where fin: "finish sha scanUUID scanNumeric env (ToLower (TrimSpace (cmq_TargetID req))) req capturedAt parsed ref dbA = Inr (db', result)"
        using archived(6) transaction(4) by (cases x) auto
      note ok = ArchivePayload_ok [OF archived(4) [unfolded archive_import_def]]
      have "ids_ok scanUUID env dbA" using ids by (simp add: ids_ok_def archived(5))
      then have "import_inv sha db' \<and> import_keeps dbA db'"
        by (intro finish_keeps [OF fin]) (use A ok transaction(2,3) in \<open>simp_all add: archived(5)\<close>)
      with A show ?thesis using import_keeps_trans by blast
    qed
  qed
qed

subsection \<open>Sequences of calls\<close>

inductive import_step :: "(string \<Rightarrow> string) \<Rightarrow> (string \<Rightarrow> string) \<Rightarrow> (string \<Rightarrow> string option) \<Rightarrow> (string \<Rightarrow> pgNumeric option) \<Rightarrow> import_db \<Rightarrow> import_db \<Rightarrow> bool"
  for sha redact scanUUID scanNumeric where
  previewed: "Preview sha pool fault now random preq db = Some (db', r) \<Longrightarrow> import_step sha redact scanUUID scanNumeric db db'"
| committed: "Commit sha redact scanUUID scanNumeric env req db = Some (db', r) \<Longrightarrow> ids_ok scanUUID env db \<Longrightarrow> race_ok sha env db
    \<Longrightarrow> import_step sha redact scanUUID scanNumeric db db'"
| portfolio_changed: "portfolio_step (im_portfolio db) p \<Longrightarrow> import_step sha redact scanUUID scanNumeric db (db\<lparr>im_portfolio := p\<rparr>)"

lemma import_step_keeps:
  assumes "import_step sha redact scanUUID scanNumeric db db'" and inv: "import_inv sha db"
  shows "import_inv sha db' \<and> import_keeps db db'"
  using assms(1)
proof cases
  case (portfolio_changed p)
  then have p: "pf_inv p" "pf_extends (im_portfolio db) p" using portfolio_step_keeps inv by (auto simp: import_inv_def)
  have k: "import_keeps db db'" by (rule import_keepsI) (auto simp: portfolio_changed p intro: same_token_refl)
  have "import_inv sha db'" by (rule import_invI [OF inv k]) (use inv p in \<open>simp_all add: import_inv_def portfolio_changed\<close>)
  with k show ?thesis by blast
qed (use inv Preview_keeps Commit_keeps in blast)+

interpretation import_history: history "import_step sha redact scanUUID scanNumeric" "import_inv sha" import_keeps
  for sha redact scanUUID scanNumeric
  by unfold_locales (use import_step_keeps import_keeps_refl import_keeps_trans in blast)+

lemmas reachable_import = import_history.steps_keep(1) [OF _ import_inv_empty]

end
