(* ===== verification/Import_Service_Properties.thy ===== *)
theory Import_Service_Properties
  imports Import_Safety Valuation_Properties
begin

text \<open>
  What a client of the import service may rely on: a result keeps its source, a repeated request is
  answered with the stored result, a token is used once, a commit is all or nothing, and the rows
  of a file arrive with the values they had.
\<close>

subsection \<open>Results and their sources\<close>

lemma find_result:
  assumes "import_inv sha db" and "r \<in> set (im_results db)" and "rs_kind r = kind" and "rs_key r = key"
  shows "find (\<lambda>r. rs_kind r = kind \<and> rs_key r = key) (im_results db) = Some r"
proof -
  have "find (\<lambda>x. result_key x = result_key r) (im_results db) = Some r"
    using assms(1,2) by (intro find_key) (simp_all add: import_inv_def)
  then show ?thesis using assms(3,4) by (simp add: result_key_def)
qed

text \<open>
  C8. Every result the service ever stored keeps its source. Whatever previews, commits and calls
  of the portfolio service follow, and whatever fails in them, the result is still stored under its
  key, its file is registered and in the archive under the digest the result records, parsing that
  file again accepts it with the recorded number of rows, and the result of a position file names a
  snapshot of its portfolio with the recorded instant.
\<close>

theorem import_provenance:
  assumes "(import_step sha redact scanUUID scanNumeric)\<^sup>*\<^sup>* im_empty db"
    and "(import_step sha redact scanUUID scanNumeric)\<^sup>*\<^sup>* db db'" and "r \<in> set (im_results db)"
  shows "find (\<lambda>x. rs_kind x = rs_kind r \<and> rs_key x = rs_key r) (im_results db') = Some r \<and> has_source sha db' r \<and> has_snapshot db' r"
proof -
  have inv: "import_inv sha db" using assms(1) by (rule reachable_import)
  have inv': "import_inv sha db'" and "import_keeps db db'" using import_history.steps_keep [OF assms(2) inv] by blast+
  then have "r \<in> set (im_results db')" using assms(3) by (auto simp: import_keeps_def)
  then show ?thesis using inv' find_result [OF inv'] by (simp add: import_inv_def)
qed

subsection \<open>Repeated requests\<close>

lemma check_token_Inr:
  assumes "check_token fails now d target req parsed capturedAt db = Inr ()"
  obtains t where "t \<in> set (im_tokens db)" and "tk_digest t = d" and "tk_consumed t = None" and "tk_expires t > now" and "tk_kind t = cmq_Kind req"
    and "tk_target t = target" and "tk_sha t = ir_ContentSHA256 parsed" and "sameCapturedAt (tk_captured t) (capturedAtForKind (cmq_Kind req) capturedAt)"
proof -
  obtain t where t: "find (\<lambda>t. tk_digest t = d) (im_tokens db) = Some t"
    using assms by (auto simp: check_token_def split: if_splits option.splits)
  show ?thesis
    by (rule that [of t]) (use find_SomeD [OF t] assms t in \<open>auto simp: check_token_def split: if_splits\<close>)
qed

lemma sameCapturedAt_eq: "sameCapturedAt a b \<longleftrightarrow> a = b"
  by (cases a; cases b) (auto simp: sameCapturedAt_def)

lemma token_precise:
  assumes "check_token fails now d target req parsed capturedAt db = Inr ()" and "import_inv sha db"
  shows "map_option pg_time (capturedAtForKind (cmq_Kind req) capturedAt) = capturedAtForKind (cmq_Kind req) capturedAt"
  using assms(2) by (rule_tac check_token_Inr [OF assms(1)]) (auto simp: import_inv_def sameCapturedAt_eq)

text \<open>The row a successful commit leaves under its key, and the request it answers.\<close>

definition answers :: "CommitRequest \<Rightarrow> ImportResult \<Rightarrow> time \<Rightarrow> metadata \<Rightarrow> result_row \<Rightarrow> bool" where
  "answers req parsed capturedAt result r \<longleftrightarrow> rs_kind r = cmq_Kind req \<and> rs_key r = cmq_IdempotencyKey req
     \<and> replay (ToLower (TrimSpace (cmq_TargetID req))) req parsed capturedAt r = Inr result"

lemma uuid_no_space: "import_validUUID s \<Longrightarrow> TrimSpace s = s"
proof (rule TrimSpace_id)
  have hex: "\<not> is_space c" if "hex_val c \<noteq> None" for c
    using that by (auto simp: hex_val_def is_space_def is_digit_def Let_def)
  have "hex_groups ns s \<Longrightarrow> c \<in> set s \<Longrightarrow> \<not> is_space c" for ns s c
  proof (induction ns s rule: hex_groups.induct)
    case (3 n m ns s)
    then have s: "s = take n s @ CHR ''-'' # drop (Suc n) s" using id_take_nth_drop [of n s] by simp
    with 3(3) consider "c \<in> set (take n s)" | "c = CHR ''-''" | "c \<in> set (drop (Suc n) s)"
      by (metis Un_iff set_ConsD set_append)
    then show ?case using 3 hex by cases (auto simp: list_all_iff is_space_def)
  qed (auto simp: list_all_iff hex)
  then show "import_validUUID s \<Longrightarrow> \<forall>c \<in> set s. \<not> is_space c"
    unfolding import_validUUID_def uuid_shape_def by blast
qed

lemma insert_prices_results: "insert_prices xs db = Inr db' \<Longrightarrow> im_results db' = im_results db"
proof (induction xs arbitrary: db)
  case (Cons x xs)
  then obtain db1 where "insert_price x db = Inr db1" and ih: "im_results db' = im_results db1"
    by (auto simp: res_bind_eq_Inr)
  then show ?case by (auto simp: insert_price_def Let_def res_bind_eq_Inr split: prod.splits if_splits)
qed simp

lemma rows_results:
  "register_raw env ref db = Inr (db1, rawID) \<Longrightarrow> im_results db1 = im_results db"
  "import_rows scanUUID scanNumeric env kind target capturedAt parsed rawID db = Inr (db2, entries) \<Longrightarrow> im_results db2 = im_results db"
  by (auto simp: register_raw_def import_rows_def commitPrices_def res_bind_eq_Inr insert_prices_results split: if_splits option.splits sum.splits)

lemma finish_stored:
  assumes "finish sha scanUUID scanNumeric env (ToLower (TrimSpace (cmq_TargetID req))) req capturedAt parsed ref db = Inr (db', result)"
    and "map_option pg_time (capturedAtForKind (cmq_Kind req) capturedAt) = capturedAtForKind (cmq_Kind req) capturedAt"
  shows "last (im_results db') \<in> set (im_results db') \<and> answers req parsed capturedAt result (last (im_results db'))"
  by (rule finish_Inr [OF assms(1)]) (simp add: answers_def replay_def sameCapturedAt_eq assms(2))

lemma finish_race:
  assumes "finish sha scanUUID scanNumeric env target req capturedAt parsed ref db = Inl (Inr result)"
  shows "\<exists>r \<in> set (im_results db). rs_kind r = cmq_Kind req \<and> rs_key r = cmq_IdempotencyKey req
    \<and> replay (ToLower (cmq_TargetID req)) req parsed capturedAt r = Inr result"
proof -
  obtain db1 db2 rawID entries r where "register_raw env ref db = Inr (db1, rawID)"
    "import_rows scanUUID scanNumeric env (cmq_Kind req) target capturedAt parsed rawID db1 = Inr (db2, entries)"
    and f: "find (\<lambda>r. rs_kind r = cmq_Kind req \<and> rs_key r = cmq_IdempotencyKey req) (im_results db2) = Some r"
    and "replay (ToLower (cmq_TargetID req)) req parsed capturedAt r = Inr result"
    using assms by (auto simp: finish_def Let_def res_bind_eq_Inr split: sum.splits if_splits option.splits)
  with rows_results find_SomeD [OF f] show ?thesis by metis
qed

lemma race_answers:
  assumes "rs_target r = ToLower (cmq_TargetID req)" and "import_validUUID (rs_target r)"
  shows "ToLower (TrimSpace (cmq_TargetID req)) = ToLower (cmq_TargetID req)"
  using uuid_no_space [OF assms(2)] by (simp add: assms(1) TrimSpace_ToLower)

lemma Commit_answers:
  assumes commit: "Commit sha redact scanUUID scanNumeric env req db = Some (db', Inr result)" and inv: "import_inv sha db"
    and race: "race_ok sha env db"
  obtains capturedAt parsed r where "captured_of (cmq_Kind req) (ce_clock env 0) (cmq_CapturedAt req) = Some (Some capturedAt)"
    and "Parse sha (cmq_Body req) (cmq_Kind req) = Some parsed" and "ir_Valid parsed" and "r \<in> set (im_results db')"
    and "answers req parsed capturedAt result r"
  using commit
proof (cases rule: Commit_cases)
  case (transaction capturedAt parsed)
  note that = that [OF transaction(1,2,3)]
  let ?target = "ToLower (TrimSpace (cmq_TargetID req))"
  show ?thesis
  proof (cases rule: commit_tx_cases [of sha redact scanUUID scanNumeric env ?target req capturedAt parsed db])
    case (replayed existing)
    show ?thesis
      by (rule that [of existing]) (use find_SomeD [OF replayed(1)] replayed(2) transaction(4) in \<open>auto simp: answers_def\<close>)
  next
    case (archived b ref dbA)
    show ?thesis
    proof (cases "finish sha scanUUID scanNumeric env ?target req capturedAt parsed ref dbA")
      case (Inr x)
      then have "finish sha scanUUID scanNumeric env ?target req capturedAt parsed ref dbA = Inr (db', result)"
        using archived(6) transaction(4) by (cases x) auto
      from finish_stored [OF this token_precise [OF archived(2) inv]] show ?thesis by (intro that [of "last (im_results db')"]) auto
    next
      case (Inl answer)
      then have fin: "finish sha scanUUID scanNumeric env ?target req capturedAt parsed ref dbA = Inl (Inr result)" and db': "db' = dbA"
        using archived(6) transaction(4) by auto
      obtain r where r: "r \<in> set (im_results dbA)" "rs_kind r = cmq_Kind req" "rs_key r = cmq_IdempotencyKey req"
        and a: "replay (ToLower (cmq_TargetID req)) req parsed capturedAt r = Inr result" using finish_race [OF fin] by blast
      have "r \<notin> set (im_results db)" using archived(1) r(2,3) by (auto simp: find_None_iff)
      then have "import_validUUID (rs_target r)" using r(1) race by (auto simp: archived(5) race_ok_def split: option.splits)
      then have "?target = ToLower (cmq_TargetID req)" using a by (intro race_answers [of r]) (auto simp: replay_def split: if_splits)
      with a r show ?thesis by (intro that [of r]) (auto simp: answers_def db')
    qed
  qed (use transaction(4) in auto)
qed simp

text \<open>
  C9. A commit is idempotent. Once a commit was answered with a result, the same request is
  answered with the same result at any later time and changes nothing, whatever happened in between
  and whatever token it carries, also after the token has expired; only a database that cannot be
  reached can prevent it.
\<close>

theorem commit_replay:
  assumes "(import_step sha redact scanUUID scanNumeric)\<^sup>*\<^sup>* im_empty db"
    and "Commit sha redact scanUUID scanNumeric env req db = Some (db1, Inr result)" and "ids_ok scanUUID env db" and "race_ok sha env db"
    and "(import_step sha redact scanUUID scanNumeric)\<^sup>*\<^sup>* db1 db2"
    and "ce_pool env2" and "\<not> ce_fault env2 DbBegin" and "\<not> ce_fault env2 (DbStmt 0)" and "token \<noteq> []"
  shows "Commit sha redact scanUUID scanNumeric env2 (req\<lparr>cmq_Token := token\<rparr>) db2 = Some (db2, Inr result)"
proof -
  have inv: "import_inv sha db" using assms(1) by (rule reachable_import)
  have inv1: "import_inv sha db1" using Commit_keeps [OF assms(2) inv assms(3,4)] by blast
  have inv2: "import_inv sha db2" and k: "import_keeps db1 db2" using import_history.steps_keep [OF assms(5) inv1] by blast+
  obtain capturedAt parsed r where c: "captured_of (cmq_Kind req) (ce_clock env 0) (cmq_CapturedAt req) = Some (Some capturedAt)"
    and p: "Parse sha (cmq_Body req) (cmq_Kind req) = Some parsed" "ir_Valid parsed" and r: "r \<in> set (im_results db1)"
    and a: "answers req parsed capturedAt result r"
    by (rule Commit_answers [OF assms(2) inv assms(4)])
  have f: "find (\<lambda>r. rs_kind r = cmq_Kind req \<and> rs_key r = cmq_IdempotencyKey req) (im_results db2) = Some r"
    using find_result [OF inv2] r k a by (auto simp: import_keeps_def answers_def)
  obtain capturedAt2 where c2: "captured_of (cmq_Kind req) (ce_clock env2 0) (cmq_CapturedAt req) = Some (Some capturedAt2)"
    and same: "capturedAtForKind (cmq_Kind req) capturedAt2 = capturedAtForKind (cmq_Kind req) capturedAt"
    using c by (cases "cmq_Kind req = KindPositions") (auto simp: captured_of_def capturedAtForKind_def)
  have rep: "replay (ToLower (TrimSpace (cmq_TargetID req))) (req\<lparr>cmq_Token := token\<rparr>) parsed capturedAt2 r = Inr result"
    using a same by (simp add: answers_def replay_def)
  have guard: "\<not> (cmq_SchemaVersion req \<noteq> ImportSchema \<or> \<not> import_validUUID (ToLower (TrimSpace (cmq_TargetID req))) \<or> cmq_IdempotencyKey req = []
         \<or> length (cmq_IdempotencyKey req) > 255)"
    using assms(2) by (auto simp: Commit_def Let_def split: if_splits)
  then show ?thesis
    using assms(6-9) c2 p f rep by (auto simp: Commit_def commit_tx_def Let_def)
qed

subsection \<open>Tokens\<close>

lemma consumed_for_good:
  assumes "import_keeps a b" and "import_inv sha b" and "t \<in> set (im_tokens a)" and "tk_consumed t \<noteq> None"
  shows "check_token fails now (tk_digest t) target req parsed capturedAt b = Inl IErrConflict
    \<or> fails \<and> check_token fails now (tk_digest t) target req parsed capturedAt b = Inl (IErr ''lookup preview token'')"
proof -
  obtain u where u: "u \<in> set (im_tokens b)" "same_token t u" using assms(1,3) by (auto simp: import_keeps_def)
  then have "tk_digest u = tk_digest t" "tk_consumed u \<noteq> None" using assms(4) by (auto simp: same_token_def)
  with find_key [of tk_digest "im_tokens b" u] u(1) assms(2) show ?thesis by (auto simp: check_token_def import_inv_def)
qed

text \<open>A commit that stored a result, not one that was answered with an earlier one.\<close>

lemma Commit_stored:
  assumes "Commit sha redact scanUUID scanNumeric env req db = Some (db', Inr result)"
    and "(cmq_Kind req, cmq_IdempotencyKey req) \<notin> result_key ` set (im_results db)" and "ce_raceResult env = None"
  obtains capturedAt parsed b ref where "captured_of (cmq_Kind req) (ce_clock env 0) (cmq_CapturedAt req) = Some (Some capturedAt)"
    and "Parse sha (cmq_Body req) (cmq_Kind req) = Some parsed" and "ir_Valid parsed"
    and "check_token (ce_fault env (DbStmt 1)) (ce_clock env 1) (sha (cmq_Token req)) (ToLower (TrimSpace (cmq_TargetID req))) req parsed capturedAt db = Inr ()"
    and "archive_import sha redact env req (im_bucket db) = (b, Inr ref)"
    and "finish sha scanUUID scanNumeric env (ToLower (TrimSpace (cmq_TargetID req))) req capturedAt parsed ref (db\<lparr>im_bucket := b\<rparr>) = Inr (db', result)"
  using assms(1)
proof (cases rule: Commit_cases)
  case (transaction capturedAt parsed)
  let ?target = "ToLower (TrimSpace (cmq_TargetID req))"
  show ?thesis
  proof (cases rule: commit_tx_cases [of sha redact scanUUID scanNumeric env ?target req capturedAt parsed db])
    case (replayed existing)
    then show ?thesis using find_SomeD [OF replayed(1)] assms(2) by (force simp: result_key_def)
  next
    case (archived b ref dbA)
    have dbA: "dbA = db\<lparr>im_bucket := b\<rparr>" by (simp add: archived(5) assms(3))
    show ?thesis
    proof (cases "finish sha scanUUID scanNumeric env ?target req capturedAt parsed ref dbA")
      case (Inr x)
      then have "finish sha scanUUID scanNumeric env ?target req capturedAt parsed ref dbA = Inr (db', result)"
        using archived(6) transaction(4) by (cases x) auto
      then show ?thesis using that transaction(1-3) archived(2,4) dbA by blast
    next
      case (Inl answer)
      then have "finish sha scanUUID scanNumeric env ?target req capturedAt parsed ref dbA = Inl (Inr result)"
        using archived(6) transaction(4) by auto
      from finish_race [OF this] assms(2) show ?thesis by (force simp: dbA result_key_def)
    qed
  qed (use transaction(4) in auto)
qed simp

lemma rows_tokens:
  assumes "register_raw env ref db = Inr (db1, rawID)"
    and "import_rows scanUUID scanNumeric env kind target capturedAt parsed rawID db1 = Inr (db2, entries)"
  shows "im_tokens db2 = im_tokens db"
proof -
  have "im_tokens db1 = im_tokens db" using assms(1) by (auto simp: register_raw_def split: if_splits option.splits)
  moreover have "insert_prices xs db = Inr db' \<Longrightarrow> im_tokens db' = im_tokens db" for xs db db'
  proof (induction xs arbitrary: db)
    case (Cons x xs)
    then obtain db1 where "insert_price x db = Inr db1" and "im_tokens db' = im_tokens db1" by (auto simp: res_bind_eq_Inr)
    then show ?case by (auto simp: insert_price_def Let_def res_bind_eq_Inr split: prod.splits if_splits)
  qed simp
  ultimately show ?thesis
    using assms(2) by (auto simp: import_rows_def commitPrices_def res_bind_eq_Inr split: if_splits option.splits sum.splits)
qed

text \<open>
  C10. A token stores at most one result. After a commit that stored a result under a new key, every
  later request with the same token and a key that has no result is refused and changes nothing,
  whatever the request is and whatever happened in between.
\<close>

theorem token_single_use:
  assumes "(import_step sha redact scanUUID scanNumeric)\<^sup>*\<^sup>* im_empty db"
    and "Commit sha redact scanUUID scanNumeric env req db = Some (db1, Inr result)" and "ids_ok scanUUID env db"
    and "(cmq_Kind req, cmq_IdempotencyKey req) \<notin> result_key ` set (im_results db)" and "ce_raceResult env = None"
    and "(import_step sha redact scanUUID scanNumeric)\<^sup>*\<^sup>* db1 db2"
    and "cmq_Token req2 = cmq_Token req" and "(cmq_Kind req2, cmq_IdempotencyKey req2) \<notin> result_key ` set (im_results db2)"
    and "Commit sha redact scanUUID scanNumeric env2 req2 db2 = Some (db3, answer)"
  shows "db3 = db2 \<and> isl answer"
proof -
  have inv: "import_inv sha db" using assms(1) by (rule reachable_import)
  have inv1: "import_inv sha db1" using Commit_keeps [OF assms(2) inv assms(3)] assms(5) by (simp add: race_ok_def)
  have inv2: "import_inv sha db2" and k: "import_keeps db1 db2" using import_history.steps_keep [OF assms(6) inv1] by blast+
  obtain capturedAt parsed b ref where tok: "check_token (ce_fault env (DbStmt 1)) (ce_clock env 1) (sha (cmq_Token req)) (ToLower (TrimSpace (cmq_TargetID req))) req parsed capturedAt db = Inr ()"
    and fin: "finish sha scanUUID scanNumeric env (ToLower (TrimSpace (cmq_TargetID req))) req capturedAt parsed ref (db\<lparr>im_bucket := b\<rparr>) = Inr (db1, result)"
    by (rule Commit_stored [OF assms(2,4,5)])
  obtain t where t: "t \<in> set (im_tokens db)" "tk_digest t = sha (cmq_Token req)" by (rule check_token_Inr [OF tok])
  have "im_tokens db1 = consume (sha (cmq_Token req)) (ce_clock env 3) (im_tokens db)"
    by (rule finish_Inr [OF fin]) (use rows_tokens in \<open>fastforce simp del: fun_upd_apply\<close>)
  then have "t\<lparr>tk_consumed := Some (pg_time (ce_clock env 3))\<rparr> \<in> set (im_tokens db1)"
    using t by (force simp: consume_def set_sql_update)
  from consumed_for_good [OF k inv2 this] have refused: "isl (check_token fails now (sha (cmq_Token req)) target r p c db2)" for fails now target r p c
    using t(2) by (fastforce simp: isl_def)
  from assms(9) show ?thesis
  proof (cases rule: Commit_cases)
    case (transaction capturedAt parsed)
    have "find (\<lambda>r. rs_kind r = cmq_Kind req2 \<and> rs_key r = cmq_IdempotencyKey req2) (im_results db2) = None"
      using assms(8) by (force simp: find_None_iff result_key_def)
    then show ?thesis
      using transaction(4) refused [of "ce_fault env2 (DbStmt 1)" "ce_clock env2 1" "ToLower (TrimSpace (cmq_TargetID req2))" req2 parsed capturedAt] assms(7)
      by (auto simp: commit_tx_def isl_def split: if_splits)
  qed simp
qed

lemma Commit_failed:
  assumes "Commit sha redact scanUUID scanNumeric env req db = Some (db', Inl e)"
  shows "\<exists>b race. db' = db\<lparr>im_bucket := b, im_results := im_results db @ race\<rparr> \<and> set race \<subseteq> set_option (ce_raceResult env)
    \<and> (\<forall>k x. im_bucket db k = Some x \<longrightarrow> b k = Some x)"
  using assms
proof (cases rule: Commit_cases)
  case (refused e)
  then show ?thesis by (intro exI [of _ "im_bucket db"] exI [of _ "[]"]) simp
next
  case (transaction capturedAt parsed)
  show ?thesis
  proof (cases rule: commit_tx_cases [of sha redact scanUUID scanNumeric env "ToLower (TrimSpace (cmq_TargetID req))" req capturedAt parsed db])
    case (refused e)
    then show ?thesis using transaction(4) by (intro exI [of _ "im_bucket db"] exI [of _ "[]"]) simp
  next
    case (replayed existing)
    then show ?thesis using transaction(4) by (intro exI [of _ "im_bucket db"] exI [of _ "[]"]) simp
  next
    case (archive_failed b e)
    then show ?thesis using transaction(4) archive_import_keeps by (intro exI [of _ b] exI [of _ "[]"]) auto
  next
    case (archived b ref dbA)
    then have "db' = dbA" using transaction(4) by (auto split: sum.splits)
    then show ?thesis
      using archived(5) archive_import_keeps [OF archived(4)]
      by (intro exI [of _ b] exI [of _ "case ce_raceResult env of None \<Rightarrow> [] | Some r \<Rightarrow> [r]"]) (auto split: option.splits)
  qed
qed

text \<open>
  C12. A position file whose captured time is finer than a microsecond can be previewed but never
  committed. The preview stores the instant in a column of microseconds, the commit compares the
  stored instant with the one of the request, and so every commit of such a request is refused.
\<close>

theorem nanosecond_capture_refused:
  assumes "(import_step sha redact scanUUID scanNumeric)\<^sup>*\<^sup>* im_empty db"
    and "cmq_Kind req = KindPositions" and "parseRFC3339 (cmq_CapturedAt req) = Some (Some c)" and "pg_time c \<noteq> c"
    and "Commit sha redact scanUUID scanNumeric env req db = Some (db', answer)" and "ids_ok scanUUID env db" and "race_ok sha env db"
  shows "isl answer \<and> im_portfolio db' = im_portfolio db \<and> im_tokens db' = im_tokens db"
proof (cases answer)
  case (Inl e)
  then show ?thesis using Commit_failed [of sha redact scanUUID scanNumeric env req db db' e] assms(5) by auto
next
  case (Inr result)
  have inv: "import_inv sha db" using assms(1) by (rule reachable_import)
  have inv': "import_inv sha db'" using Commit_keeps [OF assms(5) inv assms(6,7)] by blast
  obtain capturedAt parsed r where cap: "captured_of (cmq_Kind req) (ce_clock env 0) (cmq_CapturedAt req) = Some (Some capturedAt)"
    and r: "r \<in> set (im_results db')" and a: "answers req parsed capturedAt result r"
    by (rule Commit_answers [OF assms(5) [unfolded Inr] inv assms(7)])
  have "rs_captured r = Some c"
    using a cap assms(2,3) by (auto simp: answers_def replay_def captured_of_def capturedAtForKind_def sameCapturedAt_eq split: if_splits)
  moreover have "rs_kind r = KindPositions" using a assms(2) by (simp add: answers_def)
  ultimately have "pg_time c = c" using inv' r by (auto simp: import_inv_def has_snapshot_def)
  then show ?thesis using assms(4) by simp
qed

subsection \<open>Rows\<close>

text \<open>The driver reads a decimal text without changing its value.\<close>

definition exact_import_scan :: "(string \<Rightarrow> pgNumeric option) \<Rightarrow> bool" where
  "exact_import_scan scanNumeric \<longleftrightarrow> (\<forall>v. import_decimalPattern v \<longrightarrow> (\<exists>n. scanNumeric v = Some n \<and> SetString v = Some (numeric_value n)))"

definition optional_value :: "string \<Rightarrow> rat option \<Rightarrow> bool" where
  "optional_value cell v \<longleftrightarrow> (if cell = [] then v = None else v \<noteq> None \<and> SetString cell = v)"

definition holds_position :: "(string \<Rightarrow> string option) \<Rightarrow> PositionRow \<Rightarrow> position_row \<Rightarrow> bool" where
  "holds_position scanUUID row l \<longleftrightarrow> scanUUID (TrimSpace (po_AccountID row)) = Some (psr_account l)
     \<and> scanUUID (TrimSpace (po_InstrumentID row)) = Some (psr_instrument l) \<and> SetString (po_Quantity row) = Some (psr_quantity l)
     \<and> optional_value (po_TotalCostBasis row) (psr_cost l) \<and> optional_value (po_ModifiedDurationYears row) (psr_duration l)
     \<and> optional_value (po_ConvexityYearsSquared row) (psr_convexity l)"

lemma parseNumeric_exact:
  assumes "exact_import_scan scanNumeric" and "import_validDecimal v optional" and "parseNumeric scanNumeric v optional = Some n"
  shows "optional_value v (map_option round18 (nullableNumeric n)) \<and> (\<not> optional \<longrightarrow> (\<exists>m. n = Some m \<and> SetString v = Some (round18 (numeric_value m))))"
proof (cases "v = []")
  case True
  with assms(2,3) show ?thesis by (auto simp: import_validDecimal_def parseNumeric_def optional_value_def nullableNumeric_def)
next
  case False
  then have v: "import_validDecimal v False" using assms(2) by (simp add: import_validDecimal_def)
  obtain q where q: "SetString v = Some q" "on_grid q" using import_decimal_fits [OF v] by blast
  have "import_decimalPattern v" using v by (auto simp: import_validDecimal_def split: if_splits)
  then obtain m where "scanNumeric v = Some m" "SetString v = Some (numeric_value m)" using assms(1) by (auto simp: exact_import_scan_def)
  with q assms(3) False show ?thesis by (auto simp: parseNumeric_def optional_value_def nullableNumeric_def on_grid_def)
qed

lemma copy_row_exact:
  assumes "exact_import_scan scanNumeric" and "position_ok row" and "copy_row scanUUID scanNumeric rowID now pid sid (k, row) = Some l"
  shows "holds_position scanUUID row (stored_line l) \<and> psr_snapshot (stored_line l) = sid"
proof -
  obtain a i q c d v where ids: "position_ids scanUUID row = Some (a, i)" and n: "parseNumeric scanNumeric (po_Quantity row) False = Some (Some q)"
    "parseNumeric scanNumeric (po_TotalCostBasis row) True = Some c" "parseNumeric scanNumeric (po_ModifiedDurationYears row) True = Some d"
    "parseNumeric scanNumeric (po_ConvexityYearsSquared row) True = Some v"
    and l: "l = \<lparr>psr_id = rowID k, psr_portfolio = pid, psr_snapshot = sid, psr_account = a, psr_instrument = i,
                psr_quantity = numeric_value q, psr_cost = nullableNumeric c, psr_duration = nullableNumeric d,
                psr_convexity = nullableNumeric v, psr_created = now\<rparr>"
    using assms(3) by (auto simp: copy_row_def split: option.splits prod.splits)
  have "scanUUID (TrimSpace (po_AccountID row)) = Some a" "scanUUID (TrimSpace (po_InstrumentID row)) = Some i"
    using ids by (auto simp: position_ids_def im_parseUUID_def split: option.splits)
  moreover note n [THEN parseNumeric_exact [OF assms(1), rotated]]
  ultimately show ?thesis using assms(2) by (simp add: holds_position_def stored_line_def l position_ok_def)
qed

lemma copy_rows_exact:
  assumes "exact_import_scan scanNumeric" and "list_all position_ok rows"
    and "parse_all (copy_row scanUUID scanNumeric rowID now pid sid) (enumerate k rows) = Some ls"
  shows "list_all2 (holds_position scanUUID) rows (map stored_line ls)" and "\<forall>l \<in> set (map stored_line ls). psr_snapshot l = sid"
proof -
  have "list_all2 (holds_position scanUUID) rows (map stored_line ls) \<and> (\<forall>l \<in> set (map stored_line ls). psr_snapshot l = sid)"
    using assms(2,3)
  proof (induction rows arbitrary: k ls)
    case (Cons row rows)
    then obtain l ls' where "copy_row scanUUID scanNumeric rowID now pid sid (k, row) = Some l"
      and "parse_all (copy_row scanUUID scanNumeric rowID now pid sid) (enumerate (Suc k) rows) = Some ls'" and "ls = l # ls'"
      by (auto split: option.splits)
    with Cons copy_row_exact [OF assms(1)] show ?case by auto
  qed simp
  then show "list_all2 (holds_position scanUUID) rows (map stored_line ls)" and "\<forall>l \<in> set (map stored_line ls). psr_snapshot l = sid"
    by blast+
qed

lemma fresh_lines:
  assumes "pf_inv db" and "i \<notin> snr_id ` set (pf_snapshots db)"
  shows "filter (\<lambda>l. psr_snapshot l = i) (pf_lines db) = []"
proof -
  have "psr_snapshot l \<in> snr_id ` set (pf_snapshots db)" if "l \<in> set (pf_lines db)" for l
  proof -
    have "line_ok db l" using assms(1) that by (simp add: pf_inv_def list_all_iff)
    then show ?thesis by (auto simp: line_ok_def image_iff) metis
  qed
  with assms(2) show ?thesis by (auto simp: filter_empty_conv)
qed

text \<open>
  C11. Committing a position file stores the file as it was parsed: exactly one new snapshot, of the
  target portfolio and with the instant of the request, which the answer names, and its lines are the
  rows of the file in order, each with the account and instrument of the row and with exactly the
  decimal values of its cells, empty cells being absent values.
\<close>

theorem import_positions_exact:
  assumes "(import_step sha redact scanUUID scanNumeric)\<^sup>*\<^sup>* im_empty db" and "exact_import_scan scanNumeric"
    and "Commit sha redact scanUUID scanNumeric env req db = Some (db', Inr result)" and "ids_ok scanUUID env db"
    and "(cmq_Kind req, cmq_IdempotencyKey req) \<notin> result_key ` set (im_results db)" and "ce_raceResult env = None" and "cmq_Kind req = KindPositions"
  shows "\<exists>parsed s. Parse sha (cmq_Body req) KindPositions = Some parsed \<and> pf_snapshots (im_portfolio db') = pf_snapshots (im_portfolio db) @ [s]
    \<and> snr_portfolio s = ToLower (TrimSpace (cmq_TargetID req)) \<and> parseRFC3339 (cmq_CapturedAt req) = Some (Some (snr_captured s))
    \<and> map_of result ''snapshot_id'' = Some (JStr (snr_id s))
    \<and> list_all2 (holds_position scanUUID) (ir_Positions parsed) (filter (\<lambda>l. psr_snapshot l = snr_id s) (pf_lines (im_portfolio db')))"
proof -
  have inv: "import_inv sha db" using assms(1) by (rule reachable_import)
  then have pf: "pf_inv (im_portfolio db)" by (simp add: import_inv_def)
  let ?target = "ToLower (TrimSpace (cmq_TargetID req))"
  obtain capturedAt parsed b ref where cap: "captured_of (cmq_Kind req) (ce_clock env 0) (cmq_CapturedAt req) = Some (Some capturedAt)"
    and p: "Parse sha (cmq_Body req) (cmq_Kind req) = Some parsed" "ir_Valid parsed"
    and tok: "check_token (ce_fault env (DbStmt 1)) (ce_clock env 1) (sha (cmq_Token req)) ?target req parsed capturedAt db = Inr ()"
    and fin: "finish sha scanUUID scanNumeric env ?target req capturedAt parsed ref (db\<lparr>im_bucket := b\<rparr>) = Inr (db', result)"
    by (rule Commit_stored [OF assms(3,5,6)])
  have precise: "pg_time capturedAt = capturedAt" using token_precise [OF tok inv] assms(7) by (simp add: capturedAtForKind_def)
  obtain db1 db2 rawID entries resultID where reg: "register_raw env ref (db\<lparr>im_bucket := b\<rparr>) = Inr (db1, rawID)"
    and rows: "import_rows scanUUID scanNumeric env (cmq_Kind req) ?target capturedAt parsed rawID db1 = Inr (db2, entries)"
    and result: "result = entries @ [(''import_kind'', JStr (cmq_Kind req)), (''target_id'', JStr ?target), (''schema_version'', JStr (cmq_SchemaVersion req)),
                 (''content_sha256'', JStr (ir_ContentSHA256 parsed)), (''row_count'', JNum (int_str (ir_RowCount parsed))),
                 (''import_result_id'', JStr resultID)]"
    and db': "im_portfolio db' = im_portfolio db2"
    by (rule finish_Inr [OF fin]) auto
  have db1: "im_portfolio db1 = im_portfolio db" by (rule register_raw_Inr [OF reg]) simp
  obtain q where q: "commitPositions scanUUID scanNumeric env ?target capturedAt parsed (ir_ContentSHA256 parsed) (im_portfolio db) = Inr (q, entries)"
    and db2: "im_portfolio db2 = q"
    using rows assms(7) db1 by (auto simp: import_rows_def res_bind_eq_Inr)
  obtain s ls where s: "s = \<lparr>snr_id = ce_snapshotID env, snr_portfolio = ?target, snr_captured = pg_time capturedAt, snr_supersedes = None, snr_created = ce_dbTime env\<rparr>"
    and q': "q = (im_portfolio db)\<lparr>pf_snapshots := pf_snapshots (im_portfolio db) @ [s], pf_lines := pf_lines (im_portfolio db) @ map stored_line ls\<rparr>"
    and e: "entries = [(''snapshot_id'', JStr (snr_id s)), (''raw_object_sha256'', JStr (ir_ContentSHA256 parsed))]"
    and ls: "parse_all (copy_row scanUUID scanNumeric (ce_rowID env) (ce_dbTime env) (the (scanUUID (TrimSpace ?target))) (snr_id s)) (enumerate 0 (ir_Positions parsed)) = Some ls"
    by (rule commitPositions_Inr [OF q pf]) (use assms(4) in \<open>auto simp: ids_ok_def\<close>)
  have ok: "list_all position_ok (ir_Positions parsed)"
    by (rule Parse_valid_rows [OF p]) (use assms(7) in \<open>auto simp: rows_ok_def\<close>)
  note rows = copy_rows_exact [OF assms(2) ok ls]
  have "filter (\<lambda>l. psr_snapshot l = snr_id s) (pf_lines (im_portfolio db)) = []"
    using fresh_lines [OF pf] assms(4) by (simp add: s ids_ok_def)
  with rows(2) have "filter (\<lambda>l. psr_snapshot l = snr_id s) (pf_lines q) = map stored_line ls"
    by (simp add: q' filter_id_conv)
  with rows(1) p cap precise s q' e result db' db2 assms(7) show ?thesis
    by (intro exI [of _ parsed] exI [of _ s]) (auto simp: captured_of_def)
qed

end
