(* ===== verification/Portfolio_Snapshots.thy ===== *)
theory Portfolio_Snapshots
  imports Portfolio_Properties
begin

text \<open>
  Storing a snapshot: what the checks of \<open>prepareLines\<close> guarantee about a line, that a line
  that passed them violates no constraint, and that a stored snapshot reads back with the values of
  the request. Of the driver's decimals two things are used: reading a decimal text keeps its value
  (\<open>exact_scan\<close>), and so does handing back a stored value (\<open>exact_read\<close>).
\<close>

definition exact_scan :: "(string \<Rightarrow> pgNumeric option) \<Rightarrow> bool" where
  "exact_scan scanNumeric \<longleftrightarrow> (\<forall>v. decimalPattern v \<longrightarrow> (\<exists>n. scanNumeric v = Some n \<and> SetString v = Some (numeric_value n)))"

definition exact_read :: "(rat \<Rightarrow> pgNumeric) \<Rightarrow> bool" where
  "exact_read readNumeric \<longleftrightarrow> (\<forall>v. fits_numeric v \<longrightarrow> numeric_value (readNumeric v) = v)"

subsection \<open>Decimals of a request\<close>

lemma plain_integer_trim:
  assumes "plain_integer ip" and "length (trim_left_char CHR ''0'' ip) \<le> 20"
  shows "length ip \<le> 20"
proof (cases "ip = ''0''")
  case False
  with assms(1) obtain c t where "ip = c # t" "c \<noteq> CHR ''0''" by (cases ip) (auto simp: plain_integer_def all_digits_def)
  then show ?thesis using assms(2) by (auto simp: trim_left_char_def)
qed simp

lemma parseDecimal_exact:
  assumes "pf_parseDecimal scanNumeric v optional = Some (Some n)" and "exact_scan scanNumeric"
  shows "SetString (TrimSpace v) = Some (numeric_value n) \<and> fits_numeric (numeric_value n) \<and> TrimSpace v \<noteq> []"
proof -
  define t where "t = TrimSpace v"
  obtain ip fp where s: "split_point (trim_prefix t ''-'') = (ip, fp)" by (cases "split_point (trim_prefix t ''-'')")
  note unf = assms(1) [unfolded pf_parseDecimal_def Let_def, folded t_def, unfolded s prod.case]
  have pat: "decimalPattern t" and ne: "t \<noteq> []" using unf by (auto split: if_splits)
  have n: "scanNumeric t = Some n" and fd: "length (frac_digits fp) \<le> 18" and il: "length (trim_left_char CHR ''0'' ip) \<le> 20"
    using unf by (auto simp: frac_digits_def split: if_splits option.splits)
  note parts = decimalPattern_parts [OF pat s]
  have "length ip \<le> 20" using plain_integer_trim [OF parts(2) il] .
  then have fits: "on_grid (digits_rat ip (frac_digits fp)) \<and> digits_rat ip (frac_digits fp) < numeric_limit"
    using digits_rat_fits plain_integer_digits [OF parts(2)] parts(3) fd by blast
  have val: "SetString t = Some (numeric_value n)" using assms(2) pat n by (auto simp: exact_scan_def)
  then have "numeric_value n = (if has_prefix t ''-'' then - digits_rat ip (frac_digits fp) else digits_rat ip (frac_digits fp))"
    using parts(1) by simp
  then have "fits_numeric (numeric_value n)"
    using fits digits_rat_nonneg [of ip "frac_digits fp"] by (simp add: fits_numeric_def on_grid_minus)
  then show ?thesis using val ne by (simp add: t_def)
qed

lemma parseDecimal_optional:
  "pf_parseDecimal scanNumeric v True = Some None \<Longrightarrow> TrimSpace v = []"
  "pf_parseDecimal scanNumeric v False \<noteq> Some None"
  by (auto simp: pf_parseDecimal_def Let_def split: if_splits option.splits prod.splits)

lemma numeric_value_sign: "0 < numeric_value n \<longleftrightarrow> 0 < pn_Int n" "0 \<le> numeric_value n \<longleftrightarrow> 0 \<le> pn_Int n"
proof -
  obtain w where "0 < w" and v: "numeric_value n = of_int (pn_Int n) * w"
    by (cases "0 \<le> pn_Exp n") (simp_all add: numeric_value_def that [of "10 ^ nat (pn_Exp n)"] that [of "1 / 10 ^ nat (- pn_Exp n)"])
  then show "0 < numeric_value n \<longleftrightarrow> 0 < pn_Int n" "0 \<le> numeric_value n \<longleftrightarrow> 0 \<le> pn_Int n"
    by (auto simp: v zero_less_mult_iff zero_le_mult_iff)
qed

subsection \<open>Prepared lines\<close>

definition shows_value :: "string \<Rightarrow> rat \<Rightarrow> bool" where
  "shows_value v r \<longleftrightarrow> SetString (TrimSpace v) = Some r \<and> fits_numeric r"

definition shows_optional :: "string \<Rightarrow> rat option \<Rightarrow> bool" where
  "shows_optional v r \<longleftrightarrow> (case r of None \<Rightarrow> TrimSpace v = [] | Some x \<Rightarrow> TrimSpace v \<noteq> [] \<and> shows_value v x)"

definition prepared_ok :: "(string \<Rightarrow> string option) \<Rightarrow> string \<Rightarrow> portfolio_db \<Rightarrow> SnapshotLineInput \<Rightarrow> position_row \<Rightarrow> bool" where
  "prepared_ok scanUUID pid db input l \<longleftrightarrow>
     pf_parseUUID scanUUID (sli_AccountID input) = Some (psr_account l) \<and> pf_parseUUID scanUUID (sli_InstrumentID input) = Some (psr_instrument l)
     \<and> (\<exists>a \<in> set (pf_accounts db). acr_id a = psr_account l \<and> acr_portfolio a = pid)
     \<and> (\<exists>i \<in> set (pf_instruments db). ins_id i = psr_instrument l \<and> bond_rule (ins_type i) l)
     \<and> shows_value (sli_Quantity input) (psr_quantity l) \<and> rel_option shows_value (sli_TotalCostBasis input) (psr_cost l)
     \<and> shows_optional (sli_ModifiedDurationYears input) (psr_duration l) \<and> shows_optional (sli_ConvexityYearsSquared input) (psr_convexity l)"

lemma prepare_line_ok:
  assumes "prepare_line scanUUID scanNumeric failsA failsI pid db seen input = Inr l" and "exact_scan scanNumeric"
  shows "prepared_ok scanUUID pid db input (position_of i pid s now l) \<and> (pl_accountID l, pl_instrumentID l) \<notin> set seen"
proof -
  obtain a instr c d v where ids: "pf_parseUUID scanUUID (sli_AccountID input) = Some (pl_accountID l)"
    "pf_parseUUID scanUUID (sli_InstrumentID input) = Some (pl_instrumentID l)" "(pl_accountID l, pl_instrumentID l) \<notin> set seen"
    and a: "q_GetAccount failsA (pl_accountID l) db = Inr a" "acr_portfolio a = pid"
    and i: "q_GetPortfolioInstrument failsI (pl_instrumentID l) db = Inr instr"
    and n: "pf_parseDecimal scanNumeric (sli_Quantity input) False = Some (Some (pl_quantity l))"
    "(case sli_TotalCostBasis input of None \<Rightarrow> Some None | Some c \<Rightarrow> pf_parseDecimal scanNumeric c False) = Some (pl_costBasis l)"
    "pf_parseDecimal scanNumeric (sli_ModifiedDurationYears input) True = Some (pl_duration l)"
    "pf_parseDecimal scanNumeric (sli_ConvexityYearsSquared input) True = Some (pl_convexity l)"
    and rule: "\<not> (if ins_type instr = InstrumentFixedBond
        then (case pl_duration l of None \<Rightarrow> True | Some d \<Rightarrow> pn_Int d \<le> 0) \<or> (case pl_convexity l of None \<Rightarrow> False | Some c \<Rightarrow> pn_Int c < 0)
        else pl_duration l \<noteq> None \<or> pl_convexity l \<noteq> None)"
    using assms(1) unfolding prepare_line_def
    by (auto split: option.splits if_split_asm sum.splits sql_error.splits)
  have "\<exists>a \<in> set (pf_accounts db). acr_id a = pl_accountID l \<and> acr_portfolio a = pid"
    using a by (auto simp: q_GetAccount_def split: if_splits option.splits dest!: find_SomeD)
  moreover have "instr \<in> set (pf_instruments db)" "ins_id instr = pl_instrumentID l"
    using i by (auto simp: q_GetPortfolioInstrument_def split: if_splits option.splits dest!: find_SomeD)
  moreover have "bond_rule (ins_type instr) (position_of i pid s now l)"
    using rule by (auto simp: bond_rule_def position_of_def not_le not_less numeric_value_sign split: if_splits option.splits)
  moreover have "shows_value (sli_Quantity input) (numeric_value (pl_quantity l))"
    using parseDecimal_exact [OF n(1) assms(2)] by (simp add: shows_value_def)
  moreover have "rel_option shows_value (sli_TotalCostBasis input) (map_option numeric_value (pl_costBasis l))"
    using n(2) parseDecimal_exact [OF _ assms(2)] parseDecimal_optional(2)
    by (cases "sli_TotalCostBasis input"; cases "pl_costBasis l") (auto simp: shows_value_def)
  moreover have "shows_optional v (map_option numeric_value r)" if "pf_parseDecimal scanNumeric v True = Some r" for v r
    using that parseDecimal_exact [OF _ assms(2)] parseDecimal_optional(1) by (cases r) (auto simp: shows_optional_def shows_value_def)
  ultimately show ?thesis using ids n(3,4) by (auto simp: prepared_ok_def position_of_def)
qed

lemma prepareLines_ok:
  assumes "prepareLines scanUUID scanNumeric fault k pid db seen inputs = Inr ls" and "exact_scan scanNumeric"
  shows "list_all2 (\<lambda>input l. \<forall>i s. prepared_ok scanUUID pid db input (position_of i pid s now l)) inputs ls
    \<and> distinct (map (\<lambda>l. (pl_accountID l, pl_instrumentID l)) ls) \<and> (\<lambda>l. (pl_accountID l, pl_instrumentID l)) ` set ls \<inter> set seen = {}"
  using assms
proof (induction inputs arbitrary: k seen ls)
  case (Cons input inputs)
  then obtain l ls' where 1: "prepare_line scanUUID scanNumeric (fault (DbStmt k)) (fault (DbStmt (k + 1))) pid db seen input = Inr l"
    and 2: "prepareLines scanUUID scanNumeric fault (k + 2) pid db ((pl_accountID l, pl_instrumentID l) # seen) inputs = Inr ls'" and ls: "ls = l # ls'"
    by (auto simp: res_bind_eq_Inr)
  from Cons.IH [OF 2 assms(2)] prepare_line_ok [OF 1 assms(2)] show ?case by (auto simp: ls)
qed simp

definition positions_of :: "(nat \<Rightarrow> string) \<Rightarrow> string \<Rightarrow> string \<Rightarrow> time \<Rightarrow> preparedLine list \<Rightarrow> position_row list" where
  "positions_of newLineID pid s now inputs = map (\<lambda>(k, l). position_of (newLineID k) pid s now l) (enumerate 0 inputs)"

text \<open>The rows that are written: each meets the checks, and their keys differ.\<close>

lemma positions_ok:
  assumes "prepareLines scanUUID scanNumeric fault k pid db [] inputs = Inr ls" and "exact_scan scanNumeric"
  shows "list_all2 (prepared_ok scanUUID pid db) inputs (positions_of newLineID pid s now ls)"
    and "distinct (map line_key (positions_of newLineID pid s now ls))"
    and "\<forall>l \<in> set (positions_of newLineID pid s now ls). psr_snapshot l = s \<and> psr_portfolio l = pid"
proof -
  note p = prepareLines_ok [OF assms, where now = now]
  have len: "length ls = length inputs" using list_all2_lengthD [OF conjunct1 [OF p]] by simp
  have nth: "positions_of newLineID pid s now ls ! k = position_of (newLineID k) pid s now (ls ! k)" if "k < length ls" for k
    using that by (simp add: positions_of_def nth_enumerate_eq)
  show "list_all2 (prepared_ok scanUUID pid db) inputs (positions_of newLineID pid s now ls)"
    using p len nth by (auto simp: list_all2_conv_all_nth positions_of_def) 
  have "map line_key (positions_of newLineID pid s now ls) = map (\<lambda>l. (s, pl_accountID l, pl_instrumentID l)) ls"
    by (rule nth_equalityI) (simp_all add: positions_of_def nth_enumerate_eq position_of_def)
  moreover have "distinct (map (\<lambda>l. (s, pl_accountID l, pl_instrumentID l)) ls)"
    using p by (auto simp: distinct_map inj_on_def)
  ultimately show "distinct (map line_key (positions_of newLineID pid s now ls))" by simp
  show "\<forall>l \<in> set (positions_of newLineID pid s now ls). psr_snapshot l = s \<and> psr_portfolio l = pid"
    by (auto simp: positions_of_def position_of_def)
qed

lemma prepared_ok_stored:
  assumes "prepared_ok scanUUID pid db input l"
  shows "stored_line l = l" and "fits_numeric (psr_quantity l)" and "pred_option fits_numeric (psr_cost l)"
    and "pred_option fits_numeric (psr_duration l)" and "pred_option fits_numeric (psr_convexity l)"
proof -
  show fits: "fits_numeric (psr_quantity l)" "pred_option fits_numeric (psr_cost l)"
    "pred_option fits_numeric (psr_duration l)" "pred_option fits_numeric (psr_convexity l)"
    using assms by (auto simp: prepared_ok_def shows_value_def shows_optional_def pred_option_def rel_option_iff split: option.splits)
  have "map_option round18 r = r" if "pred_option fits_numeric r" for r
    using that by (cases r) (auto simp: fits_numeric_def on_grid_def)
  then show "stored_line l = l" using fits by (simp add: stored_line_def fits_numeric_def on_grid_def)
qed

subsection \<open>No constraint is left to fail\<close>

lemma to_numeric_ok: "fits_numeric v \<Longrightarrow> to_numeric v = Inr v" "pred_option fits_numeric r \<Longrightarrow> to_nullable r = Inr r"
  by (cases r; simp add: to_numeric_def to_nullable_def fits_numeric_def on_grid_def)+

lemma insert_line_succeeds:
  assumes "prepared_ok scanUUID pid db0 input l" and "pf_inv db" and "psr_portfolio l = pid"
    and "pf_accounts db = pf_accounts db0" and "pf_instruments db = pf_instruments db0"
    and "\<exists>s \<in> set (pf_snapshots db). snr_id s = psr_snapshot l \<and> snr_portfolio s = pid"
    and "line_key l \<notin> line_key ` set (pf_lines db)"
  shows "q_InsertPortfolioSnapshotLine False l db = Inr (db\<lparr>pf_lines := pf_lines db @ [l]\<rparr>)"
proof -
  note fits = prepared_ok_stored(2-5) [OF assms(1)]
  obtain i where i: "i \<in> set (pf_instruments db)" "ins_id i = psr_instrument l" "bond_rule (ins_type i) l"
    using assms(1,5) by (auto simp: prepared_ok_def)
  have f: "find (\<lambda>i. ins_id i = psr_instrument l) (pf_instruments db) = Some i"
    using find_key [of ins_id "pf_instruments db" i] i assms(2) by (simp add: pf_inv_def)
  have "\<not> list_ex (\<lambda>x. psr_snapshot x = psr_snapshot l \<and> psr_account x = psr_account l \<and> psr_instrument x = psr_instrument l) (pf_lines db)"
    using assms(7) by (auto simp: list_ex_iff image_iff)
  moreover have "list_ex (\<lambda>s. snr_portfolio s = psr_portfolio l \<and> snr_id s = psr_snapshot l) (pf_snapshots db)"
    "list_ex (\<lambda>a. acr_portfolio a = psr_portfolio l \<and> acr_id a = psr_account l) (pf_accounts db)"
    using assms(1,3,4,6) by (auto simp: prepared_ok_def list_ex_iff)
  moreover have "\<not> (ins_type i = ''fixed_rate_bond'' \<and> (case psr_duration l of None \<Rightarrow> True | Some d \<Rightarrow> d \<le> 0))"
    "\<not> (ins_type i \<noteq> ''fixed_rate_bond'' \<and> (psr_duration l \<noteq> None \<or> psr_convexity l \<noteq> None))"
    "\<not> (case psr_convexity l of None \<Rightarrow> False | Some c \<Rightarrow> c < 0)"
    using i(3) by (auto simp: bond_rule_def not_less split: option.splits if_splits)
  ultimately have "line_violation db l = None" unfolding line_violation_def f option.case by simp
  then show ?thesis using fits by (simp add: q_InsertPortfolioSnapshotLine_def to_numeric_ok)
qed

lemma insert_lines_succeed:
  assumes "list_all2 (prepared_ok scanUUID pid db0) inputs ls" and "pf_inv db" and "\<forall>l \<in> set ls. psr_snapshot l = s \<and> psr_portfolio l = pid"
    and "pf_accounts db = pf_accounts db0" and "pf_instruments db = pf_instruments db0"
    and "\<exists>x \<in> set (pf_snapshots db). snr_id x = s \<and> snr_portfolio x = pid"
    and "distinct (map line_key ls)" and "line_key ` set ls \<inter> line_key ` set (pf_lines db) = {}"
  shows "insert_lines no_fault k ls db = Inr (db\<lparr>pf_lines := pf_lines db @ ls\<rparr>)"
  using assms
proof (induction inputs ls arbitrary: k db rule: list_all2_induct)
  case (Cons input inputs l ls)
  let ?db = "db\<lparr>pf_lines := pf_lines db @ [l]\<rparr>"
  have 1: "q_InsertPortfolioSnapshotLine False l db = Inr ?db"
    by (rule insert_line_succeeds [OF Cons.hyps(1)]) (use Cons.prems in auto)
  have "stored_line l = l" using prepared_ok_stored(1) [OF Cons.hyps(1)] .
  then have "pf_inv ?db" using q_InsertPortfolioSnapshotLine_keeps [OF 1 Cons.prems(1)] by simp
  then have "insert_lines no_fault (k + 1) ls ?db = Inr (?db\<lparr>pf_lines := pf_lines ?db @ ls\<rparr>)"
    by (intro Cons.IH) (use Cons.prems in auto)
  with 1 show ?case by simp
qed simp

lemma find_NoRows: "(case find P xs of None \<Rightarrow> Inl SqlNoRows | Some r \<Rightarrow> Inr r) = Inl e \<Longrightarrow> e = SqlNoRows"
  by (auto split: option.splits)

lemma prepareLines_error:
  "prepareLines scanUUID scanNumeric no_fault k pid db seen inputs = Inl e \<Longrightarrow> e = PErrInvalidRequest"
proof (induction inputs arbitrary: k seen)
  case (Cons input inputs)
  have "e = PErrInvalidRequest" if "prepare_line scanUUID scanNumeric False False pid db seen input = Inl e"
    using that unfolding prepare_line_def q_GetPortfolioInstrument_def
    by (auto split: option.splits if_split_asm sum.splits sql_error.splits)
  with Cons show ?case by (auto simp: res_bind_eq_Inl)
qed simp

lemma superseded_error:
  "superseded scanUUID False pid i db = Inl e \<Longrightarrow> e \<in> {PErrInvalidRequest, PErrNotFound}"
  by (auto simp: superseded_def q_GetPortfolioSnapshot_def split: option.splits if_split_asm)

lemma superseded_Inr:
  assumes "superseded scanUUID fails pid i db = Inr (Some j)"
  shows "\<exists>s \<in> set (pf_snapshots db). snr_id s = j \<and> snr_portfolio s = pid"
  using assms by (auto simp: superseded_def q_GetPortfolioSnapshot_def split: option.splits if_split_asm sum.splits sql_error.splits dest!: find_SomeD)

lemma old_lines_elsewhere:
  assumes "pf_inv db" and "newID \<notin> snr_id ` set (pf_snapshots db)" and "l \<in> set (pf_lines db)"
  shows "psr_snapshot l \<noteq> newID"
proof -
  have "line_ok db l" using assms(1,3) by (simp add: pf_inv_def list_all_iff)
  then show ?thesis using assms(2) by (force simp: line_ok_def)
qed

text \<open>With no failure of the database the transaction goes through.\<close>

lemma store_snapshot_succeeds:
  assumes inv: "pf_inv db" and exact: "exact_scan scanNumeric" and fresh: "newID \<notin> snr_id ` set (pf_snapshots db)"
    and p: "q_GetPortfolio False pid db = Inr prow" and sup: "superseded scanUUID False pid (csr_SupersedesSnapshotID request) db = Inr supersedes"
    and prep: "prepareLines scanUUID scanNumeric no_fault 2 pid db [] (csr_Lines request) = Inr inputs"
  shows "\<exists>x. store_snapshot scanUUID scanNumeric no_fault now newID newLineID pid request db = Inr x"
proof -
  define row where "row = \<lparr>snr_id = newID, snr_portfolio = pid, snr_captured = pg_time (csr_CapturedAt request), snr_supersedes = supersedes, snr_created = now\<rparr>"
  define ls where "ls = positions_of newLineID pid newID now inputs"
  have sup': "\<exists>s \<in> set (pf_snapshots db). snr_id s = j \<and> snr_portfolio s = pid" if "supersedes = Some j" for j
    using superseded_Inr sup that by blast
  have pid: "pid \<in> pfr_id ` set (pf_portfolios db)"
    using p by (auto simp: q_GetPortfolio_def split: option.splits dest!: find_SomeD)
  have 1: "q_CreatePortfolioSnapshot False row db = Inr (db\<lparr>pf_snapshots := pf_snapshots db @ [row]\<rparr>, row)" (is "_ = Inr (?db1, _)")
    using pid sup' fresh unfolding q_CreatePortfolioSnapshot_def list_ex_id by (auto simp: row_def list_ex_iff split: option.splits)
  have inv1: "pf_inv ?db1" using q_CreatePortfolioSnapshot_keeps [OF 1 inv] fresh by (simp add: row_def)
  note pos = positions_ok [OF prep exact, where s = newID and now = now and newLineID = newLineID, folded ls_def]
  have "line_key ` set ls \<inter> line_key ` set (pf_lines ?db1) = {}"
    using pos(3) old_lines_elsewhere [OF inv fresh] by fastforce
  then have 2: "insert_lines no_fault (2 + 2 * length (csr_Lines request) + 1) ls ?db1 = Inr (?db1\<lparr>pf_lines := pf_lines ?db1 @ ls\<rparr>)"
    by (intro insert_lines_succeed [OF pos(1) inv1 pos(3)]) (use pos(2) in \<open>auto simp: row_def\<close>)
  show ?thesis
    unfolding store_snapshot_def Let_def
    using p sup prep 1 2 [unfolded ls_def positions_of_def] by (simp flip: row_def) (simp add: row_def)
qed

lemma store_snapshot_error:
  assumes "pf_inv db" and "exact_scan scanNumeric" and "newID \<notin> snr_id ` set (pf_snapshots db)"
    and "store_snapshot scanUUID scanNumeric no_fault now newID newLineID pid request db = Inl e"
  shows "e \<in> {PErrInvalidRequest, PErrNotFound}"
proof (cases "q_GetPortfolio False pid db")
  case (Inl e')
  then have "e' = SqlNoRows" by (auto simp: q_GetPortfolio_def split: option.splits)
  with Inl assms(4) show ?thesis by (simp add: store_snapshot_def Let_def not_found_or_def)
next
  case p: (Inr prow)
  show ?thesis
  proof (cases "superseded scanUUID False pid (csr_SupersedesSnapshotID request) db")
    case (Inl e')
    with p assms(4) have "e' = e" by (simp add: store_snapshot_def Let_def)
    with superseded_error [OF Inl] show ?thesis by simp
  next
    case sup: (Inr supersedes)
    show ?thesis
    proof (cases "prepareLines scanUUID scanNumeric no_fault 2 pid db [] (csr_Lines request)")
      case (Inl e')
      with p sup assms(4) have "e' = e" by (simp add: store_snapshot_def Let_def)
      with prepareLines_error [OF Inl] show ?thesis by simp
    next
      case (Inr inputs)
      with store_snapshot_succeeds [OF assms(1-3) p sup Inr, where now = now and newLineID = newLineID] assms(4) show ?thesis by auto
    qed
  qed
qed

text \<open>
  C16. The checks the service makes on a snapshot are complete: unless the database itself fails, a
  call with a fresh identifier that does not succeed was refused as invalid or for a missing row and
  changed nothing. No constraint or trigger of the tables is ever left to refuse the write, so the
  caller never sees a conflict or an internal error.
\<close>
theorem snapshot_checks_complete:
  assumes "portfolio_step\<^sup>*\<^sup>* pf_empty db" and "exact_scan scanNumeric" and "newID \<notin> snr_id ` set (pf_snapshots db)"
    and "CreateSnapshot True scanUUID scanNumeric readNumeric collate no_fault now newID newLineID portfolioID request db = (db', Inl e)"
  shows "db' = db \<and> e \<in> {PErrInvalidRequest, PErrNotFound}"
proof -
  have inv: "pf_inv db" using assms(1) by (rule reachable_pf_inv)
  show ?thesis
  proof (cases "pf_parseUUID scanUUID portfolioID")
    case None
    with assms(4) show ?thesis by (simp add: CreateSnapshot_def)
  next
    case pid: (Some pid)
    show ?thesis
    proof (cases "csr_CapturedAt request = zero_time \<or> csr_Lines request = []")
      case True
      with assms(4) pid show ?thesis by (simp add: CreateSnapshot_def)
    next
      case False
      note unf = assms(4) [unfolded CreateSnapshot_def pid option.case if_not_P [OF False]]
      have "snapshot collate readNumeric False row db2 \<noteq> Inl e" for row db2
        by (simp add: snapshot_def q_ListPortfolioSnapshotLines_def)
      with unf have "store_snapshot scanUUID scanNumeric no_fault now newID newLineID pid request db = Inl e" and "db' = db"
        by (simp_all split: sum.splits prod.splits)
      with store_snapshot_error [OF inv assms(2,3)] show ?thesis by blast
    qed
  qed
qed

subsection \<open>Reading a stored snapshot\<close>

definition same_value :: "string \<Rightarrow> string \<Rightarrow> bool" where
  "same_value asked shown \<longleftrightarrow> (\<exists>v. SetString (TrimSpace asked) = Some v \<and> SetString shown = Some v)"

definition same_optional :: "string \<Rightarrow> string \<Rightarrow> bool" where
  "same_optional asked shown \<longleftrightarrow> (if TrimSpace asked = [] then shown = [] else same_value asked shown)"

definition line_shows :: "(string \<Rightarrow> string option) \<Rightarrow> SnapshotLineInput \<Rightarrow> SnapshotLine \<Rightarrow> bool" where
  "line_shows scanUUID input l \<longleftrightarrow>
     scanUUID (TrimSpace (sli_AccountID input)) = Some (sn_AccountID l) \<and> scanUUID (TrimSpace (sli_InstrumentID input)) = Some (sn_InstrumentID l)
     \<and> same_value (sli_Quantity input) (sn_Quantity l) \<and> rel_option same_value (sli_TotalCostBasis input) (sn_TotalCostBasis l)
     \<and> same_optional (sli_ModifiedDurationYears input) (sn_ModifiedDurationYears l)
     \<and> same_optional (sli_ConvexityYearsSquared input) (sn_ConvexityYearsSquared l)"

lemma shown_value:
  assumes "exact_read readNumeric"
  shows "shows_value v r \<Longrightarrow> same_value v (numericString (Some (readNumeric r)))"
    and "rel_option shows_value c q \<Longrightarrow> rel_option same_value c (numericPointer (map_option readNumeric q))"
    and "shows_optional v q \<Longrightarrow> same_optional v (numericOptionalString (map_option readNumeric q))"
proof -
  show one: "same_value v (numericString (Some (readNumeric r)))" if "shows_value v r" for v r
    using that assms by (simp add: shows_value_def same_value_def numericString_value exact_read_def)
  show "rel_option same_value c (numericPointer (map_option readNumeric q))" if "rel_option shows_value c q"
    using that one by (cases c; cases q) (auto simp: numericPointer_def)
  show "same_optional v (numericOptionalString (map_option readNumeric q))" if "shows_optional v q"
    using that one by (cases q) (auto simp: shows_optional_def same_optional_def numericOptionalString_def)
qed

lemma joined_line_shows:
  assumes "prepared_ok scanUUID pid db input l" and "pf_inv db'" and "exact_read readNumeric"
    and "pf_accounts db' = pf_accounts db" and "pf_instruments db' = pf_instruments db"
  shows "\<exists>x. joined_line db' l = [x] \<and> line_shows scanUUID input (snapshot_line readNumeric x)"
proof -
  obtain a i where a: "a \<in> set (pf_accounts db')" "acr_id a = psr_account l" and i: "i \<in> set (pf_instruments db')" "ins_id i = psr_instrument l"
    using assms(1,4,5) by (auto simp: prepared_ok_def)
  have "filter (\<lambda>a. acr_id a = psr_account l) (pf_accounts db') = [a]" "filter (\<lambda>i. ins_id i = psr_instrument l) (pf_instruments db') = [i]"
    using filter_key [of acr_id "pf_accounts db'" a] filter_key [of ins_id "pf_instruments db'" i] assms(2) a i by (simp_all add: pf_inv_def)
  then have "joined_line db' l = [(l, acr_name a, i)]" by (simp add: joined_line_def)
  moreover have "line_shows scanUUID input (snapshot_line readNumeric (l, acr_name a, i))"
    using assms(1) shown_value [OF assms(3)] by (auto simp: line_shows_def prepared_ok_def snapshot_line_def pf_parseUUID_def)
  ultimately show ?thesis by blast
qed

lemma joined_lines_show:
  assumes "list_all2 (prepared_ok scanUUID pid db) inputs ls" and "pf_inv db'" and "exact_read readNumeric"
    and "pf_accounts db' = pf_accounts db" and "pf_instruments db' = pf_instruments db"
  shows "list_all2 (line_shows scanUUID) inputs (map (snapshot_line readNumeric) (concat (map (joined_line db') ls)))"
  using assms(1)
proof (induction rule: list_all2_induct)
  case (Cons input inputs l ls)
  from joined_line_shows [OF Cons.hyps(1) assms(2-5)] Cons.IH show ?case by auto
qed simp

text \<open>
  C15. A stored snapshot reads back as it was asked for: reading the new identifier gives the
  snapshot the call returned, with the capture time in microseconds, and its lines are, up to their
  order, the lines of the request: the same accounts and instruments, and every quantity, cost basis,
  duration and convexity with exactly the value of the request's text, absent where the request left
  it out.
\<close>
theorem snapshot_round_trip:
  assumes "portfolio_step\<^sup>*\<^sup>* pf_empty db" and "exact_scan scanNumeric" and "exact_read readNumeric"
    and "newID \<notin> snr_id ` set (pf_snapshots db)" and "scanUUID (TrimSpace newID) = Some newID"
    and "CreateSnapshot pool scanUUID scanNumeric readNumeric collate fault now newID newLineID portfolioID request db = (db', Inr s)"
  shows "GetSnapshot True scanUUID readNumeric collate no_fault newID db' = Inr s \<and> ss_CapturedAt s = pg_time (csr_CapturedAt request)
    \<and> (\<exists>ls. mset ls = mset (ss_Lines s) \<and> list_all2 (line_shows scanUUID) (csr_Lines request) ls)"
proof -
  have inv: "pf_inv db" using assms(1) by (rule reachable_pf_inv)
  obtain pid row where store: "store_snapshot scanUUID scanNumeric fault now newID newLineID pid request db = Inr (db', row)"
    and s: "snapshot collate readNumeric (fault (DbStmt (3 + 3 * length (csr_Lines request)))) row db' = Inr s"
    by (cases rule: CreateSnapshot_cases [of pool scanUUID scanNumeric readNumeric collate fault now newID newLineID portfolioID request db])
      (use assms(6) in auto)
  from store obtain supersedes inputs where prep: "prepareLines scanUUID scanNumeric fault 2 pid db [] (csr_Lines request) = Inr inputs"
    and row: "row = \<lparr>snr_id = newID, snr_portfolio = pid, snr_captured = pg_time (csr_CapturedAt request), snr_supersedes = supersedes, snr_created = now\<rparr>"
    and 1: "q_CreatePortfolioSnapshot False row db = Inr (db\<lparr>pf_snapshots := pf_snapshots db @ [row]\<rparr>, row)"
    and 2: "insert_lines fault (3 + 2 * length (csr_Lines request)) (positions_of newLineID pid newID now inputs)
       (db\<lparr>pf_snapshots := pf_snapshots db @ [row]\<rparr>) = Inr db'"
    unfolding positions_of_def by (rule store_snapshot_Inr)
  define ls where "ls = positions_of newLineID pid newID now inputs"
  note pos = positions_ok [OF prep assms(2), where s = newID and now = now and newLineID = newLineID, folded ls_def]
  have inv1: "pf_inv (db\<lparr>pf_snapshots := pf_snapshots db @ [row]\<rparr>)" using q_CreatePortfolioSnapshot_keeps [OF 1 inv] assms(4) by (simp add: row)
  have stored: "map stored_line ls = ls" using pos(1) prepared_ok_stored(1) by (intro map_idI) (auto simp: list_all2_conv_all_nth in_set_conv_nth)
  have inv': "pf_inv db'" and db': "db' = db\<lparr>pf_snapshots := pf_snapshots db @ [row], pf_lines := pf_lines db @ ls\<rparr>"
    using insert_lines_keeps [OF 2 inv1, folded ls_def, unfolded stored] by auto
  have "filter (\<lambda>l. psr_snapshot l = newID) (pf_lines db) = []"
    using old_lines_elsewhere [OF inv assms(4)] by (auto simp: filter_empty_conv)
  moreover have "filter (\<lambda>l. psr_snapshot l = newID) ls = ls" using pos(3) by (simp add: filter_id_conv)
  ultimately have mine: "filter (\<lambda>l. psr_snapshot l = newID) (pf_lines db') = ls" by (simp add: db')
  have "find (\<lambda>x. snr_id x = newID) (pf_snapshots db') = Some row"
    using find_key [of snr_id "pf_snapshots db'" row] inv' by (simp add: pf_inv_def db' row)
  then have "GetSnapshot True scanUUID readNumeric collate no_fault newID db' = snapshot collate readNumeric False row db'"
    using assms(5) by (simp add: GetSnapshot_def pf_parseUUID_def q_GetPortfolioSnapshot_def)
  moreover have "snapshot collate readNumeric False row db' = Inr s"
    using s by (auto simp: snapshot_def q_ListPortfolioSnapshotLines_def split: if_splits)
  moreover have "ss_CapturedAt s = pg_time (csr_CapturedAt request)" and "mset (ss_Lines s) = mset (map (snapshot_line readNumeric) (concat (map (joined_line db') ls)))"
    using s by (auto simp: snapshot_def q_ListPortfolioSnapshotLines_def row mine res_bind_eq_Inr split: if_splits)
  moreover have "list_all2 (line_shows scanUUID) (csr_Lines request) (map (snapshot_line readNumeric) (concat (map (joined_line db') ls)))"
    by (rule joined_lines_show [OF pos(1) inv' assms(3)]) (simp_all add: db')
  ultimately show ?thesis
    by (intro conjI exI [of _ "map (snapshot_line readNumeric) (concat (map (joined_line db') ls))"]) simp_all
qed

subsection \<open>A concrete portfolio\<close>

text \<open>A reading of decimals that keeps values, digit by digit, and one that hands back the scaled value.\<close>

definition digit_scan :: "string \<Rightarrow> pgNumeric option" where
  "digit_scan v = (case split_point (trim_prefix v ''-'') of
     (ip, fp) \<Rightarrow> let k = int (digits_val (ip @ frac_digits fp))
       in Some \<lparr>pn_Int = (if has_prefix v ''-'' then - k else k), pn_Exp = - int (length (frac_digits fp))\<rparr>)"

definition scaled_read :: "rat \<Rightarrow> pgNumeric" where
  "scaled_read v = \<lparr>pn_Int = scaled_quotient v, pn_Exp = - 18\<rparr>"

lemma exact_digit_scan: "exact_scan digit_scan"
proof -
  have "\<exists>n. digit_scan v = Some n \<and> SetString v = Some (numeric_value n)" if "decimalPattern v" for v
  proof -
    obtain ip fp where s: "split_point (trim_prefix v ''-'') = (ip, fp)" by (cases "split_point (trim_prefix v ''-'')")
    from decimalPattern_parts(1) [OF that s] show ?thesis
      by (auto simp: digit_scan_def s Let_def numeric_value_def digits_rat_def)
  qed
  then show ?thesis by (simp add: exact_scan_def)
qed

lemma exact_scaled_read: "exact_read scaled_read"
  by (simp add: exact_read_def scaled_read_def numeric_value_def fits_numeric_def on_grid_def round18_def scale18_def)

definition demo_bond :: portfolio_db where
  "demo_bond = fst (CreateInstrument True id id no_fault 1000 ''i1''
     \<lparr>cir_CanonicalSymbol = ''BOND'', cir_InstrumentType = InstrumentFixedBond, cir_NativeUnit = ''try'', cir_ExternalIDs = [], cir_Status = []\<rparr> pf_empty)"

definition demo_portfolio :: portfolio_db where
  "demo_portfolio = fst (CreatePortfolio True no_fault 1000 ''p1'' \<lparr>pfq_Name = '' mine '', pfq_ReportingCurrency = ''TRY'', pfq_Metadata = None\<rparr> demo_bond)"

definition demo_account :: portfolio_db where
  "demo_account = fst (CreateAccount True Some no_fault 1000 ''a1'' ''p1'' \<lparr>acq_Name = ''broker'', acq_Metadata = None\<rparr> demo_portfolio)"

definition demo_snapshot :: "string \<Rightarrow> portfolio_db \<times> (pf_error + Snapshot)" where
  "demo_snapshot duration = CreateSnapshot True Some digit_scan scaled_read id no_fault 2000 ''s1'' (\<lambda>k. ''l1'') ''p1''
     \<lparr>csr_CapturedAt = 5001, csr_SupersedesSnapshotID = [],
      csr_Lines = [\<lparr>sli_AccountID = ''a1'', sli_InstrumentID = '' i1'', sli_Quantity = ''-0.0'', sli_TotalCostBasis = None,
                    sli_ModifiedDurationYears = duration, sli_ConvexityYearsSquared = []\<rparr>]\<rparr> demo_account"

lemma demo_account_reachable: "portfolio_step\<^sup>*\<^sup>* pf_empty demo_account"
proof -
  have "portfolio_step pf_empty demo_bond" unfolding demo_bond_def by (rule portfolio_step.instrument_created) (simp add: pf_empty_def)
  moreover have "portfolio_step demo_bond demo_portfolio"
    unfolding demo_portfolio_def by (rule portfolio_step.portfolio_created) code_simp
  moreover have "portfolio_step demo_portfolio demo_account"
    unfolding demo_account_def by (rule portfolio_step.account_created) code_simp
  ultimately show ?thesis by (meson rtranclp.rtrancl_refl rtranclp.rtrancl_into_rtrancl)
qed

lemma demo_fresh: "''s1'' \<notin> snr_id ` set (pf_snapshots demo_account)"
  by code_simp

lemma demo_snapshot_reachable: "portfolio_step\<^sup>*\<^sup>* demo_account (fst (demo_snapshot d))"
  unfolding demo_snapshot_def by (intro r_into_rtranclp portfolio_step.snapshot_created demo_fresh)

lemma demo_stored: "\<not> isl (snd (demo_snapshot ''0.000000000000000001''))"
  by code_simp

theorem snapshot_checks_complete_witness: "snd (demo_snapshot ''0'') = Inl PErrInvalidRequest \<and> fst (demo_snapshot ''0'') = demo_account"
proof -
  have e: "snd (demo_snapshot ''0'') = Inl PErrInvalidRequest" by code_simp
  then have "demo_snapshot ''0'' = (fst (demo_snapshot ''0''), Inl PErrInvalidRequest)" by (simp add: prod_eq_iff)
  from snapshot_checks_complete [OF demo_account_reachable exact_digit_scan demo_fresh this [unfolded demo_snapshot_def]] e
  show ?thesis by (simp add: demo_snapshot_def)
qed

theorem snapshot_round_trip_witness:
  "\<exists>s. snd (demo_snapshot ''0.000000000000000001'') = Inr s \<and> ss_CapturedAt s = 5000
     \<and> GetSnapshot True Some scaled_read id no_fault ''s1'' (fst (demo_snapshot ''0.000000000000000001'')) = Inr s"
proof -
  obtain s where s: "snd (demo_snapshot ''0.000000000000000001'') = Inr s" using demo_stored by (cases "snd (demo_snapshot ''0.000000000000000001'')") auto
  then have "demo_snapshot ''0.000000000000000001'' = (fst (demo_snapshot ''0.000000000000000001''), Inr s)" by (simp add: prod_eq_iff)
  moreover have "Some (TrimSpace ''s1'') = Some ''s1''" by code_simp
  ultimately have "GetSnapshot True Some scaled_read id no_fault ''s1'' (fst (demo_snapshot ''0.000000000000000001'')) = Inr s \<and> ss_CapturedAt s = pg_time 5001"
    using snapshot_round_trip [OF demo_account_reachable exact_digit_scan exact_scaled_read demo_fresh] unfolding demo_snapshot_def by fastforce
  with s show ?thesis by (simp add: pg_time_def)
qed

theorem portfolio_integrity_witness: "pf_inv (fst (demo_snapshot ''0.000000000000000001''))"
  using portfolio_integrity [OF rtranclp_trans [OF demo_account_reachable demo_snapshot_reachable]] by blast

theorem snapshot_content_fixed_witness:
  "\<exists>s. pf_snapshots (fst (demo_snapshot ''0.000000000000000001'')) = [s]
     \<and> q_GetPortfolioSnapshot False ''s1'' (fst (UpdateInstrumentStatus True Some id id no_fault ''i1'' ''delisted'' (fst (demo_snapshot ''0.000000000000000001'')))) = Inr s"
proof -
  let ?db = "fst (demo_snapshot ''0.000000000000000001'')"
  have "map snr_id (pf_snapshots ?db) = [''s1'']" by code_simp
  then obtain s where s: "pf_snapshots ?db = [s]" "snr_id s = ''s1''" by auto
  have "portfolio_step\<^sup>*\<^sup>* ?db (fst (UpdateInstrumentStatus True Some id id no_fault ''i1'' ''delisted'' ?db))"
    by (intro r_into_rtranclp portfolio_step.status_updated)
  from snapshot_content_fixed [OF rtranclp_trans [OF demo_account_reachable demo_snapshot_reachable] this, of s] s show ?thesis by simp
qed

end
