(* ===== verification/Import_Examples.thy ===== *)
theory Import_Examples
  imports Import_Service_Properties Portfolio_Snapshots
begin

text \<open>
  A run of the import service on a concrete position file: a portfolio with one account and one
  instrument, a preview, and commits with its token. The theorems on the service are applied to it.
\<close>

subsection \<open>The world around the service\<close>

definition import_scan :: "string \<Rightarrow> pgNumeric option" where
  "import_scan v = digit_scan (trim_prefix v ''+'')"

lemma exact_import_scan: "exact_import_scan import_scan"
proof -
  have "\<exists>n. import_scan v = Some n \<and> SetString v = Some (numeric_value n)" if pat: "import_decimalPattern v" for v
  proof (cases "has_prefix v ''+''")
    case False
    then have "decimalPattern v" using pat by (cases v) (auto simp: import_decimalPattern_def decimalPattern_def trim_prefix_def has_prefix_def)
    with exact_digit_scan False show ?thesis by (auto simp: exact_scan_def import_scan_def trim_prefix_def)
  next
    case True
    then obtain u where v: "v = CHR ''+'' # u" by (cases v) (auto simp: has_prefix_def)
    then have u: "unsigned_decimal u" using pat by (simp add: import_decimalPattern_def)
    obtain ip fp where s: "split_point u = (ip, fp)" by (cases "split_point u")
    have "plain_integer ip" using u by (simp add: unsigned_decimal_def s split: option.splits)
    then have "ip \<noteq> [] \<and> is_digit (hd ip)" by (auto simp: plain_integer_def all_digits_def list_all_iff is_digit_def)
    moreover have "ip = takeWhile ((\<noteq>) CHR ''.'') u" using s by (simp add: split_point_def Let_def)
    ultimately have "u \<noteq> [] \<and> is_digit (hd u)" by (cases u) (simp_all split: if_splits)
    then have "trim_prefix u ''-'' = u" and "SetString v = SetString u"
      by (cases u; auto simp: trim_prefix_def has_prefix_def is_digit_def SetString_def split_sign_def v)+
    with u exact_digit_scan show ?thesis by (auto simp: exact_scan_def decimalPattern_def import_scan_def v trim_prefix_def has_prefix_def)
  qed
  then show ?thesis by (simp add: exact_import_scan_def)
qed

definition ex_id :: "char \<Rightarrow> string" where
  "ex_id c = replicate 8 c @ ''-'' @ replicate 4 c @ ''-'' @ replicate 4 c @ ''-'' @ replicate 4 c @ ''-'' @ replicate 12 c"

definition ex_portfolio :: portfolio_db where
  "ex_portfolio = fst (CreateAccount True Some no_fault 1000 (ex_id CHR ''2'') (ex_id CHR ''1'') \<lparr>acq_Name = ''broker'', acq_Metadata = None\<rparr>
     (fst (CreatePortfolio True no_fault 1000 (ex_id CHR ''1'') \<lparr>pfq_Name = ''mine'', pfq_ReportingCurrency = ''TRY'', pfq_Metadata = None\<rparr>
     (fst (CreateInstrument True id id no_fault 1000 (ex_id CHR ''3'')
       \<lparr>cir_CanonicalSymbol = ''CASH'', cir_InstrumentType = ''cash'', cir_NativeUnit = ''try'', cir_ExternalIDs = [], cir_Status = []\<rparr> pf_empty)))))"

definition ex_file :: string where
  "ex_file = ''account_id,instrument_id,quantity,total_cost_basis,modified_duration_years,convexity_years_squared'' @ [newline]
     @ ex_id CHR ''2'' @ '','' @ ex_id CHR ''3'' @ '',0,,,'' @ [newline]"

definition ex_start :: import_db where
  "ex_start = im_empty\<lparr>im_portfolio := ex_portfolio\<rparr>"

definition ex_parsed :: ImportResult where
  "ex_parsed = \<lparr>ir_Kind = KindPositions, ir_ContentSHA256 = replicate 64 CHR ''a'', ir_RowCount = 1, ir_Valid = True, ir_Diagnostics = [],
     ir_DiagnosticsTruncated = False, ir_Positions = [\<lparr>po_AccountID = ex_id CHR ''2'', po_InstrumentID = ex_id CHR ''3'', po_Quantity = ''0'',
     po_TotalCostBasis = [], po_ModifiedDurationYears = [], po_ConvexityYearsSquared = []\<rparr>], ir_Prices = []\<rparr>"

definition ex_time :: string where "ex_time = ''2024-01-02T00:00:00Z''"
definition ex_fine_time :: string where "ex_fine_time = ''2024-01-02T00:00:00.000000001Z''"

definition ex_preview_request :: "string \<Rightarrow> PreviewRequest" where
  "ex_preview_request captured = \<lparr>pvq_Kind = KindPositions, pvq_TargetID = ex_id CHR ''1'', pvq_SchemaVersion = ImportSchema,
     pvq_CapturedAt = captured, pvq_Body = ex_file\<rparr>"

definition ex_previewed :: import_db where
  "ex_previewed = ex_start\<lparr>im_tokens := [\<lparr>tk_digest = replicate 64 CHR ''a'', tk_kind = KindPositions, tk_target = ex_id CHR ''1'',
     tk_captured = Some 1704153600000000000, tk_schema = ImportSchema, tk_sha = replicate 64 CHR ''a'', tk_rows = 1, tk_diagnostics = [],
     tk_truncated = False, tk_expires = 1800000005000, tk_consumed = None\<rparr>]\<rparr>"

definition ex_env :: commit_env where
  "ex_env = \<lparr>ce_pool = True, ce_archive = True, ce_conditional = True, ce_fails = (\<lambda>_. False), ce_raceObject = None, ce_fault = no_fault,
     ce_clock = (\<lambda>_. 6000), ce_random = Some (replicate 16 0), ce_rawID = ex_id CHR ''5'', ce_snapshotID = ex_id CHR ''4'',
     ce_rowID = (\<lambda>_. ex_id CHR ''6''), ce_dbTime = 6000, ce_raceResult = None\<rparr>"

definition ex_request :: "string \<Rightarrow> string \<Rightarrow> CommitRequest" where
  "ex_request captured key = \<lparr>cmq_Kind = KindPositions, cmq_TargetID = ex_id CHR ''1'', cmq_SchemaVersion = ImportSchema, cmq_CapturedAt = captured,
     cmq_Token = ''07'', cmq_IdempotencyKey = key, cmq_Body = ex_file\<rparr>"

abbreviation ex_commit :: "CommitRequest \<Rightarrow> import_db \<Rightarrow> (import_db \<times> (im_error + metadata)) option" where
  "ex_commit \<equiv> Commit ex_digest id Some import_scan ex_env"

abbreviation ex_step :: "import_db \<Rightarrow> import_db \<Rightarrow> bool" where
  "ex_step \<equiv> import_step ex_digest id Some import_scan"

lemma ex_request_fields: "cmq_Kind (ex_request c k) = KindPositions" "cmq_TargetID (ex_request c k) = ex_id CHR ''1''"
  "cmq_SchemaVersion (ex_request c k) = ImportSchema" "cmq_CapturedAt (ex_request c k) = c" "cmq_Token (ex_request c k) = ''07''"
  "cmq_IdempotencyKey (ex_request c k) = k" "cmq_Body (ex_request c k) = ex_file"
  by (simp_all add: ex_request_def)

lemma ex_env_fields: "ce_pool ex_env" "ce_archive ex_env" "ce_fault ex_env = no_fault" "ce_clock ex_env = (\<lambda>_. 6000)" "ce_raceResult ex_env = None"
  by (simp_all add: ex_env_def)

lemmas ex_fields = ex_request_fields ex_env_fields

subsection \<open>Evaluation\<close>

lemma ex_parse: "Parse ex_digest ex_file KindPositions = Some ex_parsed"
  by code_simp

lemma ex_times: "parseRFC3339 ex_time = Some (Some 1704153600000000000)" "parseRFC3339 ex_fine_time = Some (Some 1704153600000000001)"
  by code_simp+

lemma ex_ids: "import_validUUID (ex_id CHR ''1'')" "ToLower (TrimSpace (ex_id CHR ''1'')) = ex_id CHR ''1''" "TrimSpace (ex_id CHR ''4'') = ex_id CHR ''4''"
  by code_simp+

lemma ex_digests: "ex_digest ''07'' = replicate 64 CHR ''a''" "ex_digest ex_file = replicate 64 CHR ''a''" "hex64 (replicate 64 CHR ''a'')"
  "\<not> sql_blank (ObjectKey (replicate 64 CHR ''a''))"
  by code_simp+

lemma ex_bytes: "hex_bytes [7] = ''07''" "\<not> isl (newUUID (Some (replicate 16 0)))"
  by code_simp+

lemma ex_tables: "list_ex (\<lambda>p. pfr_id p = ex_id CHR ''1'') (pf_portfolios ex_portfolio)" "pf_snapshots ex_portfolio = []"
  by code_simp+

lemma ex_rows: "validateDomainRows Some False KindPositions (ex_id CHR ''1'') ex_parsed ex_portfolio = Inr ()"
  "\<not> isl (commitPositions Some import_scan ex_env (ex_id CHR ''1'') 1704153600000000000 ex_parsed h ex_portfolio)"
  by code_simp+

lemma ex_archive: "\<not> isl (snd (archive_import ex_digest id ex_env (ex_request c k) Map.empty))"
  by code_simp

subsection \<open>The run\<close>

lemma ex_portfolio_reachable: "portfolio_step\<^sup>*\<^sup>* pf_empty ex_portfolio"
proof -
  let ?a = "fst (CreateInstrument True id id no_fault 1000 (ex_id CHR ''3'')
       \<lparr>cir_CanonicalSymbol = ''CASH'', cir_InstrumentType = ''cash'', cir_NativeUnit = ''try'', cir_ExternalIDs = [], cir_Status = []\<rparr> pf_empty)"
  let ?b = "fst (CreatePortfolio True no_fault 1000 (ex_id CHR ''1'') \<lparr>pfq_Name = ''mine'', pfq_ReportingCurrency = ''TRY'', pfq_Metadata = None\<rparr> ?a)"
  have "portfolio_step pf_empty ?a" by (rule portfolio_step.instrument_created) (simp add: pf_empty_def)
  moreover have "portfolio_step ?a ?b" by (rule portfolio_step.portfolio_created) code_simp
  moreover have "portfolio_step ?b ex_portfolio" unfolding ex_portfolio_def by (rule portfolio_step.account_created) code_simp
  ultimately show ?thesis by (meson rtranclp.rtrancl_refl rtranclp.rtrancl_into_rtrancl)
qed

lemma portfolio_steps_import:
  assumes "portfolio_step\<^sup>*\<^sup>* p q"
  shows "(import_step sha redact scanUUID scanNumeric)\<^sup>*\<^sup>* (db\<lparr>im_portfolio := p\<rparr>) (db\<lparr>im_portfolio := q\<rparr>)"
  using assms
proof (induction rule: rtranclp_induct)
  case (step q r)
  then have "import_step sha redact scanUUID scanNumeric (db\<lparr>im_portfolio := q\<rparr>) ((db\<lparr>im_portfolio := q\<rparr>)\<lparr>im_portfolio := r\<rparr>)"
    by (intro import_step.portfolio_changed) simp
  with step.IH show ?case by simp
qed simp

lemma ex_start_reachable: "ex_step\<^sup>*\<^sup>* im_empty ex_start"
  using portfolio_steps_import [OF ex_portfolio_reachable, of ex_digest id Some import_scan im_empty] by (simp add: ex_start_def im_empty_def)

lemma ex_preview: "Preview ex_digest True no_fault 5000 (Some [7]) (ex_preview_request c) ex_start = Some (db, r)
    \<Longrightarrow> ex_step\<^sup>*\<^sup>* im_empty db"
  using ex_start_reachable import_step.previewed by (metis rtranclp.rtrancl_into_rtrancl)

lemma ex_preview_ok:
  assumes "c = ex_time \<or> c = ex_fine_time"
  shows "\<exists>r. Preview ex_digest True no_fault 5000 (Some [7]) (ex_preview_request c) ex_start = Some (ex_previewed, Inr r)"
  using assms ex_times
  by (auto simp: Preview_def ex_preview_request_def ex_start_def im_empty_def ex_previewed_def ex_ids ex_parse captured_of_def ex_parsed_def ex_tables
      ex_bytes ex_digests capturedAtForKind_def pg_time_def token_row_ok_def previewTTL_def Let_def)

lemma ex_reachable: "ex_step\<^sup>*\<^sup>* im_empty ex_previewed"
  using ex_preview_ok [of ex_time] ex_preview by blast

lemma ex_env_ok: "ids_ok Some ex_env ex_previewed" "race_ok sha ex_env db" "ce_raceResult ex_env = None"
  by (simp_all add: ids_ok_def race_ok_def ex_env_def ex_previewed_def ex_start_def ex_ids ex_tables)

lemma ex_finish:
  assumes "ref = \<lparr>ref_Key = ObjectKey (ex_digest ex_file), ref_ContentSHA256 = ex_digest ex_file, ref_ByteLength = n, ref_MediaType = mt\<rparr>"
  shows "\<exists>db result. finish ex_digest Some import_scan ex_env (ex_id CHR ''1'') (ex_request c k) 1704153600000000000 ex_parsed ref (ex_previewed\<lparr>im_bucket := b\<rparr>)
    = Inr (db, result)"
proof -
  obtain p e where "commitPositions Some import_scan ex_env (ex_id CHR ''1'') 1704153600000000000 ex_parsed (ir_ContentSHA256 ex_parsed) ex_portfolio = Inr (p, e)"
    using ex_rows(2) [of "ir_ContentSHA256 ex_parsed"] by (metis prod.collapse sum.collapse(2))
  moreover obtain i where "newUUID (ce_random ex_env) = Inr i" using ex_bytes(2) by (metis commit_env.select_convs(8) ex_env_def sum.collapse(2))
  ultimately show ?thesis
    by (simp add: finish_def register_raw_def import_rows_def ex_request_def assms Let_def ex_digests ex_previewed_def ex_start_def im_empty_def)
      (simp add: ex_env_def)
qed

lemma ex_commit_ok:
  assumes "k \<noteq> []" and "length k \<le> 255"
  obtains db result where "ex_commit (ex_request ex_time k) ex_previewed = Some (db, Inr result)"
proof -
  obtain b ref where a: "archive_import ex_digest id ex_env (ex_request ex_time k) Map.empty = (b, Inr ref)"
    using ex_archive [of ex_time k] by (metis prod.collapse sum.collapse(2))
  note ref = ArchivePayload_ok(1) [OF a [unfolded archive_import_def]]
  obtain db result where f: "finish ex_digest Some import_scan ex_env (ex_id CHR ''1'') (ex_request ex_time k) 1704153600000000000 ex_parsed ref
      (ex_previewed\<lparr>im_bucket := b\<rparr>) = Inr (db, result)"
    using ex_finish [of ref "int (length ex_file)" "''text/csv; charset=utf-8''" ex_time k b] ref by (auto simp: ex_request_def)
  have "check_token False 6000 (ex_digest ''07'') (ex_id CHR ''1'') (ex_request ex_time k) ex_parsed 1704153600000000000 ex_previewed = Inr ()"
    by (simp add: check_token_def ex_digests ex_previewed_def ex_start_def ex_request_def ex_parsed_def capturedAtForKind_def sameCapturedAt_def)
  then have "commit_tx ex_digest id Some import_scan ex_env (ex_id CHR ''1'') (ex_request ex_time k) 1704153600000000000 ex_parsed ex_previewed = (db, Inr result)"
    using a f ex_rows(1)
    by (simp add: commit_tx_def ex_fields ex_previewed_def ex_start_def im_empty_def)
  then have "ex_commit (ex_request ex_time k) ex_previewed = Some (db, Inr result)"
    using assms ex_times(1)
    by (simp add: Commit_def ex_ids ex_parse captured_of_def ex_fields ex_parsed_def [THEN arg_cong [of _ _ ir_Valid]])
  then show ?thesis by (rule that)
qed

lemma ex_committed:
  assumes "ex_commit (ex_request ex_time k) ex_previewed = Some (db, Inr result)"
  shows "ex_step\<^sup>*\<^sup>* ex_previewed db"
  using import_step.committed [OF assms ex_env_ok(1,2)] by blast

lemma ex_unused: "(cmq_Kind req, cmq_IdempotencyKey req) \<notin> result_key ` set (im_results ex_previewed)"
  by (simp add: ex_previewed_def ex_start_def im_empty_def)

theorem import_provenance_witness:
  "\<exists>db r. ex_step\<^sup>*\<^sup>* im_empty db \<and> r \<in> set (im_results db) \<and> rs_key r = ''k'' \<and> has_source ex_digest db r \<and> has_snapshot db r"
proof -
  obtain db result where c: "ex_commit (ex_request ex_time ''k'') ex_previewed = Some (db, Inr result)" by (rule ex_commit_ok [of "''k''"]) simp_all
  have inv: "import_inv ex_digest ex_previewed" using ex_reachable by (rule reachable_import)
  obtain r parsed where r: "r \<in> set (im_results db)" "rs_key r = ''k''"
    by (rule Commit_answers [OF c inv ex_env_ok(2)]) (auto simp: answers_def ex_fields)
  have reach: "ex_step\<^sup>*\<^sup>* im_empty db" using ex_reachable ex_committed [OF c] by simp
  from import_provenance [OF reach rtranclp.rtrancl_refl r(1)] reach r show ?thesis by blast
qed

theorem commit_replay_witness:
  "\<exists>db result. ex_commit (ex_request ex_time ''k'') ex_previewed = Some (db, Inr result)
     \<and> ex_commit ((ex_request ex_time ''k'')\<lparr>cmq_Token := ''other''\<rparr>) db = Some (db, Inr result)"
proof -
  obtain db result where c: "ex_commit (ex_request ex_time ''k'') ex_previewed = Some (db, Inr result)" by (rule ex_commit_ok [of "''k''"]) simp_all
  have "ex_commit ((ex_request ex_time ''k'')\<lparr>cmq_Token := ''other''\<rparr>) db = Some (db, Inr result)"
    by (rule commit_replay [OF ex_reachable c ex_env_ok(1,2) rtranclp.rtrancl_refl]) (simp_all add: ex_fields)
  with c show ?thesis by blast
qed

theorem token_single_use_witness:
  "\<exists>db result answer. ex_commit (ex_request ex_time ''k'') ex_previewed = Some (db, Inr result)
     \<and> ex_commit (ex_request ex_time ''l'') db = Some (db, Inl answer)"
proof -
  obtain db result where c: "ex_commit (ex_request ex_time ''k'') ex_previewed = Some (db, Inr result)" by (rule ex_commit_ok [of "''k''"]) simp_all
  obtain db2 answer where d: "ex_commit (ex_request ex_time ''l'') db = Some (db2, answer)"
    using ex_times(1) by (auto simp: Commit_def ex_ids ex_parse captured_of_def ex_fields) (metis surj_pair)
  have "map result_key (im_results db) = [(KindPositions, ''k'')]"
    by (rule Commit_stored [OF c ex_unused ex_env_ok(3)], erule finish_Inr)
      (auto simp: result_key_def ex_fields ex_previewed_def ex_start_def im_empty_def dest!: rows_results)
  then have "(cmq_Kind (ex_request ex_time ''l''), cmq_IdempotencyKey (ex_request ex_time ''l'')) \<notin> result_key ` set (im_results db)"
    unfolding list.set_map [symmetric] by (simp add: ex_fields)
  from token_single_use [OF ex_reachable c ex_env_ok(1) ex_unused ex_env_ok(3) rtranclp.rtrancl_refl _ this d] c d show ?thesis
    by (auto simp: ex_fields isl_def)
qed

theorem nanosecond_capture_refused_witness:
  "\<exists>r db answer. Preview ex_digest True no_fault 5000 (Some [7]) (ex_preview_request ex_fine_time) ex_start = Some (ex_previewed, Inr r)
     \<and> ex_commit (ex_request ex_fine_time ''k'') ex_previewed = Some (db, Inl answer)"
proof -
  obtain db answer where d: "ex_commit (ex_request ex_fine_time ''k'') ex_previewed = Some (db, answer)"
    using ex_times(2) by (auto simp: Commit_def ex_ids ex_parse captured_of_def ex_fields) (metis surj_pair)
  have "isl answer"
    by (rule nanosecond_capture_refused [where c = 1704153600000000001, OF ex_reachable _ _ _ d ex_env_ok(1,2), THEN conjunct1])
      (simp_all add: ex_fields ex_times pg_time_def)
  with d ex_preview_ok [of ex_fine_time] show ?thesis by (auto simp: isl_def)
qed

theorem import_positions_exact_witness:
  "\<exists>db result s. ex_commit (ex_request ex_time ''k'') ex_previewed = Some (db, Inr result) \<and> pf_snapshots (im_portfolio db) = [s]
     \<and> snr_captured s = 1704153600000000000 \<and> length (filter (\<lambda>l. psr_snapshot l = snr_id s) (pf_lines (im_portfolio db))) = 1"
proof -
  obtain db result where c: "ex_commit (ex_request ex_time ''k'') ex_previewed = Some (db, Inr result)" by (rule ex_commit_ok [of "''k''"]) simp_all
  obtain parsed s where p: "Parse ex_digest ex_file KindPositions = Some parsed" and s: "pf_snapshots (im_portfolio db) = pf_snapshots (im_portfolio ex_previewed) @ [s]"
    "parseRFC3339 ex_time = Some (Some (snr_captured s))"
    and l: "list_all2 (holds_position Some) (ir_Positions parsed) (filter (\<lambda>l. psr_snapshot l = snr_id s) (pf_lines (im_portfolio db)))"
    using import_positions_exact [OF ex_reachable exact_import_scan c ex_env_ok(1) ex_unused ex_env_ok(3)] by (auto simp: ex_fields)
  then show ?thesis using c ex_parse ex_times(1) ex_tables(2) list_all2_lengthD [OF l]
    by (intro exI [of _ db] exI [of _ result] exI [of _ s]) (auto simp: ex_parsed_def ex_previewed_def ex_start_def)
qed

end
