(* ===== verification/Json_Text.thy ===== *)
theory Json_Text
  imports Json
begin

text \<open>
  Writing JSON text the way \<open>json.Marshal\<close> does: no white space, and the characters
  \<^verbatim>\<open><\<close>, \<^verbatim>\<open>>\<close> and \<^verbatim>\<open>&\<close> of a string escaped. A value of type
  \<open>json\<close> also stands for a \<^verbatim>\<open>jsonb\<close> value of the database: compacting the text the
  server prints for it gives the text of the value. Reading the text back with \<open>json_parse\<close>
  gives the value.
\<close>

definition html_char :: "char \<Rightarrow> string" where
  "html_char c =
     (if c = CHR ''<'' then backslash # ''u003c''
      else if c = CHR ''>'' then backslash # ''u003e''
      else if c = CHR ''&'' then backslash # ''u0026''
      else [c])"

definition html_escape :: "string \<Rightarrow> string" where
  "html_escape s = concat (map html_char s)"

definition marshal_string :: "string \<Rightarrow> string" where
  "marshal_string s = [dquote] @ html_escape (escape_string s) @ [dquote]"

fun json_text :: "json \<Rightarrow> string" where
  "json_text JNull = ''null''"
| "json_text (JBool b) = (if b then ''true'' else ''false'')"
| "json_text (JNum n) = n"
| "json_text (JStr s) = marshal_string s"
| "json_text (JArr xs) = ''['' @ join '','' (map json_text xs) @ '']''"
| "json_text (JObj ms) = [CHR 0x7B] @ join '','' (map (\<lambda>m. marshal_string (fst m) @ '':'' @ json_text (snd m)) ms) @ [CHR 0x7D]"

text \<open>Number literals and UTF-8 strings, as the server and the encoder produce them.\<close>

fun wf_json :: "json \<Rightarrow> bool" where
  "wf_json (JNum n) \<longleftrightarrow> scan_number n = Some (n, [])"
| "wf_json (JStr s) \<longleftrightarrow> utf8_valid s"
| "wf_json (JArr xs) \<longleftrightarrow> list_all wf_json xs"
| "wf_json (JObj ms) \<longleftrightarrow> list_all (\<lambda>m. utf8_valid (fst m) \<and> wf_json (snd m)) ms"
| "wf_json _ \<longleftrightarrow> True"

subsection \<open>Strings\<close>

lemma html_escape_append: "html_escape (s @ t) = html_escape s @ html_escape t"
  by (simp add: html_escape_def)

lemma html_escape_id: "\<forall>c \<in> set s. 128 \<le> (of_char c :: nat) \<Longrightarrow> html_escape s = s"
  by (induction s) (auto simp: html_escape_def html_char_def)

lemma rune_len_cases:
  assumes "rune_len s = k" and "1 < k"
  shows "\<forall>c \<in> set (take k s). 128 \<le> (of_char c :: nat)" and "rune_len (take k s @ t) = k" and "k \<le> length s"
  using assms
  by (cases s; auto simp: byte_in_def numeral_eq_Suc split: if_splits list.splits)+

lemma rune_len_one: "rune_len (c # t) = 1 \<longleftrightarrow> (of_char c :: nat) < 128"
  by (auto simp: byte_in_def split: if_splits list.splits)

declare rune_len.simps(2) [simp del]

lemma hex_val_digit: "k < 16 \<Longrightarrow> hex_val (hex_digit k) = Some k"
  by (auto simp: hex_val_def hex_digit_def digit_char_def is_digit_def)

lemma string_body_quote: "string_body (dquote # r) = Some ([], r)"
  by (subst string_body.simps) simp

lemma string_body_simple:
  "simple_escape e = Some x \<Longrightarrow> string_body (backslash # e # r) = map_option (apfst ((@) [x])) (string_body r)"
  by (subst string_body.simps) (simp add: backslash_def dquote_def)

lemma string_body_unicode:
  assumes "hex4 (a # b # c # d # r) = Some u" and "u < 55296"
  shows "string_body (backslash # CHR ''u'' # a # b # c # d # r) = map_option (apfst ((@) (utf8_encode u))) (string_body r)"
  using assms
  by (subst string_body.simps) (simp add: backslash_def dquote_def simple_escape_def escaped_rune_def)

lemma string_body_rune:
  assumes "rune_len (p @ t) = length p" and "p \<noteq> []" and "32 \<le> (of_char (hd p) :: nat)" and "hd p \<noteq> dquote" and "hd p \<noteq> backslash"
  shows "string_body (p @ t) = map_option (apfst ((@) p)) (string_body t)"
proof -
  obtain c q where p: "p = c # q" using assms(2) by (cases p) auto
  show ?thesis
    using assms unfolding p by (subst string_body.simps) (simp add: p)
qed

lemma hex4_control: "n < 32 \<Longrightarrow> hex4 (CHR ''0'' # CHR ''0'' # hex_digit (n div 16) # hex_digit (n mod 16) # t) = Some n"
  by (simp add: hex_val_digit) (simp add: hex_val_def is_digit_def)

lemma html_char_id: "(of_char c :: nat) \<notin> {38, 60, 62} \<Longrightarrow> html_char c = [c]"
  by (auto simp: html_char_def)

lemma html_char_hex: "k < 16 \<Longrightarrow> html_char (hex_digit k) = [hex_digit k]"
proof -
  assume "k < 16"
  then have "(of_char (hex_digit k) :: nat) = (if k < 10 then 48 + k else 87 + k)"
    by (simp add: hex_digit_def digit_char_def)
  then show ?thesis using html_char_id [of "hex_digit k"] \<open>k < 16\<close> by (simp split: if_splits)
qed

lemma html_escape_simple: "simple_escape e = Some x \<Longrightarrow> html_escape [backslash, e] = [backslash, e]"
  by (auto simp: simple_escape_def html_escape_def html_char_def backslash_def dquote_def split: if_splits)

lemma escape_byte_cases:
  obtains (simple) e where "html_escape (escape_byte c) = [backslash, e]" and "simple_escape e = Some c"
    | (control) "(of_char c :: nat) < 32" and "html_escape (escape_byte c) = backslash # ''u00'' @ [hex_digit (of_char c div 16), hex_digit (of_char c mod 16)]"
    | (html) a b where "html_escape (escape_byte c) = [backslash, CHR ''u'', CHR ''0'', CHR ''0'', a, b]" and "hex4 (CHR ''0'' # CHR ''0'' # a # b # t) = Some (of_char c)"
    | (plain) "html_escape (escape_byte c) = [c]" and "32 \<le> (of_char c :: nat)" and "c \<noteq> dquote" and "c \<noteq> backslash"
proof -
  have esc: "(\<exists>e. escape_byte c = [backslash, e] \<and> simple_escape e = Some c)
      \<or> (of_char c :: nat) < 32 \<and> escape_byte c = backslash # ''u00'' @ [hex_digit (of_char c div 16), hex_digit (of_char c mod 16)]
      \<or> escape_byte c = [c] \<and> 32 \<le> (of_char c :: nat) \<and> c \<noteq> dquote \<and> c \<noteq> backslash"
    by (auto simp: escape_byte_def simple_escape_def dquote_def backslash_def)
  then consider (1) e where "escape_byte c = [backslash, e]" and "simple_escape e = Some c"
    | (2) "(of_char c :: nat) < 32" and "escape_byte c = backslash # ''u00'' @ [hex_digit (of_char c div 16), hex_digit (of_char c mod 16)]"
    | (3) "escape_byte c = [c]" and "32 \<le> (of_char c :: nat)" and "c \<noteq> dquote" and "c \<noteq> backslash"
    by blast
  then show thesis
  proof cases
    case 1
    then show thesis using simple html_escape_simple by simp
  next
    case 2
    then have "html_escape (escape_byte c) = escape_byte c"
      by (simp add: html_escape_def html_char_hex) (simp add: html_char_def backslash_def)
    with 2 show thesis using control by simp
  next
    case 3
    show thesis
    proof (cases "html_char c = [c]")
      case True
      with 3 show thesis using plain by (simp add: html_escape_def)
    next
      case False
      then obtain a b where "html_char c = [backslash, CHR ''u'', CHR ''0'', CHR ''0'', a, b]" and "hex4 (CHR ''0'' # CHR ''0'' # a # b # t) = Some (of_char c)"
        by (auto simp: html_char_def hex_val_def is_digit_def split: if_splits)
      with 3 show thesis using html by (simp add: html_escape_def)
    qed
  qed
qed

lemma string_body_byte:
  assumes "(of_char c :: nat) < 128"
  shows "string_body (html_escape (escape_byte c) @ t) = map_option (apfst ((@) [c])) (string_body t)"
proof (cases rule: escape_byte_cases [where c = c and t = t])
  case simple
  then show ?thesis by (simp add: string_body_simple)
next
  case control
  then show ?thesis by (simp add: string_body_unicode [OF hex4_control] utf8_encode_def)
next
  case html
  then show ?thesis using assms by (simp add: string_body_unicode utf8_encode_def)
next
  case plain
  moreover have "rune_len ([c] @ t) = length [c]"
    using assms rune_len_one [of c t] by simp
  ultimately show ?thesis
    using string_body_rune [of "[c]" t] by simp
qed

text \<open>One rune of a string, escaped.\<close>

definition escape_rune :: "string \<Rightarrow> string" where
  "escape_rune r =
     (if length r = 1 then escape_byte (hd r)
      else if r = [CHR 0xE2, CHR 0x80, CHR 0xA8] then backslash # ''u2028''
      else if r = [CHR 0xE2, CHR 0x80, CHR 0xA9] then backslash # ''u2029'' else r)"

lemma escape_string_step:
  assumes "rune_len s \<noteq> 0"
  shows "escape_string s = escape_rune (take (rune_len s) s) @ escape_string (drop (rune_len s) s)"
proof -
  have "s \<noteq> []" using assms by auto
  moreover have "length (take (rune_len s) s) = rune_len s" using rune_len_bound [of s] by simp
  moreover have "rune_len s = 1 \<Longrightarrow> hd (take (rune_len s) s) = hd s" and "rune_len s = 1 \<Longrightarrow> drop (rune_len s) s = tl s"
    using \<open>s \<noteq> []\<close> by (auto simp: drop_Suc)
  ultimately show ?thesis
    using assms by (auto simp: escape_string.simps [of s] escape_rune_def Let_def)
qed

lemma separator_runes:
  "hex4 (CHR ''2'' # CHR ''0'' # CHR ''2'' # CHR ''8'' # t) = Some 8232" "hex4 (CHR ''2'' # CHR ''0'' # CHR ''2'' # CHR ''9'' # t) = Some 8233"
  "utf8_encode 8232 = [CHR 0xE2, CHR 0x80, CHR 0xA8]" "utf8_encode 8233 = [CHR 0xE2, CHR 0x80, CHR 0xA9]"
  by (simp_all add: hex_val_def is_digit_def utf8_encode_def char_of_eq_iff)

lemma html_escape_separator:
  "html_escape (backslash # ''u2028'') = backslash # ''u2028''" "html_escape (backslash # ''u2029'') = backslash # ''u2029''"
  by (simp_all add: html_escape_def html_char_def backslash_def)

lemma string_body_escape_rune:
  assumes "rune_len s = k" and "k \<noteq> 0"
  shows "string_body (html_escape (escape_rune (take k s)) @ t) = map_option (apfst ((@) (take k s))) (string_body t)"
proof (cases "k = 1")
  case True
  then obtain c u where s: "s = c # u" and "(of_char c :: nat) < 128"
    using assms(1) rune_len_one by (cases s) auto
  then show ?thesis using string_body_byte True by (simp add: escape_rune_def)
next
  case False
  with assms(2) have "1 < k" by simp
  note rune = rune_len_cases [OF assms(1) this]
  let ?r = "take k s"
  have len: "length ?r = k" using rune(3) by simp
  have "?r \<noteq> []" using \<open>1 < k\<close> len by auto
  then have "hd ?r \<in> set ?r" by (rule hd_in_set)
  then have hd: "128 \<le> (of_char (hd ?r) :: nat)" using rune(1) by blast
  then have "32 \<le> (of_char (hd ?r) :: nat)" and "hd ?r \<noteq> dquote" and "hd ?r \<noteq> backslash"
    by (auto simp: dquote_def backslash_def)
  then have plain: "string_body (?r @ t) = map_option (apfst ((@) ?r)) (string_body t)"
    using string_body_rune [of ?r t] rune(2) [of t] \<open>?r \<noteq> []\<close> len by simp
  show ?thesis
    using plain html_escape_id [OF rune(1)] False len
    by (auto simp: escape_rune_def html_escape_separator string_body_unicode [OF separator_runes(1)] string_body_unicode [OF separator_runes(2)]
        separator_runes(3, 4))
qed

lemma string_body_escape:
  assumes "utf8_valid s"
  shows "string_body (html_escape (escape_string s) @ dquote # r) = Some (s, r)"
  using assms
proof (induction s rule: utf8_valid.induct)
  case (1 s)
  show ?case
  proof (cases "s = []")
    case True
    then show ?thesis by (simp add: escape_string.simps html_escape_def string_body_quote)
  next
    case False
    let ?k = "rune_len s"
    from 1 False have k: "?k \<noteq> 0" and rest: "string_body (html_escape (escape_string (drop ?k s)) @ dquote # r) = Some (drop ?k s, r)"
      by (auto simp: utf8_valid.simps [of s] split: if_splits)
    have split: "s = take ?k s @ drop ?k s" by simp
    have "string_body (html_escape (escape_rune (take ?k s)) @ t) = map_option (apfst ((@) (take ?k s))) (string_body t)" for t
      by (rule string_body_escape_rune [OF refl k])
    then show ?thesis
      using escape_string_step [OF k] rest by (simp add: html_escape_append)
  qed
qed

subsection \<open>Numbers\<close>

definition numeric_char :: "char \<Rightarrow> bool" where
  "numeric_char c \<longleftrightarrow> is_digit c \<or> c \<in> set ''+-.eE''"

text \<open>What may follow a number without becoming part of it.\<close>

definition ends :: "string \<Rightarrow> bool" where
  "ends r \<longleftrightarrow> r = [] \<or> \<not> numeric_char (hd r)"

lemma while_ends:
  assumes "ends r"
  shows "takeWhile is_digit (s @ r) = takeWhile is_digit s" and "dropWhile is_digit (s @ r) = dropWhile is_digit s @ r"
  using assms by (induction s; cases r; auto simp: ends_def numeric_char_def)+

lemma scan_int_ends:
  assumes "scan_int s = Some (x, t)" and "ends r"
  shows "scan_int (s @ r) = Some (x, t @ r)"
  using assms while_ends [OF assms(2), of s] by (cases s) (auto simp: scan_int_def split: if_splits)

lemma scan_part_ends:
  assumes "scan_part lead signs s = Some (x, t)" and "ends r" and "set lead \<union> set signs \<subseteq> Collect numeric_char"
  shows "scan_part lead signs (s @ r) = Some (x, t @ r)"
proof (cases s)
  case Nil
  then show ?thesis using assms by (cases r) (auto simp: scan_part_def ends_def)
next
  case (Cons c u)
  have sign: "(case u @ r of x # v \<Rightarrow> if x \<in> set signs then ([x], v) else ([], u @ r) | [] \<Rightarrow> ([], []))
     = apsnd (\<lambda>v. v @ r) (case u of x # v \<Rightarrow> if x \<in> set signs then ([x], v) else ([], u) | [] \<Rightarrow> ([], []))"
    using assms(2, 3) by (cases u; cases r) (auto simp: ends_def)
  show ?thesis
    using assms(1) while_ends [OF assms(2)] unfolding Cons
    by (auto simp: scan_part_def sign Let_def split: if_splits prod.splits)
qed

lemma scan_number_ends:
  assumes "scan_number s = Some (x, [])" and "ends r"
  shows "scan_number (s @ r) = Some (x, r)"
proof -
  let ?sign = "\<lambda>s. case s of c # r \<Rightarrow> if c = CHR ''-'' then ([c], r) else ([], s) | [] \<Rightarrow> ([], [])"
  have num: "set ''.'' \<union> set [] \<subseteq> Collect numeric_char" "set ''eE'' \<union> set ''+-'' \<subseteq> Collect numeric_char"
    by (auto simp: numeric_char_def)
  obtain m u where sign: "?sign s = (m, u)" by fastforce
  then obtain i t f t' e where i: "scan_int u = Some (i, t)" and f: "scan_part ''.'' [] t = Some (f, t')"
    and e: "scan_part ''eE'' ''+-'' t' = Some (e, [])" and x: "x = m @ i @ f @ e"
    using assms(1) by (auto simp: scan_number_def Let_def bind_eq_Some_conv)
  have "s \<noteq> []" using sign i by (auto simp: scan_int_def)
  with sign have "?sign (s @ r) = (m, u @ r)" by (cases s) (auto split: if_splits)
  then show ?thesis
    using scan_int_ends [OF i assms(2)] scan_part_ends [OF f assms(2) num(1)] scan_part_ends [OF e assms(2) num(2)] x
    by (simp add: scan_number_def Let_def)
qed

lemma scan_number_head: "scan_number (c # t) \<noteq> None \<Longrightarrow> c = CHR ''-'' \<or> is_digit c"
  by (auto simp: scan_number_def scan_int_def bind_eq_Some_conv is_digit_def split: if_splits)

subsection \<open>Values\<close>

lemma json_text_head:
  assumes "wf_json v"
  obtains c t where "json_text v = c # t" and "\<not> is_ws c" and "c \<noteq> CHR '']''" and "c \<noteq> CHR 0x7D"
proof (cases v)
  case (JBool b)
  then show thesis using that by (cases b) (auto simp: is_ws_def)
next
  case (JNum n)
  then obtain c t where n: "n = c # t" and "c = CHR ''-'' \<or> is_digit c"
    using assms scan_number_head by (cases n) (auto simp: scan_number_def scan_int_def)
  then have "\<not> is_ws c" and "c \<noteq> CHR '']''" and "c \<noteq> CHR 0x7D"
    by (auto simp: is_ws_def is_digit_def)
  then show thesis using that JNum n by simp
qed (use that in \<open>auto simp: marshal_string_def is_ws_def dquote_def split: if_splits\<close>)

text \<open>The recursive descent reads the text of a value whatever follows it.\<close>

definition reads :: "json \<Rightarrow> bool" where
  "reads v \<longleftrightarrow> (\<forall>n r. 2 * length (json_text v) \<le> n \<longrightarrow> ends r \<longrightarrow> json_value n (json_text v @ r) = Some (v, r))"

lemma ends_delimiter: "ends (CHR '','' # r)" "ends (CHR '']'' # r)" "ends (CHR 0x7D # r)"
  by (simp_all add: ends_def numeric_char_def is_digit_def)

lemma not_ws:
  "\<not> is_ws CHR '',''" "\<not> is_ws CHR '']''" "\<not> is_ws CHR 0x7D" "\<not> is_ws CHR '':''" "\<not> is_ws dquote"
  "\<not> is_ws CHR ''[''" "\<not> is_ws CHR 0x7B"
  by (simp_all add: is_ws_def dquote_def)

lemma json_elems_text:
  assumes "\<forall>x \<in> set xs. reads x" and "xs \<noteq> []" and "2 * length (join '','' (map json_text xs)) < n"
  shows "json_elems n (join '','' (map json_text xs) @ CHR '']'' # r) = Some (xs, r)"
  using assms
proof (induction xs arbitrary: n)
  case step: (Cons x xs)
  then obtain m where n: "n = Suc m" by (cases n) auto
  show ?case
  proof (cases xs)
    case Nil
    then show ?thesis
      using step.prems n ends_delimiter by (simp add: reads_def not_ws)
  next
    case (Cons y ys)
    let ?rest = "join '','' (map json_text xs) @ CHR '']'' # r"
    have whole: "join '','' (map json_text (x # xs)) @ CHR '']'' # r = json_text x @ CHR '','' # ?rest"
      using Cons by simp
    have "json_value m (json_text x @ CHR '','' # ?rest) = Some (x, CHR '','' # ?rest)"
      using step.prems n ends_delimiter Cons by (simp add: reads_def)
    moreover have "json_elems m ?rest = Some (xs, r)"
      using step.IH [of m] step.prems n Cons by simp
    ultimately show ?thesis
      unfolding whole n by (simp add: not_ws)
  qed
qed simp

abbreviation member_text :: "string \<times> json \<Rightarrow> string" where
  "member_text m \<equiv> marshal_string (fst m) @ CHR '':'' # json_text (snd m)"

lemma scan_key_text: "utf8_valid k \<Longrightarrow> scan_key (marshal_string k @ CHR '':'' # s) = Some (k, s)"
  by (simp add: scan_key_def marshal_string_def not_ws string_body_escape)

lemma json_members_text:
  assumes "\<forall>m \<in> set ms. utf8_valid (fst m) \<and> reads (snd m)" and "ms \<noteq> []" and "2 * length (join '','' (map member_text ms)) < n"
  shows "json_members n (join '','' (map member_text ms) @ CHR 0x7D # r) = Some (ms, r)"
  using assms
proof (induction ms arbitrary: n)
  case step: (Cons m ms)
  then obtain l where n: "n = Suc l" by (cases n) auto
  obtain k v where m: "m = (k, v)" by (cases m)
  show ?case
  proof (cases ms)
    case Nil
    then show ?thesis
      using step.prems n m ends_delimiter by (simp add: reads_def not_ws scan_key_text)
  next
    case (Cons y ys)
    let ?rest = "join '','' (map member_text ms) @ CHR 0x7D # r"
    have whole: "join '','' (map member_text (m # ms)) @ CHR 0x7D # r = marshal_string k @ CHR '':'' # json_text v @ CHR '','' # ?rest"
      using Cons m by simp
    have "json_value l (json_text v @ CHR '','' # ?rest) = Some (v, CHR '','' # ?rest)"
      using step.prems n ends_delimiter Cons m by (simp add: reads_def)
    moreover have "json_members l ?rest = Some (ms, r)"
      using step.IH [of l] step.prems n Cons by simp
    ultimately show ?thesis
      unfolding whole n using step.prems m by (simp add: not_ws scan_key_text)
  qed
qed simp

lemma readsI:
  assumes "\<And>n r. 2 * length (json_text v) \<le> Suc n \<Longrightarrow> json_value (Suc n) (json_text v @ r) = Some (v, r)" and "json_text v \<noteq> []"
  shows "reads v"
  unfolding reads_def
proof (intro allI impI)
  fix n r
  assume "2 * length (json_text v) \<le> n"
  with assms(2) show "json_value n (json_text v @ r) = Some (v, r)"
    using assms(1) by (cases n) auto
qed

lemma json_value_array:
  "take 1 (skip_ws t) \<noteq> '']'' \<Longrightarrow> json_value (Suc n) (CHR ''['' # t) = map_option (apfst JArr) (json_elems n t)"
  by (simp add: not_ws)

lemma json_value_object:
  "take 1 (skip_ws t) \<noteq> [CHR 0x7D] \<Longrightarrow> json_value (Suc n) (CHR 0x7B # t) = map_option (apfst JObj) (json_members n t)"
  by (simp add: not_ws)

lemma all_Suc_ge: "(\<forall>n. Suc (Suc k) \<le> n \<longrightarrow> P n) \<longleftrightarrow> (\<forall>n. Suc k \<le> n \<longrightarrow> P (Suc n))"
  by (metis Suc_le_D Suc_le_mono)

lemma wf_json_reads: "wf_json v \<Longrightarrow> reads v"
proof (induction v)
  case (JNum s)
  then obtain c t where s: "s = c # t" and c: "c = CHR ''-'' \<or> is_digit c"
    using scan_number_head by (cases s) (auto simp: scan_number_def scan_int_def)
  then have "\<not> is_ws c" and "c \<notin> {CHR 0x7B, CHR ''['', dquote, CHR ''t'', CHR ''f'', CHR ''n''}"
    by (auto simp: is_ws_def is_digit_def dquote_def)
  then show ?case
    using JNum scan_number_ends [of s s] by (simp add: reads_def s all_Suc_ge)
next
  case (JStr s)
  then show ?case
    by (simp add: reads_def all_Suc_ge marshal_string_def not_ws string_body_escape) (simp add: dquote_def)
next
  case (JArr xs)
  show ?case
  proof (cases xs)
    case Nil
    then show ?thesis by (simp add: reads_def numeral_eq_Suc all_Suc_ge not_ws)
  next
    case (Cons x ys)
    obtain c t where "json_text x = c # t" and "\<not> is_ws c" and "c \<noteq> CHR '']''"
      using json_text_head [of x] JArr.prems Cons by (metis list.simps(15) list_all_iff insertI1 wf_json.simps(3))
    then have "take 1 (skip_ws (join '','' (map json_text xs) @ CHR '']'' # r)) \<noteq> '']''" for r
      using Cons by (cases ys) auto
    moreover have "\<forall>x \<in> set xs. reads x"
      using JArr by (simp add: list_all_iff)
    moreover have "xs \<noteq> []" using Cons by simp
    ultimately show ?thesis
      by (intro readsI) (simp_all add: json_value_array json_elems_text del: json_value.simps json_elems.simps)
  qed
next
  case (JObj ms)
  show ?case
  proof (cases ms)
    case Nil
    then show ?thesis by (simp add: reads_def numeral_eq_Suc all_Suc_ge not_ws)
  next
    case (Cons m ys)
    then have "take 1 (skip_ws (join '','' (map member_text ms) @ CHR 0x7D # r)) \<noteq> [CHR 0x7D]" for r
      by (cases ys) (auto simp: marshal_string_def is_ws_def dquote_def)
    moreover have "\<forall>m \<in> set ms. utf8_valid (fst m) \<and> reads (snd m)"
      using JObj by (force simp: list_all_iff)
    moreover have "ms \<noteq> []" using Cons by simp
    ultimately show ?thesis
      by (intro readsI) (simp_all add: json_value_object json_members_text del: json_value.simps json_members.simps)
  qed
qed (auto intro!: readsI simp: is_ws_def dquote_def scan_word_def has_prefix_def split: if_splits)

theorem json_round_trip:
  assumes "wf_json v"
  shows "json_parse (json_text v) = Some v"
proof -
  have "json_value (2 * length (json_text v) + 2) (json_text v @ []) = Some (v, [])"
    using wf_json_reads [OF assms] unfolding reads_def ends_def by (metis le_add1)
  then show ?thesis unfolding json_parse_def by simp
qed

end
