(* ===== verification/Rat_Text.thy ===== *)
theory Rat_Text
  imports Decimal
begin

text \<open>
  \<open>big.Rat.SetString\<close> in full: a fraction of two integers, or a number with a fraction and an
  exponent, each in base 10 or with a prefix for base 2, 8 or 16, with underscores between digits.
  An exponent beyond a million is refused. On the decimals the program prints it is the reading of
  \<open>Decimal\<close>.
\<close>

definition digit36 :: "char \<Rightarrow> nat" where
  "digit36 c = (let n = of_char c in
     if is_digit c then n - 48
     else if 97 \<le> n \<and> n \<le> 122 then n - 87
     else if 65 \<le> n \<and> n \<le> 90 then n - 55 else 63)"

text \<open>
  The digits of a number in base \<open>b\<close>: their value, how many they are, how many stand before the
  point, and whether an underscore is misplaced. \<open>prev\<close> is \<^verbatim>\<open>0\<close> after a digit.
\<close>

fun scan_digits :: "nat \<Rightarrow> bool \<Rightarrow> string \<Rightarrow> nat \<Rightarrow> nat \<Rightarrow> nat option \<Rightarrow> char \<Rightarrow> bool \<Rightarrow> nat \<times> nat \<times> nat option \<times> bool \<times> string" where
  "scan_digits b fracOk [] v n dp prev bad = (v, n, dp, bad \<or> prev = CHR ''_'', [])"
| "scan_digits b fracOk (c # s) v n dp prev bad =
     (if c = CHR ''.'' \<and> fracOk then scan_digits b False s v n (Some n) CHR ''.'' (bad \<or> prev = CHR ''_'')
      else if c = CHR ''_'' then scan_digits b fracOk s v n dp CHR ''_'' (bad \<or> prev \<noteq> CHR ''0'')
      else if digit36 c < b then scan_digits b fracOk s (v * b + digit36 c) (Suc n) dp CHR ''0'' bad
      else (v, n, dp, bad \<or> prev = CHR ''_'', c # s))"

definition scan_base :: "bool \<Rightarrow> string \<Rightarrow> nat \<times> nat \<times> char \<times> bool \<times> string" where
  "scan_base fracOk s = (case s of
      z # p # t \<Rightarrow>
        if z \<noteq> CHR ''0'' then (10, 0, CHR ''.'', False, s)
        else if p \<in> set ''bB'' then (2, 0, CHR ''0'', False, t)
        else if p \<in> set ''oO'' then (8, 0, CHR ''0'', False, t)
        else if p \<in> set ''xX'' then (16, 0, CHR ''0'', False, t)
        else if fracOk then (10, 1, CHR ''0'', False, p # t)
        else (8, 0, CHR ''0'', True, p # t)
    | _ \<Rightarrow> (10, 0, CHR ''.'', False, s))"

text \<open>An unsigned number: its digits read as an integer, the base, and the number of fractional digits.\<close>

definition scan_nat :: "bool \<Rightarrow> string \<Rightarrow> (nat \<times> nat \<times> nat \<times> string) option" where
  "scan_nat fracOk s = (case scan_base fracOk s of (b, k, prev, octal, t) \<Rightarrow>
     case scan_digits b fracOk t 0 k None prev False of (v, n, dp, bad, r) \<Rightarrow>
       if bad then None
       else if n = 0 then (if octal then Some (0, 10, 0, r) else None)
       else Some (v, b, (case dp of None \<Rightarrow> 0 | Some d \<Rightarrow> n - d), r))"

fun exponent_digits :: "string \<Rightarrow> string \<Rightarrow> char \<Rightarrow> bool \<Rightarrow> string \<times> bool \<times> string" where
  "exponent_digits [] ds prev bad = (ds, bad \<or> prev = CHR ''_'', [])"
| "exponent_digits (c # s) ds prev bad =
     (if is_digit c then exponent_digits s (ds @ [c]) CHR ''0'' bad
      else if c = CHR ''_'' then exponent_digits s ds CHR ''_'' (bad \<or> prev \<noteq> CHR ''0'')
      else (ds, bad \<or> prev = CHR ''_'', c # s))"

text \<open>The exponent and its base.\<close>

definition scan_exponent :: "string \<Rightarrow> (int \<times> nat \<times> string) option" where
  "scan_exponent s = (case s of
      [] \<Rightarrow> Some (0, 10, [])
    | c # t \<Rightarrow>
        if c \<notin> set ''eEpP'' then Some (0, 10, s)
        else case split_sign t of (neg, u) \<Rightarrow> (case exponent_digits u [] CHR ''.'' False of (ds, bad, r) \<Rightarrow>
          let e = (if neg then - int (digits_val ds) else int (digits_val ds))
          in if ds = [] \<or> bad \<or> \<not> in_int64 e then None
             else Some (e, if c \<in> set ''eE'' then 10 else 2, r)))"

definition scan_integer :: "string \<Rightarrow> int option" where
  "scan_integer s = (case split_sign s of (neg, t) \<Rightarrow> (case scan_nat False t of
      Some (v, _, _, []) \<Rightarrow> Some (if neg then - int v else int v)
    | _ \<Rightarrow> None))"

definition scan_fraction :: "string \<Rightarrow> string \<Rightarrow> rat option" where
  "scan_fraction a b = (case (scan_integer a, scan_nat False b) of
      (Some n, Some (d, _, _, [])) \<Rightarrow> if d = 0 then None else Some (of_int n / of_nat d)
    | _ \<Rightarrow> None)"

definition signed_power :: "rat \<Rightarrow> int \<Rightarrow> rat" where
  "signed_power x e = (if 0 \<le> e then x ^ nat e else 1 / x ^ nat (- e))"

definition bits_per_digit :: "nat \<Rightarrow> nat" where
  "bits_per_digit b = (if b = 16 then 4 else if b = 8 then 3 else 1)"

definition scan_float :: "string \<Rightarrow> rat option" where
  "scan_float s = (case split_sign s of (neg, t) \<Rightarrow> (case scan_nat True t of
      None \<Rightarrow> None
    | Some (v, b, f, u) \<Rightarrow> (case scan_exponent u of
        Some (e, eb, []) \<Rightarrow>
          if v = 0 then Some 0
          else let exp5 = (if b = 10 then - int f else 0) + (if eb = 10 then e else 0);
                   exp2 = - int (bits_per_digit b * f) + e
               in if \<bar>exp5\<bar> > 10 ^ 6 \<or> \<bar>exp2\<bar> > 10 ^ 7 then None
                  else let x = of_nat v * signed_power 5 exp5 * signed_power 2 exp2 in Some (if neg then - x else x)
      | _ \<Rightarrow> None)))"

definition Rat_SetString :: "string \<Rightarrow> rat option" where
  "Rat_SetString s =
     (if CHR ''/'' \<in> set s then scan_fraction (takeWhile ((\<noteq>) CHR ''/'') s) (tl (dropWhile ((\<noteq>) CHR ''/'') s)) else scan_float s)"

subsection \<open>Decimals\<close>

lemma digit36_decimal: "is_digit c \<Longrightarrow> digit36 c = digit_val c \<and> digit36 c < 10 \<and> c \<noteq> CHR ''.'' \<and> c \<noteq> CHR ''_''"
  by (auto simp: digit36_def digit_val_def is_digit_def)

lemma scan_digits_decimal:
  assumes "\<forall>c \<in> set ds. is_digit c"
  shows "scan_digits 10 fracOk (ds @ r) v n dp prev bad =
    scan_digits 10 fracOk r (v * 10 ^ length ds + digits_val ds) (n + length ds) dp (if ds = [] then prev else CHR ''0'') bad"
  using assms
proof (induction ds arbitrary: v n prev)
  case (Cons c ds)
  have "digits_val (c # ds) = digit_val c * 10 ^ length ds + digits_val ds"
    using digits_val_append [of "[c]" ds] digits_val_snoc [of "[]" c] by simp
  then show ?case
    using Cons digit36_decimal [of c] by (simp add: algebra_simps)
qed simp

lemma scan_nat_decimal:
  assumes "ip \<noteq> []" and "\<forall>c \<in> set ip. is_digit c" and "\<forall>c \<in> set fp. is_digit c"
  shows "scan_nat True (ip @ CHR ''.'' # fp) = Some (digits_val (ip @ fp), 10, length fp, [])"
proof -
  obtain c t where ip: "ip = c # t" using assms(1) by (cases ip) auto
  have t: "\<forall>d \<in> set t. is_digit d" using assms(2) ip by simp
  obtain p u where pu: "t @ CHR ''.'' # fp = p # u" by (cases t) auto
  have p: "p \<notin> set ''bB'' \<and> p \<notin> set ''oO'' \<and> p \<notin> set ''xX''"
    using pu t by (cases t) (auto simp: is_digit_def)
  have zero: "digit_val CHR ''0'' = 0" by (simp add: digit_val_def)
  have val: "digits_val (c # t) = digit_val c * 10 ^ length t + digits_val t" "digits_val (c # t @ fp) = digits_val (c # t) * 10 ^ length fp + digits_val fp"
    using digits_val_append [of "[c]" t] digits_val_snoc [of "[]" c] digits_val_append [of "c # t" fp] by simp_all
  show ?thesis
  proof (cases "c = CHR ''0''")
    case True
    then have "scan_base True (ip @ CHR ''.'' # fp) = (10, 1, CHR ''0'', False, t @ CHR ''.'' # fp)"
      using p pu by (auto simp: scan_base_def ip)
    then show ?thesis
      using t scan_digits_decimal [OF assms(3), of False "[]"] True zero val by (simp add: scan_nat_def scan_digits_decimal ip)
  next
    case False
    then have "scan_base True (ip @ CHR ''.'' # fp) = (10, 0, CHR ''.'', False, ip @ CHR ''.'' # fp)"
      using pu by (simp add: scan_base_def ip)
    then show ?thesis
      using scan_digits_decimal [OF assms(3), of False "[]"] assms(1)
      by (simp add: scan_nat_def scan_digits_decimal [OF assms(2)] digits_val_append)
  qed
qed

lemma Rat_SetString_print18: "Rat_SetString (print18 k) = Some (of_int k / of_int scale18)"
proof -
  obtain ip fp where p: "print18 k = (if k < 0 then ''-'' else []) @ ip @ ''.'' @ fp"
    "length fp = 18" "ip \<noteq> []" "\<forall>c \<in> set ip. is_digit c" "\<forall>c \<in> set fp. is_digit c" "digits_val (ip @ fp) = nat \<bar>k\<bar>"
    by (rule print18_cases [of k])
  obtain c t where ip: "ip = c # t" and "is_digit c" using p(3,4) by (cases ip) auto
  then have "c \<noteq> CHR ''-'' \<and> c \<noteq> CHR ''+''" by (auto simp: is_digit_def)
  then have sign: "split_sign (print18 k) = (k < 0, ip @ CHR ''.'' # fp)"
    by (auto simp: p(1) ip split_sign_def)
  have "CHR ''/'' \<notin> set (print18 k)"
    using p(4,5) unfolding p(1) by (auto simp: is_digit_def)
  moreover have "scan_nat True (ip @ CHR ''.'' # fp) = Some (nat \<bar>k\<bar>, 10, 18, [])"
    using scan_nat_decimal [OF p(3-5)] p(2,6) by simp
  moreover have "signed_power 5 (- 18) * signed_power 2 (- 18) = 1 / of_int scale18"
    by (simp add: signed_power_def scale18_def)
  ultimately show ?thesis
    by (auto simp: Rat_SetString_def scan_float_def sign scan_exponent_def bits_per_digit_def Let_def mult.assoc)
qed

end
