(* ===== verification/Evidence_Store.thy ===== *)
theory Evidence_Store
  imports Json_Text Rat_Text Archive Journal
begin

text \<open>
  What the evidence service, \<open>internal/application/evidence/service.go\<close>, reads and writes.
  A row is given by the columns the service compares and by its document, the value
  \<^verbatim>\<open>to_jsonb\<close> makes of it. The tables of a transaction are one state: every table the service
  reads but \<^verbatim>\<open>instruments\<close> and \<^verbatim>\<open>accounts\<close> is closed to updates by a trigger.
  A document is a value of type \<open>json\<close>: \<^verbatim>\<open>jsonb\<close> orders the members of an object by
  the length of their names first, and \<open>json.Marshal\<close> writes a raw message compacted, which is
  \<open>json_text\<close>. Of a document decoded into \<^verbatim>\<open>any\<close> the service reads strings, objects and
  arrays only, so numbers keep their literal; one that does not fit a \<^verbatim>\<open>float64\<close> makes the
  decoding fail. The limit of 10000 nested values of the decoder is not modelled. An identifier that
  passed \<open>canonicalUUID\<close> is its own cast; the cast of other texts is \<open>ee_cast\<close>.
\<close>

record ev_snapshot_row =
  es_id :: string
  es_portfolio :: string
  es_doc :: json

record ev_child_row =
  ec_parent :: string
  ec_key :: string
  ec_doc :: json

record ev_valuation_row =
  ev_id :: string
  ev_snapshot :: string
  ev_state :: string
  ev_doc :: json

record ev_valuation_line =
  el_id :: string
  el_run :: string
  el_price :: "string option"
  el_try_fx :: "string list"
  el_usd_fx :: "string list"
  el_doc :: json

record ev_run_row =
  ern_id :: string
  ern_account :: string
  ern_snapshot :: string
  ern_valuation :: "string option"
  ern_scenario :: "string \<times> int"
  ern_job :: string
  ern_state :: string
  ern_result :: "json option"
  ern_hash :: "string option"
  ern_completed :: "time option"
  ern_doc :: json

record ev_job_row =
  ej_id :: string
  ej_state :: string
  ej_result :: "json option"
  ej_hash :: "string option"
  ej_doc :: json

record ev_price_row =
  ep_id :: string
  ep_instrument :: string
  ep_observation :: time
  ep_price :: string
  ep_quote :: string
  ep_source_known :: "time option"
  ep_system_known :: time
  ep_basis :: string
  ep_raw :: string
  ep_doc :: json

record ev_fx_row =
  ef_id :: string
  ef_base :: string
  ef_quote :: string
  ef_observation :: time
  ef_rate :: string
  ef_source_known :: "time option"
  ef_system_known :: time
  ef_basis :: string
  ef_raw :: string
  ef_doc :: json

record ev_observation_row =
  eo_id :: string
  eo_raw :: string
  eo_doc :: json

text \<open>A source object, as the manifest lists it and as \<^verbatim>\<open>raw_objects\<close> holds it.\<close>

record RawRef =
  rr_ID :: string
  rr_Key :: string
  rr_SHA256 :: string

record Entry =
  en_Kind :: string
  en_Reference :: string
  en_Description :: string
  en_Snapshot :: json

record Manifest =
  mf_SchemaVersion :: string
  mf_ContractVersion :: string
  mf_DecisionID :: string
  mf_AccountID :: string
  mf_References :: "Entry list"
  mf_RawObjects :: "RawRef list"

record evidence_row =
  dv_decision :: string
  dv_bytes :: string
  dv_sha :: string

record evidence_db =
  ed_accounts :: "(string \<times> string) list"
  ed_instruments :: "(string \<times> string \<times> string) list"
  ed_snapshots :: "ev_snapshot_row list"
  ed_snapshot_lines :: "ev_child_row list"
  ed_valuations :: "ev_valuation_row list"
  ed_valuation_lines :: "ev_valuation_line list"
  ed_runs :: "ev_run_row list"
  ed_versions :: "((string \<times> int) \<times> json) list"
  ed_jobs :: "ev_job_row list"
  ed_positions :: "ev_child_row list"
  ed_metrics :: "ev_child_row list"
  ed_observations :: "ev_observation_row list"
  ed_prices :: "ev_price_row list"
  ed_fx :: "ev_fx_row list"
  ed_raws :: "RawRef list"
  ed_evidence :: "evidence_row list"

text \<open>
  What the service runs on: the archive it was given, the keys whose reading fails, the failing
  statements, the digest, the cast to \<^verbatim>\<open>uuid\<close> and the collation of the database.
\<close>

record evidence_env =
  ee_archive :: "bucket option"
  ee_get_fails :: "string \<Rightarrow> bool"
  ee_fault :: db_fault
  ee_sha :: "string \<Rightarrow> string"
  ee_cast :: "string \<Rightarrow> string option"
  ee_collate :: "string \<Rightarrow> string"

abbreviation ContractVersion :: string where "ContractVersion \<equiv> ''1.0.0''"

subsection \<open>Identifiers\<close>

definition canonicalUUID :: "string \<Rightarrow> string option" where
  "canonicalUUID value =
     (if length value \<noteq> 36 then None
      else if list_all (\<lambda>i. if i \<in> {8, 13, 18, 23} then value ! i = CHR ''-'' else hex_val (value ! i) \<noteq> None) [0..<36]
      then Some (ToLower value) else None)"

subsection \<open>The manifest as JSON\<close>

definition raw_json :: "RawRef \<Rightarrow> json" where
  "raw_json r = JObj [(''id'', JStr (rr_ID r)), (''key'', JStr (rr_Key r)), (''sha256'', JStr (rr_SHA256 r))]"

definition entry_json :: "Entry \<Rightarrow> json" where
  "entry_json e = JObj ([(''kind'', JStr (en_Kind e)), (''reference'', JStr (en_Reference e))]
     @ (if en_Description e = [] then [] else [(''description'', JStr (en_Description e))]) @ [(''snapshot'', en_Snapshot e)])"

definition manifest_json :: "Manifest \<Rightarrow> json" where
  "manifest_json m = JObj [(''schema_version'', JStr (mf_SchemaVersion m)), (''contract_version'', JStr (mf_ContractVersion m)),
     (''decision_id'', JStr (mf_DecisionID m)), (''account_id'', JStr (mf_AccountID m)),
     (''references'', JArr (map entry_json (mf_References m))), (''raw_objects'', JArr (map raw_json (mf_RawObjects m)))]"

text \<open>Decoding: a list field set to \<^verbatim>\<open>null\<close> is empty, a \<^verbatim>\<open>null\<close> element the zero value.\<close>

definition decode_list :: "'a \<Rightarrow> (metadata \<Rightarrow> 'a option) \<Rightarrow> json \<Rightarrow> 'a list option" where
  "decode_list zero dec v = (case v of
      JArr xs \<Rightarrow> those (map (\<lambda>x. case x of JNull \<Rightarrow> Some zero | JObj ms \<Rightarrow> dec ms | _ \<Rightarrow> None) xs)
    | _ \<Rightarrow> None)"

definition decode_raw :: "metadata \<Rightarrow> RawRef option" where
  "decode_raw ms = do {
     i \<leftarrow> string_field ''id'' ms; k \<leftarrow> string_field ''key'' ms; h \<leftarrow> string_field ''sha256'' ms;
     Some \<lparr>rr_ID = i, rr_Key = k, rr_SHA256 = h\<rparr> }"

text \<open>A raw message keeps \<^verbatim>\<open>null\<close>; one that is absent is empty, and is written as \<^verbatim>\<open>null\<close>.\<close>

definition raw_field :: "string \<Rightarrow> metadata \<Rightarrow> json" where
  "raw_field f ms = (case rev (field_values f ms) of [] \<Rightarrow> JNull | v # _ \<Rightarrow> v)"

definition decode_entry :: "metadata \<Rightarrow> Entry option" where
  "decode_entry ms = do {
     k \<leftarrow> string_field ''kind'' ms; r \<leftarrow> string_field ''reference'' ms; d \<leftarrow> string_field ''description'' ms;
     Some \<lparr>en_Kind = k, en_Reference = r, en_Description = d, en_Snapshot = raw_field ''snapshot'' ms\<rparr> }"

definition decode_manifest :: "json \<Rightarrow> Manifest option" where
  "decode_manifest v = (case v of
      JNull \<Rightarrow> Some \<lparr>mf_SchemaVersion = [], mf_ContractVersion = [], mf_DecisionID = [], mf_AccountID = [], mf_References = [], mf_RawObjects = []\<rparr>
    | JObj ms \<Rightarrow> do {
        s \<leftarrow> string_field ''schema_version'' ms; c \<leftarrow> string_field ''contract_version'' ms;
        d \<leftarrow> string_field ''decision_id'' ms; a \<leftarrow> string_field ''account_id'' ms;
        es \<leftarrow> decode_each (decode_list \<lparr>en_Kind = [], en_Reference = [], en_Description = [], en_Snapshot = JNull\<rparr> decode_entry) [] (field_values ''references'' ms);
        rs \<leftarrow> decode_each (decode_list \<lparr>rr_ID = [], rr_Key = [], rr_SHA256 = []\<rparr> decode_raw) [] (field_values ''raw_objects'' ms);
        Some \<lparr>mf_SchemaVersion = s, mf_ContractVersion = c, mf_DecisionID = d, mf_AccountID = a, mf_References = es, mf_RawObjects = rs\<rparr> }
    | _ \<Rightarrow> None)"

subsection \<open>Decoding into \<open>any\<close>\<close>

definition number_rat :: "string \<Rightarrow> rat" where
  "number_rat n = (case split_sign n of (_, t) \<Rightarrow>
     let m = takeWhile (\<lambda>c. c \<notin> set ''eE'') t;
         e = (case split_sign (drop (Suc (length m)) t) of (neg, ds) \<Rightarrow> if neg then - int (digits_val ds) else int (digits_val ds))
     in (case unsigned_rat m of None \<Rightarrow> 0 | Some x \<Rightarrow> x * signed_power 10 e))"

definition float_fits :: "string \<Rightarrow> bool" where
  "float_fits n \<longleftrightarrow> number_rat n < 2 ^ 1024 - 2 ^ 970"

fun any_ok :: "json \<Rightarrow> bool" where
  "any_ok (JNum n) = float_fits n"
| "any_ok (JArr xs) = list_all any_ok xs"
| "any_ok (JObj ms) = list_all (\<lambda>m. any_ok (snd m)) ms"
| "any_ok _ = True"

text \<open>\<^verbatim>\<open>map[string]any\<close>, and maps and lists of such values.\<close>

definition decode_object :: "json \<Rightarrow> metadata option" where
  "decode_object v = (case v of JNull \<Rightarrow> Some [] | JObj ms \<Rightarrow> if any_ok v then Some ms else None | _ \<Rightarrow> None)"

definition decode_objects :: "json \<Rightarrow> metadata list option" where
  "decode_objects v = (case v of JNull \<Rightarrow> Some [] | JArr xs \<Rightarrow> those (map decode_object xs) | _ \<Rightarrow> None)"

definition decode_map :: "(json \<Rightarrow> 'a option) \<Rightarrow> json \<Rightarrow> (string \<times> 'a) list option" where
  "decode_map dec v = (case v of
      JNull \<Rightarrow> Some []
    | JObj ms \<Rightarrow> those (map (\<lambda>m. map_option (Pair (fst m)) (dec (snd m))) ms)
    | _ \<Rightarrow> None)"

text \<open>The keys of a map, and what it holds under one.\<close>

definition map_keys :: "(string \<times> 'a) list \<Rightarrow> string list" where
  "map_keys ms = remdups (map fst ms)"

definition map_value :: "(string \<times> 'a) list \<Rightarrow> string \<Rightarrow> 'a option" where
  "map_value ms k = map_of (rev ms) k"

definition emptyJSONObject :: "json \<Rightarrow> bool" where
  "emptyJSONObject v = (case decode_object v of Some ms \<Rightarrow> ms = [] | None \<Rightarrow> False)"

end
