(* ===== verification/Evidence_Service.thy ===== *)
theory Evidence_Service
  imports Evidence_Store
begin

text \<open>
  The evidence service, \<open>internal/application/evidence/service.go\<close>: sealing the evidence of a
  decision and giving it back. A call in progress is a value of type \<open>sealing\<close>: the parts of
  the manifest found so far, the identifiers the references have to agree on, and the number of
  statements run. The map \<^verbatim>\<open>rawSeen\<close> holds the identifiers of the listed source objects, so
  it is read off the list. \<open>seal_error\<close> tells what the caller can find in the chain of an
  error: \<^verbatim>\<open>ErrIncomplete\<close>, \<^verbatim>\<open>ErrIntegrity\<close> or neither.
\<close>

record sealing =
  sg_References :: "Entry list"
  sg_RawObjects :: "RawRef list"
  sg_snapshotID :: string
  sg_valuationSnapshot :: string
  sg_riskSnapshot :: string
  sg_valuationID :: string
  sg_riskValuationID :: string
  sg_seen :: "string list"
  sg_stmt :: nat

fun res_fold :: "('s \<Rightarrow> 'a \<Rightarrow> 'e + 's) \<Rightarrow> 's \<Rightarrow> 'a list \<Rightarrow> 'e + 's" where
  "res_fold f s [] = Inr s"
| "res_fold f s (x # xs) = res_bind (f s x) (\<lambda>s. res_fold f s xs)"

text \<open>A statement that asks for one row.\<close>

definition fetch :: "evidence_env \<Rightarrow> 'a option \<Rightarrow> sealing \<Rightarrow> seal_error + 'a \<times> sealing" where
  "fetch env row st =
     (if ee_fault env (DbStmt (sg_stmt st)) then Inl SealOther
      else case row of None \<Rightarrow> Inl SealIncomplete | Some x \<Rightarrow> Inr (x, st\<lparr>sg_stmt := sg_stmt st + 1\<rparr>))"

subsection \<open>Source objects\<close>

definition verifyRaw :: "evidence_env \<Rightarrow> RawRef \<Rightarrow> bool" where
  "verifyRaw env raw = (case ee_archive env of
      None \<Rightarrow> False
    | Some b \<Rightarrow> (case Get_object (\<lambda>_. ee_get_fails env (rr_Key raw)) (rr_Key raw) b of
        Inl _ \<Rightarrow> False
      | Inr body \<Rightarrow> ee_sha env body = rr_SHA256 raw))"

definition rawSeen :: "sealing \<Rightarrow> string \<Rightarrow> bool" where
  "rawSeen st i \<longleftrightarrow> i \<in> rr_ID ` set (sg_RawObjects st)"

definition addRawDependency :: "evidence_env \<Rightarrow> RawRef \<Rightarrow> sealing \<Rightarrow> seal_error + sealing" where
  "addRawDependency env raw st =
     (if rawSeen st (rr_ID raw) then Inr st
      else if \<not> verifyRaw env raw then Inl SealIntegrity
      else Inr (st\<lparr>sg_RawObjects := sg_RawObjects st @ [raw]\<rparr>))"

definition find_raw :: "evidence_db \<Rightarrow> string \<Rightarrow> RawRef option" where
  "find_raw db i = find (\<lambda>r. rr_ID r = i) (ed_raws db)"

subsection \<open>Entries of the metric inputs\<close>

definition metricString :: "metadata \<Rightarrow> string \<Rightarrow> string" where
  "metricString entry key = TrimSpace (case map_get entry key of Some (JStr s) \<Rightarrow> s | _ \<Rightarrow> [])"

definition metricUUID :: "metadata \<Rightarrow> string \<Rightarrow> string option" where
  "metricUUID entry key = (case map_get entry key of Some (JStr s) \<Rightarrow> canonicalUUID s | _ \<Rightarrow> None)"

definition metricTimestamp :: "metadata \<Rightarrow> string \<Rightarrow> time \<Rightarrow> bool" where
  "metricTimestamp entry key expected = (case map_get entry key of
      Some (JStr s) \<Rightarrow> parse_RFC3339 s = Some expected
    | _ \<Rightarrow> False)"

definition metricNullableTimestamp :: "metadata \<Rightarrow> string \<Rightarrow> time option \<Rightarrow> bool" where
  "metricNullableTimestamp entry key expected = (case map_get entry key of
      None \<Rightarrow> expected = None
    | Some JNull \<Rightarrow> expected = None
    | Some (JStr s) \<Rightarrow> (case expected of None \<Rightarrow> False | Some t \<Rightarrow> parse_RFC3339 s = Some t)
    | _ \<Rightarrow> False)"

definition metricObservationDay :: "metadata \<Rightarrow> string option" where
  "metricObservationDay entry = (case map_get entry ''observation_time'' of
      Some (JStr s) \<Rightarrow> map_option (format_date UTC) (parse_RFC3339 s)
    | _ \<Rightarrow> None)"

text \<open>The \<^verbatim>\<open>fx_path\<close> of an entry, absent when it is missing, null or no list of objects.\<close>

definition metricFXPath :: "metadata \<Rightarrow> metadata list option" where
  "metricFXPath entry = (case map_get entry ''fx_path'' of
      None \<Rightarrow> None
    | Some v \<Rightarrow> if v = JNull then None else decode_objects v)"

definition lenMetricFXPath :: "metadata \<Rightarrow> int" where
  "lenMetricFXPath entry = (case metricFXPath entry of None \<Rightarrow> - 1 | Some fs \<Rightarrow> int (length fs))"

fun split_slash :: "string \<Rightarrow> string list" where
  "split_slash [] = [[]]"
| "split_slash (c # s) = (if c = CHR ''/'' then [] # split_slash s else (c # hd (split_slash s)) # tl (split_slash s))"

definition metricFXStep :: "metadata \<Rightarrow> (string \<times> string) option" where
  "metricFXStep entry = (case split_slash (metricString entry ''pair'') of
      [a, b] \<Rightarrow>
        if a = [] \<or> b = [] then None
        else let base = ToUpper (TrimSpace a); quote = ToUpper (TrimSpace b); direction = metricString entry ''direction''
             in if direction = ''direct'' then Some (base, quote)
                else if direction = ''inverse'' then Some (quote, base) else None
    | _ \<Rightarrow> None)"

text \<open>\<open>big.Rat.FloatString(18)\<close> of a positive number.\<close>

definition FloatString18 :: "rat \<Rightarrow> string" where
  "FloatString18 v = print18 (scaled_quotient v)"

definition positive_rat :: "string \<Rightarrow> rat option" where
  "positive_rat s = (case Rat_SetString s of None \<Rightarrow> None | Some x \<Rightarrow> if x \<le> 0 then None else Some x)"

fun convert_path :: "string \<times> rat \<Rightarrow> metadata list \<Rightarrow> (string \<times> rat) option" where
  "convert_path cv [] = Some cv"
| "convert_path (current, expected) (revision # rs) = (case metricFXStep revision of
      None \<Rightarrow> None
    | Some (from_currency, to_currency) \<Rightarrow>
        if from_currency \<noteq> current then None
        else (case positive_rat (metricString revision ''rate'') of
            None \<Rightarrow> None
          | Some rate \<Rightarrow> convert_path (to_currency,
              if metricString revision ''direction'' = ''direct'' then expected * rate else expected / rate) rs))"

definition validateMetricUSDConversion :: "metadata \<Rightarrow> metadata list \<Rightarrow> bool" where
  "validateMetricUSDConversion entry fxRevisions = (case positive_rat (metricString entry ''price'') of
      None \<Rightarrow> False
    | Some price \<Rightarrow> (case positive_rat (metricString entry ''usd_price'') of
        None \<Rightarrow> False
      | Some usdPrice \<Rightarrow>
          let currency = ToUpper (metricString entry ''price_quote_currency'') in
          if currency = [] then False
          else (case (if currency \<noteq> ''USD'' then (if fxRevisions = [] then None else convert_path (currency, price) fxRevisions)
                      else if fxRevisions \<noteq> [] then None else Some (''USD'', price)) of
              None \<Rightarrow> False
            | Some (current, expected) \<Rightarrow> current = ''USD'' \<and> Rat_SetString (FloatString18 expected) = Some usdPrice)))"

definition validConstantCashRevision :: "string \<Rightarrow> metadata \<Rightarrow> bool" where
  "validConstantCashRevision instrumentID entry = (case canonicalUUID instrumentID of
      None \<Rightarrow> False
    | Some i \<Rightarrow>
        let constantID = ''cash-constant:'' @ i @ '':'' in
        if \<not> has_prefix (metricString entry ''id'') constantID then False
        else let day = trim_prefix (metricString entry ''id'') constantID in
        if parse_date day = None then False
        else if metricObservationDay entry \<noteq> Some day then False
        else metricString entry ''price'' = ''1'' \<and> metricString entry ''price_quote_currency'' = ''USD''
          \<and> metricString entry ''usd_price'' = ''1'' \<and> metricString entry ''knowledge_time_basis'' = ''constant_cash''
          \<and> metricNullableTimestamp entry ''source_known_at'' None \<and> metricTimestamp entry ''system_known_at'' zero_time
          \<and> lenMetricFXPath entry = 0)"

subsection \<open>Revisions named by the metric inputs\<close>

definition price_with_raw :: "evidence_db \<Rightarrow> string \<Rightarrow> (ev_price_row \<times> RawRef) option" where
  "price_with_raw db i = do {
     p \<leftarrow> find (\<lambda>p. ep_id p = i) (ed_prices db); r \<leftarrow> find_raw db (ep_raw p); Some (p, r) }"

definition fx_with_raw :: "evidence_db \<Rightarrow> string option \<Rightarrow> (ev_fx_row \<times> RawRef) option" where
  "fx_with_raw db i = do {
     f \<leftarrow> find (\<lambda>f. Some (ef_id f) = i) (ed_fx db); r \<leftarrow> find_raw db (ef_raw f); Some (f, r) }"

definition verifyMetricPriceRevision :: "evidence_env \<Rightarrow> evidence_db \<Rightarrow> string \<Rightarrow> metadata \<Rightarrow> sealing \<Rightarrow> seal_error + RawRef \<times> sealing" where
  "verifyMetricPriceRevision env db instrumentID entry st = (case metricUUID entry ''id'' of
      None \<Rightarrow> Inl SealIncomplete
    | Some revisionID \<Rightarrow> res_bind (fetch env (price_with_raw db revisionID) st) (\<lambda>((p, raw), st).
        if canonicalUUID instrumentID \<noteq> Some (ep_instrument p) \<or> ep_id p \<noteq> revisionID then Inl SealIncomplete
        else if \<not> metricTimestamp entry ''observation_time'' (ep_observation p) \<or> metricString entry ''price'' \<noteq> ep_price p
          \<or> metricString entry ''price_quote_currency'' \<noteq> TrimSpace (ep_quote p)
          \<or> \<not> metricNullableTimestamp entry ''source_known_at'' (ep_source_known p) \<or> \<not> metricTimestamp entry ''system_known_at'' (ep_system_known p)
          \<or> metricString entry ''knowledge_time_basis'' \<noteq> ep_basis p then Inl SealIncomplete
        else Inr (raw, st)))"

definition verifyMetricCashPriceRevision :: "evidence_env \<Rightarrow> evidence_db \<Rightarrow> string \<Rightarrow> metadata \<Rightarrow> string \<Rightarrow> sealing \<Rightarrow> seal_error + RawRef \<times> sealing" where
  "verifyMetricCashPriceRevision env db instrumentID entry revisionID st =
     (if ee_cast env revisionID = None then Inl SealOther
      else res_bind (fetch env (fx_with_raw db (ee_cast env revisionID)) st) (\<lambda>((f, raw), st).
        let baseCurrency = TrimSpace (ef_base f); quoteCurrency = TrimSpace (ef_quote f) in
        if canonicalUUID instrumentID = None \<or> ef_id f \<noteq> revisionID \<or> metricString entry ''price'' \<noteq> ''1'' then Inl SealIncomplete
        else if baseCurrency \<noteq> ''USD'' \<and> quoteCurrency \<noteq> ''USD'' then Inl SealIncomplete
        else let nativeCurrency = (if baseCurrency = ''USD'' then quoteCurrency else baseCurrency) in
          if metricString entry ''price_quote_currency'' \<noteq> nativeCurrency \<or> \<not> metricTimestamp entry ''observation_time'' (ef_observation f)
            \<or> \<not> metricNullableTimestamp entry ''source_known_at'' (ef_source_known f) \<or> \<not> metricTimestamp entry ''system_known_at'' (ef_system_known f)
            \<or> metricString entry ''knowledge_time_basis'' \<noteq> ef_basis f then Inl SealIncomplete
          else Inr (raw, st)))"

definition verifyMetricFXRevision :: "evidence_env \<Rightarrow> evidence_db \<Rightarrow> metadata \<Rightarrow> sealing \<Rightarrow> seal_error + RawRef \<times> sealing" where
  "verifyMetricFXRevision env db entry st = (case metricUUID entry ''id'' of
      None \<Rightarrow> Inl SealIncomplete
    | Some revisionID \<Rightarrow> res_bind (fetch env (fx_with_raw db (Some revisionID)) st) (\<lambda>((f, raw), st).
        let baseCurrency = TrimSpace (ef_base f); quoteCurrency = TrimSpace (ef_quote f) in
        case (if quoteCurrency = ''USD'' \<and> baseCurrency \<noteq> ''USD'' then Some ''direct''
              else if baseCurrency = ''USD'' \<and> quoteCurrency \<noteq> ''USD'' then Some ''inverse'' else None) of
          None \<Rightarrow> Inl SealIncomplete
        | Some direction \<Rightarrow>
            if ef_id f \<noteq> revisionID \<or> metricString entry ''pair'' \<noteq> baseCurrency @ ''/'' @ quoteCurrency
              \<or> metricString entry ''direction'' \<noteq> direction \<or> \<not> metricTimestamp entry ''observation_time'' (ef_observation f)
              \<or> metricString entry ''rate'' \<noteq> ef_rate f \<or> \<not> metricNullableTimestamp entry ''source_known_at'' (ef_source_known f)
              \<or> \<not> metricTimestamp entry ''system_known_at'' (ef_system_known f) \<or> metricString entry ''knowledge_time_basis'' \<noteq> ef_basis f
            then Inl SealIncomplete
            else Inr (raw, st)))"

record metricInstrument =
  mi_Kind :: string
  mi_Native :: string

text \<open>An instrument by its identifier, from the cache when it was read before.\<close>

definition loadMetricInstrument :: "evidence_env \<Rightarrow> evidence_db \<Rightarrow> string \<Rightarrow> (string \<times> metricInstrument) list \<Rightarrow> sealing
    \<Rightarrow> seal_error + metricInstrument \<times> (string \<times> metricInstrument) list \<times> sealing" where
  "loadMetricInstrument env db instrumentID cache st = (case map_of cache instrumentID of
      Some i \<Rightarrow> Inr (i, cache, st)
    | None \<Rightarrow>
        if ee_fault env (DbStmt (sg_stmt st)) then Inl SealOther
        else (case find (\<lambda>r. Some (fst r) = canonicalUUID instrumentID) (ed_instruments db) of
            None \<Rightarrow> Inl SealOther
          | Some (_, kind, native) \<Rightarrow>
              let i = \<lparr>mi_Kind = ToLower (TrimSpace kind), mi_Native = ToUpper (TrimSpace (trim_char CHR '' '' native))\<rparr>
              in Inr (i, (instrumentID, i) # cache, st\<lparr>sg_stmt := sg_stmt st + 1\<rparr>)))"

subsection \<open>The metric inputs of a risk run\<close>

record metric_state =
  mt_sealing :: sealing
  mt_covered :: "string list"
  mt_expected :: "(string \<times> (string \<times> string) list) list"
  mt_kinds :: "(string \<times> metricInstrument) list"

definition add_fx_dependency :: "evidence_env \<Rightarrow> evidence_db \<Rightarrow> sealing \<Rightarrow> metadata \<Rightarrow> seal_error + sealing" where
  "add_fx_dependency env db st fxRevision =
     res_bind (verifyMetricFXRevision env db fxRevision st) (\<lambda>(raw, st). addRawDependency env raw st)"

definition metric_revision :: "evidence_env \<Rightarrow> evidence_db \<Rightarrow> bool \<Rightarrow> string \<Rightarrow> string \<Rightarrow> (string \<times> string) list \<times> sealing \<Rightarrow> metadata
    \<Rightarrow> seal_error + (string \<times> string) list \<times> sealing" where
  "metric_revision env db cashGroup instrumentID native acc revision = (case acc of (expectedHistory, st) \<Rightarrow>
     if cashGroup \<and> has_prefix (metricString revision ''id'') ''cash-constant:'' then
       (if native \<noteq> ''USD'' \<or> \<not> validConstantCashRevision instrumentID revision then Inl SealIncomplete
        else case metricObservationDay revision of
          None \<Rightarrow> Inl SealIncomplete
        | Some day \<Rightarrow> Inr (put_entry day (metricString revision ''usd_price'') expectedHistory, st))
     else if cashGroup \<and> ToUpper (metricString revision ''price_quote_currency'') \<noteq> native then Inl SealIncomplete
     else res_bind (if cashGroup then verifyMetricCashPriceRevision env db instrumentID revision (metricString revision ''id'') st
                    else verifyMetricPriceRevision env db instrumentID revision st) (\<lambda>(raw, st).
       res_bind (addRawDependency env raw st) (\<lambda>st.
         case metricFXPath revision of
           None \<Rightarrow> Inl SealIncomplete
         | Some fxRevisions \<Rightarrow>
             if \<not> validateMetricUSDConversion revision fxRevisions then Inl SealIncomplete
             else res_bind (res_fold (add_fx_dependency env db) st fxRevisions) (\<lambda>st.
               case metricObservationDay revision of
                 None \<Rightarrow> Inl SealIncomplete
               | Some day \<Rightarrow> Inr (put_entry day (metricString revision ''usd_price'') expectedHistory, st)))))"

definition cash_instrument :: "evidence_env \<Rightarrow> evidence_db \<Rightarrow> bool \<Rightarrow> string \<Rightarrow> metric_state \<Rightarrow> seal_error + string \<times> metric_state" where
  "cash_instrument env db cashGroup instrumentID ms =
     (if \<not> cashGroup then Inr ([], ms)
      else case loadMetricInstrument env db instrumentID (mt_kinds ms) (mt_sealing ms) of
        Inl _ \<Rightarrow> Inl SealIncomplete
      | Inr (i, cache, st) \<Rightarrow>
          if mi_Kind i \<noteq> ''cash'' \<and> mi_Kind i \<noteq> ''currency'' then Inl SealIncomplete
          else if mi_Native i = [] then Inl SealIncomplete
          else Inr (mi_Native i, ms\<lparr>mt_kinds := cache, mt_sealing := st\<rparr>))"

definition metric_history :: "evidence_env \<Rightarrow> evidence_db \<Rightarrow> bool \<Rightarrow> (string \<times> metadata list) list \<Rightarrow> metric_state \<Rightarrow> string
    \<Rightarrow> seal_error + metric_state" where
  "metric_history env db cashGroup histories ms instrumentID =
     (let revisions = (case map_value histories instrumentID of None \<Rightarrow> [] | Some rs \<Rightarrow> rs) in
      if canonicalUUID instrumentID = None then Inl SealIncomplete
      else res_bind (cash_instrument env db cashGroup instrumentID ms) (\<lambda>(native, ms).
        if revisions = [] then Inl SealIncomplete
        else if instrumentID \<in> fst ` set (mt_expected ms) then Inl SealIncomplete
        else res_bind (res_fold (metric_revision env db cashGroup instrumentID native) ([], mt_sealing ms) revisions) (\<lambda>(expectedHistory, st).
          Inr (ms\<lparr>mt_sealing := st, mt_covered := instrumentID # mt_covered ms,
                  mt_expected := mt_expected ms @ [(instrumentID, expectedHistory)]\<rparr>))))"

definition metric_group :: "evidence_env \<Rightarrow> evidence_db \<Rightarrow> metadata \<Rightarrow> metric_state \<Rightarrow> string \<times> bool \<Rightarrow> seal_error + metric_state" where
  "metric_group env db metricInputs ms grp = (case grp of (key, cashGroup) \<Rightarrow>
     case map_value metricInputs key of
       None \<Rightarrow> Inr ms
     | Some historyRaw \<Rightarrow>
         if historyRaw = JNull then Inl SealIncomplete
         else if emptyJSONObject historyRaw then Inr ms
         else (case decode_map decode_objects historyRaw of
             None \<Rightarrow> Inl SealIncomplete
           | Some histories \<Rightarrow> res_fold (metric_history env db cashGroup histories) ms (sort (map_keys histories))))"

text \<open>The published prices are those of the revisions, instrument by instrument and day by day.\<close>

definition prices_match :: "(string \<times> metadata) list \<Rightarrow> metric_state \<Rightarrow> bool" where
  "prices_match prices ms \<longleftrightarrow>
     (if mt_covered ms = [] then map_keys prices = []
      else length (map_keys prices) = length (remdups (mt_covered ms))
        \<and> list_all (\<lambda>i. i \<in> set (mt_covered ms)) (map_keys prices)
        \<and> list_all (\<lambda>(i, expected). case map_value prices i of
              None \<Rightarrow> False
            | Some actual \<Rightarrow> length (map_keys actual) = length expected
                \<and> list_all (\<lambda>(day, value). map_value actual day = Some (JStr value)) expected) (mt_expected ms))"

text \<open>The input provenance in the document of a run: the outer option is a decoding error.\<close>

fun envelope_run :: "json option \<Rightarrow> json list \<Rightarrow> json option option" where
  "envelope_run p [] = Some p"
| "envelope_run p (v # vs) = (case v of
      JNull \<Rightarrow> envelope_run p vs
    | JObj rs \<Rightarrow> envelope_run (case rev (field_values ''input_provenance'' rs) of [] \<Rightarrow> p | x # _ \<Rightarrow> Some x) vs
    | _ \<Rightarrow> None)"

definition input_provenance :: "json \<Rightarrow> json option option" where
  "input_provenance v = (case v of JNull \<Rightarrow> Some None | JObj ms \<Rightarrow> envelope_run None (field_values ''run'' ms) | _ \<Rightarrow> None)"

definition metric_prices :: "metadata \<Rightarrow> (string \<times> metadata) list option" where
  "metric_prices metricInputs = (case map_value metricInputs ''price_history'' of
      None \<Rightarrow> Some []
    | Some v \<Rightarrow> if v = JNull then None else if emptyJSONObject v then Some [] else decode_map decode_object v)"

definition check_metric_inputs :: "evidence_env \<Rightarrow> evidence_db \<Rightarrow> metadata \<Rightarrow> sealing \<Rightarrow> seal_error + sealing" where
  "check_metric_inputs env db metricInputs st = (case metric_prices metricInputs of
      None \<Rightarrow> Inl SealIncomplete
    | Some prices \<Rightarrow>
        res_bind (res_fold (metric_group env db metricInputs) \<lparr>mt_sealing = st, mt_covered = [], mt_expected = [], mt_kinds = []\<rparr>
            [(''price_revision_history'', False), (''cash_revision_history'', True)]) (\<lambda>ms.
          if prices_match prices ms then Inr (mt_sealing ms) else Inl SealIncomplete))"

definition addMetricDependencies :: "evidence_env \<Rightarrow> evidence_db \<Rightarrow> json \<Rightarrow> sealing \<Rightarrow> seal_error + sealing" where
  "addMetricDependencies env db riskSnapshot st = (case input_provenance riskSnapshot of
      None \<Rightarrow> Inl SealIncomplete
    | Some None \<Rightarrow> Inr st
    | Some (Some v) \<Rightarrow>
        if v = JNull then Inr st
        else (case decode_map Some v of
            None \<Rightarrow> Inl SealIncomplete
          | Some provenance \<Rightarrow> (case map_value provenance ''metric_inputs'' of
              None \<Rightarrow> Inr st
            | Some w \<Rightarrow>
                if w = JNull then Inl SealIncomplete
                else (case decode_map Some w of
                    None \<Rightarrow> Inl SealIncomplete
                  | Some metricInputs \<Rightarrow> check_metric_inputs env db metricInputs st))))"

subsection \<open>Resolving a reference\<close>

definition has_account :: "evidence_db \<Rightarrow> string \<Rightarrow> string \<Rightarrow> bool" where
  "has_account db account portfolio \<longleftrightarrow> (account, portfolio) \<in> set (ed_accounts db)"

definition child_docs :: "(string \<Rightarrow> string) \<Rightarrow> ev_child_row list \<Rightarrow> string \<Rightarrow> json" where
  "child_docs order rows parent = JArr (map ec_doc (sort_key (\<lambda>r. order (ec_key r)) (filter (\<lambda>r. ec_parent r = parent) rows)))"

definition snapshot_doc :: "evidence_db \<Rightarrow> string \<Rightarrow> string \<Rightarrow> json option" where
  "snapshot_doc db account i = (case find (\<lambda>p. es_id p = i \<and> has_account db account (es_portfolio p)) (ed_snapshots db) of
      None \<Rightarrow> None
    | Some p \<Rightarrow> Some (JObj [(''lines'', child_docs id (ed_snapshot_lines db) i), (''snapshot'', es_doc p)]))"

definition snapshot_portfolio :: "evidence_db \<Rightarrow> string \<Rightarrow> string option" where
  "snapshot_portfolio db i = map_option es_portfolio (find (\<lambda>p. es_id p = i) (ed_snapshots db))"

definition live_state :: "string \<Rightarrow> bool" where
  "live_state s \<longleftrightarrow> s = ''valid'' \<or> s = ''degraded''"

definition valuation_doc :: "evidence_db \<Rightarrow> string \<Rightarrow> string \<Rightarrow> json option" where
  "valuation_doc db account i = (case find (\<lambda>v. ev_id v = i \<and> live_state (ev_state v)) (ed_valuations db) of
      None \<Rightarrow> None
    | Some v \<Rightarrow> (case snapshot_portfolio db (ev_snapshot v) of
        None \<Rightarrow> None
      | Some portfolio \<Rightarrow>
          if \<not> has_account db account portfolio then None
          else Some (JObj [(''run'', ev_doc v),
            (''lines'', JArr (map el_doc (sort_key el_id (filter (\<lambda>l. el_run l = i) (ed_valuation_lines db)))))])))"

text \<open>\<^verbatim>\<open>NULLIF(result->>'engine_version','') IS NOT NULL\<close>.\<close>

definition has_engine_version :: "json \<Rightarrow> bool" where
  "has_engine_version result = (case result of
      JObj ms \<Rightarrow> (case map_get ms ''engine_version'' of None \<Rightarrow> False | Some v \<Rightarrow> v \<noteq> JNull \<and> v \<noteq> JStr [])
    | _ \<Rightarrow> False)"

definition finished_job :: "ev_job_row \<Rightarrow> bool" where
  "finished_job j \<longleftrightarrow> ej_state j = ''succeeded'' \<and> ej_hash j \<noteq> None \<and> (case ej_result j of None \<Rightarrow> False | Some r \<Rightarrow> has_engine_version r)"

definition run_doc :: "evidence_env \<Rightarrow> evidence_db \<Rightarrow> string \<Rightarrow> string \<Rightarrow> json option" where
  "run_doc env db account i = (case find (\<lambda>r. ern_id r = i \<and> ern_account r = account \<and> live_state (ern_state r)
         \<and> ern_result r \<noteq> None \<and> ern_hash r \<noteq> None \<and> ern_completed r \<noteq> None) (ed_runs db) of
      None \<Rightarrow> None
    | Some r \<Rightarrow> (case (map_of (ed_versions db) (ern_scenario r), find (\<lambda>j. ej_id j = ern_job r \<and> finished_job j) (ed_jobs db)) of
        (Some version, Some j) \<Rightarrow> Some (JObj [(''job'', ej_doc j), (''run'', ern_doc r),
            (''metrics'', child_docs (ee_collate env) (ed_metrics db) i),
            (''positions'', child_docs id (ed_positions db) i), (''scenario_version'', version)])
      | _ \<Rightarrow> None))"

definition revision_doc :: "evidence_db \<Rightarrow> string \<Rightarrow> string \<Rightarrow> (json \<times> RawRef) option" where
  "revision_doc db kind i = do {
     (doc, raw) \<leftarrow> (if kind = ''observation_revision'' then map_option (\<lambda>r. (eo_doc r, eo_raw r)) (find (\<lambda>r. eo_id r = i) (ed_observations db))
                    else if kind = ''price_revision'' then map_option (\<lambda>r. (ep_doc r, ep_raw r)) (find (\<lambda>r. ep_id r = i) (ed_prices db))
                    else map_option (\<lambda>r. (ef_doc r, ef_raw r)) (find (\<lambda>r. ef_id r = i) (ed_fx db)));
     r \<leftarrow> find_raw db raw; Some (doc, r) }"

definition resolve_snapshot :: "evidence_env \<Rightarrow> evidence_db \<Rightarrow> string \<Rightarrow> string \<Rightarrow> sealing \<Rightarrow> seal_error + json \<times> sealing" where
  "resolve_snapshot env db account i st =
     (if sg_snapshotID st \<noteq> [] then Inl SealIncomplete
      else res_bind (fetch env (snapshot_doc db account i) st) (\<lambda>(data, st). Inr (data, st\<lparr>sg_snapshotID := i\<rparr>)))"

definition resolve_valuation :: "evidence_env \<Rightarrow> evidence_db \<Rightarrow> string \<Rightarrow> string \<Rightarrow> sealing \<Rightarrow> seal_error + json \<times> sealing" where
  "resolve_valuation env db account i st =
     (if sg_valuationID st \<noteq> [] then Inl SealIncomplete
      else res_bind (fetch env (valuation_doc db account i) (st\<lparr>sg_valuationID := i\<rparr>)) (\<lambda>(data, st).
        res_bind (fetch env (map_option ev_snapshot (find (\<lambda>v. ev_id v = i) (ed_valuations db))) st) (\<lambda>(snapshot, st).
          Inr (data, st\<lparr>sg_valuationSnapshot := snapshot\<rparr>))))"

definition resolve_run :: "evidence_env \<Rightarrow> evidence_db \<Rightarrow> string \<Rightarrow> string \<Rightarrow> sealing \<Rightarrow> seal_error + json \<times> sealing" where
  "resolve_run env db account i st =
     (if sg_riskSnapshot st \<noteq> [] then Inl SealIncomplete
      else res_bind (fetch env (run_doc env db account i) st) (\<lambda>(data, st).
        res_bind (fetch env (find (\<lambda>r. ern_id r = i) (ed_runs db)) st) (\<lambda>(r, st).
          Inr (data, st\<lparr>sg_riskSnapshot := ern_snapshot r, sg_riskValuationID := (case ern_valuation r of None \<Rightarrow> [] | Some v \<Rightarrow> v)\<rparr>))))"

text \<open>A source object named by the decision is checked even when it is listed already.\<close>

definition resolve_raw :: "evidence_env \<Rightarrow> evidence_db \<Rightarrow> string \<Rightarrow> sealing \<Rightarrow> seal_error + json \<times> sealing" where
  "resolve_raw env db i st = res_bind (fetch env (find_raw db i) st) (\<lambda>(raw, st).
     if \<not> verifyRaw env raw then Inl SealIntegrity
     else Inr (raw_json raw, if rawSeen st (rr_ID raw) then st else st\<lparr>sg_RawObjects := sg_RawObjects st @ [raw]\<rparr>))"

definition resolve_revision :: "evidence_env \<Rightarrow> evidence_db \<Rightarrow> string \<Rightarrow> string \<Rightarrow> sealing \<Rightarrow> seal_error + json \<times> sealing" where
  "resolve_revision env db kind i st = res_bind (fetch env (revision_doc db kind i) st) (\<lambda>((data, raw), st).
     res_bind (addRawDependency env raw st) (\<lambda>st. Inr (data, st)))"

definition resolve :: "evidence_env \<Rightarrow> evidence_db \<Rightarrow> string \<Rightarrow> string \<Rightarrow> string \<Rightarrow> sealing \<Rightarrow> seal_error + json \<times> sealing" where
  "resolve env db account kind i st =
     (if kind = ''portfolio_snapshot'' then resolve_snapshot env db account i st
      else if kind = ''valuation_run'' then resolve_valuation env db account i st
      else if kind = ''risk_run'' then resolve_run env db account i st
      else if kind = ''raw_object'' then resolve_raw env db i st
      else if kind \<in> {''observation_revision'', ''price_revision'', ''fx_quote_revision''} then resolve_revision env db kind i st
      else Inl SealIncomplete)"

definition seal_ref :: "evidence_env \<Rightarrow> evidence_db \<Rightarrow> string \<Rightarrow> sealing \<Rightarrow> EvidenceRef \<Rightarrow> seal_error + sealing" where
  "seal_ref env db account st ref = (case canonicalUUID (er_Reference ref) of
      None \<Rightarrow> Inl SealIncomplete
    | Some i \<Rightarrow>
        let key = er_Kind ref @ '':'' @ i in
        if key \<in> set (sg_seen st) then Inl SealIncomplete
        else res_bind (resolve env db account (er_Kind ref) i (st\<lparr>sg_seen := key # sg_seen st\<rparr>)) (\<lambda>(data, st).
          res_bind (if er_Kind ref = ''risk_run'' then addMetricDependencies env db data st else Inr st) (\<lambda>st.
            Inr (st\<lparr>sg_References := sg_References st @
              [\<lparr>en_Kind = er_Kind ref, en_Reference = i, en_Description = er_Description ref, en_Snapshot = data\<rparr>]\<rparr>))))"

subsection \<open>Sealing\<close>

text \<open>The source objects of the prices and rates a valuation used, in the order of their identifiers.\<close>

definition feeds :: "evidence_db \<Rightarrow> ev_valuation_line \<Rightarrow> string \<Rightarrow> bool" where
  "feeds db l raw \<longleftrightarrow>
     list_ex (\<lambda>p. el_price l = Some (ep_id p) \<and> ep_raw p = raw) (ed_prices db)
     \<or> list_ex (\<lambda>f. ef_id f \<in> set (el_try_fx l @ el_usd_fx l) \<and> ef_raw f = raw) (ed_fx db)"

definition valuation_raws :: "evidence_db \<Rightarrow> string \<Rightarrow> RawRef list" where
  "valuation_raws db run = sort_key rr_ID (filter (\<lambda>r. list_ex (\<lambda>l. el_run l = run \<and> feeds db l (rr_ID r)) (ed_valuation_lines db)) (ed_raws db))"

definition sealing_start :: sealing where
  "sealing_start = \<lparr>sg_References = [], sg_RawObjects = [], sg_snapshotID = [], sg_valuationSnapshot = [], sg_riskSnapshot = [],
     sg_valuationID = [], sg_riskValuationID = [], sg_seen = [], sg_stmt = 0\<rparr>"

definition agree :: "sealing \<Rightarrow> bool" where
  "agree st \<longleftrightarrow> \<not> (sg_snapshotID st = [] \<or> sg_valuationSnapshot st \<noteq> sg_snapshotID st \<or> sg_riskSnapshot st \<noteq> sg_snapshotID st
     \<or> sg_riskValuationID st = [] \<or> sg_valuationID st = [] \<or> sg_riskValuationID st \<noteq> sg_valuationID st)"

definition manifest_of :: "string \<Rightarrow> string \<Rightarrow> sealing \<Rightarrow> Manifest" where
  "manifest_of decisionID accountID st = \<lparr>mf_SchemaVersion = ''1'', mf_ContractVersion = ContractVersion, mf_DecisionID = decisionID,
     mf_AccountID = accountID, mf_References = sg_References st, mf_RawObjects = sg_RawObjects st\<rparr>"

definition hex_digest :: "string \<Rightarrow> bool" where
  "hex_digest s \<longleftrightarrow> length s = 64 \<and> list_all is_lower_hex s"

definition insert_evidence :: "evidence_env \<Rightarrow> evidence_db \<Rightarrow> string \<Rightarrow> string \<Rightarrow> nat \<Rightarrow> seal_error + evidence_db" where
  "insert_evidence env db decisionID data stmt = (case ee_cast env decisionID of
      None \<Rightarrow> Inl SealOther
    | Some d \<Rightarrow>
        if ee_fault env (DbStmt stmt) \<or> d \<in> dv_decision ` set (ed_evidence db) \<or> \<not> hex_digest (ee_sha env data) \<or> data = [] then Inl SealOther
        else Inr (db\<lparr>ed_evidence := ed_evidence db @ [\<lparr>dv_decision = d, dv_bytes = data, dv_sha = ee_sha env data\<rparr>]\<rparr>))"

definition gather :: "evidence_env \<Rightarrow> evidence_db \<Rightarrow> string \<Rightarrow> EvidenceRef list \<Rightarrow> seal_error + sealing" where
  "gather env db account refs = res_bind (res_fold (seal_ref env db account) sealing_start refs) (\<lambda>st.
     if \<not> agree st then Inl SealIncomplete
     else if ee_fault env (DbStmt (sg_stmt st)) then Inl SealOther
     else res_fold (\<lambda>st raw. addRawDependency env raw st) (st\<lparr>sg_stmt := sg_stmt st + 1\<rparr>) (valuation_raws db (sg_valuationID st)))"

definition Seal :: "evidence_env \<Rightarrow> evidence_db \<Rightarrow> string \<Rightarrow> string \<Rightarrow> EvidenceRef list \<Rightarrow> seal_error + evidence_db" where
  "Seal env db decisionID accountID refs = (case (canonicalUUID decisionID, canonicalUUID accountID) of
      (Some d, Some a) \<Rightarrow> res_bind (gather env db a refs) (\<lambda>st.
        insert_evidence env db decisionID (json_text (manifest_json (manifest_of d a st))) (sg_stmt st))
    | _ \<Rightarrow> Inl SealIncomplete)"

subsection \<open>Giving the evidence back\<close>

datatype reconstruct_error = RIncomplete | RIntegrity | RNoRows | ROther

record Sealed =
  sl_Manifest :: string
  sl_SHA256 :: string

definition Reconstruct :: "evidence_env \<Rightarrow> bool \<Rightarrow> evidence_db \<Rightarrow> string \<Rightarrow> reconstruct_error + Sealed" where
  "Reconstruct env pool db decisionID = (case canonicalUUID decisionID of
      None \<Rightarrow> Inl RIncomplete
    | Some d \<Rightarrow>
        if \<not> pool then Inl RIncomplete
        else if ee_fault env (DbStmt 0) then Inl ROther
        else (case find (\<lambda>r. dv_decision r = d) (ed_evidence db) of
            None \<Rightarrow> Inl RNoRows
          | Some r \<Rightarrow>
              if ee_sha env (dv_bytes r) \<noteq> dv_sha r then Inl RIntegrity
              else (case Option.bind (json_parse (dv_bytes r)) decode_manifest of
                  None \<Rightarrow> Inl RIntegrity
                | Some manifest \<Rightarrow>
                    if mf_DecisionID manifest \<noteq> d then Inl RIntegrity
                    else if \<not> list_all (verifyRaw env) (mf_RawObjects manifest) then Inl RIntegrity
                    else Inr \<lparr>sl_Manifest = dv_bytes r, sl_SHA256 = dv_sha r\<rparr>)))"

text \<open>How the journal sees the result of a reconstruction.\<close>

definition journal_reconstruct :: "evidence_env \<Rightarrow> bool \<Rightarrow> evidence_db \<Rightarrow> string \<Rightarrow> string + Sealed option" where
  "journal_reconstruct env pool db decisionID = (case Reconstruct env pool db decisionID of
      Inl RNoRows \<Rightarrow> Inr None
    | Inl RIncomplete \<Rightarrow> Inl ''decision evidence incomplete''
    | Inl RIntegrity \<Rightarrow> Inl ''decision evidence integrity failure''
    | Inl ROther \<Rightarrow> Inl ''query decision evidence''
    | Inr sealed \<Rightarrow> Inr (Some sealed))"

end
