(* ===== verification/Evidence_Safety.thy ===== *)
theory Evidence_Safety
  imports Evidence_Service
begin

text \<open>
  Lemmas on sealing: the manifest survives being written as JSON and read back, the checks of the
  metric inputs only add source objects that were found in the archive, and \<open>seal_inv\<close>, which
  says what the references handled so far have established, holds after every reference.
\<close>

subsection \<open>The manifest as JSON\<close>

lemma those_map_Some: "(\<And>x. x \<in> set xs \<Longrightarrow> f (g x) = Some x) \<Longrightarrow> those (map f (map g xs)) = Some xs"
  by (induction xs) auto

lemma field_values_Nil [simp]: "field_values f [] = []"
  and field_values_Cons [simp]: "field_values f (m # ms) = (if EqualFold (fst m) f then snd m # field_values f ms else field_values f ms)"
  by (simp_all add: field_values_def)

lemma decode_entry_json: "entry_json e = JObj ms \<Longrightarrow> decode_entry ms = Some e"
  by (auto simp: entry_json_def decode_entry_def string_field_def raw_field_def EqualFold_def ToLower_def to_lower_char_def is_upper_def)

lemma decode_raw_json: "raw_json r = JObj ms \<Longrightarrow> decode_raw ms = Some r"
  by (auto simp: raw_json_def decode_raw_def string_field_def EqualFold_def ToLower_def to_lower_char_def is_upper_def)

lemma decode_list_json:
  assumes "\<And>x ms. x \<in> set xs \<Longrightarrow> enc x = JObj ms \<Longrightarrow> dec ms = Some x" and "\<And>x. \<exists>ms. enc x = JObj ms"
  shows "decode_list zero dec (JArr (map enc xs)) = Some xs"
proof -
  have "(case enc x of JNull \<Rightarrow> Some zero | JObj ms \<Rightarrow> dec ms | _ \<Rightarrow> None) = Some x" if "x \<in> set xs" for x
  proof -
    obtain ms where "enc x = JObj ms" using assms(2) by blast
    then show ?thesis using assms(1) [OF that] by simp
  qed
  then show ?thesis
    unfolding decode_list_def json.case by (rule those_map_Some)
qed

lemma decode_manifest_json: "decode_manifest (manifest_json m) = Some m"
proof -
  have es: "decode_list z decode_entry (JArr (map entry_json es)) = Some es" for z es
    by (rule decode_list_json) (simp_all add: decode_entry_json, simp add: entry_json_def)
  have rs: "decode_list z decode_raw (JArr (map raw_json rs)) = Some rs" for z rs
    by (rule decode_list_json) (simp_all add: decode_raw_json, simp add: raw_json_def)
  show ?thesis
    by (simp add: decode_manifest_def manifest_json_def string_field_def EqualFold_def ToLower_def to_lower_char_def is_upper_def es rs)
qed

text \<open>Text the database can hold, in the columns and documents the service reads.\<close>

definition texts_ok :: "evidence_db \<Rightarrow> bool" where
  "texts_ok db \<longleftrightarrow>
     (\<forall>p \<in> set (ed_snapshots db). wf_json (es_doc p)) \<and> (\<forall>c \<in> set (ed_snapshot_lines db @ ed_positions db @ ed_metrics db). wf_json (ec_doc c))
     \<and> (\<forall>v \<in> set (ed_valuations db). wf_json (ev_doc v)) \<and> (\<forall>l \<in> set (ed_valuation_lines db). wf_json (el_doc l))
     \<and> (\<forall>r \<in> set (ed_runs db). wf_json (ern_doc r)) \<and> (\<forall>v \<in> set (ed_versions db). wf_json (snd v)) \<and> (\<forall>j \<in> set (ed_jobs db). wf_json (ej_doc j))
     \<and> (\<forall>o' \<in> set (ed_observations db). wf_json (eo_doc o')) \<and> (\<forall>p \<in> set (ed_prices db). wf_json (ep_doc p)) \<and> (\<forall>f \<in> set (ed_fx db). wf_json (ef_doc f))
     \<and> (\<forall>r \<in> set (ed_raws db). wf_json (raw_json r))"

lemma utf8_ascii: "\<forall>c \<in> set s. (of_char c :: nat) < 128 \<Longrightarrow> utf8_valid s"
proof (induction s)
  case (Cons c s)
  have "rune_len (c # s) = 1" using Cons.prems rune_len_one by simp
  then show ?case using Cons by (simp add: utf8_valid.simps [of "c # s"])
qed (simp add: utf8_valid.simps)

lemma canonicalUUID_cases:
  assumes "canonicalUUID s = Some i"
  shows "i = ToLower s" and "length i = 36" and "\<forall>c \<in> set i. (of_char c :: nat) < 128"
proof -
  let ?ok = "\<lambda>k. if k \<in> {8, 13, 18, 23} then s ! k = CHR ''-'' else hex_val (s ! k) \<noteq> None"
  have all: "length s = 36 \<and> list_all ?ok [0..<36] \<and> i = ToLower s"
    using assms unfolding canonicalUUID_def by (simp only: not_not split: if_split_asm) simp_all
  then show i: "i = ToLower s" and "length i = 36" by (simp_all add: ToLower_def)
  have ascii: "(of_char c :: nat) < 128" if "hex_val c \<noteq> None" for c
    using that by (auto simp: hex_val_def is_digit_def Let_def split: if_splits)
  have "(of_char (s ! k) :: nat) < 128" if "k < length s" for k
  proof -
    have "k \<in> set [0..<36]" using that all by (simp only: set_upt) simp
    then have "?ok k" using all unfolding list_all_iff by blast
    then show ?thesis using ascii by (auto split: if_splits)
  qed
  then have "\<forall>c \<in> set s. (of_char c :: nat) < 128" by (metis in_set_conv_nth)
  moreover have "(of_char (to_lower_char c) :: nat) < 128" if "(of_char c :: nat) < 128" for c
    using that by (simp add: to_lower_char_def is_upper_def)
  ultimately show "\<forall>c \<in> set i. (of_char c :: nat) < 128" by (auto simp: i ToLower_def)
qed

lemma canonicalUUID_nonempty: "canonicalUUID s = Some i \<Longrightarrow> i \<noteq> []"
  using canonicalUUID_cases(2) by fastforce

lemma canonicalUUID_utf8: "canonicalUUID s = Some i \<Longrightarrow> utf8_valid i"
  by (simp add: canonicalUUID_cases(3) utf8_ascii)

lemma wf_literal: "wf_json (JStr s)" if "s \<in> {''portfolio_snapshot'', ''valuation_run'', ''risk_run'', ''raw_object'', ''observation_revision'',
    ''price_revision'', ''fx_quote_revision'', ''1'', ContractVersion}" for s
  using that by (auto intro!: utf8_ascii)

lemma sort_key_in: "x \<in> set (sort_key f xs) \<longleftrightarrow> x \<in> set xs" by simp

lemma wf_child_docs: "\<forall>c \<in> set rows. wf_json (ec_doc c) \<Longrightarrow> wf_json (child_docs order rows parent)"
  by (simp add: child_docs_def list_all_iff)

lemma find_in: "find P xs = Some x \<Longrightarrow> x \<in> set xs \<and> P x"
  by (auto simp: find_Some_iff)

lemma snapshot_doc_wf: "texts_ok db \<Longrightarrow> snapshot_doc db a i = Some d \<Longrightarrow> wf_json d"
  by (auto simp: snapshot_doc_def texts_ok_def wf_child_docs utf8_ascii split: option.splits dest!: find_in)

lemma valuation_doc_wf: "texts_ok db \<Longrightarrow> valuation_doc db a i = Some d \<Longrightarrow> wf_json d"
  by (auto simp: valuation_doc_def texts_ok_def utf8_ascii list_all_iff split: option.splits if_splits dest!: find_in)

lemma run_doc_wf: "texts_ok db \<Longrightarrow> run_doc env db a i = Some d \<Longrightarrow> wf_json d"
  by (auto simp: run_doc_def texts_ok_def wf_child_docs utf8_ascii split: option.splits dest!: find_in map_of_SomeD)

lemma revision_doc_in:
  assumes "revision_doc db kind i = Some (d, raw)"
  shows "raw \<in> set (ed_raws db)" and "texts_ok db \<Longrightarrow> wf_json d"
  using assms by (auto simp: revision_doc_def texts_ok_def find_raw_def bind_eq_Some_conv split: if_splits dest!: find_in)

subsection \<open>Gathering source objects\<close>

definition raws_ok :: "evidence_env \<Rightarrow> evidence_db \<Rightarrow> RawRef list \<Rightarrow> bool" where
  "raws_ok env db raws \<longleftrightarrow> distinct (map rr_ID raws) \<and> (\<forall>r \<in> set raws. r \<in> set (ed_raws db) \<and> verifyRaw env r)"

text \<open>A step that only adds source objects and runs statements.\<close>

definition grows :: "evidence_env \<Rightarrow> evidence_db \<Rightarrow> sealing \<Rightarrow> sealing \<Rightarrow> bool" where
  "grows env db st st' \<longleftrightarrow> (\<exists>raws n. st' = st\<lparr>sg_RawObjects := sg_RawObjects st @ raws, sg_stmt := n\<rparr>)
     \<and> (raws_ok env db (sg_RawObjects st) \<longrightarrow> raws_ok env db (sg_RawObjects st'))"

lemma grows_refl: "grows env db st st"
  unfolding grows_def by (intro conjI exI [of _ "[]"] exI [of _ "sg_stmt st"]) simp_all

lemma grows_stmt: "grows env db st (st\<lparr>sg_stmt := n\<rparr>)"
  unfolding grows_def by (intro conjI exI [of _ "[]"] exI [of _ n]) simp_all

lemma grows_trans: "grows env db a b \<Longrightarrow> grows env db b c \<Longrightarrow> grows env db a c"
  unfolding grows_def by fastforce

lemma res_fold_rel:
  assumes "res_fold f s xs = Inr s'" and "\<And>s. R s s" and "\<And>a b c. R a b \<Longrightarrow> R b c \<Longrightarrow> R a c"
    and "\<And>s x s'. x \<in> set xs \<Longrightarrow> f s x = Inr s' \<Longrightarrow> R s s'"
  shows "R s s'"
  using assms(1,4)
proof (induction xs arbitrary: s)
  case (Cons x xs)
  then obtain t where "f s x = Inr t" and "res_fold f t xs = Inr s'" by (auto simp: res_simps)
  with Cons show ?case by (meson assms(3) list.set_intros)
qed (simp add: assms(2))

lemma fetch_grows: "fetch env row st = Inr (x, st') \<Longrightarrow> row = Some x \<and> grows env db st st'"
  by (auto simp: fetch_def grows_stmt split: if_splits option.splits)

lemma fetch_ok: "fetch env row st = Inr (x, st') \<longleftrightarrow> \<not> ee_fault env (DbStmt (sg_stmt st)) \<and> row = Some x \<and> st' = st\<lparr>sg_stmt := sg_stmt st + 1\<rparr>"
  by (auto simp: fetch_def split: if_splits option.splits)

lemma find_raw_in: "find_raw db i = Some r \<Longrightarrow> r \<in> set (ed_raws db) \<and> rr_ID r = i"
  using find_in by (fastforce simp: find_raw_def)

lemma addRawDependency_grows:
  assumes "addRawDependency env raw st = Inr st'" and "raw \<in> set (ed_raws db)"
  shows "grows env db st st' \<and> rr_ID raw \<in> rr_ID ` set (sg_RawObjects st')"
proof (cases "rawSeen st (rr_ID raw)")
  case True
  then show ?thesis using assms grows_refl by (simp add: addRawDependency_def rawSeen_def)
next
  case False
  then have v: "verifyRaw env raw" and st': "st' = st\<lparr>sg_RawObjects := sg_RawObjects st @ [raw]\<rparr>"
    using assms(1) by (auto simp: addRawDependency_def split: if_splits)
  have "\<exists>raws n. st' = st\<lparr>sg_RawObjects := sg_RawObjects st @ raws, sg_stmt := n\<rparr>"
    by (intro exI [of _ "[raw]"] exI [of _ "sg_stmt st"]) (simp add: st')
  then show ?thesis
    using False assms(2) v by (auto simp: grows_def raws_ok_def rawSeen_def st')
qed

lemma verifyMetricPriceRevision_grows:
  "verifyMetricPriceRevision env db instrumentID entry st = Inr (raw, st') \<Longrightarrow> grows env db st st' \<and> raw \<in> set (ed_raws db)"
  unfolding verifyMetricPriceRevision_def
  by (auto simp: res_simps price_with_raw_def bind_eq_Some_conv split: option.splits if_splits prod.splits
      dest!: fetch_grows [where db = db] find_raw_in)

lemma verifyMetricCashPriceRevision_grows:
  "verifyMetricCashPriceRevision env db instrumentID entry i st = Inr (raw, st') \<Longrightarrow> grows env db st st' \<and> raw \<in> set (ed_raws db)"
  unfolding verifyMetricCashPriceRevision_def
  by (auto simp: res_simps fx_with_raw_def bind_eq_Some_conv Let_def split: option.splits if_splits prod.splits
      dest!: fetch_grows [where db = db] find_raw_in)

lemma verifyMetricFXRevision_grows:
  "verifyMetricFXRevision env db entry st = Inr (raw, st') \<Longrightarrow> grows env db st st' \<and> raw \<in> set (ed_raws db)"
  unfolding verifyMetricFXRevision_def
  by (auto simp: res_simps fx_with_raw_def bind_eq_Some_conv Let_def split: option.splits if_splits prod.splits
      dest!: fetch_grows [where db = db] find_raw_in)

lemma add_fx_dependency_grows: "add_fx_dependency env db st f = Inr st' \<Longrightarrow> grows env db st st'"
  unfolding add_fx_dependency_def
  by (auto simp: res_simps split: prod.splits dest!: verifyMetricFXRevision_grows) (meson addRawDependency_grows grows_trans)

lemma metric_revision_grows:
  assumes "metric_revision env db cash i native (h, st) revision = Inr (h', st')"
  shows "grows env db st st'"
proof -
  have fx: "grows env db s t" if "res_fold (add_fx_dependency env db) s fs = Inr t" for s t fs
    using that by (rule res_fold_rel) (auto intro: grows_refl grows_trans add_fx_dependency_grows)
  show ?thesis
  proof (cases "cash \<and> has_prefix (metricString revision ''id'') ''cash-constant:''")
    case True
    then show ?thesis
      using assms by (auto simp: metric_revision_def grows_refl split: if_splits option.splits)
  next
    case False
    then obtain raw st1 st2 st3 fs where
      v: "(if cash then verifyMetricCashPriceRevision env db i revision (metricString revision ''id'') st
           else verifyMetricPriceRevision env db i revision st) = Inr (raw, st1)"
      and add: "addRawDependency env raw st1 = Inr st2" and fold: "res_fold (add_fx_dependency env db) st2 fs = Inr st3" and "st' = st3"
      using assms
      by (cases "metricFXPath revision"; cases "metricObservationDay revision")
        (auto simp: metric_revision_def res_simps split: if_split_asm)
    from v have "grows env db st st1 \<and> raw \<in> set (ed_raws db)"
      using verifyMetricCashPriceRevision_grows verifyMetricPriceRevision_grows by (auto split: if_splits)
    then show ?thesis
      using addRawDependency_grows [OF add] fx [OF fold] grows_trans \<open>st' = st3\<close> by blast
  qed
qed

lemma cash_instrument_grows:
  "cash_instrument env db cash i ms = Inr (native, ms') \<Longrightarrow> grows env db (mt_sealing ms) (mt_sealing ms')"
  unfolding cash_instrument_def loadMetricInstrument_def
  by (auto simp: Let_def grows_refl grows_stmt split: if_splits option.splits sum.splits prod.splits)

lemma metric_history_grows:
  assumes "metric_history env db cash hs ms i = Inr ms'"
  shows "grows env db (mt_sealing ms) (mt_sealing ms')"
proof -
  obtain native ms1 h st where c: "cash_instrument env db cash i ms = Inr (native, ms1)"
    and f: "res_fold (metric_revision env db cash i native) ([], mt_sealing ms1) (case map_value hs i of None \<Rightarrow> [] | Some rs \<Rightarrow> rs) = Inr (h, st)"
    and ms': "mt_sealing ms' = st"
    using assms unfolding metric_history_def by (auto simp: Let_def res_simps split: if_splits prod.splits)
  from f have "grows env db (snd ([] :: (string \<times> string) list, mt_sealing ms1)) (snd (h, st))"
    by (rule res_fold_rel) (auto intro: grows_refl grows_trans metric_revision_grows)
  then show ?thesis using cash_instrument_grows [OF c] ms' grows_trans by auto
qed

lemma metric_group_grows: "metric_group env db inputs ms g = Inr ms' \<Longrightarrow> grows env db (mt_sealing ms) (mt_sealing ms')"
  unfolding metric_group_def
  by (auto split: prod.splits option.splits if_splits intro: grows_refl elim!: res_fold_rel [where R = "\<lambda>a b. grows env db (mt_sealing a) (mt_sealing b)"]
      dest: metric_history_grows grows_trans)

lemma addMetricDependencies_grows:
  assumes "addMetricDependencies env db data st = Inr st'"
  shows "grows env db st st'"
proof -
  have "grows env db st st'" if checked: "check_metric_inputs env db inputs st = Inr st'" for inputs
  proof -
    obtain ms where "res_fold (metric_group env db inputs) \<lparr>mt_sealing = st, mt_covered = [], mt_expected = [], mt_kinds = []\<rparr>
            [(''price_revision_history'', False), (''cash_revision_history'', True)] = Inr ms" and "mt_sealing ms = st'"
      using checked unfolding check_metric_inputs_def by (auto simp: res_simps split: option.splits if_splits)
    then have "grows env db (mt_sealing \<lparr>mt_sealing = st, mt_covered = [], mt_expected = [], mt_kinds = []\<rparr>) (mt_sealing ms)"
      by (elim res_fold_rel) (auto intro: grows_refl metric_group_grows grows_trans)
    then show ?thesis using \<open>mt_sealing ms = st'\<close> by simp
  qed
  then show ?thesis
    using assms unfolding addMetricDependencies_def by (auto split: option.splits if_splits intro: grows_refl)
qed

subsection \<open>What the entries rest on\<close>

text \<open>
  A revision is listed when the source object it was read from is. The entries of the metric inputs
  of a run are those under the two keys of \<^verbatim>\<open>input_provenance.metric_inputs\<close>; each names a
  stored price, or a stored rate when it prices cash, and the stored rates of its \<^verbatim>\<open>fx_path\<close>.
  Only the constant dollar price of dollar cash names no revision.
\<close>

definition price_listed :: "evidence_db \<Rightarrow> RawRef list \<Rightarrow> string option \<Rightarrow> bool" where
  "price_listed db raws i \<longleftrightarrow> (\<exists>p \<in> set (ed_prices db). i = Some (ep_id p) \<and> ep_raw p \<in> rr_ID ` set raws)"

definition fx_listed :: "evidence_db \<Rightarrow> RawRef list \<Rightarrow> string option \<Rightarrow> bool" where
  "fx_listed db raws i \<longleftrightarrow> (\<exists>f \<in> set (ed_fx db). i = Some (ef_id f) \<and> ef_raw f \<in> rr_ID ` set raws)"

definition metric_entry_listed :: "evidence_db \<Rightarrow> RawRef list \<Rightarrow> bool \<Rightarrow> metadata \<Rightarrow> bool" where
  "metric_entry_listed db raws cash revision \<longleftrightarrow>
     (cash \<and> has_prefix (metricString revision ''id'') ''cash-constant:'')
     \<or> ((if cash then fx_listed db raws (Some (metricString revision ''id'')) else price_listed db raws (metricUUID revision ''id''))
        \<and> (\<exists>fs. metricFXPath revision = Some fs \<and> (\<forall>f \<in> set fs. fx_listed db raws (metricUUID f ''id''))))"

definition metric_inputs :: "json \<Rightarrow> metadata" where
  "metric_inputs doc = (case input_provenance doc of
      Some (Some v) \<Rightarrow> (case Option.bind (decode_map Some v) (\<lambda>p. Option.bind (map_value p ''metric_inputs'') (decode_map Some)) of
          Some inputs \<Rightarrow> inputs
        | None \<Rightarrow> [])
    | _ \<Rightarrow> [])"

definition metric_histories :: "metadata \<Rightarrow> string \<Rightarrow> (string \<times> metadata list) list" where
  "metric_histories inputs key = (case Option.bind (map_value inputs key) (decode_map decode_objects) of Some hs \<Rightarrow> hs | None \<Rightarrow> [])"

definition group_listed :: "evidence_db \<Rightarrow> RawRef list \<Rightarrow> metadata \<Rightarrow> string \<times> bool \<Rightarrow> bool" where
  "group_listed db raws inputs g \<longleftrightarrow> (\<forall>i rs. map_value (metric_histories inputs (fst g)) i = Some rs
     \<longrightarrow> (\<forall>revision \<in> set rs. metric_entry_listed db raws (snd g) revision))"

definition metrics_listed :: "evidence_db \<Rightarrow> RawRef list \<Rightarrow> json \<Rightarrow> bool" where
  "metrics_listed db raws doc \<longleftrightarrow> group_listed db raws (metric_inputs doc) (''price_revision_history'', False)
     \<and> group_listed db raws (metric_inputs doc) (''cash_revision_history'', True)"

lemma metric_entry_listed_mono: "metric_entry_listed db raws cash e \<Longrightarrow> set raws \<subseteq> set raws' \<Longrightarrow> metric_entry_listed db raws' cash e"
  unfolding metric_entry_listed_def price_listed_def fx_listed_def by (auto split: if_splits) blast+

lemma group_listed_mono: "group_listed db raws inputs g \<Longrightarrow> set raws \<subseteq> set raws' \<Longrightarrow> group_listed db raws' inputs g"
  unfolding group_listed_def using metric_entry_listed_mono by blast

lemma metrics_listed_mono: "metrics_listed db raws doc \<Longrightarrow> set raws \<subseteq> set raws' \<Longrightarrow> metrics_listed db raws' doc"
  unfolding metrics_listed_def using group_listed_mono by blast

text \<open>A fold over checked steps checks every element, when later steps keep what was checked.\<close>

lemma res_fold_each:
  assumes "res_fold f s xs = Inr s'" and "\<And>s. R s s" and "\<And>a b c. R a b \<Longrightarrow> R b c \<Longrightarrow> R a c"
    and "\<And>s x s'. x \<in> set xs \<Longrightarrow> f s x = Inr s' \<Longrightarrow> R s s' \<and> Q x s'" and "\<And>x s s'. Q x s \<Longrightarrow> R s s' \<Longrightarrow> Q x s'"
  shows "\<forall>x \<in> set xs. Q x s'"
  using assms(1,4)
proof (induction xs arbitrary: s)
  case (Cons x xs)
  then obtain t where t: "f s x = Inr t" and r: "res_fold f t xs = Inr s'" by (auto simp: res_simps)
  have "R t s'" using r by (rule res_fold_rel) (use Cons.prems(2) assms(2,3) in \<open>auto intro: assms(2) dest: assms(3)\<close>)
  moreover have "Q x t" using Cons.prems(2) t by simp
  ultimately show ?case using Cons.IH [OF r] Cons.prems(2) assms(5) by auto
qed simp

lemma grows_raws: "grows env db st st' \<Longrightarrow> set (sg_RawObjects st) \<subseteq> set (sg_RawObjects st')"
  by (auto simp: grows_def)

lemma price_source:
  assumes "verifyMetricPriceRevision env db i entry st = Inr (raw, st')"
  shows "\<exists>p \<in> set (ed_prices db). metricUUID entry ''id'' = Some (ep_id p) \<and> ep_raw p = rr_ID raw"
proof -
  obtain j p where "metricUUID entry ''id'' = Some j" and p: "price_with_raw db j = Some (p, raw)" and "ep_id p = j"
    using assms unfolding verifyMetricPriceRevision_def
    by (auto simp: res_simps fetch_ok split: option.splits if_splits)
  with p show ?thesis by (auto simp: price_with_raw_def bind_eq_Some_conv dest!: find_raw_in find_in)
qed

lemma cash_source:
  assumes "verifyMetricCashPriceRevision env db i entry j st = Inr (raw, st')"
  shows "\<exists>f \<in> set (ed_fx db). ef_id f = j \<and> ef_raw f = rr_ID raw"
proof -
  obtain f where f: "fx_with_raw db (ee_cast env j) = Some (f, raw)" and "ef_id f = j"
    using assms unfolding verifyMetricCashPriceRevision_def
    by (auto simp: res_simps fetch_ok Let_def split: if_splits)
  then show ?thesis by (auto simp: fx_with_raw_def bind_eq_Some_conv dest!: find_raw_in find_in)
qed

lemma rate_source:
  assumes "verifyMetricFXRevision env db entry st = Inr (raw, st')"
  shows "\<exists>f \<in> set (ed_fx db). metricUUID entry ''id'' = Some (ef_id f) \<and> ef_raw f = rr_ID raw"
proof -
  obtain j f where "metricUUID entry ''id'' = Some j" and f: "fx_with_raw db (Some j) = Some (f, raw)"
    using assms unfolding verifyMetricFXRevision_def
    by (auto simp: res_simps fetch_ok Let_def split: option.splits if_splits)
  with f show ?thesis by (auto simp: fx_with_raw_def bind_eq_Some_conv dest!: find_raw_in find_in)
qed

lemma add_fx_dependency_listed:
  assumes "add_fx_dependency env db st f = Inr st'"
  shows "fx_listed db (sg_RawObjects st') (metricUUID f ''id'')"
proof -
  obtain raw st1 where v: "verifyMetricFXRevision env db f st = Inr (raw, st1)" and add: "addRawDependency env raw st1 = Inr st'"
    using assms by (auto simp: add_fx_dependency_def res_simps)
  have "raw \<in> set (ed_raws db)" using verifyMetricFXRevision_grows [OF v] by simp
  moreover have "\<exists>row \<in> set (ed_fx db). metricUUID f ''id'' = Some (ef_id row) \<and> ef_raw row = rr_ID raw" by (rule rate_source [OF v])
  ultimately show ?thesis using addRawDependency_grows [OF add] unfolding fx_listed_def by metis
qed

lemma metric_revision_listed:
  assumes "metric_revision env db cash i native acc revision = Inr acc'"
  shows "grows env db (snd acc) (snd acc') \<and> metric_entry_listed db (sg_RawObjects (snd acc')) cash revision"
proof (cases "cash \<and> has_prefix (metricString revision ''id'') ''cash-constant:''")
  case True
  then show ?thesis using assms metric_revision_grows by (metis metric_entry_listed_def prod.collapse)
next
  case False
  obtain h st h' st' where acc: "acc = (h, st)" "acc' = (h', st')" by (metis prod.collapse)
  obtain raw st1 st2 fs where
    v: "(if cash then verifyMetricCashPriceRevision env db i revision (metricString revision ''id'') st
         else verifyMetricPriceRevision env db i revision st) = Inr (raw, st1)"
    and add: "addRawDependency env raw st1 = Inr st2" and fs: "metricFXPath revision = Some fs"
    and fold: "res_fold (add_fx_dependency env db) st2 fs = Inr st'"
    using assms False acc
    by (cases "metricFXPath revision"; cases "metricObservationDay revision")
      (auto simp: metric_revision_def res_simps split: if_split_asm)
  have fx: "\<forall>f \<in> set fs. fx_listed db (sg_RawObjects st') (metricUUID f ''id'')"
    using fold
  proof (rule res_fold_each)
    show "grows env db s s' \<and> fx_listed db (sg_RawObjects s') (metricUUID x ''id'')" if "add_fx_dependency env db s x = Inr s'" for s x s'
      using that add_fx_dependency_grows add_fx_dependency_listed by blast
    show "fx_listed db (sg_RawObjects s') (metricUUID x ''id'')" if "fx_listed db (sg_RawObjects s) (metricUUID x ''id'')" "grows env db s s'" for s x s'
      using that grows_raws unfolding fx_listed_def by blast
  qed (fact grows_refl, fact grows_trans)
  have "grows env db st2 st'"
    using fold by (rule res_fold_rel) (auto intro: grows_refl grows_trans add_fx_dependency_grows)
  note sub = grows_raws [OF this]
  have own: "if cash then \<exists>row \<in> set (ed_fx db). ef_id row = metricString revision ''id'' \<and> ef_raw row = rr_ID raw
    else \<exists>p \<in> set (ed_prices db). metricUUID revision ''id'' = Some (ep_id p) \<and> ep_raw p = rr_ID raw"
    using v cash_source price_source by (auto split: if_splits)
  have "raw \<in> set (ed_raws db)"
    using v verifyMetricCashPriceRevision_grows verifyMetricPriceRevision_grows by (auto split: if_splits)
  then have "rr_ID raw \<in> rr_ID ` set (sg_RawObjects st')" using addRawDependency_grows [OF add] sub by auto
  then have "if cash then fx_listed db (sg_RawObjects st') (Some (metricString revision ''id''))
    else price_listed db (sg_RawObjects st') (metricUUID revision ''id'')"
    using own unfolding fx_listed_def price_listed_def by (cases cash) (simp_all, metis+)
  then show ?thesis
    using fs fx metric_revision_grows [OF assms [unfolded acc]] acc by (simp add: metric_entry_listed_def)
qed

lemma metric_history_listed:
  assumes "metric_history env db cash hs ms i = Inr ms'" and "map_value hs i = Some rs"
  shows "\<forall>revision \<in> set rs. metric_entry_listed db (sg_RawObjects (mt_sealing ms')) cash revision"
proof -
  obtain native s0 h st where
    "res_fold (metric_revision env db cash i native) ([], s0) (case map_value hs i of None \<Rightarrow> [] | Some rs \<Rightarrow> rs) = Inr (h, st)"
    and "mt_sealing ms' = st"
    using assms(1) unfolding metric_history_def by (auto simp: Let_def res_simps split: if_splits prod.splits)
  then have f: "res_fold (metric_revision env db cash i native) ([], s0) rs = Inr (h, st)" using assms(2) by simp
  from f have "\<forall>revision \<in> set rs. metric_entry_listed db (sg_RawObjects (snd (h, st))) cash revision"
  proof (rule res_fold_each)
    show "grows env db (snd s) (snd s') \<and> metric_entry_listed db (sg_RawObjects (snd s')) cash x"
      if "metric_revision env db cash i native s x = Inr s'" for s x s'
      using that by (rule metric_revision_listed)
  qed (use grows_refl grows_trans metric_entry_listed_mono grows_raws in blast)+
  then show ?thesis using \<open>mt_sealing ms' = st\<close> by simp
qed

lemma metric_group_listed:
  assumes "metric_group env db inputs ms g = Inr ms'"
  shows "group_listed db (sg_RawObjects (mt_sealing ms')) inputs g"
proof (cases "map_value (metric_histories inputs (fst g)) = (\<lambda>_. None)")
  case False
  then obtain v where v: "map_value inputs (fst g) = Some v"
    by (cases "map_value inputs (fst g)") (auto simp: metric_histories_def map_value_def)
  moreover obtain hs where hs: "decode_map decode_objects v = Some hs"
    using False v by (cases "decode_map decode_objects v") (auto simp: metric_histories_def map_value_def)
  moreover have "\<not> emptyJSONObject v"
    using False v hs by (auto simp: emptyJSONObject_def decode_object_def decode_map_def metric_histories_def map_value_def split: json.splits if_splits)
  ultimately have f: "res_fold (metric_history env db (snd g) hs) ms (sort (map_keys hs)) = Inr ms'"
    using assms by (auto simp: metric_group_def split: prod.splits if_splits)
  have "metric_histories inputs (fst g) = hs" using v hs by (simp add: metric_histories_def)
  moreover have "\<forall>i \<in> set (sort (map_keys hs)). \<forall>rs. map_value hs i = Some rs
      \<longrightarrow> (\<forall>revision \<in> set rs. metric_entry_listed db (sg_RawObjects (mt_sealing ms')) (snd g) revision)"
    using f
  proof (rule res_fold_each)
    show "grows env db (mt_sealing s) (mt_sealing s') \<and> (\<forall>rs. map_value hs i = Some rs
        \<longrightarrow> (\<forall>revision \<in> set rs. metric_entry_listed db (sg_RawObjects (mt_sealing s')) (snd g) revision))"
      if "metric_history env db (snd g) hs s i = Inr s'" for s i s'
      using metric_history_grows [OF that] metric_history_listed [OF that] by blast
  qed (use grows_refl grows_trans metric_entry_listed_mono grows_raws in blast)+
  moreover have "i \<in> set (map_keys hs)" if "map_value hs i = Some rs" for i rs
    using that by (force simp: map_value_def map_keys_def dest: map_of_SomeD)
  ultimately show ?thesis unfolding group_listed_def by auto
qed (simp add: group_listed_def)

lemma check_metric_inputs_listed:
  assumes "check_metric_inputs env db inputs st = Inr st'"
  shows "\<forall>g \<in> set [(''price_revision_history'', False), (''cash_revision_history'', True)]. group_listed db (sg_RawObjects st') inputs g"
proof -
  obtain ms where f: "res_fold (metric_group env db inputs) \<lparr>mt_sealing = st, mt_covered = [], mt_expected = [], mt_kinds = []\<rparr>
          [(''price_revision_history'', False), (''cash_revision_history'', True)] = Inr ms" and "mt_sealing ms = st'"
    using assms unfolding check_metric_inputs_def by (auto simp: res_simps split: option.splits if_splits)
  from f have "\<forall>g \<in> set [(''price_revision_history'', False), (''cash_revision_history'', True)]. group_listed db (sg_RawObjects (mt_sealing ms)) inputs g"
  proof (rule res_fold_each)
    show "grows env db (mt_sealing s) (mt_sealing s') \<and> group_listed db (sg_RawObjects (mt_sealing s')) inputs g"
      if "metric_group env db inputs s g = Inr s'" for s g s'
      using that metric_group_grows metric_group_listed by blast
  qed (use grows_refl grows_trans group_listed_mono grows_raws in blast)+
  then show ?thesis using \<open>mt_sealing ms = st'\<close> by simp
qed

lemma addMetricDependencies_listed:
  assumes "addMetricDependencies env db doc st = Inr st'"
  shows "metrics_listed db (sg_RawObjects st') doc"
proof (cases "metric_inputs doc = []")
  case True
  then show ?thesis by (simp add: metrics_listed_def group_listed_def metric_histories_def map_value_def)
next
  case False
  then obtain v p w inputs where "input_provenance doc = Some (Some v)" and "decode_map Some v = Some p"
    and "map_value p ''metric_inputs'' = Some w" and "decode_map Some w = Some inputs" and "metric_inputs doc = inputs"
    by (auto simp: metric_inputs_def bind_eq_Some_conv split: option.splits)
  moreover from this have "v \<noteq> JNull" by (auto simp: decode_map_def map_value_def)
  ultimately have "check_metric_inputs env db (metric_inputs doc) st = Inr st'"
    using assms by (auto simp: addMetricDependencies_def split: if_splits)
  from check_metric_inputs_listed [OF this] show ?thesis by (simp add: metrics_listed_def)
qed

text \<open>An entry of the manifest holds the stored document, and what it rests on is listed.\<close>

definition entry_sourced :: "evidence_env \<Rightarrow> evidence_db \<Rightarrow> string \<Rightarrow> RawRef list \<Rightarrow> Entry \<Rightarrow> bool" where
  "entry_sourced env db account raws e \<longleftrightarrow>
     (if en_Kind e = ''portfolio_snapshot'' then snapshot_doc db account (en_Reference e) = Some (en_Snapshot e)
      else if en_Kind e = ''valuation_run'' then valuation_doc db account (en_Reference e) = Some (en_Snapshot e)
      else if en_Kind e = ''risk_run'' then run_doc env db account (en_Reference e) = Some (en_Snapshot e) \<and> metrics_listed db raws (en_Snapshot e)
      else if en_Kind e = ''raw_object'' then en_Reference e \<in> rr_ID ` set raws \<and> (\<exists>raw \<in> set (ed_raws db). rr_ID raw = en_Reference e \<and> raw_json raw = en_Snapshot e)
      else if en_Kind e = ''observation_revision''
        then \<exists>v \<in> set (ed_observations db). eo_id v = en_Reference e \<and> eo_doc v = en_Snapshot e \<and> eo_raw v \<in> rr_ID ` set raws
      else if en_Kind e = ''price_revision''
        then \<exists>p \<in> set (ed_prices db). ep_id p = en_Reference e \<and> ep_doc p = en_Snapshot e \<and> ep_raw p \<in> rr_ID ` set raws
      else en_Kind e = ''fx_quote_revision''
        \<and> (\<exists>f \<in> set (ed_fx db). ef_id f = en_Reference e \<and> ef_doc f = en_Snapshot e \<and> ef_raw f \<in> rr_ID ` set raws))"

lemma entry_sourced_mono:
  assumes "entry_sourced env db account raws e" and "set raws \<subseteq> set raws'"
  shows "entry_sourced env db account raws' e"
proof -
  have "rr_ID ` set raws \<subseteq> rr_ID ` set raws'" using assms(2) by (rule image_mono)
  then show ?thesis
    using assms metrics_listed_mono [OF _ assms(2)] unfolding entry_sourced_def by (auto split: if_splits simp del: image_iff)
qed

subsection \<open>Gathering references\<close>

definition listed :: "string \<Rightarrow> Entry list \<Rightarrow> string list" where
  "listed kind es = map en_Reference (filter (\<lambda>e. en_Kind e = kind) es)"

lemma listed_simps [simp]: "listed kind [] = []" "listed kind (es @ [e]) = listed kind es @ (if en_Kind e = kind then [en_Reference e] else [])"
  by (simp_all add: listed_def)

definition entry_for :: "EvidenceRef \<Rightarrow> Entry \<Rightarrow> bool" where
  "entry_for ref e \<longleftrightarrow> en_Kind e = er_Kind ref \<and> canonicalUUID (er_Reference ref) = Some (en_Reference e) \<and> en_Description e = er_Description ref"

text \<open>Keys of the tables.\<close>

definition keys_ok :: "evidence_db \<Rightarrow> bool" where
  "keys_ok db \<longleftrightarrow> distinct (map ev_id (ed_valuations db)) \<and> distinct (map ern_id (ed_runs db)) \<and> distinct (map rr_ID (ed_raws db))
     \<and> (\<forall>r \<in> set (ed_runs db). ern_snapshot r \<noteq> [])"

definition snapshot_found :: "evidence_db \<Rightarrow> string \<Rightarrow> string \<Rightarrow> bool" where
  "snapshot_found db account i \<longleftrightarrow> (\<exists>p \<in> set (ed_snapshots db). es_id p = i \<and> has_account db account (es_portfolio p))"

definition valuation_found :: "evidence_db \<Rightarrow> string \<Rightarrow> string \<Rightarrow> bool" where
  "valuation_found db i snapshot \<longleftrightarrow> (\<exists>v \<in> set (ed_valuations db). ev_id v = i \<and> live_state (ev_state v) \<and> ev_snapshot v = snapshot)"

definition run_found :: "evidence_db \<Rightarrow> string \<Rightarrow> string \<Rightarrow> string \<Rightarrow> string \<Rightarrow> bool" where
  "run_found db account i snapshot valuation \<longleftrightarrow> (\<exists>r \<in> set (ed_runs db). ern_id r = i \<and> ern_account r = account \<and> live_state (ern_state r)
     \<and> ern_result r \<noteq> None \<and> ern_snapshot r = snapshot \<and> (case ern_valuation r of None \<Rightarrow> [] | Some v \<Rightarrow> v) = valuation)"

definition seal_inv :: "evidence_env \<Rightarrow> evidence_db \<Rightarrow> string \<Rightarrow> EvidenceRef list \<Rightarrow> sealing \<Rightarrow> bool" where
  "seal_inv env db account refs st \<longleftrightarrow>
     list_all2 entry_for refs (sg_References st) \<and> raws_ok env db (sg_RawObjects st)
     \<and> (\<forall>e \<in> set (sg_References st). entry_sourced env db account (sg_RawObjects st) e)
     \<and> (if sg_snapshotID st = [] then listed ''portfolio_snapshot'' (sg_References st) = []
        else listed ''portfolio_snapshot'' (sg_References st) = [sg_snapshotID st] \<and> snapshot_found db account (sg_snapshotID st))
     \<and> (if sg_valuationID st = [] then listed ''valuation_run'' (sg_References st) = []
        else listed ''valuation_run'' (sg_References st) = [sg_valuationID st] \<and> valuation_found db (sg_valuationID st) (sg_valuationSnapshot st))
     \<and> (if sg_riskSnapshot st = [] then listed ''risk_run'' (sg_References st) = []
        else \<exists>i. listed ''risk_run'' (sg_References st) = [i] \<and> run_found db account i (sg_riskSnapshot st) (sg_riskValuationID st))
     \<and> (texts_ok db \<longrightarrow> (\<forall>e \<in> set (sg_References st). wf_json (JStr (en_Kind e)) \<and> wf_json (en_Snapshot e)))"

lemma res_fold_prefix:
  assumes "res_fold f s xs = Inr s'" and "J ys s" and "\<And>ys x s s'. J ys s \<Longrightarrow> f s x = Inr s' \<Longrightarrow> J (ys @ [x]) s'"
  shows "J (ys @ xs) s'"
  using assms(1,2)
proof (induction xs arbitrary: ys s)
  case (Cons x xs)
  then obtain t where "f s x = Inr t" and "res_fold f t xs = Inr s'" by (auto simp: res_simps)
  with Cons.IH [of t "ys @ [x]"] Cons.prems(2) assms(3) show ?case by fastforce
qed simp

lemma resolve_snapshot_ok:
  assumes "resolve_snapshot env db account i st = Inr (d, st')"
  shows "sg_snapshotID st = []" and "snapshot_doc db account i = Some d" and "\<exists>n. st' = st\<lparr>sg_snapshotID := i, sg_stmt := n\<rparr>"
  using assms by (auto simp: resolve_snapshot_def res_simps fetch_ok split: if_splits intro!: exI [of _ "Suc (sg_stmt st)"])

lemma snapshot_doc_found: "snapshot_doc db account i = Some d \<Longrightarrow> snapshot_found db account i"
  by (auto simp: snapshot_doc_def snapshot_found_def split: option.splits dest!: find_in)

lemma resolve_valuation_ok:
  assumes "resolve_valuation env db account i st = Inr (d, st')" and "keys_ok db"
  shows "sg_valuationID st = []" and "valuation_doc db account i = Some d"
    and "\<exists>s n. st' = st\<lparr>sg_valuationID := i, sg_valuationSnapshot := s, sg_stmt := n\<rparr> \<and> valuation_found db i s"
proof -
  obtain v where v: "valuation_doc db account i = Some d" "find (\<lambda>v. ev_id v = i) (ed_valuations db) = Some v" "sg_valuationID st = []"
    and st': "st' = st\<lparr>sg_valuationID := i, sg_valuationSnapshot := ev_snapshot v, sg_stmt := sg_stmt st + 2\<rparr>"
    using assms(1) by (auto simp: resolve_valuation_def res_simps fetch_ok split: if_splits)
  show "sg_valuationID st = []" and "valuation_doc db account i = Some d" by fact+
  obtain w where "w \<in> set (ed_valuations db)" "ev_id w = i" "live_state (ev_state w)"
    using v(1) by (auto simp: valuation_doc_def split: option.splits dest!: find_in)
  moreover from find_in [OF v(2)] have "v \<in> set (ed_valuations db)" and "ev_id v = i" by simp_all
  ultimately have "v = w" using assms(2) by (auto simp: keys_ok_def distinct_map inj_on_def)
  with st' \<open>w \<in> _\<close> \<open>ev_id w = i\<close> \<open>live_state _\<close>
  show "\<exists>s n. st' = st\<lparr>sg_valuationID := i, sg_valuationSnapshot := s, sg_stmt := n\<rparr> \<and> valuation_found db i s"
    unfolding valuation_found_def by (intro exI [of _ "ev_snapshot v"] exI [of _ "sg_stmt st + 2"]) auto
qed

lemma resolve_run_ok:
  assumes "resolve_run env db account i st = Inr (d, st')" and "keys_ok db"
  shows "sg_riskSnapshot st = []" and "run_doc env db account i = Some d"
    and "\<exists>s v n. st' = st\<lparr>sg_riskSnapshot := s, sg_riskValuationID := v, sg_stmt := n\<rparr> \<and> s \<noteq> [] \<and> run_found db account i s v"
proof -
  obtain r where r: "run_doc env db account i = Some d" "find (\<lambda>r. ern_id r = i) (ed_runs db) = Some r" "sg_riskSnapshot st = []"
    and st': "st' = st\<lparr>sg_riskSnapshot := ern_snapshot r, sg_riskValuationID := (case ern_valuation r of None \<Rightarrow> [] | Some v \<Rightarrow> v), sg_stmt := sg_stmt st + 2\<rparr>"
    using assms(1) by (auto simp: resolve_run_def res_simps fetch_ok split: if_splits)
  show "sg_riskSnapshot st = []" and "run_doc env db account i = Some d" by fact+
  obtain w where w: "w \<in> set (ed_runs db)" "ern_id w = i" "ern_account w = account" "live_state (ern_state w)" "ern_result w \<noteq> None"
    using r(1) by (auto simp: run_doc_def split: option.splits dest!: find_in)
  moreover from find_in [OF r(2)] have "r \<in> set (ed_runs db)" and "ern_id r = i" by simp_all
  ultimately have "r = w" using assms(2) by (auto simp: keys_ok_def distinct_map inj_on_def)
  with st' w assms(2)
  show "\<exists>s v n. st' = st\<lparr>sg_riskSnapshot := s, sg_riskValuationID := v, sg_stmt := n\<rparr> \<and> s \<noteq> [] \<and> run_found db account i s v"
    unfolding run_found_def keys_ok_def
    by (intro exI [of _ "ern_snapshot r"] exI [of _ "case ern_valuation r of None \<Rightarrow> [] | Some v \<Rightarrow> v"] exI [of _ "sg_stmt st + 2"]) auto
qed

lemma resolve_raw_ok:
  assumes "resolve_raw env db i st = Inr (d, st')"
  shows "grows env db st st'" and "texts_ok db \<Longrightarrow> wf_json d"
    and "i \<in> rr_ID ` set (sg_RawObjects st') \<and> (\<exists>raw \<in> set (ed_raws db). rr_ID raw = i \<and> raw_json raw = d)"
proof -
  obtain raw where raw: "find_raw db i = Some raw" "verifyRaw env raw" and d: "d = raw_json raw"
    and st': "st' = (let st = st\<lparr>sg_stmt := sg_stmt st + 1\<rparr> in if rawSeen st (rr_ID raw) then st else st\<lparr>sg_RawObjects := sg_RawObjects st @ [raw]\<rparr>)"
    using assms by (auto simp: resolve_raw_def res_simps fetch_ok split: if_splits)
  have "addRawDependency env raw (st\<lparr>sg_stmt := sg_stmt st + 1\<rparr>) = Inr st'"
    using raw(2) st' by (simp add: addRawDependency_def Let_def)
  note add = addRawDependency_grows [OF this]
  show "grows env db st st'" using add find_raw_in [OF raw(1)] grows_stmt grows_trans by blast
  show "i \<in> rr_ID ` set (sg_RawObjects st') \<and> (\<exists>raw \<in> set (ed_raws db). rr_ID raw = i \<and> raw_json raw = d)"
    using add find_raw_in [OF raw(1)] d by blast
  show "texts_ok db \<Longrightarrow> wf_json d"
    using find_raw_in [OF raw(1)] by (simp add: texts_ok_def d)
qed

lemma resolve_revision_ok:
  assumes "resolve_revision env db kind i st = Inr (d, st')"
  shows "grows env db st st'" and "texts_ok db \<Longrightarrow> wf_json d"
    and "\<exists>raw. revision_doc db kind i = Some (d, raw) \<and> rr_ID raw \<in> rr_ID ` set (sg_RawObjects st')"
proof -
  obtain raw st1 where r: "revision_doc db kind i = Some (d, raw)" "addRawDependency env raw (st\<lparr>sg_stmt := sg_stmt st + 1\<rparr>) = Inr st'"
    using assms by (auto simp: resolve_revision_def res_simps fetch_ok)
  then show "grows env db st st'"
    using addRawDependency_grows revision_doc_in(1) grows_stmt grows_trans by blast
  show "texts_ok db \<Longrightarrow> wf_json d" using revision_doc_in(2) [OF r(1)] .
  show "\<exists>raw. revision_doc db kind i = Some (d, raw) \<and> rr_ID raw \<in> rr_ID ` set (sg_RawObjects st')"
    using addRawDependency_grows r revision_doc_in(1) by blast
qed

lemma revision_sourced:
  assumes "revision_doc db (en_Kind e) (en_Reference e) = Some (en_Snapshot e, raw)" and "rr_ID raw \<in> rr_ID ` set raws"
    and "en_Kind e \<in> {''observation_revision'', ''price_revision'', ''fx_quote_revision''}"
  shows "entry_sourced env db account raws e"
  using assms unfolding entry_sourced_def revision_doc_def
  by (auto simp: bind_eq_Some_conv simp del: image_iff split: if_splits dest!: find_raw_in find_in)

lemma grows_fields:
  assumes "grows env db st st'"
  shows "sg_References st' = sg_References st" "sg_snapshotID st' = sg_snapshotID st" "sg_valuationSnapshot st' = sg_valuationSnapshot st"
    "sg_riskSnapshot st' = sg_riskSnapshot st" "sg_valuationID st' = sg_valuationID st" "sg_riskValuationID st' = sg_riskValuationID st"
    "sg_seen st' = sg_seen st"
  using assms by (auto simp: grows_def)

text \<open>A step that does not touch the fields of the invariant.\<close>

lemma seal_inv_add:
  assumes "seal_inv env db account refs st" and "entry_for ref e" and "texts_ok db \<longrightarrow> wf_json (en_Snapshot e)" and "wf_json (JStr (en_Kind e))"
    and "sg_References st' = sg_References st @ [e]" and "raws_ok env db (sg_RawObjects st')"
    and "set (sg_RawObjects st) \<subseteq> set (sg_RawObjects st')" and "entry_sourced env db account (sg_RawObjects st') e"
    and "if en_Kind e = ''portfolio_snapshot'' then sg_snapshotID st = [] \<and> sg_snapshotID st' = en_Reference e \<and> snapshot_found db account (en_Reference e)
         else sg_snapshotID st' = sg_snapshotID st"
    and "if en_Kind e = ''valuation_run'' then sg_valuationID st = [] \<and> sg_valuationID st' = en_Reference e \<and> valuation_found db (en_Reference e) (sg_valuationSnapshot st')
         else sg_valuationID st' = sg_valuationID st \<and> sg_valuationSnapshot st' = sg_valuationSnapshot st"
    and "if en_Kind e = ''risk_run'' then sg_riskSnapshot st = [] \<and> sg_riskSnapshot st' \<noteq> [] \<and> run_found db account (en_Reference e) (sg_riskSnapshot st') (sg_riskValuationID st')
         else sg_riskSnapshot st' = sg_riskSnapshot st \<and> sg_riskValuationID st' = sg_riskValuationID st"
  shows "seal_inv env db account (refs @ [ref]) st'"
proof -
  have "en_Reference e \<noteq> []" using assms(2) canonicalUUID_nonempty by (auto simp: entry_for_def)
  moreover have "\<forall>e \<in> set (sg_References st'). entry_sourced env db account (sg_RawObjects st') e"
    using assms(1,5,7,8) entry_sourced_mono unfolding seal_inv_def by auto
  ultimately show ?thesis
    using assms unfolding seal_inv_def by (simp add: list_all2_appendI split: if_splits)
qed

lemma seal_ref_inv:
  assumes "seal_inv env db account refs st" and "seal_ref env db account st ref = Inr st'" and "keys_ok db"
  shows "seal_inv env db account (refs @ [ref]) st'"
proof -
  define st0 where "st0 i = st\<lparr>sg_seen := (er_Kind ref @ '':'' @ i) # sg_seen st\<rparr>" for i
  obtain i where i: "canonicalUUID (er_Reference ref) = Some i"
    using assms(2) by (cases "canonicalUUID (er_Reference ref)") (simp_all add: seal_ref_def)
  have fresh: "er_Kind ref @ '':'' @ i \<notin> set (sg_seen st)"
    using assms(2) i by (auto simp: seal_ref_def)
  obtain d st1 st2 where
    r: "resolve env db account (er_Kind ref) i (st0 i) = Inr (d, st1)"
    and m: "(if er_Kind ref = ''risk_run'' then addMetricDependencies env db d st1 else Inr st1) = Inr st2"
    and st': "st' = st2\<lparr>sg_References := sg_References st2 @ [\<lparr>en_Kind = er_Kind ref, en_Reference = i, en_Description = er_Description ref, en_Snapshot = d\<rparr>]\<rparr>"
    using assms(2) fresh unfolding st0_def seal_ref_def Let_def i
    by (auto simp only: res_simps option.case if_False prod.case split_paired_Ex sum.inject)
  have inv0: "raws_ok env db (sg_RawObjects (st0 i))" using assms(1) by (simp add: seal_inv_def st0_def)
  note st0 = st0_def [of i]
  let ?e = "\<lparr>en_Kind = er_Kind ref, en_Reference = i, en_Description = er_Description ref, en_Snapshot = d\<rparr>"
  have e: "entry_for ref ?e" using i by (simp add: entry_for_def)
  note add = seal_inv_add [OF assms(1) e, of st']
  consider (snapshot) "er_Kind ref = ''portfolio_snapshot''" | (valuation) "er_Kind ref = ''valuation_run''" | (risk) "er_Kind ref = ''risk_run''"
    | (raw) "er_Kind ref \<in> {''raw_object'', ''observation_revision'', ''price_revision'', ''fx_quote_revision''}"
    using r by (auto simp: resolve_def split: if_splits)
  then show ?thesis
  proof cases
    case snapshot
    then have rs: "resolve_snapshot env db account i (st0 i) = Inr (d, st1)" and "st2 = st1" using r m by (simp_all add: resolve_def)
    note ok = resolve_snapshot_ok [OF rs]
    show ?thesis
      using ok(3) snapshot \<open>st2 = st1\<close> inv0 ok(1,2)
      by (intro add) (auto simp: st' st0 utf8_ascii snapshot_doc_found entry_sourced_def intro: snapshot_doc_wf)
  next
    case valuation
    then have rs: "resolve_valuation env db account i (st0 i) = Inr (d, st1)" and "st2 = st1" using r m by (simp_all add: resolve_def)
    note ok = resolve_valuation_ok [OF rs assms(3)]
    show ?thesis
      using ok(3) valuation \<open>st2 = st1\<close> inv0 ok(1,2)
      by (intro add) (auto simp: st' st0 utf8_ascii entry_sourced_def intro: valuation_doc_wf)
  next
    case risk
    then have rs: "resolve_run env db account i (st0 i) = Inr (d, st1)" and "addMetricDependencies env db d st1 = Inr st2" using r m by (simp_all add: resolve_def)
    note ok = resolve_run_ok [OF rs assms(3)]
    have g: "grows env db st1 st2" by (rule addMetricDependencies_grows) fact
    obtain s v n where st1: "st1 = (st0 i)\<lparr>sg_riskSnapshot := s, sg_riskValuationID := v, sg_stmt := n\<rparr>" "s \<noteq> []" "run_found db account i s v"
      using ok(3) by blast
    have "raws_ok env db (sg_RawObjects st2)" using g inv0 by (simp add: grows_def st1)
    moreover have "entry_sourced env db account (sg_RawObjects st2) ?e"
      using risk ok(2) addMetricDependencies_listed [OF \<open>addMetricDependencies env db d st1 = Inr st2\<close>] by (simp add: entry_sourced_def)
    moreover have "set (sg_RawObjects st) \<subseteq> set (sg_RawObjects st2)" using grows_raws [OF g] by (simp add: st1 st0)
    ultimately show ?thesis
      using risk ok(1,2) st1 grows_fields [OF g]
      by (intro add) (auto simp: st' st0 utf8_ascii intro: run_doc_wf)
  next
    case raw
    then have "st2 = st1" using m by (auto split: if_splits)
    have g: "grows env db (st0 i) st1" and wf: "texts_ok db \<Longrightarrow> wf_json d"
      using raw r resolve_raw_ok [of env db i "st0 i" d st1] resolve_revision_ok [of env db "er_Kind ref" i "st0 i" d st1]
      by (auto simp: resolve_def)
    have "raws_ok env db (sg_RawObjects st1)" using g inv0 by (simp add: grows_def)
    moreover have "entry_sourced env db account (sg_RawObjects st1) ?e"
    proof (cases "er_Kind ref = ''raw_object''")
      case True
      with r have "resolve_raw env db i (st0 i) = Inr (d, st1)" by (simp add: resolve_def)
      from resolve_raw_ok(3) [OF this] True show ?thesis by (simp add: entry_sourced_def)
    next
      case False
      then have "resolve_revision env db (er_Kind ref) i (st0 i) = Inr (d, st1)" using r raw by (auto simp: resolve_def)
      from resolve_revision_ok(3) [OF this] obtain o' where "revision_doc db (er_Kind ref) i = Some (d, o')" and "rr_ID o' \<in> rr_ID ` set (sg_RawObjects st1)" by blast
      with False raw show ?thesis by (intro revision_sourced [of _ _ o']) simp_all
    qed
    moreover have "set (sg_RawObjects st) \<subseteq> set (sg_RawObjects st1)" using grows_raws [OF g] by (simp add: st0)
    ultimately show ?thesis
      using raw wf \<open>st2 = st1\<close> grows_fields [OF g]
      by (intro add) (auto simp: st' st0 utf8_ascii)
  qed
qed

lemma gather_inv:
  assumes "gather env db account refs = Inr st" and "keys_ok db"
  shows "seal_inv env db account refs st" and "agree st"
    and "rr_ID ` set (valuation_raws db (sg_valuationID st)) \<subseteq> rr_ID ` set (sg_RawObjects st)"
proof -
  obtain st1 where f: "res_fold (seal_ref env db account) sealing_start refs = Inr st1" and "agree st1"
    and g: "res_fold (\<lambda>st raw. addRawDependency env raw st) (st1\<lparr>sg_stmt := sg_stmt st1 + 1\<rparr>) (valuation_raws db (sg_valuationID st1)) = Inr st"
    using assms(1) by (auto simp: gather_def res_simps split: if_splits)
  have inv1: "seal_inv env db account ([] @ refs) st1"
    using f
  proof (rule res_fold_prefix)
    show "seal_inv env db account [] sealing_start" by (simp add: seal_inv_def sealing_start_def raws_ok_def)
  qed (rule seal_ref_inv [OF _ _ assms(2)])
  have raws: "raw \<in> set (ed_raws db)" if "raw \<in> set (valuation_raws db v)" for raw v
    using that by (simp add: valuation_raws_def)
  have grow: "grows env db (st1\<lparr>sg_stmt := sg_stmt st1 + 1\<rparr>) st"
    using g by (rule res_fold_rel) (auto intro: grows_refl grows_trans dest!: raws addRawDependency_grows)
  then have gr: "grows env db st1 st" using grows_stmt grows_trans by blast
  note same = grows_fields [OF gr]
  show "agree st" using \<open>agree st1\<close> same by (simp add: agree_def)
  have "raws_ok env db (sg_RawObjects st)" using gr inv1 by (simp add: grows_def seal_inv_def)
  moreover have "\<forall>e \<in> set (sg_References st). entry_sourced env db account (sg_RawObjects st) e"
    using inv1 same(1) grows_raws [OF gr] entry_sourced_mono by (auto simp: seal_inv_def)
  ultimately show "seal_inv env db account refs st" using inv1 same by (simp add: seal_inv_def)
  have "rr_ID ` set xs \<subseteq> rr_ID ` set (sg_RawObjects t)" if "res_fold (\<lambda>st raw. addRawDependency env raw st) s xs = Inr t"
    and "set xs \<subseteq> set (ed_raws db)" for s t xs
    using that
  proof (induction xs arbitrary: s)
    case (Cons x xs)
    then obtain u where u: "addRawDependency env x s = Inr u" and r: "res_fold (\<lambda>st raw. addRawDependency env raw st) u xs = Inr t"
      by (auto simp: res_simps)
    have "grows env db u t"
      using r by (rule res_fold_rel) (use Cons.prems(2) in \<open>auto intro: grows_refl grows_trans dest!: addRawDependency_grows\<close>)
    then have "set (sg_RawObjects u) \<subseteq> set (sg_RawObjects t)" by (auto simp: grows_def)
    moreover have "rr_ID x \<in> rr_ID ` set (sg_RawObjects u)" using addRawDependency_grows [OF u, of db] Cons.prems(2) by simp
    ultimately show ?case using Cons.IH [OF r] Cons.prems(2) by auto
  qed simp
  from this [OF g] raws show "rr_ID ` set (valuation_raws db (sg_valuationID st)) \<subseteq> rr_ID ` set (sg_RawObjects st)"
    using same(5) by auto
qed

end
