(* ===== verification/Evidence_Properties.thy ===== *)
theory Evidence_Properties
  imports Evidence_Safety Journal_Properties
begin

text \<open>
  What sealing promises: the manifest lists exactly the references of the decision, they agree on
  one snapshot and one valuation, every source object they rest on is listed and is in the archive
  with its digest, and the evidence can be given back byte for byte as long as nothing of it is
  altered. The last part puts the service to work in the journal: a decision has sealed evidence
  exactly when it is finalized.
\<close>

subsection \<open>Sealed evidence\<close>

text \<open>The manifest a call seals, and the row it leaves.\<close>

definition sealed_row :: "evidence_env \<Rightarrow> string \<Rightarrow> Manifest \<Rightarrow> evidence_row" where
  "sealed_row env d m = \<lparr>dv_decision = d, dv_bytes = json_text (manifest_json m), dv_sha = ee_sha env (json_text (manifest_json m))\<rparr>"

lemma Seal_adds:
  assumes "Seal env db decisionID accountID refs = Inr db'"
  obtains d a c st where "canonicalUUID decisionID = Some d" and "canonicalUUID accountID = Some a" and "gather env db a refs = Inr st"
    and "ee_cast env decisionID = Some c" and "c \<notin> dv_decision ` set (ed_evidence db)"
    and "db' = db\<lparr>ed_evidence := ed_evidence db @ [sealed_row env c (manifest_of d a st)]\<rparr>"
proof -
  obtain d a st where da: "canonicalUUID decisionID = Some d" "canonicalUUID accountID = Some a" and g: "gather env db a refs = Inr st"
    and ins: "insert_evidence env db decisionID (json_text (manifest_json (manifest_of d a st))) (sg_stmt st) = Inr db'"
    using assms(1) by (auto simp: Seal_def res_simps split: option.splits)
  obtain c where "ee_cast env decisionID = Some c" and "c \<notin> dv_decision ` set (ed_evidence db)"
    and "db' = db\<lparr>ed_evidence := ed_evidence db @ [sealed_row env c (manifest_of d a st)]\<rparr>"
    using ins by (auto simp: insert_evidence_def sealed_row_def split: option.splits if_splits)
  then show ?thesis using that da g by blast
qed

lemma Seal_ok:
  assumes "Seal env db decisionID accountID refs = Inr db'" and "keys_ok db"
  obtains d a c st where "canonicalUUID decisionID = Some d" and "canonicalUUID accountID = Some a" and "ee_cast env decisionID = Some c"
    and "seal_inv env db a refs st" and "agree st" and "rr_ID ` set (valuation_raws db (sg_valuationID st)) \<subseteq> rr_ID ` set (sg_RawObjects st)"
    and "c \<notin> dv_decision ` set (ed_evidence db)" and "db' = db\<lparr>ed_evidence := ed_evidence db @ [sealed_row env c (manifest_of d a st)]\<rparr>"
proof -
  obtain d a c st where "canonicalUUID decisionID = Some d" "canonicalUUID accountID = Some a" and g: "gather env db a refs = Inr st"
    and "ee_cast env decisionID = Some c" and "c \<notin> dv_decision ` set (ed_evidence db)"
    and "db' = db\<lparr>ed_evidence := ed_evidence db @ [sealed_row env c (manifest_of d a st)]\<rparr>"
    by (rule Seal_adds [OF assms(1)])
  then show ?thesis using that gather_inv [OF g assms(2)] by blast
qed

text \<open>What the manifest of a decision has to hold.\<close>

definition closed_manifest :: "evidence_env \<Rightarrow> evidence_db \<Rightarrow> EvidenceRef list \<Rightarrow> Manifest \<Rightarrow> bool" where
  "closed_manifest env db refs m \<longleftrightarrow> list_all2 entry_for refs (mf_References m)
     \<and> (\<exists>s v r. listed ''portfolio_snapshot'' (mf_References m) = [s] \<and> listed ''valuation_run'' (mf_References m) = [v]
          \<and> listed ''risk_run'' (mf_References m) = [r] \<and> snapshot_found db (mf_AccountID m) s \<and> valuation_found db v s \<and> run_found db (mf_AccountID m) r s v
          \<and> (\<forall>l \<in> set (ed_valuation_lines db). \<forall>raw \<in> set (ed_raws db). el_run l = v \<and> feeds db l (rr_ID raw) \<longrightarrow> raw \<in> set (mf_RawObjects m)))
     \<and> (\<forall>e \<in> set (mf_References m). entry_sourced env db (mf_AccountID m) (mf_RawObjects m) e)
     \<and> distinct (map rr_ID (mf_RawObjects m)) \<and> (\<forall>raw \<in> set (mf_RawObjects m). raw \<in> set (ed_raws db) \<and> verifyRaw env raw)"

lemma closed_manifest_of:
  assumes "seal_inv env db a refs st" and "agree st" and "rr_ID ` set (valuation_raws db (sg_valuationID st)) \<subseteq> rr_ID ` set (sg_RawObjects st)" and "keys_ok db"
  shows "closed_manifest env db refs (manifest_of d a st)"
proof -
  have raws: "set (sg_RawObjects st) \<subseteq> set (ed_raws db)" using assms(1) by (auto simp: seal_inv_def raws_ok_def)
  have "raw \<in> set (sg_RawObjects st)"
    if "l \<in> set (ed_valuation_lines db)" "raw \<in> set (ed_raws db)" "el_run l = sg_valuationID st \<and> feeds db l (rr_ID raw)" for l raw
  proof -
    have v: "raw \<in> set (valuation_raws db (sg_valuationID st))" using that by (auto simp: valuation_raws_def list_ex_iff)
    note \<open>raw \<in> set (ed_raws db)\<close>
    moreover from assms(3) v have "rr_ID raw \<in> rr_ID ` set (sg_RawObjects st)" by (rule subsetD [OF _ imageI])
    then obtain raw' where "raw' \<in> set (sg_RawObjects st)" and "rr_ID raw' = rr_ID raw" by (metis imageE)
    ultimately show ?thesis using raws assms(4) by (metis distinct_key_eq keys_ok_def subsetD)
  qed
  moreover from assms(2) have ne: "sg_snapshotID st \<noteq> []" "sg_valuationID st \<noteq> []" "sg_riskSnapshot st \<noteq> []"
    and eq: "sg_valuationSnapshot st = sg_snapshotID st" "sg_riskSnapshot st = sg_snapshotID st" "sg_riskValuationID st = sg_valuationID st"
    by (auto simp: agree_def)
  moreover from assms(1) ne obtain r where "listed ''risk_run'' (sg_References st) = [r]" and "run_found db a r (sg_riskSnapshot st) (sg_riskValuationID st)"
    by (auto simp: seal_inv_def)
  ultimately show ?thesis
    using assms(1) unfolding closed_manifest_def seal_inv_def raws_ok_def
    by (intro conjI exI [of _ "sg_snapshotID st"] exI [of _ "sg_valuationID st"] exI [of _ r]) (simp_all add: manifest_of_def)
qed

lemma sealed_manifest_wf:
  assumes "seal_inv env db a refs st" and "texts_ok db" and "\<forall>ref \<in> set refs. utf8_valid (er_Description ref)"
    and "canonicalUUID i = Some d" and "canonicalUUID j = Some a"
  shows "wf_json (manifest_json (manifest_of d a st))"
proof -
  have "wf_json (entry_json e)" if e: "e \<in> set (sg_References st)" for e
  proof -
    have "list_all2 entry_for refs (sg_References st)" using assms(1) by (simp add: seal_inv_def)
    then obtain ref where "ref \<in> set refs" and "entry_for ref e"
      using e by (metis in_set_conv_nth list_all2_conv_all_nth)
    then have "utf8_valid (en_Description e)" and "utf8_valid (en_Reference e)"
      using assms(3) canonicalUUID_utf8 by (auto simp: entry_for_def)
    moreover have "utf8_valid (en_Kind e)" and "wf_json (en_Snapshot e)" using assms(1,2) e by (auto simp: seal_inv_def)
    ultimately show ?thesis by (auto simp: entry_json_def utf8_ascii)
  qed
  moreover have "wf_json (raw_json r)" if "r \<in> set (sg_RawObjects st)" for r
    using that assms(1,2) by (auto simp: seal_inv_def raws_ok_def texts_ok_def)
  ultimately show ?thesis
    using canonicalUUID_utf8 [OF assms(4)] canonicalUUID_utf8 [OF assms(5)]
    by (auto simp: manifest_json_def manifest_of_def list_all_iff utf8_ascii)
qed

text \<open>What reconstruction does with a sealed row.\<close>

lemma Reconstruct_sealed:
  assumes "canonicalUUID i = Some d" and "find (\<lambda>r. dv_decision r = d) (ed_evidence db) = Some (sealed_row env d m)" and "mf_DecisionID m = d"
    and "wf_json (manifest_json m)" and "ee_sha env' = ee_sha env" and "pool" and "\<not> ee_fault env' (DbStmt 0)"
  shows "Reconstruct env' pool db i = (if list_all (verifyRaw env') (mf_RawObjects m)
     then Inr \<lparr>sl_Manifest = json_text (manifest_json m), sl_SHA256 = ee_sha env (json_text (manifest_json m))\<rparr> else Inl RIntegrity)"
  using assms by (simp add: Reconstruct_def sealed_row_def json_round_trip decode_manifest_json)

lemma verifyRaw_body:
  "verifyRaw env raw \<longleftrightarrow> (\<exists>b body. ee_archive env = Some b \<and> validObjectKey (rr_Key raw) \<and> \<not> ee_get_fails env (rr_Key raw)
     \<and> object_body b (rr_Key raw) = Some body \<and> ee_sha env body = rr_SHA256 raw)"
  by (auto simp: verifyRaw_def Get_object_def object_body_def split: option.splits sum.splits if_splits)

text \<open>
  C18. Sealed evidence is closed. When sealing succeeds, exactly one row is added, for the decision,
  with the bytes of the manifest and their digest. The manifest lists the references of the decision
  in their order, among them exactly one portfolio snapshot, one valuation and one risk run, of the
  account, where the valuation values that snapshot and the run used that snapshot and that
  valuation. Every entry holds the document stored under its identifier, and every source object is
  listed: those of the prices and rates the lines of the valuation used, those the references name,
  those of the observations, prices and rates the references name, and those of every price and
  every exchange rate named by the metric inputs in the document of the risk run. No object is
  listed twice, and every listed object is in the archive with the recorded digest.
\<close>
theorem seal_closed:
  assumes "Seal env db decisionID accountID refs = Inr db'" and "keys_ok db"
  shows "\<exists>c m. ee_cast env decisionID = Some c \<and> canonicalUUID decisionID = Some (mf_DecisionID m) \<and> canonicalUUID accountID = Some (mf_AccountID m)
    \<and> c \<notin> dv_decision ` set (ed_evidence db) \<and> db' = db\<lparr>ed_evidence := ed_evidence db @ [sealed_row env c m]\<rparr> \<and> closed_manifest env db refs m"
proof -
  obtain d a c st where "canonicalUUID decisionID = Some d" "canonicalUUID accountID = Some a" "ee_cast env decisionID = Some c"
    "c \<notin> dv_decision ` set (ed_evidence db)" "db' = db\<lparr>ed_evidence := ed_evidence db @ [sealed_row env c (manifest_of d a st)]\<rparr>"
    and "closed_manifest env db refs (manifest_of d a st)"
    using Seal_ok [OF assms] closed_manifest_of [OF _ _ _ assms(2)] by metis
  then show ?thesis
    by (intro exI [of _ c] exI [of _ "manifest_of d a st"]) (simp add: manifest_of_def)
qed

lemma find_new_row:
  assumes "ed_evidence db2 = ed_evidence db @ [row] @ later" and "dv_decision row \<notin> dv_decision ` set (ed_evidence db)"
  shows "find (\<lambda>r. dv_decision r = dv_decision row) (ed_evidence db2) = Some row"
proof -
  have "find (\<lambda>r. dv_decision r = dv_decision row) (xs @ [row] @ later) = Some row" if "dv_decision row \<notin> dv_decision ` set xs" for xs
    using that by (induction xs) auto
  then show ?thesis using assms by simp
qed

text \<open>The evidence of a decision after it was sealed, whatever else was sealed since.\<close>

lemma Seal_Reconstruct:
  assumes "Seal env db decisionID accountID refs = Inr db'" and "keys_ok db" and "texts_ok db" and "\<forall>ref \<in> set refs. utf8_valid (er_Description ref)"
    and "ee_cast env decisionID = canonicalUUID decisionID"
  obtains m where "closed_manifest env db refs m" and "wf_json (manifest_json m)" and "canonicalUUID decisionID = Some (mf_DecisionID m)"
    and "mf_DecisionID m \<notin> dv_decision ` set (ed_evidence db)" and "db' = db\<lparr>ed_evidence := ed_evidence db @ [sealed_row env (mf_DecisionID m) m]\<rparr>"
    and "\<And>env' db2 later. ed_evidence db2 = ed_evidence db' @ later \<Longrightarrow> ee_sha env' = ee_sha env \<Longrightarrow> \<not> ee_fault env' (DbStmt 0)
      \<Longrightarrow> Reconstruct env' True db2 decisionID = (if list_all (verifyRaw env') (mf_RawObjects m)
        then Inr \<lparr>sl_Manifest = json_text (manifest_json m), sl_SHA256 = ee_sha env (json_text (manifest_json m))\<rparr> else Inl RIntegrity)"
proof -
  obtain d a c st where d: "canonicalUUID decisionID = Some d" and a: "canonicalUUID accountID = Some a" and c: "ee_cast env decisionID = Some c"
    and inv: "seal_inv env db a refs st" and "agree st"
    and "rr_ID ` set (valuation_raws db (sg_valuationID st)) \<subseteq> rr_ID ` set (sg_RawObjects st)"
    and new: "c \<notin> dv_decision ` set (ed_evidence db)" and db': "db' = db\<lparr>ed_evidence := ed_evidence db @ [sealed_row env c (manifest_of d a st)]\<rparr>"
    by (rule Seal_ok [OF assms(1,2)])
  have [simp]: "c = d" using c d assms(5) by simp
  let ?m = "manifest_of d a st"
  have wf: "wf_json (manifest_json ?m)" by (rule sealed_manifest_wf [OF inv assms(3,4) d a])
  have "closed_manifest env db refs ?m" by (rule closed_manifest_of) fact+
  moreover have "Reconstruct env' True db2 decisionID = (if list_all (verifyRaw env') (mf_RawObjects ?m)
        then Inr \<lparr>sl_Manifest = json_text (manifest_json ?m), sl_SHA256 = ee_sha env (json_text (manifest_json ?m))\<rparr> else Inl RIntegrity)"
    if "ed_evidence db2 = ed_evidence db' @ later" and "ee_sha env' = ee_sha env" and "\<not> ee_fault env' (DbStmt 0)" for env' db2 later
  proof (rule Reconstruct_sealed [OF d _ _ wf that(2) TrueI that(3)])
    show "find (\<lambda>r. dv_decision r = d) (ed_evidence db2) = Some (sealed_row env d ?m)"
      using find_new_row [of db2 db "sealed_row env d ?m" later] that(1) new db' by (simp add: sealed_row_def)
  qed (simp add: manifest_of_def)
  moreover have "mf_DecisionID ?m = d" by (simp add: manifest_of_def)
  ultimately show ?thesis using that [of ?m] wf db' d new by simp
qed

text \<open>
  C19. Sealed evidence can be given back. After a decision was sealed, whatever calls the archive has
  served since, failed ones and races included, and whatever other evidence was sealed, reconstructing
  the evidence returns the digest and the very bytes that were sealed, and decoding them gives back
  the closed manifest.
\<close>
theorem seal_round_trip:
  assumes "Seal env db decisionID accountID refs = Inr db'" and "keys_ok db" and "texts_ok db" and "\<forall>ref \<in> set refs. utf8_valid (er_Description ref)"
    and "ee_cast env decisionID = canonicalUUID decisionID" and "ee_archive env = Some b"
    and "ee_archive env' = Some (fold (\<lambda>c b. fst (archive_step (ee_sha env) redact c b)) calls b)" and "ee_sha env' = ee_sha env"
    and "\<not> ee_fault env' (DbStmt 0)" and "\<forall>key. \<not> ee_get_fails env' key" and "ed_evidence db2 = ed_evidence db' @ later"
  shows "\<exists>m bytes. closed_manifest env db refs m \<and> bytes = json_text (manifest_json m) \<and> Option.bind (json_parse bytes) decode_manifest = Some m
    \<and> Reconstruct env' True db2 decisionID = Inr \<lparr>sl_Manifest = bytes, sl_SHA256 = ee_sha env bytes\<rparr>"
proof -
  obtain m where closed: "closed_manifest env db refs m" and wf: "wf_json (manifest_json m)"
    and r: "Reconstruct env' True db2 decisionID = (if list_all (verifyRaw env') (mf_RawObjects m)
        then Inr \<lparr>sl_Manifest = json_text (manifest_json m), sl_SHA256 = ee_sha env (json_text (manifest_json m))\<rparr> else Inl RIntegrity)"
    using Seal_Reconstruct [OF assms(1-5)] assms(8,9,11) by metis
  have "verifyRaw env' raw" if "raw \<in> set (mf_RawObjects m)" for raw
  proof -
    have "verifyRaw env raw" using closed that by (simp add: closed_manifest_def)
    then show ?thesis
      using assms(6-8,10) archive_store.kept_for_good [of b "rr_Key raw" _ "ee_sha env" redact calls] by (auto simp: verifyRaw_body)
  qed
  then have "list_all (verifyRaw env') (mf_RawObjects m)" by (simp add: list_all_iff)
  then show ?thesis
    using closed r json_round_trip [OF wf] by (intro exI [of _ m] exI [of _ "json_text (manifest_json m)"]) (simp add: decode_manifest_json)
qed

text \<open>
  C20. Altered evidence is refused. After a decision was sealed, reconstruction fails with an
  integrity error when a source object the manifest lists can no longer be read, or when the archive
  holds a body with another digest under its key, and also when the stored bytes of the manifest no
  longer have the stored digest.
\<close>
theorem altered_evidence_refused:
  assumes "Seal env db decisionID accountID refs = Inr db'" and "keys_ok db" and "texts_ok db" and "\<forall>ref \<in> set refs. utf8_valid (er_Description ref)"
    and "ee_cast env decisionID = canonicalUUID decisionID" and "ee_sha env' = ee_sha env" and "\<not> ee_fault env' (DbStmt 0)"
  shows "\<exists>m. closed_manifest env db refs m
    \<and> (\<forall>raw \<in> set (mf_RawObjects m). (\<forall>b body. ee_archive env' = Some b \<longrightarrow> object_body b (rr_Key raw) = Some body \<longrightarrow> ee_sha env body \<noteq> rr_SHA256 raw)
         \<longrightarrow> Reconstruct env' True db' decisionID = Inl RIntegrity)
    \<and> (\<forall>bytes. ee_sha env bytes \<noteq> ee_sha env (json_text (manifest_json m))
         \<longrightarrow> Reconstruct env' True (db'\<lparr>ed_evidence := sql_update (\<lambda>r. dv_decision r = mf_DecisionID m) (\<lambda>r. r\<lparr>dv_bytes := bytes\<rparr>) (ed_evidence db')\<rparr>) decisionID
           = Inl RIntegrity)"
proof (rule Seal_Reconstruct [OF assms(1-5)])
  fix m
  assume closed: "closed_manifest env db refs m" and id: "canonicalUUID decisionID = Some (mf_DecisionID m)"
    and new: "mf_DecisionID m \<notin> dv_decision ` set (ed_evidence db)" and db': "db' = db\<lparr>ed_evidence := ed_evidence db @ [sealed_row env (mf_DecisionID m) m]\<rparr>"
    and r: "\<And>env' db2 later. ed_evidence db2 = ed_evidence db' @ later \<Longrightarrow> ee_sha env' = ee_sha env \<Longrightarrow> \<not> ee_fault env' (DbStmt 0)
      \<Longrightarrow> Reconstruct env' True db2 decisionID = (if list_all (verifyRaw env') (mf_RawObjects m)
        then Inr \<lparr>sl_Manifest = json_text (manifest_json m), sl_SHA256 = ee_sha env (json_text (manifest_json m))\<rparr> else Inl RIntegrity)"
  let ?d = "mf_DecisionID m" and ?p = "\<lambda>r. dv_decision r = mf_DecisionID m"
  have objects: "Reconstruct env' True db' decisionID = Inl RIntegrity" if "raw \<in> set (mf_RawObjects m)"
    and "\<forall>b body. ee_archive env' = Some b \<longrightarrow> object_body b (rr_Key raw) = Some body \<longrightarrow> ee_sha env body \<noteq> rr_SHA256 raw" for raw
  proof -
    have "\<not> verifyRaw env' raw" using that(2) assms(6) by (auto simp: verifyRaw_body)
    then have "\<not> list_all (verifyRaw env') (mf_RawObjects m)" using that(1) by (auto simp: list_all_iff)
    then show ?thesis using r [of db' "[]" env'] assms(6,7) by simp
  qed
  have bytes: "Reconstruct env' True (db'\<lparr>ed_evidence := sql_update ?p (\<lambda>r. r\<lparr>dv_bytes := bytes\<rparr>) (ed_evidence db')\<rparr>) decisionID = Inl RIntegrity"
    if "ee_sha env bytes \<noteq> ee_sha env (json_text (manifest_json m))" for bytes
  proof -
    have "sql_update ?p (\<lambda>r. r\<lparr>dv_bytes := bytes\<rparr>) (ed_evidence db) = ed_evidence db"
      unfolding sql_update_def by (rule map_idI) (use new in \<open>force split: if_split\<close>)
    then have "find ?p (sql_update ?p (\<lambda>r. r\<lparr>dv_bytes := bytes\<rparr>) (ed_evidence db')) = Some (sealed_row env ?d m\<lparr>dv_bytes := bytes\<rparr>)"
      using find_new_row [of "db\<lparr>ed_evidence := ed_evidence db @ [sealed_row env ?d m\<lparr>dv_bytes := bytes\<rparr>]\<rparr>" db "sealed_row env ?d m\<lparr>dv_bytes := bytes\<rparr>" "[]"] new
      by (simp add: db' sql_update_def sealed_row_def)
    then show ?thesis
      using that id assms(6,7) by (simp add: Reconstruct_def sealed_row_def)
  qed
  show ?thesis using closed objects bytes by (intro exI [of _ m]) blast
qed

subsection \<open>Conversions of the metric inputs\<close>

text \<open>The currencies of a rate are upper case, by a constraint of the table.\<close>

definition fx_upper :: "evidence_db \<Rightarrow> bool" where
  "fx_upper db \<longleftrightarrow> (\<forall>f \<in> set (ed_fx db). ToUpper (ef_base f) = ef_base f \<and> ToUpper (ef_quote f) = ef_quote f)"

lemma ToUpper_TrimSpace: "ToUpper s = s \<Longrightarrow> ToUpper (TrimSpace s) = TrimSpace s"
proof -
  assume "ToUpper s = s"
  then have "\<forall>c \<in> set s. to_upper_char c = c" unfolding ToUpper_def by (metis list.map_id map_eq_conv id_apply)
  moreover have "set (TrimSpace s) \<subseteq> set s" unfolding TrimSpace_def by (metis set_dropWhileD set_rev subsetI)
  ultimately show ?thesis unfolding ToUpper_def by (simp add: map_idI subset_iff)
qed

lemma split_slash_parts: "CHR ''/'' \<notin> set a \<Longrightarrow> split_slash (a @ CHR ''/'' # s) = a # split_slash s"
  by (induction a) auto

lemma split_slash_nonempty: "split_slash s \<noteq> []"
  by (induction s) auto

lemma split_slash_two:
  assumes "split_slash (a @ CHR ''/'' # b) = [x, y]"
  shows "x = a \<and> y = b"
proof -
  have count: "length (split_slash s) = Suc (count_list s CHR ''/'')" for s
    by (induction s) (auto simp: split_slash_nonempty)
  have "count_list (a @ CHR ''/'' # b) CHR ''/'' = 1" using count [of "a @ CHR ''/'' # b"] assms by simp
  then have a: "CHR ''/'' \<notin> set a" and b: "CHR ''/'' \<notin> set b" by (auto simp: count_list_0_iff)
  have "split_slash b = [b]" using b by (induction b) auto
  then show ?thesis using assms split_slash_parts [OF a, of b] by simp
qed

text \<open>An entry of a path that was verified: the rate row, and the currencies it leads between.\<close>

lemma verified_fx:
  assumes "add_fx_dependency env db st entry = Inr st'" and "fx_upper db" and "metricFXStep entry = Some (x, y)"
  obtains f where "f \<in> set (ed_fx db)" and "metricString entry ''rate'' = ef_rate f" and "y = ''USD''" and "x \<noteq> ''USD''"
    and "metricString entry ''direction'' = ''direct'' \<and> TrimSpace (ef_quote f) = ''USD'' \<and> x = TrimSpace (ef_base f)
      \<or> metricString entry ''direction'' \<noteq> ''direct'' \<and> TrimSpace (ef_base f) = ''USD'' \<and> x = TrimSpace (ef_quote f)"
proof -
  obtain i raw st1 where "metricUUID entry ''id'' = Some i" and v: "verifyMetricFXRevision env db entry st = Inr (raw, st1)"
    using assms(1) by (cases "metricUUID entry ''id''") (auto simp: add_fx_dependency_def res_simps verifyMetricFXRevision_def)
  obtain f direction where f: "f \<in> set (ed_fx db)" and rate: "metricString entry ''rate'' = ef_rate f"
    and pair: "metricString entry ''pair'' = TrimSpace (ef_base f) @ CHR ''/'' # TrimSpace (ef_quote f)"
    and dir: "metricString entry ''direction'' = direction"
    and usd: "(if TrimSpace (ef_quote f) = ''USD'' \<and> TrimSpace (ef_base f) \<noteq> ''USD'' then Some ''direct''
              else if TrimSpace (ef_base f) = ''USD'' \<and> TrimSpace (ef_quote f) \<noteq> ''USD'' then Some ''inverse'' else None) = Some direction"
    using v by (fastforce simp: verifyMetricFXRevision_def res_simps fetch_ok fx_with_raw_def bind_eq_Some_conv Let_def
        split: option.split_asm if_split_asm dest: find_in)
  have up: "ToUpper (TrimSpace (ef_base f)) = TrimSpace (ef_base f)" "ToUpper (TrimSpace (ef_quote f)) = TrimSpace (ef_quote f)"
    using assms(2) f by (simp_all add: fx_upper_def ToUpper_TrimSpace)
  obtain a b where ab: "split_slash (metricString entry ''pair'') = [a, b]"
    using assms(3) by (auto simp: metricFXStep_def split: list.split_asm)
  then have "a = TrimSpace (ef_base f)" and "b = TrimSpace (ef_quote f)" using split_slash_two pair by metis+
  then show ?thesis
    using that [OF f rate] assms(3) ab up usd dir by (auto simp: metricFXStep_def Let_def split: if_splits)
qed

lemma USD_path_end:
  assumes "convert_path (''USD'', x) fs = Some r" and "res_fold (add_fx_dependency env db) st fs = Inr st'" and "fx_upper db"
  shows "fs = []"
proof (cases fs)
  case (Cons f gs)
  then obtain st1 where "add_fx_dependency env db st f = Inr st1" using assms(2) by (auto simp: res_simps)
  moreover obtain y where "metricFXStep f = Some (''USD'', y)" using assms(1) Cons by (auto split: option.splits if_splits)
  ultimately show ?thesis using verified_fx assms(3) by metis
qed

text \<open>
  C21. Metric prices are the converted prices. An entry of the price history of a risk run is
  accepted only for a price row of the instrument with that text, and the dollar price published for
  it is the exact product of that price and one rate row of the database between its currency and
  the dollar, divided instead where the row quotes the dollar as its base, rounded half away from
  zero to eighteen places; a price in dollars is taken as it is. Longer paths are never accepted.
\<close>
theorem metric_conversion_exact:
  assumes "metric_revision env db False instrumentID native (h, st) revision = Inr (h', st')" and "fx_upper db"
  shows "\<exists>p price usd day. p \<in> set (ed_prices db) \<and> canonicalUUID instrumentID = Some (ep_instrument p) \<and> Rat_SetString (ep_price p) = Some price
    \<and> Rat_SetString (metricString revision ''usd_price'') = Some usd \<and> h' = put_entry day (metricString revision ''usd_price'') h
    \<and> (ToUpper (TrimSpace (ep_quote p)) = ''USD'' \<and> usd = round18 price
       \<or> (\<exists>f rate. f \<in> set (ed_fx db) \<and> Rat_SetString (ef_rate f) = Some rate
            \<and> (TrimSpace (ef_quote f) = ''USD'' \<and> ToUpper (TrimSpace (ep_quote p)) = TrimSpace (ef_base f) \<and> usd = round18 (price * rate)
               \<or> TrimSpace (ef_base f) = ''USD'' \<and> ToUpper (TrimSpace (ep_quote p)) = TrimSpace (ef_quote f) \<and> usd = round18 (price / rate))))"
proof -
  obtain raw st1 st2 fs day where v: "verifyMetricPriceRevision env db instrumentID revision st = Inr (raw, st1)"
    and ok: "validateMetricUSDConversion revision fs" and fold: "res_fold (add_fx_dependency env db) st2 fs = Inr st'"
    and h': "h' = put_entry day (metricString revision ''usd_price'') h"
    using assms(1) by (cases "metricFXPath revision"; cases "metricObservationDay revision") (auto simp: metric_revision_def res_simps split: if_split_asm)
  obtain p where p: "p \<in> set (ed_prices db)" "canonicalUUID instrumentID = Some (ep_instrument p)" "metricString revision ''price'' = ep_price p"
    "metricString revision ''price_quote_currency'' = TrimSpace (ep_quote p)"
    using v by (fastforce simp: verifyMetricPriceRevision_def res_simps fetch_ok price_with_raw_def bind_eq_Some_conv
        split: option.split_asm if_split_asm dest: find_in)
  let ?c = "ToUpper (TrimSpace (ep_quote p))"
  obtain price usd expected where price: "positive_rat (ep_price p) = Some price" and usd: "positive_rat (metricString revision ''usd_price'') = Some usd"
    and path: "(if ?c \<noteq> ''USD'' then (if fs = [] then None else convert_path (?c, price) fs) else if fs \<noteq> [] then None else Some (''USD'', price)) = Some (''USD'', expected)"
    and r: "Rat_SetString (FloatString18 expected) = Some usd"
    using ok p(3,4) unfolding validateMetricUSDConversion_def Let_def
    by (auto split: option.split_asm if_split_asm)
  have u: "usd = round18 expected" using r by (simp add: FloatString18_def Rat_SetString_print18 round18_def)
  have rats: "Rat_SetString (ep_price p) = Some price" "Rat_SetString (metricString revision ''usd_price'') = Some usd"
    using price usd by (auto simp: positive_rat_def split: option.splits if_splits)
  show ?thesis
  proof (cases "?c = ''USD''")
    case True
    then have "expected = price" using path by (auto split: if_splits)
    then show ?thesis using True p(1,2) rats h' u by blast
  next
    case False
    then obtain f gs where fs: "fs = f # gs" using path by (cases fs) auto
    obtain y rate where step: "metricFXStep f = Some (?c, y)" and rate: "positive_rat (metricString f ''rate'') = Some rate"
      and rest: "convert_path (y, if metricString f ''direction'' = ''direct'' then price * rate else price / rate) gs = Some (''USD'', expected)"
      using path False fs by (auto split: option.split_asm prod.split_asm if_split_asm)
    obtain st3 where f: "add_fx_dependency env db st2 f = Inr st3" and "res_fold (add_fx_dependency env db) st3 gs = Inr st'"
      using fold fs by (auto simp: res_simps)
    obtain row where row: "row \<in> set (ed_fx db)" "metricString f ''rate'' = ef_rate row" "y = ''USD''"
      and dir: "metricString f ''direction'' = ''direct'' \<and> TrimSpace (ef_quote row) = ''USD'' \<and> ?c = TrimSpace (ef_base row)
      \<or> metricString f ''direction'' \<noteq> ''direct'' \<and> TrimSpace (ef_base row) = ''USD'' \<and> ?c = TrimSpace (ef_quote row)"
      by (rule verified_fx [OF f assms(2) step])
    have "gs = []" using USD_path_end rest row(3) \<open>res_fold _ st3 gs = _\<close> assms(2) by blast
    then have e: "expected = (if metricString f ''direction'' = ''direct'' then price * rate else price / rate)" using rest by simp
    have "Rat_SetString (ef_rate row) = Some rate" using rate row(2) by (auto simp: positive_rat_def split: option.splits if_splits)
    then show ?thesis using dir e u p(1,2) rats h' row(1) by (metis (full_types))
  qed
qed

subsection \<open>Evidence and the journal\<close>

text \<open>
  The calls of the journal with the evidence service behind it. New identifiers are canonical and
  fresh, and the server casts a canonical text to itself. The other tables may change in any way;
  rows of \<^verbatim>\<open>decision_evidence\<close> cannot be changed or deleted.
\<close>

definition server_cast :: "(string \<Rightarrow> string option) \<Rightarrow> bool" where
  "server_cast castUUID \<longleftrightarrow> (\<forall>i c. canonicalUUID i = Some c \<longrightarrow> castUUID i = Some c)"

inductive evidence_step :: "evidence_db journal_db \<Rightarrow> evidence_db journal_db \<Rightarrow> bool" where
  create: "newID \<notin> (dc_ID \<circ> dr_decision) ` set (decisions db) \<Longrightarrow> canonicalUUID newID = Some newID
    \<Longrightarrow> evidence_step db (fst (Create_decision pool castUUID scanUUID fault drew now newID request db))"
| finalize: "server_cast castUUID \<Longrightarrow> ee_cast env = castUUID
    \<Longrightarrow> evidence_step db (fst (Finalize pool castUUID scanUUID (Seal env) fault now rawID db))"
| review: "evidence_step db (fst (AddReview pool castUUID scanUUID fault drew now newID rawID request db))"
| amend: "evidence_step db (fst (AddAmendment pool castUUID scanUUID fault drew now newID rawID amendment db))"
| other: "ed_evidence evidence = ed_evidence (jn_evidence db) \<Longrightarrow> evidence_step db (db\<lparr>jn_accounts := accounts, jn_evidence := evidence\<rparr>)"

lemma evidence_step_journal: "evidence_step db db' \<Longrightarrow> journal_step db db'"
  by (erule evidence_step.cases) (auto intro: journal_step.intros)

abbreviation sealed_ids :: "evidence_db journal_db \<Rightarrow> string list" where
  "sealed_ids db \<equiv> map dv_decision (ed_evidence (jn_evidence db))"

definition evidence_inv :: "evidence_db journal_db \<Rightarrow> bool" where
  "evidence_inv db \<longleftrightarrow> jn_inv db \<and> distinct (sealed_ids db)
     \<and> set (sealed_ids db) = (dc_ID \<circ> dr_decision) ` {row \<in> set (decisions db). dc_Status (dr_decision row) = StatusFinalized}
     \<and> (\<forall>row \<in> set (decisions db). canonicalUUID (dc_ID (dr_decision row)) = Some (dc_ID (dr_decision row)))"

text \<open>What a call keeps of the sealed rows.\<close>

definition evidence_kept :: "evidence_db journal_db \<Rightarrow> evidence_db journal_db \<Rightarrow> bool" where
  "evidence_kept db db' \<longleftrightarrow> (\<exists>later. ed_evidence (jn_evidence db') = ed_evidence (jn_evidence db) @ later)"

lemma evidence_inv_same:
  assumes "evidence_inv db" and "jn_inv db'" and "ed_evidence (jn_evidence db') = ed_evidence (jn_evidence db)"
    and "decisions db' = decisions db @ new" and "\<forall>row \<in> set new. dc_Status (dr_decision row) = StatusDraft \<and> canonicalUUID (dc_ID (dr_decision row)) = Some (dc_ID (dr_decision row))"
  shows "evidence_inv db' \<and> evidence_kept db db'"
proof -
  have "{row \<in> set (decisions db'). dc_Status (dr_decision row) = StatusFinalized} = {row \<in> set (decisions db). dc_Status (dr_decision row) = StatusFinalized}"
    using assms(4,5) by auto
  then show ?thesis using assms by (auto simp: evidence_inv_def evidence_kept_def)
qed

lemma finalize_seals:
  assumes "evidence_inv db" and "find (same_id castUUID i) (decisions db) = Some row" and "dc_Status (dr_decision row) = StatusDraft"
    and "Seal env (jn_evidence db) (dc_ID (dr_decision row)) account refs = Inr evidence" and "server_cast castUUID" and "ee_cast env = castUUID"
    and "jn_inv (db\<lparr>jn_evidence := evidence, decisions := sql_update (same_id castUUID i) (finalized now) (decisions db)\<rparr>)"
  shows "evidence_inv (db\<lparr>jn_evidence := evidence, decisions := sql_update (same_id castUUID i) (finalized now) (decisions db)\<rparr>)
    \<and> evidence_kept db (db\<lparr>jn_evidence := evidence, decisions := sql_update (same_id castUUID i) (finalized now) (decisions db)\<rparr>)"
proof -
  let ?d = "dc_ID (dr_decision row)"
  have row: "row \<in> set (decisions db)" and same: "same_id castUUID i row" using assms(2) by (auto simp: find_Some_iff)
  have inv: "jn_inv db" using assms(1) by (simp add: evidence_inv_def)
  have only: "x = row" if "x \<in> set (decisions db)" and "same_id castUUID i x" for x
    using same_id_row [OF inv assms(2)] that by blast
  have "canonicalUUID ?d = Some ?d" using assms(1) row by (simp add: evidence_inv_def)
  then have cast: "ee_cast env ?d = Some ?d" using assms(5,6) by (simp add: server_cast_def)
  obtain d a c st where c: "ee_cast env ?d = Some c" and fresh: "c \<notin> dv_decision ` set (ed_evidence (jn_evidence db))"
    and e: "evidence = (jn_evidence db)\<lparr>ed_evidence := ed_evidence (jn_evidence db) @ [sealed_row env c (manifest_of d a st)]\<rparr>"
    by (rule Seal_adds [OF assms(4)])
  from c cast have "c = ?d" by simp
  with fresh e have new: "?d \<notin> dv_decision ` set (ed_evidence (jn_evidence db))"
    and ev: "ed_evidence evidence = ed_evidence (jn_evidence db) @ [sealed_row env ?d (manifest_of d a st)]" by simp_all
  have dec: "set (sql_update (same_id castUUID i) (finalized now) (decisions db)) = insert (finalized now row) (set (decisions db) - {row})"
  proof -
    have "same_id castUUID i x \<longleftrightarrow> x = row" if "x \<in> set (decisions db)" for x using only [OF that] same by blast
    then have "set (sql_update (same_id castUUID i) (finalized now) (decisions db)) = (\<lambda>x. if x = row then finalized now row else x) ` set (decisions db)"
      by (simp add: sql_update_def)
    also have "\<dots> = insert (finalized now row) (set (decisions db) - {row})" using row by auto
    finally show ?thesis .
  qed
  have "{r \<in> insert (finalized now row) (set (decisions db) - {row}). dc_Status (dr_decision r) = StatusFinalized}
    = insert (finalized now row) {r \<in> set (decisions db). dc_Status (dr_decision r) = StatusFinalized}"
    using assms(3) by (auto simp: finalized_def)
  then have ids: "(dc_ID \<circ> dr_decision) ` {r \<in> insert (finalized now row) (set (decisions db) - {row}). dc_Status (dr_decision r) = StatusFinalized}
    = insert ?d (set (sealed_ids db))"
    using assms(1) by (simp add: evidence_inv_def finalized_def)
  have "\<forall>r \<in> insert (finalized now row) (set (decisions db) - {row}). canonicalUUID (dc_ID (dr_decision r)) = Some (dc_ID (dr_decision r))"
    using assms(1) row by (simp add: evidence_inv_def finalized_def)
  moreover have "distinct (sealed_ids db)" using assms(1) by (simp add: evidence_inv_def)
  ultimately show ?thesis
    using assms(7) new ids unfolding evidence_inv_def evidence_kept_def
    by (simp add: ev dec sealed_row_def del: image_comp comp_apply)
qed

lemma evidence_step_inv:
  assumes "evidence_step db db'" and "evidence_inv db"
  shows "evidence_inv db' \<and> evidence_kept db db'"
proof -
  have inv: "jn_inv db" using assms(2) by (simp add: evidence_inv_def)
  then have inv': "jn_inv db'" using journal_step_extends evidence_step_journal assms(1) by blast
  note same = evidence_inv_same [OF assms(2) inv']
  from assms(1) show ?thesis
  proof cases
    case (create newID pool castUUID scanUUID fault drew now request)
    show ?thesis
    proof (cases rule: Create_decision_cases [of pool castUUID scanUUID fault drew now newID request db])
      case (failed e db1)
      then show ?thesis using create(1) by (intro same [of "[]"]) (auto simp: nextval_def)
    next
      case (stored a account r)
      then show ?thesis
        using create by (intro same [of "[\<lparr>dr_decision = new_decision now newID account (jn_scaleDecimal a) r,
            dr_creation_snapshot = r, dr_sequence = timeline_sequence db\<rparr>]"]) (simp_all add: nextval_def new_decision_def)
    qed
  next
    case (finalize castUUID env pool scanUUID fault now rawID)
    show ?thesis
    proof (cases rule: Finalize_cases [of pool castUUID scanUUID "Seal env" fault now rawID db])
      case (failed e)
      then show ?thesis using finalize(1) by (intro same [of "[]"]) simp_all
    next
      case (success i row evidence d)
      then show ?thesis
        using finalize inv' finalize_seals [OF assms(2) success(2,3,7) finalize(2,3), of now] by simp
    qed
  next
    case (review pool castUUID scanUUID fault drew now newID rawID request)
    then show ?thesis
      using AddReview_effect [of pool castUUID scanUUID fault drew now newID rawID request db]
      by (intro same [of "[]"]) (auto simp: nextval_def)
  next
    case (amend pool castUUID scanUUID fault drew now newID rawID amendment)
    then show ?thesis
      using AddAmendment_effect [of pool castUUID scanUUID fault drew now newID rawID amendment db]
      by (intro same [of "[]"]) (auto simp: nextval_def)
  next
    case (other evidence accounts)
    then show ?thesis by (intro same [of "[]"]) simp_all
  qed
qed

lemma evidence_kept_refl: "evidence_kept db db" by (simp add: evidence_kept_def)

lemma evidence_kept_trans: "evidence_kept a b \<Longrightarrow> evidence_kept b c \<Longrightarrow> evidence_kept a c"
  by (auto simp: evidence_kept_def)

interpretation evidence_history: history evidence_step evidence_inv evidence_kept
  by unfold_locales (use evidence_step_inv evidence_kept_refl evidence_kept_trans in blast)+

text \<open>
  C17. A decision has evidence exactly when it is finalized. In every state the journal and the
  evidence service can reach together from empty tables, in whatever order calls come and wherever
  they fail, a finalized decision has exactly one row of evidence, a draft has none, and there is no
  other evidence; and evidence that was sealed is still there, unchanged, in every later state.
\<close>
theorem sealed_iff_finalized:
  assumes "evidence_step\<^sup>*\<^sup>* (jn_empty accounts evidence) db" and "ed_evidence evidence = []" and "evidence_step\<^sup>*\<^sup>* db db'"
  shows "(\<forall>row \<in> set (decisions db). length (filter (\<lambda>v. dv_decision v = dc_ID (dr_decision row)) (ed_evidence (jn_evidence db)))
      = (if dc_Status (dr_decision row) = StatusFinalized then 1 else 0))
    \<and> (\<forall>v \<in> set (ed_evidence (jn_evidence db)). \<exists>row \<in> set (decisions db). dc_ID (dr_decision row) = dv_decision v)
    \<and> (\<exists>later. ed_evidence (jn_evidence db') = ed_evidence (jn_evidence db) @ later)"
proof -
  have "evidence_inv (jn_empty accounts evidence)"
    using jn_inv_empty assms(2) by (simp add: evidence_inv_def jn_empty_def)
  with assms(1) have inv: "evidence_inv db" by (rule evidence_history.steps_keep(1))
  have "length (filter (\<lambda>v. dv_decision v = dc_ID (dr_decision row)) (ed_evidence (jn_evidence db)))
      = (if dc_Status (dr_decision row) = StatusFinalized then 1 else 0)" if "row \<in> set (decisions db)" for row
  proof -
    have "dc_ID (dr_decision row) \<in> set (sealed_ids db) \<longleftrightarrow> dc_Status (dr_decision row) = StatusFinalized"
    proof
      assume "dc_ID (dr_decision row) \<in> set (sealed_ids db)"
      then obtain r where "r \<in> set (decisions db)" "dc_ID (dr_decision r) = dc_ID (dr_decision row)" "dc_Status (dr_decision r) = StatusFinalized"
        using inv by (auto simp: evidence_inv_def)
      moreover have "r = row"
        using calculation that inv by (intro distinct_key_eq [of "dc_ID \<circ> dr_decision" "decisions db"]) (simp_all add: evidence_inv_def jn_inv_def)
      ultimately show "dc_Status (dr_decision row) = StatusFinalized" by simp
    next
      assume "dc_Status (dr_decision row) = StatusFinalized"
      then show "dc_ID (dr_decision row) \<in> set (sealed_ids db)" using inv that by (auto simp: evidence_inv_def)
    qed
    moreover have "length (filter (\<lambda>v. dv_decision v = k) xs) = (if k \<in> set (map dv_decision xs) then 1 else 0)" if "distinct (map dv_decision xs)" for k xs
      using that by (induction xs) (auto simp: filter_empty_conv)
    moreover have "distinct (sealed_ids db)" using inv by (simp add: evidence_inv_def)
    ultimately show ?thesis by metis
  qed
  moreover have "\<exists>row \<in> set (decisions db). dc_ID (dr_decision row) = dv_decision v" if "v \<in> set (ed_evidence (jn_evidence db))" for v
  proof -
    have "dv_decision v \<in> set (sealed_ids db)" using that by simp
    then show ?thesis using inv by (auto simp: evidence_inv_def)
  qed
  moreover have "evidence_kept db db'" using evidence_history.steps_keep(2) [OF assms(3) inv] .
  ultimately show ?thesis by (auto simp: evidence_kept_def)
qed

end
