(* ===== verification/Evidence_Examples.thy ===== *)
theory Evidence_Examples
  imports Evidence_Properties
begin

text \<open>
  A decision with its evidence, on which the properties of the evidence service are applied: a
  snapshot, a valuation that used one price, a risk run without metric inputs, and an observation,
  resting on two archived objects.
\<close>

definition ev_uuid :: "char \<Rightarrow> string" where
  "ev_uuid c = replicate 8 c @ ''-'' @ replicate 4 c @ ''-'' @ replicate 4 c @ ''-'' @ replicate 4 c @ ''-'' @ replicate 12 c"

definition ev_digest :: string where "ev_digest = replicate 64 CHR ''a''"

definition ev_key :: string where "ev_key = ''sha256/aa/'' @ ev_digest"

definition ev_raw :: RawRef where
  "ev_raw = \<lparr>rr_ID = ev_uuid CHR ''7'', rr_Key = ev_key, rr_SHA256 = ev_digest\<rparr>"

definition ev_source :: RawRef where
  "ev_source = \<lparr>rr_ID = ev_uuid CHR ''f'', rr_Key = ev_key, rr_SHA256 = ev_digest\<rparr>"

definition ev_bucket :: bucket where
  "ev_bucket k = (if k = ev_key then Some \<lparr>so_body = ''csv'', so_type = ''text/csv'', so_metadata = []\<rparr> else None)"

definition ev_env :: evidence_env where
  "ev_env = \<lparr>ee_archive = Some ev_bucket, ee_get_fails = (\<lambda>_. False), ee_fault = no_fault, ee_sha = (\<lambda>_. ev_digest), ee_cast = canonicalUUID, ee_collate = id\<rparr>"

definition ev_price :: ev_price_row where
  "ev_price = \<lparr>ep_id = ev_uuid CHR ''5'', ep_instrument = ev_uuid CHR ''8'', ep_observation = 0, ep_price = ''3.000000000000000000'', ep_quote = ''EUR'',
     ep_source_known = None, ep_system_known = 1000000000, ep_basis = ''first_observed_by_system'', ep_raw = ev_uuid CHR ''7'',
     ep_doc = JObj [(''id'', JStr (ev_uuid CHR ''5''))]\<rparr>"

definition ev_rate :: ev_fx_row where
  "ev_rate = \<lparr>ef_id = ev_uuid CHR ''6'', ef_base = ''USD'', ef_quote = ''EUR'', ef_observation = 0, ef_rate = ''0.700000000000000000'',
     ef_source_known = None, ef_system_known = 1000000000, ef_basis = ''first_observed_by_system'', ef_raw = ev_uuid CHR ''7'', ef_doc = JObj []\<rparr>"

definition ev_db :: evidence_db where
  "ev_db = \<lparr>ed_accounts = [(ev_uuid CHR ''a'', ev_uuid CHR ''b'')], ed_instruments = [],
     ed_snapshots = [\<lparr>es_id = ev_uuid CHR ''1'', es_portfolio = ev_uuid CHR ''b'', es_doc = JObj []\<rparr>], ed_snapshot_lines = [],
     ed_valuations = [\<lparr>ev_id = ev_uuid CHR ''2'', ev_snapshot = ev_uuid CHR ''1'', ev_state = ''valid'', ev_doc = JObj []\<rparr>],
     ed_valuation_lines = [\<lparr>el_id = ev_uuid CHR ''9'', el_run = ev_uuid CHR ''2'', el_price = Some (ev_uuid CHR ''5''), el_try_fx = [], el_usd_fx = [], el_doc = JNull\<rparr>],
     ed_runs = [\<lparr>ern_id = ev_uuid CHR ''3'', ern_account = ev_uuid CHR ''a'', ern_snapshot = ev_uuid CHR ''1'', ern_valuation = Some (ev_uuid CHR ''2''),
       ern_scenario = (''s'', 1), ern_job = ev_uuid CHR ''4'', ern_state = ''valid'', ern_result = Some JNull, ern_hash = Some ev_digest, ern_completed = Some 0,
       ern_doc = JObj [(''input_provenance'', JNull)]\<rparr>],
     ed_versions = [((''s'', 1), JObj [])],
     ed_jobs = [\<lparr>ej_id = ev_uuid CHR ''4'', ej_state = ''succeeded'', ej_result = Some (JObj [(''engine_version'', JStr ''1'')]), ej_hash = Some ev_digest, ej_doc = JObj []\<rparr>],
     ed_positions = [], ed_metrics = [], 
     ed_observations = [\<lparr>eo_id = ev_uuid CHR ''e'', eo_raw = ev_uuid CHR ''f'', eo_doc = JObj []\<rparr>], ed_prices = [ev_price], ed_fx = [ev_rate],
     ed_raws = [ev_raw, ev_source], ed_evidence = []\<rparr>"

definition ev_refs :: "EvidenceRef list" where
  "ev_refs = [\<lparr>er_Kind = ''portfolio_snapshot'', er_Reference = ev_uuid CHR ''1'', er_Description = ''positions''\<rparr>,
     \<lparr>er_Kind = ''valuation_run'', er_Reference = ev_uuid CHR ''2'', er_Description = []\<rparr>,
     \<lparr>er_Kind = ''risk_run'', er_Reference = ev_uuid CHR ''3'', er_Description = []\<rparr>,
     \<lparr>er_Kind = ''observation_revision'', er_Reference = ev_uuid CHR ''e'', er_Description = []\<rparr>]"

lemma ev_gather: "\<not> isl (gather ev_env ev_db (ev_uuid CHR ''a'') ev_refs)"
  by code_simp

lemma ev_ids: "canonicalUUID (ev_uuid CHR ''d'') = Some (ev_uuid CHR ''d'')" "canonicalUUID (ev_uuid CHR ''a'') = Some (ev_uuid CHR ''a'')"
  by code_simp+

lemma ev_ref_ids: "canonicalUUID (ev_uuid CHR ''2'') = Some (ev_uuid CHR ''2'')" "canonicalUUID (ev_uuid CHR ''e'') = Some (ev_uuid CHR ''e'')"
  by code_simp+

lemma ev_digest_ok: "hex_digest ev_digest"
  by code_simp

lemma ev_sealed:
  obtains db' where "Seal ev_env ev_db (ev_uuid CHR ''d'') (ev_uuid CHR ''a'') ev_refs = Inr db'"
proof -
  obtain st where g: "gather ev_env ev_db (ev_uuid CHR ''a'') ev_refs = Inr st"
    using ev_gather by (metis isl_def obj_sumE)
  have "json_text (manifest_json m) \<noteq> []" for m by (simp add: manifest_json_def)
  then show ?thesis
    using that g ev_ids ev_digest_ok by (simp add: Seal_def insert_evidence_def ev_env_def ev_db_def)
qed

lemma ev_keys: "keys_ok ev_db"
  by code_simp

lemma ev_texts: "texts_ok ev_db"
  by code_simp

lemma ev_descriptions: "\<forall>ref \<in> set ev_refs. utf8_valid (er_Description ref)"
  by code_simp

text \<open>The object of the observation is listed, though no line of the valuation rests on it.\<close>

lemma ev_lists:
  assumes "closed_manifest ev_env ev_db ev_refs m"
  shows "ev_raw \<in> set (mf_RawObjects m)" and "ev_source \<in> set (mf_RawObjects m)"
proof -
  have refs: "list_all2 entry_for ev_refs (mf_References m)" and raws: "set (mf_RawObjects m) \<subseteq> {ev_raw, ev_source}"
    and sourced: "\<forall>e \<in> set (mf_References m). entry_sourced ev_env ev_db (mf_AccountID m) (mf_RawObjects m) e"
    using assms by (auto simp: closed_manifest_def ev_db_def)
  from refs have v: "listed ''valuation_run'' (mf_References m) = [ev_uuid CHR ''2'']"
    using ev_ref_ids by (auto simp: ev_refs_def list_all2_Cons1 entry_for_def listed_def)
  from refs have "''observation_revision'' \<in> set (map en_Kind (mf_References m))"
    by (auto simp: ev_refs_def list_all2_Cons1 entry_for_def)
  then obtain e where e: "e \<in> set (mf_References m)" "en_Kind e = ''observation_revision''" by auto
  have differ: "ev_uuid CHR ''7'' \<noteq> ev_uuid CHR ''f''" by code_simp
  have "ev_uuid CHR ''f'' \<in> rr_ID ` set (mf_RawObjects m)"
    using bspec [OF sourced e(1)] e(2) by (auto simp: entry_sourced_def ev_db_def simp del: image_iff)
  then show "ev_source \<in> set (mf_RawObjects m)" using raws differ by (auto simp: ev_raw_def ev_source_def)
  have "ev_raw \<in> set (valuation_raws ev_db (ev_uuid CHR ''2''))" by code_simp
  then show "ev_raw \<in> set (mf_RawObjects m)" using assms v by (auto simp: closed_manifest_def valuation_raws_def list_ex_iff)
qed

theorem seal_closed_witness:
  "\<exists>m db'. Seal ev_env ev_db (ev_uuid CHR ''d'') (ev_uuid CHR ''a'') ev_refs = Inr db' \<and> closed_manifest ev_env ev_db ev_refs m
     \<and> ev_source \<in> set (mf_RawObjects m) \<and> valuation_raws ev_db (ev_uuid CHR ''2'') = [ev_raw]
     \<and> ed_evidence db' = [sealed_row ev_env (ev_uuid CHR ''d'') m]"
proof -
  obtain db' where s: "Seal ev_env ev_db (ev_uuid CHR ''d'') (ev_uuid CHR ''a'') ev_refs = Inr db'" by (rule ev_sealed)
  from seal_closed [OF s ev_keys] obtain c m where "ee_cast ev_env (ev_uuid CHR ''d'') = Some c" "closed_manifest ev_env ev_db ev_refs m"
    "db' = ev_db\<lparr>ed_evidence := ed_evidence ev_db @ [sealed_row ev_env c m]\<rparr>" by blast
  moreover have "ee_cast ev_env (ev_uuid CHR ''d'') = Some (ev_uuid CHR ''d'')" using ev_ids by (simp add: ev_env_def)
  moreover have "valuation_raws ev_db (ev_uuid CHR ''2'') = [ev_raw]" by code_simp
  ultimately show ?thesis using s ev_lists(2) by (intro exI [of _ m] exI [of _ db']) (simp add: ev_db_def)
qed

text \<open>A later call of the archive that stores another body.\<close>

definition ev_call :: archive_call where
  "ev_call = \<lparr>ac_body = ''other'', ac_type = ''text/csv'', ac_metadata = [], ac_conditional = True, ac_fails = (\<lambda>_. False), ac_race = None\<rparr>"

theorem seal_round_trip_witness:
  "\<exists>m db'. Seal ev_env ev_db (ev_uuid CHR ''d'') (ev_uuid CHR ''a'') ev_refs = Inr db' \<and> closed_manifest ev_env ev_db ev_refs m
     \<and> Reconstruct (ev_env\<lparr>ee_archive := Some (fst (archive_step (ee_sha ev_env) id ev_call ev_bucket))\<rparr>) True db' (ev_uuid CHR ''d'')
       = Inr \<lparr>sl_Manifest = json_text (manifest_json m), sl_SHA256 = ev_digest\<rparr>"
proof -
  let ?env = "ev_env\<lparr>ee_archive := Some (fst (archive_step (ee_sha ev_env) id ev_call ev_bucket))\<rparr>"
  obtain db' where s: "Seal ev_env ev_db (ev_uuid CHR ''d'') (ev_uuid CHR ''a'') ev_refs = Inr db'" by (rule ev_sealed)
  have "\<exists>m bytes. closed_manifest ev_env ev_db ev_refs m \<and> bytes = json_text (manifest_json m) \<and> Option.bind (json_parse bytes) decode_manifest = Some m
    \<and> Reconstruct ?env True db' (ev_uuid CHR ''d'') = Inr \<lparr>sl_Manifest = bytes, sl_SHA256 = ee_sha ev_env bytes\<rparr>"
    by (rule seal_round_trip [OF s ev_keys ev_texts ev_descriptions, where calls = "[ev_call]" and redact = id and b = ev_bucket and later = "[]"])
      (simp_all add: ev_env_def)
  then show ?thesis using s by (auto simp: ev_env_def)
qed

theorem altered_evidence_refused_witness:
  "\<exists>db'. Seal ev_env ev_db (ev_uuid CHR ''d'') (ev_uuid CHR ''a'') ev_refs = Inr db'
     \<and> Reconstruct (ev_env\<lparr>ee_archive := Some Map.empty\<rparr>) True db' (ev_uuid CHR ''d'') = Inl RIntegrity"
proof -
  let ?env = "ev_env\<lparr>ee_archive := Some Map.empty\<rparr>"
  obtain db' where s: "Seal ev_env ev_db (ev_uuid CHR ''d'') (ev_uuid CHR ''a'') ev_refs = Inr db'" by (rule ev_sealed)
  have "ee_cast ev_env (ev_uuid CHR ''d'') = canonicalUUID (ev_uuid CHR ''d'')" "ee_sha ?env = ee_sha ev_env" "\<not> ee_fault ?env (DbStmt 0)"
    by (simp_all add: ev_env_def)
  from altered_evidence_refused [OF s ev_keys ev_texts ev_descriptions this] obtain m where closed: "closed_manifest ev_env ev_db ev_refs m"
    and refused: "\<forall>raw \<in> set (mf_RawObjects m). (\<forall>b body. ee_archive ?env = Some b \<longrightarrow> object_body b (rr_Key raw) = Some body \<longrightarrow> ee_sha ev_env body \<noteq> rr_SHA256 raw)
         \<longrightarrow> Reconstruct ?env True db' (ev_uuid CHR ''d'') = Inl RIntegrity"
    by blast
  have "ev_raw \<in> set (mf_RawObjects m)" by (rule ev_lists(1) [OF closed])
  then have "Reconstruct ?env True db' (ev_uuid CHR ''d'') = Inl RIntegrity"
    using bspec [OF refused, of ev_raw] by (simp add: ev_env_def object_body_def)
  then show ?thesis using s by blast
qed

definition ev_step_json :: json where
  "ev_step_json = JObj [(''id'', JStr (ev_uuid CHR ''6'')), (''pair'', JStr ''USD/EUR''), (''direction'', JStr ''inverse''),
     (''observation_time'', JStr ''1970-01-01T00:00:00Z''), (''rate'', JStr ''0.700000000000000000''), (''system_known_at'', JStr ''1970-01-01T00:00:01Z''),
     (''knowledge_time_basis'', JStr ''first_observed_by_system'')]"

definition ev_entry :: metadata where
  "ev_entry = [(''id'', JStr (ev_uuid CHR ''5'')), (''observation_time'', JStr ''1970-01-01T00:00:00Z''), (''price'', JStr ''3.000000000000000000''),
     (''price_quote_currency'', JStr ''EUR''), (''source_known_at'', JNull), (''system_known_at'', JStr ''1970-01-01T00:00:01Z''),
     (''knowledge_time_basis'', JStr ''first_observed_by_system''), (''usd_price'', JStr ''4.285714285714285714''), (''fx_path'', JArr [ev_step_json])]"

lemmas ev_scan = scan_nat_def scan_base_def digit36_def is_digit_def scan_float_def split_sign_def scan_exponent_def bits_per_digit_def
  signed_power_def Rat_SetString_def Let_def

lemma ev_numbers: "Rat_SetString ''3.000000000000000000'' = Some 3" "Rat_SetString ''0.700000000000000000'' = Some (7 / 10)"
    "Rat_SetString ''4.285714285714285714'' = Some (4285714285714285714 / 1000000000000000000)"
  by (simp_all add: ev_scan)

lemma ev_rounded: "round18 (30 / 7) = 4285714285714285714 / 1000000000000000000"
proof -
  have "gcd 30 (7 :: int) = 1" by (simp add: gcd_red_int [of 30] gcd_red_int [of 7] gcd_red_int [of 2])
  then have "quotient_of (Fract 30 7) = (30, 7)" by (simp add: quotient_of_Fract Rat.normalize_def Let_def)
  moreover have "Fract 30 7 = (30 / 7 :: rat)" by (simp add: Fract_of_int_quotient)
  ultimately have "quotient_of (30 / 7) = (30, 7)" by simp
  then show ?thesis by (simp add: round18_def scaled_quotient_def quo_big_def scale18_def)
qed

definition ev_step :: metadata where
  "ev_step = (case ev_step_json of JObj ms \<Rightarrow> ms | _ \<Rightarrow> [])"

lemma ev_texts_of_entry:
  "metricString ev_entry ''price'' = ''3.000000000000000000''" "metricString ev_entry ''usd_price'' = ''4.285714285714285714''"
  "ToUpper (metricString ev_entry ''price_quote_currency'') = ''EUR''" "metricFXStep ev_step = Some (''EUR'', ''USD'')"
  "metricString ev_step ''rate'' = ''0.700000000000000000''" "metricString ev_step ''direction'' = ''inverse''"
  "metricFXPath ev_entry = Some [ev_step]" "metricObservationDay ev_entry = Some ''1970-01-01''"
  by code_simp+

lemma ev_converts: "validateMetricUSDConversion ev_entry [ev_step]"
proof -
  have "Rat_SetString (FloatString18 (3 / (7 / 10))) = Some (round18 (30 / 7))"
    by (simp add: FloatString18_def Rat_SetString_print18 round18_def)
  then show ?thesis
    by (simp add: validateMetricUSDConversion_def ev_texts_of_entry positive_rat_def ev_numbers Let_def ev_rounded)
qed

lemma ev_verified:
  "\<exists>st. res_bind (verifyMetricPriceRevision ev_env ev_db (ev_uuid CHR ''8'') ev_entry sealing_start) (\<lambda>(raw, st). addRawDependency ev_env raw st) = Inr st
     \<and> (\<exists>st'. add_fx_dependency ev_env ev_db st ev_step = Inr st')"
proof -
  let ?r = "res_bind (verifyMetricPriceRevision ev_env ev_db (ev_uuid CHR ''8'') ev_entry sealing_start) (\<lambda>(raw, st). addRawDependency ev_env raw st)"
  have "\<not> isl (res_bind ?r (\<lambda>st. add_fx_dependency ev_env ev_db st ev_step))" by code_simp
  then obtain st' where "res_bind ?r (\<lambda>st. add_fx_dependency ev_env ev_db st ev_step) = Inr st'" by (metis isl_def obj_sumE)
  then show ?thesis unfolding res_bind_eq_Inr [of ?r] by blast
qed

lemma ev_entry_ok: "\<exists>h st. metric_revision ev_env ev_db False (ev_uuid CHR ''8'') [] ([], sealing_start) ev_entry = Inr (h, st)"
  using ev_verified ev_converts by (auto simp: metric_revision_def res_simps ev_texts_of_entry)

theorem metric_conversion_exact_witness:
  "\<exists>h st usd. metric_revision ev_env ev_db False (ev_uuid CHR ''8'') [] ([], sealing_start) ev_entry = Inr (h, st)
     \<and> Rat_SetString (metricString ev_entry ''usd_price'') = Some usd \<and> usd = round18 (3 / (7 / 10))"
proof -
  obtain h st where r: "metric_revision ev_env ev_db False (ev_uuid CHR ''8'') [] ([], sealing_start) ev_entry = Inr (h, st)"
    using ev_entry_ok by blast
  have up: "fx_upper ev_db" by code_simp
  have one: "ed_prices ev_db = [ev_price]" "ed_fx ev_db = [ev_rate]" by (simp_all add: ev_db_def)
  have facts: "Rat_SetString (ep_price ev_price) = Some 3" "Rat_SetString (ef_rate ev_rate) = Some (7 / 10)"
    by (simp_all add: ev_price_def ev_rate_def ev_numbers)
  have codes: "ToUpper (TrimSpace (ep_quote ev_price)) = ''EUR''" "TrimSpace (ef_base ev_rate) = ''USD''" "TrimSpace (ef_quote ev_rate) = ''EUR''"
    by code_simp+
  from metric_conversion_exact [OF r up] obtain usd rate where
    u: "Rat_SetString (metricString ev_entry ''usd_price'') = Some usd" "usd = round18 (3 / rate)" "Some (7 / 10) = Some rate"
    unfolding one by (auto simp: facts codes simp del: option.inject)
  then show ?thesis using r unfolding option.inject by blast
qed

subsection \<open>Through the journal\<close>

definition ev_request :: CreateRequest where
  "ev_request = \<lparr>cr_AccountID = ev_uuid CHR ''a'', cr_Thesis = ''t'', cr_Alternatives = [], cr_EvidenceReferences = ev_refs,
     cr_InvalidationConditions = [\<lparr>iv_Condition = ''c'', iv_Metric = [], iv_Threshold = []\<rparr>], cr_Horizon = \<lparr>hz_Start = 0, hz_End = 1000000\<rparr>,
     cr_RiskBudget = \<lparr>rb_Amount = ''0'', rb_Currency = ''TRY'', rb_Measure = ''m'', rb_Horizon = ''h''\<rparr>, cr_IntendedAction = ''hold'',
     cr_Tags = [], cr_Author = ''me'', cr_SourceMetadata = None\<rparr>"

definition ev_start :: "evidence_db journal_db" where
  "ev_start = jn_empty [ev_uuid CHR ''a''] ev_db"

definition ev_created :: "evidence_db journal_db \<times> (journal_error + Decision)" where
  "ev_created = Create_decision True canonicalUUID canonicalUUID no_fault False 5 (ev_uuid CHR ''d'') ev_request ev_start"

lemma create_keeps_evidence: "jn_evidence (fst (Create_decision pool castUUID scanUUID fault drew now newID request db)) = jn_evidence db"
  by (auto simp: Create_decision_def Let_def nextval_def split: option.splits)

lemma Finalize_ok:
  assumes "parseUUID scanUUID rawID = Some i" and "castUUID i \<noteq> None" and "find (same_id castUUID i) (decisions db) = Some row"
    and "dc_Status (dr_decision row) = StatusDraft"
    and "seal (jn_evidence db) (dc_ID (dr_decision row)) (dc_AccountID (dr_decision row)) (dc_EvidenceReferences (dr_decision row)) = Inr evidence"
  shows "fst (Finalize True castUUID scanUUID seal no_fault now rawID db)
    = db\<lparr>jn_evidence := evidence, decisions := sql_update (same_id castUUID i) (finalized now) (decisions db)\<rparr>"
proof -
  have id: "(\<lambda>row. Some (dc_ID (dr_decision row)) = castUUID i) = same_id castUUID i"
    by (simp add: same_id_def fun_eq_iff)
  have "find (same_id castUUID i) (sql_update (same_id castUUID i) (finalized now) (decisions db)) = Some (finalized now row)"
    using assms(3) by (subst find_sql_update) (simp_all add: same_id_def finalized_def)
  then show ?thesis
    using assms by (auto simp: Finalize_def getDecision_def id Let_def)
qed

definition ev_finalized :: "evidence_db journal_db" where
  "ev_finalized = fst (Finalize True canonicalUUID canonicalUUID (Seal ev_env) no_fault 7 (ev_uuid CHR ''d'') (fst ev_created))"

lemma ev_created_row:
  obtains row where "decisions (fst ev_created) = [row]" and "dc_ID (dr_decision row) = ev_uuid CHR ''d''" and "dc_AccountID (dr_decision row) = ev_uuid CHR ''a''"
    and "dc_EvidenceReferences (dr_decision row) = ev_refs" and "dc_Status (dr_decision row) = StatusDraft"
proof -
  have "map (\<lambda>row. let d = dr_decision row in (dc_ID d, dc_AccountID d, dc_EvidenceReferences d, dc_Status d)) (decisions (fst ev_created))
    = [(ev_uuid CHR ''d'', ev_uuid CHR ''a'', ev_refs, StatusDraft)]"
    by code_simp
  then show ?thesis using that by (auto simp: Let_def)
qed

lemma ev_steps: "evidence_step ev_start (fst ev_created)" "evidence_step (fst ev_created) ev_finalized"
  unfolding ev_created_def ev_finalized_def
  using ev_ids by (auto simp: ev_start_def jn_empty_def ev_env_def server_cast_def intro: evidence_step.create evidence_step.finalize)

theorem sealed_iff_finalized_witness:
  "\<exists>row. decisions ev_finalized = [row] \<and> dc_Status (dr_decision row) = StatusFinalized
     \<and> length (filter (\<lambda>v. dv_decision v = dc_ID (dr_decision row)) (ed_evidence (jn_evidence ev_finalized))) = 1"
proof -
  obtain row where row: "decisions (fst ev_created) = [row]" "dc_ID (dr_decision row) = ev_uuid CHR ''d''" "dc_AccountID (dr_decision row) = ev_uuid CHR ''a''"
    "dc_EvidenceReferences (dr_decision row) = ev_refs" "dc_Status (dr_decision row) = StatusDraft"
    by (rule ev_created_row)
  obtain evidence where "Seal ev_env ev_db (ev_uuid CHR ''d'') (ev_uuid CHR ''a'') ev_refs = Inr evidence" by (rule ev_sealed)
  moreover have "jn_evidence (fst ev_created) = ev_db"
    unfolding ev_created_def create_keeps_evidence by (simp add: ev_start_def jn_empty_def)
  moreover have "parseUUID canonicalUUID (ev_uuid CHR ''d'') = Some (ev_uuid CHR ''d'')" by code_simp
  ultimately have fin: "ev_finalized = (fst ev_created)\<lparr>jn_evidence := evidence,
      decisions := sql_update (same_id canonicalUUID (ev_uuid CHR ''d'')) (finalized 7) (decisions (fst ev_created))\<rparr>"
    unfolding ev_finalized_def using row ev_ids by (intro Finalize_ok [where row = row]) (simp_all add: same_id_def)
  have final: "decisions ev_finalized = [finalized 7 row]"
    using row(1,2) ev_ids unfolding fin by (simp add: sql_update_def same_id_def)
  have "evidence_step\<^sup>*\<^sup>* (jn_empty [ev_uuid CHR ''a''] ev_db) ev_finalized"
    using converse_rtranclp_into_rtranclp [of evidence_step, OF ev_steps(1) r_into_rtranclp [of evidence_step, OF ev_steps(2)]]
    by (simp only: ev_start_def)
  moreover have "ed_evidence ev_db = []" by (simp add: ev_db_def)
  ultimately have "\<forall>row \<in> set (decisions ev_finalized). length (filter (\<lambda>v. dv_decision v = dc_ID (dr_decision row)) (ed_evidence (jn_evidence ev_finalized)))
      = (if dc_Status (dr_decision row) = StatusFinalized then 1 else 0)"
    by (rule sealed_iff_finalized [THEN conjunct1]) (rule rtranclp.rtrancl_refl)
  then show ?thesis using final by (simp add: finalized_def)
qed

end
