(* ===== verification/Spec2Isabelle.thy ===== *)
theory Spec2Isabelle
  imports Jobs_Properties Quality_Service Schedules_Properties Reconciliation_Properties
    Imports_Properties Journal_Properties Import_Examples Evidence_Examples
begin

text \<open>
  AtlasRisk keeps the positions, prices and decisions of an investor in PostgreSQL and computes
  risk figures from them. Its Go code is a set of services over the database, a collector that
  fetches market data on a schedule, a durable queue of risk jobs that a Python engine works off,
  and HTTP handlers around the services. This development models the services that carry the
  program's own logic and proves what makes them correct.

  How code becomes definitions. A table is a list of rows (a \<open>record\<close> with the columns), a
  service method one definition that takes the tables and returns them with an error or a result;
  a method that fails returns \<open>Inl\<close> of an error of the package's own datatype. What the
  method cannot determine is an argument: the database clock (\<open>now\<close>), generated identifiers
  and tokens (\<open>newID\<close>), rows locked by other transactions (\<open>locked\<close>), the database
  calls that fail (\<open>fault\<close>, a predicate on the begin, the numbered statements and the
  commit), the driver's and the server's reading of identifiers (\<open>scanUUID\<close>,
  \<open>castUUID\<close>), hashes, the time zone database and other code that is not in the repository.
  A transaction that does not commit leaves the tables alone. Methods run one after another; where
  the order of calls matters, a state is reachable through an \<open>inductive\<close> step relation whose
  steps are calls with arbitrary arguments, failures included. Numbers keep their width where it
  can be observed: instants are unbounded nanoseconds, durations and counters wrap at 64 bits,
  \<open>big.Rat\<close> is \<open>rat\<close>, and a NUMERIC column is the decimal text the driver exchanges.

  The library below the services.
  \<^item> \<open>Prelude\<close>: byte strings, results, 64-bit integers, transactions, stable sorting, and
    the lemmas on lists the components share.
  \<^item> \<open>Decimal\<close>: decimals of eighteen digits. The locale \<open>decimal_codec\<close> is the contract of
    the three \<open>formatDecimal\<close>/\<open>parseDecimal\<close> pairs in the repository; valuation,
    reconciliation and journal each interpret it.
  \<^item> \<open>GoTime\<close>, \<open>GoDuration\<close>, \<open>Json\<close>, \<open>Csv\<close>, \<open>Postgres\<close>: the parts of
    \<open>time\<close>, \<open>encoding/json\<close>, \<open>encoding/csv\<close> and of the driver that the code uses.
    \<open>Json_Text\<close> writes JSON as \<open>json.Marshal\<close> does and shows that \<open>Json\<close> reads it back;
    \<open>Rat_Text\<close> is \<open>big.Rat.SetString\<close> in full.
  \<^item> \<open>History\<close>: the locale \<open>history\<close>, what a store keeps over any sequence of calls;
    the journal, the portfolio service, the import service and the journal together with the
    evidence service interpret it.
  \<^item> \<open>Lease\<close>: the locale \<open>lease_table\<close>, the contract of work that is leased to one holder
    at a time; the job queue and the schedule store interpret it.

  The components.
  \<^item> \<open>Canonical_Json\<close> and \<open>Jobs\<close> model \<open>internal/jobs/queue.go\<close>: the canonical
    encoding and every method of \<open>Queue\<close>. \<open>Jobs_Safety\<close> holds the step relation and the
    invariant of the queue, \<open>Jobs_Properties\<close> the theorems: attempts are accounted for,
    finished jobs never change, a job is settled once per claim, stale workers (expired, replaced or
    recovered) have no effect, claiming makes progress, recovery settles exactly the expired jobs
    with their attempts and runs, enqueueing is idempotent.
  \<^item> \<open>Quality\<close> models \<open>internal/quality/evaluate.go\<close> and \<open>Quality_Service\<close>
    \<open>internal/application/quality/service.go\<close>. The walk over the expected days is exact in
    every location that interprets \<open>regular_location\<close>, and does not return, or drifts, in two
    concrete time zones outside it (\<open>Quality_Properties\<close>).
  \<^item> \<open>Collector_Config\<close> models \<open>internal/collector/config.go\<close> and the catalog of
    \<open>catalog.go\<close>, \<open>Schedules\<close> the store and the worker of \<open>store.go\<close> and
    \<open>worker.go\<close>; \<open>Schedules_Safety\<close> and \<open>Schedules_Properties\<close> follow the plan of the
    job queue.
  \<^item> \<open>Valuation\<close> models \<open>internal/application/valuation/service.go\<close>: the choice of prices
    and of conversion paths, the valued lines, the totals, storing and reading a run. A conversion
    path refines the specification of a chain of loaded quotes (\<open>Valuation_Properties\<close>).
  \<^item> \<open>Reconciliation\<close> models \<open>internal/application/reconciliation/service.go\<close> over the
    tables of the valuation; \<open>Reconciliation_Properties\<close> shows that the published figures
    justify the published state.
  \<^item> \<open>Imports\<close> models \<open>internal/imports/parser.go\<close> over \<open>Csv\<close>;
    \<open>Imports_Properties\<close> shows what an accepted file guarantees, that one instant written in
    two ways is accepted twice, and that a short timestamp makes the parser panic.
  \<^item> \<open>Journal\<close> models \<open>internal/application/journal/service.go\<close>; \<open>Journal_Properties\<close>
    shows that timelines are append-only, that a decision is finalized once, and that amounts are
    stored exactly.
  \<^item> \<open>Portfolio_Store\<close> models the queries of
    \<open>internal/platform/database/portfolio.sql.go\<close> with the constraints and triggers of the
    migrations, \<open>Portfolio\<close> the service \<open>internal/application/portfolio/service.go\<close> over
    them. \<open>Portfolio_Properties\<close> shows that the tables stay consistent and that a snapshot never
    changes, \<open>Portfolio_Snapshots\<close> that the checks before a snapshot is written leave no
    constraint to be violated and that its decimals read back exactly.
  \<^item> \<open>Archive\<close> models \<open>internal/archive/store.go\<close> over a bucket; its locale
    \<open>content_store\<close> is what the services rely on. \<open>Archive_Properties\<close> shows that an
    archived payload is read back whatever happens afterwards and that credentials are not written.
  \<^item> \<open>Import_Service\<close> models \<open>internal/imports/service.go\<close>, which joins the parser, the
    archive, the portfolio tables and the prices of the valuation. \<open>Import_Safety\<close> holds the
    invariant over the calls of the import service and the portfolio service together,
    \<open>Import_Service_Properties\<close> the theorems on results, tokens and rows, and
    \<open>Import_Examples\<close> a concrete run they are applied to.
  \<^item> \<open>Evidence_Store\<close> and \<open>Evidence_Service\<close> model
    \<open>internal/application/evidence/service.go\<close>: sealing the evidence of a decision, with the
    checks of the metric inputs of its risk run, and giving it back. \<open>Evidence_Safety\<close> holds the
    invariant of a call, \<open>Evidence_Properties\<close> the theorems: a sealed manifest is closed
    (every source object its references, its valuation and its metric inputs rest on is listed), it is
    given back byte for byte, altered evidence is refused, accepted conversions are exact, and, with
    the service in the place of the journal's arguments, a decision has evidence exactly when it is
    finalized. \<open>Evidence_Examples\<close> is a decision they are applied to.

  Termination and fuel. Every loop is structural or comes with a measure (the CSV reader and the
  import loop shrink the unread input), except two: the walk over the expected days is a
  \<open>partial_function\<close> whose \<open>None\<close> is a call that never returns, with theorems in both
  directions, and the JSON parser has fuel of twice the length of the text plus two, where every
  two units read at least one byte.

  Not modelled: \<open>RegisterCatalog\<close>, the collector's runner and the ticker around
  \<open>RunOnce\<close>, the timeline, scenario and risk services, the source adapters, the
  ingestion pipeline, the set-up of the S3 client and the redaction of URLs in archive metadata, the
  HTTP handlers and the \<open>main\<close> packages, and the other code generated by sqlc. They are either network and process
  I/O or services that a later extension can add in the same way; where a modelled service calls
  one of them (the handler of a collector run) it is an argument. Concurrent transactions are modelled by the rows they lock and by arbitrary interleaving
  of whole calls, not by interleaving the statements of two calls.
\<close>

end
